(* ===== verification/Prelude.thy ===== *)
theory Prelude
  imports Complex_Main
begin

text \<open>
  What every component of the model shares: the collections of rewrite rules and
  introduction rules that carry the component proofs, the result type of fallible
  operations, and generic facts about lists, options and maps.

  Conventions used throughout the development.
  \<^item> A fallible operation returns \<open>'e + 'a\<close>: \<open>Inl\<close> is the exception, \<open>Inr\<close> the value.
  \<^item> A SQL column that may be NULL is an \<open>option\<close>; a SQL \<open>UPDATE\<close> over a table (a list
    of rows) is \<open>update_where\<close>, its \<open>RETURNING\<close> clause \<open>filter\<close> of the same guard.
  \<^item> Instants are integers (microseconds); the transaction timestamp \<open>now()\<close> is an argument.
\<close>

named_theorems table_simps "rewrite rules for updates of tables of rows"
named_theorems wf_intros "introduction rules for well-formedness of rows and tables"

subsection \<open>Fallible results\<close>

definition is_ok :: "'e + 'a \<Rightarrow> bool" where
  "is_ok r = (case r of Inl _ \<Rightarrow> False | Inr _ \<Rightarrow> True)"

lemma is_ok_simps [simp]: "\<not> is_ok (Inl e)" "is_ok (Inr a)"
  by (simp_all add: is_ok_def)

definition bind_ok :: "'e + 'a \<Rightarrow> ('a \<Rightarrow> 'e + 'b) \<Rightarrow> 'e + 'b" where
  "bind_ok r f = (case r of Inl e \<Rightarrow> Inl e | Inr a \<Rightarrow> f a)"

lemma bind_ok_simps [simp]: "bind_ok (Inl e) f = Inl e" "bind_ok (Inr a) f = f a"
  by (simp_all add: bind_ok_def)

lemma bind_ok_Inr [elim!]:
  assumes "bind_ok r f = Inr b"
  obtains a where "r = Inr a" and "f a = Inr b"
  using assms by (cases r) auto

subsection \<open>SQL helpers\<close>

text \<open>\<open>COALESCE(a, b)\<close> on a nullable column.\<close>

definition coalesce :: "'a option \<Rightarrow> 'a option \<Rightarrow> 'a option" where
  "coalesce a b = (case a of None \<Rightarrow> b | Some x \<Rightarrow> Some x)"

lemma coalesce_simps [simp]:
  "coalesce None b = b" "coalesce (Some x) b = Some x" "coalesce a None = a"
  by (simp_all add: coalesce_def split: option.split)

lemma coalesce_eq_None [simp]: "coalesce a b = None \<longleftrightarrow> a = None \<and> b = None"
  by (cases a) simp_all

text \<open>\<open>UPDATE t SET f WHERE P\<close>: every row that satisfies the guard is rewritten.\<close>

definition update_where :: "('r \<Rightarrow> bool) \<Rightarrow> ('r \<Rightarrow> 'r) \<Rightarrow> 'r list \<Rightarrow> 'r list" where
  "update_where P f rows = map (\<lambda>r. if P r then f r else r) rows"

lemma update_where_simps [simp]:
  "update_where P f [] = []"
  "update_where P f (r # rs) = (if P r then f r else r) # update_where P f rs"
  "length (update_where P f rows) = length rows"
  by (simp_all add: update_where_def)

lemma set_update_where [table_simps]:
  "set (update_where P f rows) = (\<lambda>r. if P r then f r else r) ` set rows"
  by (simp add: update_where_def)

lemma update_where_id: "(\<And>r. r \<in> set rows \<Longrightarrow> \<not> P r) \<Longrightarrow> update_where P f rows = rows"
  by (induction rows) auto

lemma map_update_where:
  assumes "\<And>r. P r \<Longrightarrow> g (f r) = g r"
  shows "map g (update_where P f rows) = map g rows"
  using assms by (induction rows) auto

lemma update_where_update_where:
  assumes "\<And>r. P r \<Longrightarrow> \<not> P (f r)"
  shows "update_where P g (update_where P f rows) = update_where P f rows"
  using assms by (induction rows) auto

text \<open>Reading the row with a given key: \<open>SELECT ... WHERE key = k\<close> on a unique column.\<close>

definition find_by :: "('r \<Rightarrow> 'k) \<Rightarrow> 'k \<Rightarrow> 'r list \<Rightarrow> 'r option" where
  "find_by key k rows = List.find (\<lambda>r. key r = k) rows"

lemma find_by_simps [simp]:
  "find_by key k [] = None"
  "find_by key k (r # rs) = (if key r = k then Some r else find_by key k rs)"
  by (simp_all add: find_by_def)

lemma find_by_SomeD: "find_by key k rows = Some r \<Longrightarrow> r \<in> set rows \<and> key r = k"
  by (induction rows) (auto split: if_splits)

lemma find_by_None: "find_by key k rows = None \<longleftrightarrow> k \<notin> key ` set rows"
  by (induction rows) auto

lemma find_by_eq_Some:
  assumes "distinct (map key rows)"
  shows "find_by key k rows = Some r \<longleftrightarrow> r \<in> set rows \<and> key r = k"
  using assms by (induction rows) (auto simp: image_iff)

lemma find_by_update_where [table_simps]:
  assumes "\<And>r. P r \<Longrightarrow> key (f r) = key r"
  shows "find_by key k (update_where P f rows)
    = map_option (\<lambda>r. if P r then f r else r) (find_by key k rows)"
  using assms by (induction rows) auto

lemma find_by_append:
  "find_by key k (xs @ ys) = (case find_by key k xs of Some r \<Rightarrow> Some r | None \<Rightarrow> find_by key k ys)"
  by (induction xs) auto

lemma find_by_map [table_simps]:
  assumes "\<And>r. key (f r) = key r"
  shows "find_by key k (map f xs) = map_option f (find_by key k xs)"
  using assms by (induction xs) auto

end
