(* ===== verification/Uuids.thy ===== *)
theory Uuids
  imports Prelude "HOL-Library.Word"
begin

text \<open>
  Job identifiers. The compute service names jobs by UUIDs: \<open>as_uuid\<close>
  (api/core/repository.py) parses the public id with \<open>uuid.UUID(value, version=4)\<close> of
  Python's standard library, \<open>str\<close> of a UUID is what \<open>enqueue_simulation\<close> writes into a
  queue payload, \<open>JOB_ID_RE\<close> (api/core/lifecycle.py) is the pattern SQL tests a payload
  with before casting it, and \<open>notify_channel\<close> (api/core/db.py) names the PostgreSQL
  channel of a job. A UUID is its 128-bit integer. Strings are ASCII.
\<close>

type_synonym uuid = "128 word"

subsection \<open>Hexadecimal digits\<close>

definition hex_char :: "int \<Rightarrow> char" where
  "hex_char d = (if d < 10 then char_of (48 + d) else char_of (87 + d))"

definition hex_val :: "char \<Rightarrow> int option" where
  "hex_val c =
     (let n = (of_char c :: int) in
      if 48 \<le> n \<and> n \<le> 57 then Some (n - 48)
      else if 97 \<le> n \<and> n \<le> 102 then Some (n - 87)
      else if 65 \<le> n \<and> n \<le> 70 then Some (n - 55)
      else None)"

text \<open>The digits of \<open>v\<close> in base 16, most significant first, in \<open>n\<close> places.\<close>

fun hex_places :: "nat \<Rightarrow> int \<Rightarrow> string" where
  "hex_places 0 v = []"
| "hex_places (Suc n) v = hex_places n (v div 16) @ [hex_char (v mod 16)]"

text \<open>
  The digit loop of \<open>int(text, 16)\<close>: hexadecimal digits, single underscores between
  digits (Python's literal syntax), nothing else. The flag says the last character was a
  digit.
\<close>

fun hex_body :: "bool \<Rightarrow> int \<Rightarrow> string \<Rightarrow> int option" where
  "hex_body after_digit acc [] = (if after_digit then Some acc else None)"
| "hex_body after_digit acc (c # cs) =
     (if c = CHR ''_'' then (if after_digit then hex_body False acc cs else None)
      else case hex_val c of None \<Rightarrow> None | Some d \<Rightarrow> hex_body True (16 * acc + d) cs)"

definition is_space :: "char \<Rightarrow> bool" where
  "is_space c = (of_char c \<in> {9, 10, 11, 12, 13, 28, 29, 30, 31, 32 :: int})"

definition strip_by :: "(char \<Rightarrow> bool) \<Rightarrow> string \<Rightarrow> string" where
  "strip_by p s = rev (dropWhile p (rev (dropWhile p s)))"

text \<open>\<open>int(text, 16)\<close>: surrounding white space, a sign and a \<open>0x\<close> prefix are accepted.\<close>

definition hex_prefix :: "string \<Rightarrow> string \<times> bool" where
  "hex_prefix s =
     (if take 1 s = ''0'' \<and> take 1 (drop 1 s) \<in> {''x'', ''X''}
      then (drop 2 s, take 1 (drop 2 s) = ''_'') else (s, False))"

definition int_base16 :: "string \<Rightarrow> int option" where
  "int_base16 text =
     (let t = strip_by is_space text;
          neg = (take 1 t = ''-'');
          u = (if take 1 t \<in> {''-'', ''+''} then drop 1 t else t);
          (digits, under) = hex_prefix u;
          body = (if under then drop 1 digits else digits)
      in map_option (\<lambda>v. if neg then - v else v) (hex_body False 0 body))"

subsection \<open>\<open>uuid.UUID(value, version=4)\<close>\<close>

text \<open>\<open>str.replace(pat, '')\<close>: leftmost occurrences, not overlapping.\<close>

fun remove_all :: "string \<Rightarrow> string \<Rightarrow> string" where
  "remove_all pat [] = []"
| "remove_all pat (c # cs) =
     (if pat \<noteq> [] \<and> take (length pat) (c # cs) = pat
      then remove_all pat (drop (length pat - 1) cs)
      else c # remove_all pat cs)"

definition uuid_hex_text :: "string \<Rightarrow> string" where
  "uuid_hex_text s =
     remove_all ''-'' (strip_by (\<lambda>c. c \<in> set ''{}'') (remove_all ''uuid:'' (remove_all ''urn:'' s)))"

unbundle bit_operations_syntax

text \<open>The variant and version bits the constructor overwrites when it is given a version.\<close>

definition variant_mask :: uuid where
  "variant_mask = push_bit 48 0xC000"

definition version_mask :: uuid where
  "version_mask = push_bit 64 0xF000"

definition set_version4 :: "uuid \<Rightarrow> uuid" where
  "set_version4 u =
     ((((u AND NOT variant_mask) OR push_bit 48 0x8000) AND NOT version_mask) OR push_bit 76 4)"

definition as_uuid :: "string \<Rightarrow> uuid option" where
  "as_uuid value =
     (let hex = uuid_hex_text value in
      if length hex \<noteq> 32 then None
      else case int_base16 hex of
        None \<Rightarrow> None
      | Some i \<Rightarrow> if i < 0 \<or> 2 ^ 128 \<le> i then None else Some (set_version4 (word_of_int i)))"

subsection \<open>\<open>str(uuid)\<close>, \<open>uuid.hex\<close> and the channel name\<close>

definition uuid_hex :: "uuid \<Rightarrow> string" where
  "uuid_hex u = hex_places 32 (uint u)"

definition uuid_str :: "uuid \<Rightarrow> string" where
  "uuid_str u =
     (let h = uuid_hex u in
      take 8 h @ ''-'' @ take 4 (drop 8 h) @ ''-'' @ take 4 (drop 12 h) @ ''-'' @
      take 4 (drop 16 h) @ ''-'' @ drop 20 h)"

definition notify_channel :: "uuid \<Rightarrow> string" where
  "notify_channel u = ''tsdhn_job_'' @ uuid_hex u"

subsection \<open>\<open>JOB_ID_RE\<close>, matched with \<open>~*\<close>\<close>

text \<open>
  The pattern is five groups of hexadecimal digits of lengths 8, 4, 4, 4 and 12 joined by
  hyphens and anchored at both ends; \<open>~*\<close> ignores case.
\<close>

fun match_groups :: "nat list \<Rightarrow> string \<Rightarrow> bool" where
  "match_groups [] s = False"
| "match_groups [n] s = (length s = n \<and> list_all (\<lambda>c. hex_val c \<noteq> None) s)"
| "match_groups (n # ns) s =
     (length (take n s) = n \<and> list_all (\<lambda>c. hex_val c \<noteq> None) (take n s) \<and>
      take 1 (drop n s) = ''-'' \<and> match_groups ns (drop (Suc n) s))"

definition job_id_re :: "string \<Rightarrow> bool" where
  "job_id_re s = match_groups [8, 4, 4, 4, 12] s"

subsection \<open>Digits parse back\<close>

definition is_lower_hex :: "char \<Rightarrow> bool" where
  "is_lower_hex c = (\<exists>d \<in> set [0..15]. c = hex_char d)"

lemma hex_val_hex_char: "0 \<le> d \<Longrightarrow> d < 16 \<Longrightarrow> hex_val (hex_char d) = Some d"
proof -
  assume "0 \<le> d" and "d < 16"
  then have "d \<in> set [0..15]" by simp
  moreover have "\<forall>d \<in> set [0..15]. hex_val (hex_char d) = Some d" by code_simp
  ultimately show ?thesis by blast
qed

lemma is_lower_hex_char: "0 \<le> d \<Longrightarrow> d < 16 \<Longrightarrow> is_lower_hex (hex_char d)"
  unfolding is_lower_hex_def by (rule bexI [of _ d]) auto

lemma is_lower_hexD:
  assumes "is_lower_hex c"
  shows "c \<notin> set ''-_{}urixX+:'' \<and> \<not> is_space c \<and> hex_val c \<noteq> None"
proof -
  have "\<forall>d \<in> set [0..15]. hex_char d \<notin> set ''-_{}urixX+:'' \<and> \<not> is_space (hex_char d)
      \<and> hex_val (hex_char d) \<noteq> None"
    by code_simp
  with assms show ?thesis unfolding is_lower_hex_def by blast
qed

lemma length_hex_places [simp]: "length (hex_places n v) = n"
  by (induction n arbitrary: v) auto

lemma hex_places_lower: "list_all is_lower_hex (hex_places n v)"
  by (induction n arbitrary: v) (auto simp: is_lower_hex_char)

lemma hex_body_lower:
  assumes "list_all is_lower_hex xs" and "b \<or> xs \<noteq> []"
  shows "hex_body b acc xs = Some (foldl (\<lambda>a c. 16 * a + the (hex_val c)) acc xs)"
  using assms
proof (induction xs arbitrary: b acc)
  case Nil
  then show ?case by simp
next
  case (Cons c cs)
  then have "c \<noteq> CHR ''_''" and "hex_val c \<noteq> None"
    using is_lower_hexD [of c] by auto
  with Cons show ?case by auto
qed

lemma foldl_hex_places:
  "foldl (\<lambda>a c. 16 * a + the (hex_val c)) acc (hex_places n v) = acc * 16 ^ n + v mod 16 ^ n"
proof (induction n arbitrary: v)
  case 0
  then show ?case by simp
next
  case (Suc n)
  have "v mod (16 * 16 ^ n) = 16 * (v div 16 mod 16 ^ n) + v mod 16"
    by (rule zmod_zmult2_eq) simp
  then show ?case
    by (simp add: Suc.IH hex_val_hex_char)
qed

subsection \<open>The text transformations on a canonical string\<close>

lemma remove_all_absent: "pat \<noteq> [] \<Longrightarrow> hd pat \<notin> set s \<Longrightarrow> remove_all pat s = s"
proof (induction s)
  case (Cons c cs)
  then show ?case by (cases pat) auto
qed simp

lemma remove_all_char: "remove_all [a] s = filter (\<lambda>c. c \<noteq> a) s"
  by (induction s) auto

lemma strip_by_absent:
  assumes "\<forall>c \<in> set s. \<not> p c"
  shows "strip_by p s = s"
proof -
  have drop: "dropWhile p t = t" if "\<forall>c \<in> set t. \<not> p c" for t
    using that by (cases t) auto
  from assms show ?thesis by (simp add: strip_by_def drop)
qed

lemma uuid_hex_lower: "list_all is_lower_hex (uuid_hex u)"
  by (simp add: uuid_hex_def hex_places_lower)

lemma length_uuid_hex [simp]: "length (uuid_hex u) = 32"
  by (simp add: uuid_hex_def)

lemma split_groups:
  "take 8 h @ take 4 (drop 8 h) @ take 4 (drop 12 h) @ take 4 (drop 16 h) @ drop 20 h = h"
proof -
  have "take 4 (drop 16 h) @ drop 20 h = drop 16 h"
    using append_take_drop_id [of 4 "drop 16 h"] by simp
  moreover have "take 4 (drop 12 h) @ drop 16 h = drop 12 h"
    using append_take_drop_id [of 4 "drop 12 h"] by simp
  moreover have "take 4 (drop 8 h) @ drop 12 h = drop 8 h"
    using append_take_drop_id [of 4 "drop 8 h"] by simp
  ultimately show ?thesis by simp
qed

lemma filter_dash_uuid_str: "filter (\<lambda>c. c \<noteq> CHR ''-'') (uuid_str u) = uuid_hex u"
proof -
  let ?h = "uuid_hex u"
  have lower: "\<forall>c \<in> set ?h. is_lower_hex c"
    using uuid_hex_lower [of u] by (simp add: list_all_iff)
  have no_dash: "filter (\<lambda>c. c \<noteq> CHR ''-'') xs = xs" if "set xs \<subseteq> set ?h" for xs
    using that lower by (auto simp: filter_id_conv dest!: is_lower_hexD)
  have "filter (\<lambda>c. c \<noteq> CHR ''-'') (uuid_str u)
      = take 8 ?h @ take 4 (drop 8 ?h) @ take 4 (drop 12 ?h) @ take 4 (drop 16 ?h) @ drop 20 ?h"
    by (simp add: uuid_str_def Let_def no_dash set_take_subset set_drop_subset
        subset_trans [OF set_take_subset set_drop_subset])
  also have "\<dots> = ?h" by (rule split_groups)
  finally show ?thesis .
qed

lemma uuid_hex_text_str: "uuid_hex_text (uuid_str u) = uuid_hex u"
proof -
  let ?h = "uuid_hex u"
  have lower: "\<forall>c \<in> set ?h. is_lower_hex c"
    using uuid_hex_lower [of u] by (simp add: list_all_iff)
  have "set (uuid_str u) \<subseteq> insert (CHR ''-'') (set ?h)"
    by (auto simp: uuid_str_def Let_def dest: in_set_takeD in_set_dropD)
  then have absent: "CHR ''u'' \<notin> set (uuid_str u)"
      "\<forall>c \<in> set (uuid_str u). c \<notin> set ''{}''"
    using lower by (auto dest!: is_lower_hexD)
  show ?thesis
    using absent
    by (simp add: uuid_hex_text_def remove_all_absent strip_by_absent remove_all_char filter_dash_uuid_str)
qed

lemma int_base16_lower:
  assumes "list_all is_lower_hex xs" and "xs \<noteq> []"
  shows "int_base16 xs = Some (foldl (\<lambda>a c. 16 * a + the (hex_val c)) 0 xs)"
proof -
  have spaces: "strip_by is_space xs = xs"
    using assms(1) by (intro strip_by_absent) (auto simp: list_all_iff dest: is_lower_hexD)
  have sign: "take 1 xs \<notin> {''-'', ''+''}"
    using assms by (cases xs) (auto dest: is_lower_hexD)
  have "take 1 (drop 1 xs) \<notin> {''x'', ''X''}"
  proof (cases "drop 1 xs")
    case (Cons c cs)
    then have "c \<in> set xs" by (metis in_set_dropD list.set_intros(1))
    with assms(1) have "is_lower_hex c" by (simp add: list_all_iff)
    with Cons show ?thesis by (auto dest: is_lower_hexD)
  qed simp
  then have "hex_prefix xs = (xs, False)" by (simp add: hex_prefix_def)
  with spaces sign assms show ?thesis
    by (simp add: int_base16_def Let_def hex_body_lower)
qed

lemma int_base16_uuid_hex: "int_base16 (uuid_hex u) = Some (uint u)"
proof -
  have "uuid_hex u \<noteq> []" using length_uuid_hex [of u] by (metis list.size(3) zero_neq_numeral)
  then have "int_base16 (uuid_hex u) = Some (uint u mod 16 ^ 32)"
    using foldl_hex_places [of 0 32 "uint u"]
    by (simp add: int_base16_lower uuid_hex_lower) (simp add: uuid_hex_def)
  moreover have "uint u mod 16 ^ 32 = uint u"
    using uint_lt2p [of u] by (simp add: mod_pos_pos_trivial)
  ultimately show ?thesis by simp
qed

lemma as_uuid_uuid_str: "as_uuid (uuid_str u) = Some (set_version4 u)"
  using uint_lt2p [of u] by (simp add: as_uuid_def uuid_hex_text_str int_base16_uuid_hex)

lemma uuid_hex_inject: "uuid_hex u = uuid_hex v \<longleftrightarrow> u = v"
  by (metis int_base16_uuid_hex option.inject word_uint_eqI)

lemma uuid_str_inject: "uuid_str u = uuid_str v \<longleftrightarrow> u = v"
  using filter_dash_uuid_str [of u] filter_dash_uuid_str [of v] uuid_hex_inject [of u v] by auto

lemma match_groups_join:
  "length a = 8 \<Longrightarrow> length b = 4 \<Longrightarrow> length c = 4 \<Longrightarrow> length d = 4 \<Longrightarrow> length e = 12 \<Longrightarrow>
   list_all (\<lambda>c. hex_val c \<noteq> None) (a @ b @ c @ d @ e) \<Longrightarrow>
   match_groups [8, 4, 4, 4, 12] (a @ ''-'' @ b @ ''-'' @ c @ ''-'' @ d @ ''-'' @ e)"
  by simp

lemma job_id_re_uuid_str: "job_id_re (uuid_str u)"
proof -
  have "list_all (\<lambda>c. hex_val c \<noteq> None) (uuid_hex u)"
    using uuid_hex_lower [of u] by (auto simp: list_all_iff dest: is_lower_hexD)
  then show ?thesis unfolding job_id_re_def uuid_str_def Let_def
    by (intro match_groups_join) (simp_all add: split_groups)
qed

lemma set_version4_idem: "set_version4 (set_version4 u) = set_version4 u"
  by (rule bit_word_eqI) (auto simp: set_version4_def variant_mask_def version_mask_def bit_simps)

end
