(* ===== verification/JobRow.thy ===== *)
theory JobRow
  imports Uuids
begin

text \<open>
  The row of \<open>compute.jobs\<close> (api/migrations/0001_compute_jobs.sql), the job statuses and
  inputs (tsdhn/domain.py), the life-cycle constants (api/core/lifecycle.py), and the
  projection of a row into the public job status (\<open>status_from_row\<close>).
\<close>

subsection \<open>Statuses and inputs\<close>

datatype job_status = QUEUED | RUNNING | COMPLETED | FAILED

fun status_value :: "job_status \<Rightarrow> string" where
  "status_value QUEUED = ''queued''"
| "status_value RUNNING = ''running''"
| "status_value COMPLETED = ''completed''"
| "status_value FAILED = ''failed''"

text \<open>\<open>TERMINAL_STATUSES\<close>: a job that reached one of these is never overwritten.\<close>

definition TERMINAL_STATUSES :: "job_status list" where
  "TERMINAL_STATUSES = [COMPLETED, FAILED]"

abbreviation terminal :: "job_status \<Rightarrow> bool" where
  "terminal s \<equiv> s \<in> set TERMINAL_STATUSES"

lemma terminal_iff: "terminal s \<longleftrightarrow> s = COMPLETED \<or> s = FAILED"
  by (auto simp: TERMINAL_STATUSES_def)

text \<open>
  A JSON value as \<open>json.dumps\<close> writes it into a \<open>jsonb\<close> column. Numbers are exact
  (\<open>json\<close> prints the shortest decimal that reads back as the same float).
\<close>

datatype json = JNull | JBool bool | JNum real | JStr string
  | JArr "json list" | JObj "(string \<times> json) list"

record earthquake_input =
  Mw :: real
  depth_h :: real
  lat0 :: real
  lon0 :: real
  dia :: "string option"
  hhmm :: "string option"

text \<open>
  The two field validators of \<open>EarthquakeInput\<close>. Pydantic runs \<open>validate_time\<close> on a
  provided value; \<open>len(None)\<close> raises, which pydantic reports as an invalid input.
\<close>

definition convert_longitude :: "real \<Rightarrow> real" where
  "convert_longitude v = (if v > 0 then v - 360 else v)"

definition validate_time :: "string \<Rightarrow> string" where
  "validate_time v =
     (if length v = 0 \<or> length v < 4 then ''0000''
      else if CHR '':'' \<in> set v then filter (\<lambda>c. c \<noteq> CHR '':'') v
      else v)"

subsection \<open>The row\<close>

record stored_output =
  out_name :: string
  out_key :: string
  out_filename :: string
  out_content_type :: string

record job_row =
  job_id :: uuid
  simulation_id :: uuid
  status :: job_status
  input_params :: earthquake_input
  details :: "string option"
  cur_step :: "string option"
  step_index :: "int option"
  total_steps :: "int option"
  calculation :: "json option"
  travel_times :: "json option"
  outputs :: "stored_output list"
  result_bucket :: "string option"
  result_key :: "string option"
  error_text :: "string option"
  created_at :: int
  updated_at :: int
  started_at :: "int option"
  finished_at :: "int option"
  outputs_expired_at :: "int option"
  owner_attempt :: "int option"

text \<open>
  \<open>INSERT_JOB_SQL\<close>: the values the insert gives, the column defaults of the migration for
  the others (\<open>outputs\<close> is the empty array, the time stamps are \<open>now()\<close>).
\<close>

definition inserted_row :: "uuid \<Rightarrow> uuid \<Rightarrow> earthquake_input \<Rightarrow> int \<Rightarrow> job_row" where
  "inserted_row cid sid inp now =
     \<lparr> job_id = cid, simulation_id = sid, status = QUEUED, input_params = inp,
       details = Some ''Queued for simulation worker'', cur_step = None, step_index = None,
       total_steps = None, calculation = None, travel_times = None, outputs = [],
       result_bucket = None, result_key = None, error_text = None, created_at = now,
       updated_at = now, started_at = None, finished_at = None, outputs_expired_at = None,
       owner_attempt = None \<rparr>"

subsection \<open>The public status of a job\<close>

record job_view =
  v_status :: string
  v_details :: "string option"
  v_step :: "string option"
  v_step_index :: "int option"
  v_total_steps :: "int option"
  v_calculation :: "json option"
  v_travel_times :: "json option"
  v_error :: "string option"
  v_created_at :: int
  v_started_at :: "int option"
  v_finished_at :: "int option"
  v_outputs :: "string list"
  v_outputs_expired_at :: "int option"

definition status_from_row :: "job_row \<Rightarrow> job_view" where
  "status_from_row row =
     \<lparr> v_status = status_value (status row), v_details = details row, v_step = cur_step row,
       v_step_index = step_index row, v_total_steps = total_steps row,
       v_calculation = calculation row, v_travel_times = travel_times row,
       v_error = error_text row, v_created_at = created_at row,
       v_started_at = started_at row, v_finished_at = finished_at row,
       v_outputs = map out_name (outputs row),
       v_outputs_expired_at = outputs_expired_at row \<rparr>"

text \<open>
  \<open>_public_error\<close>: the exception class and the failed step, never the exception's message.
  \<open>if step\<close> is Python truth: an empty step name counts as none.
\<close>

definition public_error :: "string \<Rightarrow> string option \<Rightarrow> string" where
  "public_error exc_name failed_step =
     (case failed_step of
        Some (c # cs) \<Rightarrow>
          ''Simulation failed at step '' @ [CHR 0x27] @ (c # cs) @ [CHR 0x27] @ '' ('' @ exc_name @ '')''
      | _ \<Rightarrow> ''Simulation failed ('' @ exc_name @ '')'')"

definition FAILED_JOB_DETAILS :: string where
  "FAILED_JOB_DETAILS = ''Pipeline failed - check error logs''"

definition RECONCILED_JOB_DETAILS :: string where
  "RECONCILED_JOB_DETAILS = ''Failed - reconciled from the task queue''"

text \<open>\<open>format(RECONCILED_ERROR, x)\<close> of PostgreSQL: the one \<open>%s\<close> replaced by its argument.\<close>

definition reconciled_error :: "string \<Rightarrow> string" where
  "reconciled_error x =
     ''Simulation stopped without reporting a result; status reconciled from the task queue ('' @ x @ '')''"

subsection \<open>Well-formed rows\<close>

text \<open>
  What the statements of the repository keep true between the columns of a row:
  a finished job has a finish time and an unfinished one has none; only a failed job
  carries an error, and every failed job does; a completed job has an owner, a result
  location and no error; only a completed job lists or has lost output files; a running
  job has an owner and a start time, a queued job has neither; the public id carries the
  version bits that \<open>as_uuid\<close> sets, so that its printed form names the same row.
\<close>

definition row_wf :: "job_row \<Rightarrow> bool" where
  "row_wf r \<longleftrightarrow>
     (terminal (status r) \<longleftrightarrow> finished_at r \<noteq> None) \<and>
     (status r = FAILED \<longleftrightarrow> error_text r \<noteq> None) \<and>
     (status r = COMPLETED \<longrightarrow>
        owner_attempt r \<noteq> None \<and> started_at r \<noteq> None \<and>
        result_bucket r \<noteq> None \<and> result_key r \<noteq> None) \<and>
     (outputs r \<noteq> [] \<longrightarrow> status r = COMPLETED \<and> outputs_expired_at r = None) \<and>
     (outputs_expired_at r \<noteq> None \<longrightarrow> status r = COMPLETED) \<and>
     (status r = RUNNING \<longrightarrow> owner_attempt r \<noteq> None \<and> started_at r \<noteq> None) \<and>
     (status r = QUEUED \<longrightarrow> owner_attempt r = None \<and> started_at r = None) \<and>
     set_version4 (simulation_id r) = simulation_id r"

lemma row_wf_inserted [wf_intros]:
  "set_version4 sid = sid \<Longrightarrow> row_wf (inserted_row cid sid inp now)"
  by (simp add: row_wf_def inserted_row_def terminal_iff)

lemma inserted_row_simps [simp]:
  "job_id (inserted_row cid sid inp now) = cid"
  "simulation_id (inserted_row cid sid inp now) = sid"
  "status (inserted_row cid sid inp now) = QUEUED"
  "owner_attempt (inserted_row cid sid inp now) = None"
  "input_params (inserted_row cid sid inp now) = inp"
  by (simp_all add: inserted_row_def)

end
