(* ===== verification/Errors.thy ===== *)
theory Errors
  imports Prelude
begin

text \<open>
  The exceptions of the service as values, and the classification that decides whether a
  failure is worth retrying (api/core/errors.py, api/core/db.py): \<open>is_transient\<close>, the
  translation of a connection lost mid-statement (\<open>transient_connection_errors\<close>) and of a
  failed borrow (\<open>acquire\<close>, \<open>connect\<close>).
\<close>

text \<open>
  One constructor per exception class the code raises, catches or tests by class.
  \<open>SqlError n s\<close> is any \<open>asyncpg\<close> server error of class name \<open>n\<close> with SQLSTATE \<open>s\<close>;
  \<open>OtherError n\<close> is an exception of any other class, named \<open>n\<close>. \<open>S3Error c\<close> is a refusal of
  the object store with code \<open>c\<close>, \<open>S3ClientError\<close> any other \<open>MinioException\<close>, \<open>HTTPError\<close>
  an \<open>urllib3\<close> transport failure.
\<close>

datatype exn =
    ConnectionError | OSError | TimeoutError | FileNotFoundError string
  | SqlError string string
  | InterfaceError
  | S3Error string | S3ClientError | HTTPError
  | TransientInfraError string
  | ValueError string
  | RuntimeError string
  | OutputsExpiredError int
  | PermanentFailure string
  | CancelJob string
  | AbandonedAttempt string
  | OtherError string

text \<open>\<open>type(e).__name__\<close>\<close>

fun exn_name :: "exn \<Rightarrow> string" where
  "exn_name ConnectionError = ''ConnectionError''"
| "exn_name OSError = ''OSError''"
| "exn_name TimeoutError = ''TimeoutError''"
| "exn_name (FileNotFoundError _) = ''FileNotFoundError''"
| "exn_name (SqlError n _) = n"
| "exn_name InterfaceError = ''InterfaceError''"
| "exn_name (S3Error _) = ''S3Error''"
| "exn_name S3ClientError = ''MinioException''"
| "exn_name HTTPError = ''HTTPError''"
| "exn_name (TransientInfraError _) = ''TransientInfraError''"
| "exn_name (ValueError _) = ''ValueError''"
| "exn_name (RuntimeError _) = ''RuntimeError''"
| "exn_name (OutputsExpiredError _) = ''OutputsExpiredError''"
| "exn_name (PermanentFailure _) = ''PermanentFailure''"
| "exn_name (CancelJob _) = ''CancelJob''"
| "exn_name (AbandonedAttempt _) = ''AbandonedAttempt''"
| "exn_name (OtherError n) = n"

text \<open>\<open>isinstance(e, (ConnectionError, OSError, TimeoutError))\<close>: the first and the last, and
  \<open>FileNotFoundError\<close>, are subclasses of \<open>OSError\<close>.\<close>

fun is_client_error :: "exn \<Rightarrow> bool" where
  "is_client_error ConnectionError = True"
| "is_client_error OSError = True"
| "is_client_error TimeoutError = True"
| "is_client_error (FileNotFoundError _) = True"
| "is_client_error _ = False"

definition TRANSIENT_SQLSTATE_CLASSES :: "string set" where
  "TRANSIENT_SQLSTATE_CLASSES = {''08'', ''40'', ''53'', ''57''}"

fun sqlstate_of :: "exn \<Rightarrow> string option" where
  "sqlstate_of (SqlError _ s) = Some s"
| "sqlstate_of _ = None"

definition is_transient :: "exn \<Rightarrow> bool" where
  "is_transient e =
     (if is_client_error e then True
      else case sqlstate_of e of
        None \<Rightarrow> False
      | Some s \<Rightarrow> take 2 s \<in> TRANSIENT_SQLSTATE_CLASSES)"

text \<open>
  What \<open>connection.is_closed()\<close> does: it answers, or it raises \<open>InterfaceError\<close> because the
  pool has taken the proxy back.
\<close>

datatype closed_probe = Answers bool | ProbeRaises

fun connection_is_gone :: "closed_probe \<Rightarrow> bool" where
  "connection_is_gone (Answers b) = b"
| "connection_is_gone ProbeRaises = True"

definition database_unavailable :: exn where
  "database_unavailable = TransientInfraError ''database unavailable''"

definition transient_connection_errors :: "closed_probe \<Rightarrow> exn + 'a \<Rightarrow> exn + 'a" where
  "transient_connection_errors probe body =
     (case body of
        Inr a \<Rightarrow> Inr a
      | Inl InterfaceError \<Rightarrow>
          if connection_is_gone probe then Inl database_unavailable else Inl InterfaceError
      | Inl e \<Rightarrow> if is_transient e then Inl database_unavailable else Inl e)"

text \<open>Borrowing from the pool, and opening a connection outside it.\<close>

definition acquire :: "exn + 'c \<Rightarrow> exn + 'c" where
  "acquire borrowed =
     (case borrowed of
        Inr c \<Rightarrow> Inr c
      | Inl e \<Rightarrow> if is_transient e then Inl database_unavailable else Inl e)"

definition connect :: "string option \<Rightarrow> (string \<Rightarrow> exn + 'c) \<Rightarrow> exn + 'c" where
  "connect dsn open_connection =
     (case dsn of
        None \<Rightarrow> Inl (RuntimeError ''database connection DSN is not configured; call db.open_pool() with a runtime-role DSN first'')
      | Some d \<Rightarrow>
          (case open_connection d of
             Inr c \<Rightarrow> Inr c
           | Inl e \<Rightarrow> if is_transient e then Inl database_unavailable else Inl e))"

text \<open>
  \<open>retry_on=(TransientInfraError,)\<close> of the registered retry policy, with rqueue's attempt
  budget: an exception is retried when its class is listed and attempts are left.
\<close>

fun is_retryable :: "exn \<Rightarrow> bool" where
  "is_retryable (TransientInfraError _) = True"
| "is_retryable _ = False"

lemma is_retryable_iff: "is_retryable e \<longleftrightarrow> (\<exists>m. e = TransientInfraError m)"
  by (cases e) auto

lemma is_transient_not_retryable: "is_transient e \<Longrightarrow> \<not> is_retryable e"
  by (cases e) (auto simp: is_transient_def)

text \<open>A statement's failure becomes retryable exactly when the connection or server is gone.\<close>

lemma transient_connection_errors_retryable:
  assumes "\<not> is_retryable e"
  shows "(\<exists>e'. transient_connection_errors probe (Inl e) = Inl e' \<and> is_retryable e')
    \<longleftrightarrow> is_transient e \<or> (e = InterfaceError \<and> connection_is_gone probe)"
  using assms
  by (cases e) (auto simp: transient_connection_errors_def database_unavailable_def is_transient_def)

end
