(* ===== verification/Storage.thy ===== *)
theory Storage
  imports Errors "HOL-Library.Sublist"
begin

text \<open>
  Output storage (api/core/storage.py). The S3 client is a third-party package: it is the
  record \<open>s3_client\<close> of the calls the code makes, an argument of every operation, over a
  store of unknown type \<open>'s\<close>. Each call returns its result or its exception together with
  the store it leaves. \<open>s3_laws c view\<close> states the documented behaviour the code relies on,
  in terms of the map from object names to objects that \<open>view\<close> reads off a store: a put or a
  removal that succeeds has happened, one that fails may or may not have happened and
  touches no other object, and the other calls change no object.
\<close>

subsection \<open>Outputs of a simulation\<close>

text \<open>\<open>OutputFile\<close> of tsdhn/engine.py; a path is its text, \<open>path_name\<close> its last component.\<close>

record output_file =
  of_name :: string
  of_path :: string
  of_content_type :: string

definition path_name :: "string \<Rightarrow> string" where
  "path_name p = rev (takeWhile (\<lambda>c. c \<noteq> CHR ''/'') (rev p))"

subsection \<open>The client\<close>

text \<open>What an object was made from: a file of the workspace, or a JSON text.\<close>

datatype 'm s3_object =
    FromFile string string "(string \<times> string) list"
  | FromData 'm string

record ('s, 'm) s3_client =
  bucket_exists :: "'s \<Rightarrow> (exn + bool) \<times> 's"
  make_bucket :: "'s \<Rightarrow> (exn + unit) \<times> 's"
  fput_object :: "string \<Rightarrow> string \<Rightarrow> string \<Rightarrow> (string \<times> string) list \<Rightarrow> 's \<Rightarrow> (exn + unit) \<times> 's"
  put_object :: "string \<Rightarrow> 'm \<Rightarrow> string \<Rightarrow> 's \<Rightarrow> (exn + unit) \<times> 's"
  list_objects :: "string \<Rightarrow> 's \<Rightarrow> (exn + string list) \<times> 's"
  remove_object :: "string \<Rightarrow> 's \<Rightarrow> (exn + unit) \<times> 's"
  presigned_get_object :: "string \<Rightarrow> int \<Rightarrow> string \<Rightarrow> exn + string"

definition writes_key ::
  "('s \<Rightarrow> string \<Rightarrow> 'o option) \<Rightarrow> string \<Rightarrow> 'o option \<Rightarrow> 's \<Rightarrow> (exn + unit) \<times> 's \<Rightarrow> bool" where
  "writes_key view k obj s res =
     (if is_ok (fst res) then view (snd res) = (view s)(k := obj)
      else view (snd res) \<in> {view s, (view s)(k := obj)})"

definition s3_laws :: "('s, 'm) s3_client \<Rightarrow> ('s \<Rightarrow> string \<Rightarrow> 'm s3_object option) \<Rightarrow> bool" where
  "s3_laws c view \<longleftrightarrow>
     (\<forall>s. view (snd (bucket_exists c s)) = view s) \<and>
     (\<forall>s. view (snd (make_bucket c s)) = view s) \<and>
     (\<forall>k p t m s. writes_key view k (Some (FromFile p t m)) s (fput_object c k p t m s)) \<and>
     (\<forall>k d t s. writes_key view k (Some (FromData d t)) s (put_object c k d t s)) \<and>
     (\<forall>k s. writes_key view k None s (remove_object c k s)) \<and>
     (\<forall>p s. view (snd (list_objects c p s)) = view s) \<and>
     (\<forall>p s ks. fst (list_objects c p s) = Inr ks \<longrightarrow>
        set ks - {''''} = {k \<in> dom (view s). prefix p k} - {''''})"

subsection \<open>\<open>OutputStore\<close>\<close>

text \<open>The exceptions the store's methods catch: \<open>(S3ClientError, HTTPError, OSError)\<close>.\<close>

fun is_store_error :: "exn \<Rightarrow> bool" where
  "is_store_error (S3Error _) = True"
| "is_store_error S3ClientError = True"
| "is_store_error HTTPError = True"
| "is_store_error ConnectionError = True"
| "is_store_error OSError = True"
| "is_store_error TimeoutError = True"
| "is_store_error (FileNotFoundError _) = True"
| "is_store_error _ = False"

definition store_failure :: "string \<Rightarrow> exn \<Rightarrow> exn" where
  "store_failure msg e = (if is_store_error e then TransientInfraError msg else e)"

definition bucket_usable :: "('s, 'm) s3_client \<Rightarrow> 's \<Rightarrow> (exn + bool) \<times> 's" where
  "bucket_usable c s =
     (case bucket_exists c s of
        (Inl (S3Error code), s') \<Rightarrow>
          (if code = ''AccessDenied'' then Inr True else Inl (S3Error code), s')
      | r \<Rightarrow> r)"

definition is_connected :: "('s, 'm) s3_client \<Rightarrow> 's \<Rightarrow> bool \<times> 's" where
  "is_connected c s = (case bucket_usable c s of (Inl _, s') \<Rightarrow> (False, s') | (Inr _, s') \<Rightarrow> (True, s'))"

definition ensure_bucket :: "('s, 'm) s3_client \<Rightarrow> 's \<Rightarrow> (exn + unit) \<times> 's" where
  "ensure_bucket c s =
     (case bucket_usable c s of
        (Inl e, s') \<Rightarrow> (Inl e, s')
      | (Inr True, s') \<Rightarrow> (Inr (), s')
      | (Inr False, s') \<Rightarrow> make_bucket c s')"

definition storage_prefix :: "string \<Rightarrow> string" where
  "storage_prefix sim = ''simulations/'' @ sim"

definition output_key :: "string \<Rightarrow> output_file \<Rightarrow> string" where
  "output_key sim f = storage_prefix sim @ ''/outputs/'' @ path_name (of_path f)"

definition metadata_key :: "string \<Rightarrow> string" where
  "metadata_key sim = storage_prefix sim @ ''/metadata.json''"

definition output_tags :: "string \<Rightarrow> string \<Rightarrow> output_file \<Rightarrow> (string \<times> string) list" where
  "output_tags sim cid f =
     [(''simulation-id'', sim), (''compute-job-id'', cid), (''output-name'', of_name f)]"

fun upload_files ::
  "('s, 'm) s3_client \<Rightarrow> string \<Rightarrow> string \<Rightarrow> output_file list \<Rightarrow> 's \<Rightarrow> (exn + unit) \<times> 's" where
  "upload_files c sim cid [] s = (Inr (), s)"
| "upload_files c sim cid (f # fs) s =
     (case fput_object c (output_key sim f) (of_path f) (of_content_type f) (output_tags sim cid f) s of
        (Inl e, s') \<Rightarrow> (Inl e, s')
      | (Inr _, s') \<Rightarrow> upload_files c sim cid fs s')"

text \<open>
  \<open>upload_simulation_result\<close>: bucket, files, then the metadata; returns the bucket name
  (a setting, the argument \<open>bucket\<close>) and the metadata key.
\<close>

definition upload_simulation_result ::
  "('s, 'm) s3_client \<Rightarrow> string \<Rightarrow> string \<Rightarrow> string \<Rightarrow> output_file list \<Rightarrow> 'm \<Rightarrow> 's
   \<Rightarrow> (exn + string \<times> string) \<times> 's" where
  "upload_simulation_result c bucket sim cid files metadata s =
     (case ensure_bucket c s of
        (Inl e, s1) \<Rightarrow> (Inl (store_failure ''output upload failed'' e), s1)
      | (Inr _, s1) \<Rightarrow>
          (case upload_files c sim cid files s1 of
             (Inl e, s2) \<Rightarrow> (Inl (store_failure ''output upload failed'' e), s2)
           | (Inr _, s2) \<Rightarrow>
               (case put_object c (metadata_key sim) metadata ''application/json'' s2 of
                  (Inl e, s3) \<Rightarrow> (Inl (store_failure ''output upload failed'' e), s3)
                | (Inr _, s3) \<Rightarrow> (Inr (bucket, metadata_key sim), s3))))"

fun remove_names :: "('s, 'm) s3_client \<Rightarrow> string list \<Rightarrow> 's \<Rightarrow> (exn + unit) \<times> 's" where
  "remove_names c [] s = (Inr (), s)"
| "remove_names c (k # ks) s =
     (case remove_object c k s of
        (Inl e, s') \<Rightarrow> (Inl e, s')
      | (Inr _, s') \<Rightarrow> remove_names c ks s')"

definition delete_simulation_outputs ::
  "('s, 'm) s3_client \<Rightarrow> string \<Rightarrow> 's \<Rightarrow> (exn + nat) \<times> 's" where
  "delete_simulation_outputs c sim s =
     (case list_objects c (storage_prefix sim @ ''/'') s of
        (Inl e, s1) \<Rightarrow> (Inl (store_failure ''deleting expired outputs failed'' e), s1)
      | (Inr found, s1) \<Rightarrow>
          (let names = filter (\<lambda>n. n \<noteq> '''') found in
           case remove_names c names s1 of
             (Inl e, s2) \<Rightarrow> (Inl (store_failure ''deleting expired outputs failed'' e), s2)
           | (Inr _, s2) \<Rightarrow> (Inr (length names), s2)))"

definition presigned_url :: "('s, 'm) s3_client \<Rightarrow> int \<Rightarrow> string \<Rightarrow> string \<Rightarrow> exn + string" where
  "presigned_url c ttl object_name filename =
     (case presigned_get_object c object_name ttl
             (''attachment; filename='' @ [CHR 0x22] @ filename @ [CHR 0x22]) of
        Inl e \<Rightarrow> Inl (store_failure ''presigning output URL failed'' e)
      | Inr u \<Rightarrow> Inr u)"

subsection \<open>What the laws give\<close>

lemma s3_laws_fput:
  "s3_laws c view \<Longrightarrow> fput_object c k p t m s = res \<Longrightarrow>
     writes_key view k (Some (FromFile p t m)) s res"
  by (auto simp: s3_laws_def)

lemma s3_laws_put:
  "s3_laws c view \<Longrightarrow> put_object c k d t s = res \<Longrightarrow> writes_key view k (Some (FromData d t)) s res"
  by (auto simp: s3_laws_def)

lemma s3_laws_remove:
  "s3_laws c view \<Longrightarrow> remove_object c k s = res \<Longrightarrow> writes_key view k None s res"
  by (auto simp: s3_laws_def)

lemma s3_laws_list:
  "s3_laws c view \<Longrightarrow> list_objects c p s = (Inr ks, s') \<Longrightarrow>
     set ks - {''''} = {k \<in> dom (view s). prefix p k} - {''''}"
  by (simp add: s3_laws_def)

lemma writes_key_ok: "writes_key view k obj s (Inr u, s') \<Longrightarrow> view s' = (view s)(k := obj)"
  by (simp add: writes_key_def)

lemma writes_key_frame: "writes_key view k obj s (r, s') \<Longrightarrow> k' \<noteq> k \<Longrightarrow> view s' k' = view s k'"
  by (auto simp: writes_key_def split: if_splits)

lemma bucket_usable_view:
  "s3_laws c view \<Longrightarrow> view (snd (bucket_usable c s)) = view s"
  by (auto simp: s3_laws_def bucket_usable_def split: prod.split sum.split exn.split)
     (metis snd_conv)+

lemma ensure_bucket_view:
  assumes "s3_laws c view"
  shows "view (snd (ensure_bucket c s)) = view s"
proof -
  have "view (snd (make_bucket c s')) = view s'" for s'
    using assms by (simp add: s3_laws_def)
  moreover have "view (snd (bucket_usable c s)) = view s"
    using assms by (rule bucket_usable_view)
  ultimately show ?thesis
    by (auto simp: ensure_bucket_def split: prod.split sum.split bool.split)
qed

text \<open>
  The objects a run of uploads leaves: each file under its key, later files overwriting
  earlier ones of the same file name.
\<close>

definition file_object :: "string \<Rightarrow> string \<Rightarrow> output_file \<Rightarrow> 'm s3_object" where
  "file_object sim cid f = FromFile (of_path f) (of_content_type f) (output_tags sim cid f)"

fun put_files ::
  "string \<Rightarrow> string \<Rightarrow> output_file list \<Rightarrow> (string \<rightharpoonup> 'm s3_object) \<Rightarrow> (string \<rightharpoonup> 'm s3_object)" where
  "put_files sim cid [] m = m"
| "put_files sim cid (f # fs) m = put_files sim cid fs (m(output_key sim f \<mapsto> file_object sim cid f))"

lemma upload_files_ok:
  assumes "s3_laws c view" and "upload_files c sim cid fs s = (Inr u, s')"
  shows "view s' = put_files sim cid fs (view s)"
  using assms(2)
proof (induction fs arbitrary: s)
  case (Cons f fs)
  then obtain v s1 where put: "fput_object c (output_key sim f) (of_path f) (of_content_type f)
        (output_tags sim cid f) s = (Inr v, s1)"
      and rest: "upload_files c sim cid fs s1 = (Inr u, s')"
    by (auto split: sum.splits prod.splits)
  have "view s1 = (view s)(output_key sim f \<mapsto> file_object sim cid f)"
    using writes_key_ok [OF s3_laws_fput [OF assms(1) put]] by (simp add: file_object_def)
  with Cons.IH [OF rest] show ?case by (simp only: put_files.simps)
qed simp

lemma upload_files_frame:
  assumes "s3_laws c view" and "k \<notin> output_key sim ` set fs"
  shows "view (snd (upload_files c sim cid fs s)) k = view s k"
  using assms(2)
proof (induction fs arbitrary: s)
  case (Cons f fs)
  obtain r s1 where put: "fput_object c (output_key sim f) (of_path f) (of_content_type f)
      (output_tags sim cid f) s = (r, s1)" by fastforce
  have "view s1 k = view s k"
    using writes_key_frame [OF s3_laws_fput [OF assms(1) put]] Cons.prems by simp
  with Cons.IH [of s1] Cons.prems put show ?case by (simp split: sum.split)
qed simp

lemma remove_names_ok:
  assumes "s3_laws c view" and "remove_names c ks s = (Inr u, s')"
  shows "view s' k = (if k \<in> set ks then None else view s k)"
  using assms(2)
proof (induction ks arbitrary: s)
  case (Cons k' ks)
  then obtain v s1 where rm: "remove_object c k' s = (Inr v, s1)"
      and rest: "remove_names c ks s1 = (Inr u, s')"
    by (auto split: sum.splits prod.splits)
  have "view s1 = (view s)(k' := None)"
    using writes_key_ok [OF s3_laws_remove [OF assms(1) rm]] by simp
  with Cons.IH [OF rest] show ?case by simp
qed simp

lemma remove_names_frame:
  assumes "s3_laws c view" and "k \<notin> set ks"
  shows "view (snd (remove_names c ks s)) k = view s k"
  using assms(2)
proof (induction ks arbitrary: s)
  case (Cons k' ks)
  obtain r s1 where rm: "remove_object c k' s = (r, s1)" by fastforce
  have "view s1 k = view s k"
    using writes_key_frame [OF s3_laws_remove [OF assms(1) rm]] Cons.prems by simp
  with Cons.IH [of s1] Cons.prems rm show ?case by (simp split: sum.split)
qed simp

lemma metadata_key_fresh: "metadata_key sim \<notin> output_key sim ` set fs"
  by (auto simp: metadata_key_def output_key_def)

lemma list_objects_view: "s3_laws c view \<Longrightarrow> view (snd (list_objects c p s)) = view s"
  by (simp add: s3_laws_def)

lemma list_objects_found:
  assumes "s3_laws c view" and "list_objects c p s = (Inr ks, s')" and "p \<noteq> ''''"
  shows "set (filter (\<lambda>n. n \<noteq> '''') ks) = {k \<in> dom (view s). prefix p k}"
  using s3_laws_list [OF assms(1,2)] assms(3) by auto

subsection \<open>The order of an upload and the reach of a deletion\<close>

text \<open>The metadata object is written last. Whatever fails during
  \<open>upload_simulation_result\<close>, if the call changed the metadata object of the simulation or
  returned normally then every output file of the result is already stored under its key,
  and if it returned normally the metadata object is the one given.\<close>

theorem upload_metadata_last:
  assumes laws: "s3_laws c view"
    and run: "upload_simulation_result c bucket sim cid files metadata s = (r, s')"
    and changed: "view s' (metadata_key sim) \<noteq> view s (metadata_key sim) \<or> is_ok r"
  shows "(\<forall>f \<in> set files. view s' (output_key sim f)
            = put_files sim cid files (view s) (output_key sim f)) \<and>
    (is_ok r \<longrightarrow> view s' (metadata_key sim) = Some (FromData metadata ''application/json''))"
proof -
  obtain r1 s1 where eb: "ensure_bucket c s = (r1, s1)" by fastforce
  obtain r2 s2 where uf: "upload_files c sim cid files s1 = (r2, s2)" by fastforce
  obtain r3 s3 where po: "put_object c (metadata_key sim) metadata ''application/json'' s2 = (r3, s3)"
    by fastforce
  have v1: "view s1 = view s" using ensure_bucket_view [OF laws, of s] eb by simp
  have v2: "view s2 (metadata_key sim) = view s1 (metadata_key sim)"
    using upload_files_frame [OF laws metadata_key_fresh, of sim cid files s1] uf by simp
  from run eb uf po have ok1: "is_ok r1"
    using changed v1 by (cases r1) (auto simp: upload_simulation_result_def)
  from run eb uf po ok1 have ok2: "is_ok r2"
    using changed v1 v2 by (cases r1; cases r2) (auto simp: upload_simulation_result_def)
  from run eb uf po ok1 ok2 have s': "s' = s3" and r: "is_ok r \<longleftrightarrow> is_ok r3"
    by (auto simp: upload_simulation_result_def is_ok_def split: sum.splits)
  have files: "view s2 = put_files sim cid files (view s)"
    using upload_files_ok [OF laws, of sim cid files s1] uf ok2 v1 by (cases r2) auto
  have put: "writes_key view (metadata_key sim) (Some (FromData metadata ''application/json'')) s2 (r3, s3)"
    using laws po by (rule s3_laws_put)
  then have frame: "view s3 k = view s2 k" if "k \<noteq> metadata_key sim" for k
    using that by (rule writes_key_frame)
  have "\<forall>f \<in> set files. view s' (output_key sim f)
           = put_files sim cid files (view s) (output_key sim f)"
    using frame files s' metadata_key_fresh [of sim files] by (metis image_eqI)
  moreover have "is_ok r \<longrightarrow> view s' (metadata_key sim) = Some (FromData metadata ''application/json'')"
    using put s' r by (auto simp: writes_key_def)
  ultimately show ?thesis ..
qed

text \<open>When \<open>delete_simulation_outputs\<close> returns, no object under
  \<open>simulations/{id}/\<close> is left; whether it returns or fails, no object outside that prefix
  is touched, so another simulation's outputs survive.\<close>

theorem delete_simulation_outputs_reach:
  assumes laws: "s3_laws c view"
    and run: "delete_simulation_outputs c sim s = (r, s')"
  shows "(is_ok r \<longrightarrow> (\<forall>k. prefix (storage_prefix sim @ ''/'') k \<longrightarrow> view s' k = None)) \<and>
    (\<forall>k. \<not> prefix (storage_prefix sim @ ''/'') k \<longrightarrow> view s' k = view s k)"
proof -
  let ?p = "storage_prefix sim @ ''/''"
  obtain r1 s1 where ls: "list_objects c ?p s = (r1, s1)" by fastforce
  have v1: "view s1 = view s" using list_objects_view [OF laws, of ?p s] ls by simp
  show ?thesis
  proof (cases r1)
    case (Inl e)
    with run ls v1 show ?thesis by (auto simp: delete_simulation_outputs_def)
  next
    case (Inr found)
    define names where "names = filter (\<lambda>n. n \<noteq> '''') found"
    obtain r2 s2 where rm: "remove_names c names s1 = (r2, s2)" by fastforce
    have names: "set names = {k \<in> dom (view s). prefix ?p k}"
      using list_objects_found [OF laws] ls Inr unfolding names_def by blast
    have s': "s' = s2" and r: "is_ok r \<longleftrightarrow> is_ok r2"
      using run ls Inr rm unfolding names_def
      by (auto simp: delete_simulation_outputs_def is_ok_def Let_def split: sum.splits)
    have "view s2 k = view s k" if "\<not> prefix ?p k" for k
      using remove_names_frame [OF laws, of k names s1] rm names v1 that by simp
    moreover have "view s2 k = None" if ok: "is_ok r2" and pre: "prefix ?p k" for k
    proof -
      obtain u where "r2 = Inr u" using ok by (cases r2) simp_all
      with rm have "view s2 k = (if k \<in> set names then None else view s k)"
        using remove_names_ok [OF laws, of names s1 u s2 k] v1 by simp
      moreover have "k \<in> set names \<or> view s k = None" using names pre by auto
      ultimately show ?thesis by auto
    qed
    ultimately show ?thesis unfolding s' r by simp
  qed
qed

subsection \<open>A store that keeps its objects in a list\<close>

text \<open>A concrete client that satisfies the laws, at which the two theorems are applied.\<close>

definition list_client :: "((string \<times> 'm s3_object) list, 'm) s3_client" where
  "list_client =
     \<lparr> bucket_exists = (\<lambda>s. (Inr True, s)), make_bucket = (\<lambda>s. (Inr (), s)),
       fput_object = (\<lambda>k p t m s. (Inr (), (k, FromFile p t m) # s)),
       put_object = (\<lambda>k d t s. (Inr (), (k, FromData d t) # s)),
       list_objects = (\<lambda>p s. (Inr (filter (prefix p) (map fst s)), s)),
       remove_object = (\<lambda>k s. (Inr (), filter (\<lambda>x. fst x \<noteq> k) s)),
       presigned_get_object = (\<lambda>k t d. Inr k) \<rparr>"

lemma list_client_laws: "s3_laws (list_client :: ((string \<times> 'm s3_object) list, 'm) s3_client) map_of"
proof -
  have "map_of (filter (\<lambda>x. fst x \<noteq> k) s) = (map_of s)(k := None)"
    for k :: string and s :: "(string \<times> 'm s3_object) list"
    by (induction s) auto
  moreover have "map_of (filter (\<lambda>(a, b). a \<noteq> k) s) = (map_of s)(k := None)"
    for k :: string and s :: "(string \<times> 'm s3_object) list"
    by (induction s) auto
  ultimately show ?thesis
    by (auto simp: s3_laws_def list_client_def writes_key_def dom_map_of_conv_image_fst
        split: prod.splits)
qed

definition sample_file :: output_file where
  "sample_file = \<lparr> of_name = ''report'', of_path = ''/w/report.pdf'', of_content_type = ''application/pdf'' \<rparr>"

lemma sample_upload:
  "upload_simulation_result list_client ''b'' ''s1'' ''c1'' [sample_file] (''meta'' :: string) []
     = (Inr (''b'', ''simulations/s1/metadata.json''),
        [(''simulations/s1/metadata.json'', FromData ''meta'' ''application/json''),
         (''simulations/s1/outputs/report.pdf'', file_object ''s1'' ''c1'' sample_file)])"
  by code_simp

lemma upload_metadata_last_witness:
  "map_of (snd (upload_simulation_result list_client ''b'' ''s1'' ''c1'' [sample_file] ''meta'' []))
     (output_key ''s1'' sample_file) = Some (file_object ''s1'' ''c1'' sample_file) \<and>
   map_of (snd (upload_simulation_result list_client ''b'' ''s1'' ''c1'' [sample_file] ''meta'' []))
     (metadata_key ''s1'') = Some (FromData ''meta'' ''application/json'')"
  using upload_metadata_last [OF list_client_laws sample_upload] by (simp only: sample_upload) simp

lemma sample_delete:
  "delete_simulation_outputs list_client ''s1''
     [(''simulations/s1/outputs/a.pdf'', FromData ''x'' ''t''), (''simulations/s10/outputs/b.pdf'', FromData ''y'' ''t'')]
     = (Inr 1, [(''simulations/s10/outputs/b.pdf'', FromData ''y'' ''t'')])"
  by code_simp

lemma delete_simulation_outputs_reach_witness:
  "map_of [(''simulations/s10/outputs/b.pdf'', FromData ''y'' ''t'')] ''simulations/s10/outputs/b.pdf''
     = Some (FromData ''y'' ''t'' :: string s3_object)"
  using delete_simulation_outputs_reach [OF list_client_laws sample_delete] by simp

end
