(* ===== verification/JobStore.thy ===== *)
theory JobStore
  imports JobRow Storage
begin

text \<open>
  The repository of \<open>compute.jobs\<close> (api/core/repository.py). The state is the table and the
  log of committed \<open>NOTIFY\<close>s; each operation is one function, its guard the \<open>WHERE\<close> clause of
  the source's statement with SQL's treatment of NULL written out (a comparison with NULL
  selects no row). A transaction either commits both the update and its notification or
  neither.
\<close>

record compute_db =
  rows :: "job_row list"
  notified :: "uuid list"

definition db_wf :: "compute_db \<Rightarrow> bool" where
  "db_wf db \<longleftrightarrow>
     (\<forall>r \<in> set (rows db). row_wf r) \<and>
     distinct (map job_id (rows db)) \<and> distinct (map simulation_id (rows db))"

abbreviation row_of :: "compute_db \<Rightarrow> uuid \<Rightarrow> job_row option" where
  "row_of db j \<equiv> find_by job_id j (rows db)"

subsection \<open>Reading\<close>

definition fetch_by_id :: "compute_db \<Rightarrow> uuid \<Rightarrow> job_row option" where
  "fetch_by_id db j = find_by job_id j (rows db)"

definition fetch_by_simulation_id :: "compute_db \<Rightarrow> uuid \<Rightarrow> job_row option" where
  "fetch_by_simulation_id db sid = find_by simulation_id sid (rows db)"

text \<open>\<open>str(row["step"]) if row and row["step"] else None\<close>\<close>

definition get_current_step :: "compute_db \<Rightarrow> uuid \<Rightarrow> string option" where
  "get_current_step db j =
     (case find_by job_id j (rows db) of
        None \<Rightarrow> None
      | Some r \<Rightarrow> (case cur_step r of None \<Rightarrow> None | Some s \<Rightarrow> if s = '''' then None else Some s))"

text \<open>
  \<open>get_job_status\<close>: every failure, a malformed id and a database error alike, is reported as
  the same \<open>ValueError\<close>. \<open>conn\<close> is the outcome of borrowing a connection.
\<close>

definition unknown_job :: exn where
  "unknown_job = ValueError ''Invalid or unknown job ID''"

definition get_job_status :: "exn + unit \<Rightarrow> compute_db \<Rightarrow> string \<Rightarrow> exn + job_view" where
  "get_job_status conn db sim =
     (case as_uuid sim of
        None \<Rightarrow> Inl unknown_job
      | Some sid \<Rightarrow>
          (case acquire conn of
             Inl _ \<Rightarrow> Inl unknown_job
           | Inr _ \<Rightarrow>
               (case fetch_by_simulation_id db sid of
                  None \<Rightarrow> Inl unknown_job
                | Some r \<Rightarrow> Inr (status_from_row r))))"

text \<open>\<open>uuid.UUID\<close> itself raises this on a malformed public id.\<close>

definition bad_uuid :: exn where
  "bad_uuid = ValueError ''badly formed hexadecimal UUID string''"

definition get_outputs :: "exn + unit \<Rightarrow> compute_db \<Rightarrow> string \<Rightarrow> exn + stored_output list" where
  "get_outputs conn db sim =
     (case as_uuid sim of
        None \<Rightarrow> Inl bad_uuid
      | Some sid \<Rightarrow>
          (case acquire conn of
             Inl e \<Rightarrow> Inl e
           | Inr _ \<Rightarrow>
               (case fetch_by_simulation_id db sid of
                  None \<Rightarrow> Inl unknown_job
                | Some r \<Rightarrow>
                    (case outputs_expired_at r of
                       Some t \<Rightarrow> Inl (OutputsExpiredError t)
                     | None \<Rightarrow> if status r \<noteq> COMPLETED then Inr [] else Inr (outputs r)))))"

text \<open>\<open>finished_at < cutoff\<close> in SQL: NULL is not smaller.\<close>

definition finished_before :: "int \<Rightarrow> job_row \<Rightarrow> bool" where
  "finished_before cutoff r = (case finished_at r of None \<Rightarrow> False | Some t \<Rightarrow> t < cutoff)"

definition list_abandoned_work_dirs :: "compute_db \<Rightarrow> int \<Rightarrow> string list" where
  "list_abandoned_work_dirs db cutoff =
     map (\<lambda>r. uuid_str (simulation_id r))
       (filter (\<lambda>r. status r \<in> {FAILED, COMPLETED} \<and> finished_at r \<noteq> None \<and> finished_before cutoff r)
         (rows db))"

definition has_expired_outputs :: "int \<Rightarrow> job_row \<Rightarrow> bool" where
  "has_expired_outputs cutoff r \<longleftrightarrow>
     status r = COMPLETED \<and> finished_before cutoff r \<and> outputs_expired_at r = None"

text \<open>\<open>ORDER BY finished_at LIMIT n\<close>; equal times keep the table's order.\<close>

definition list_jobs_with_expired_outputs :: "compute_db \<Rightarrow> int \<Rightarrow> nat \<Rightarrow> string list" where
  "list_jobs_with_expired_outputs db cutoff limit =
     map (\<lambda>r. uuid_str (simulation_id r))
       (take limit
         (sort_key (\<lambda>r. case finished_at r of None \<Rightarrow> 0 | Some t \<Rightarrow> t)
           (filter (has_expired_outputs cutoff) (rows db))))"

subsection \<open>Writing: one guarded update per operation\<close>

text \<open>\<open>mark_started\<close>: the claim of a row by an attempt.\<close>

definition may_start :: "int \<Rightarrow> job_row \<Rightarrow> bool" where
  "may_start attempt r \<longleftrightarrow>
     (case owner_attempt r of None \<Rightarrow> True | Some w \<Rightarrow> w \<le> attempt) \<and>
     status r \<noteq> COMPLETED \<and>
     (status r \<noteq> FAILED \<or> (case owner_attempt r of None \<Rightarrow> True | Some w \<Rightarrow> w < attempt))"

definition started_row :: "int \<Rightarrow> int \<Rightarrow> job_row \<Rightarrow> job_row" where
  "started_row attempt now r =
     r\<lparr> status := RUNNING, details := Some ''Simulation worker started'',
        owner_attempt := Some attempt, error_text := None, finished_at := None,
        started_at := coalesce (started_at r) (Some now), updated_at := now \<rparr>"

text \<open>
  The shape of every fenced write: update the row with this id if the guard holds, notify
  its channel and return whether a row was written; a refused write changes nothing.
\<close>

definition fenced_write ::
  "(job_row \<Rightarrow> bool) \<Rightarrow> (job_row \<Rightarrow> job_row) \<Rightarrow> uuid \<Rightarrow> uuid \<Rightarrow> compute_db \<Rightarrow> bool \<times> compute_db" where
  "fenced_write guard upd j sid db =
     (if \<exists>r \<in> set (rows db). job_id r = j \<and> guard r
      then (True, db\<lparr> rows := update_where (\<lambda>r. job_id r = j \<and> guard r) upd (rows db),
                      notified := notified db @ [sid] \<rparr>)
      else (False, db))"

definition mark_started :: "uuid \<Rightarrow> uuid \<Rightarrow> int \<Rightarrow> int \<Rightarrow> compute_db \<Rightarrow> bool \<times> compute_db" where
  "mark_started j sid attempt now = fenced_write (may_start attempt) (started_row attempt now) j sid"

text \<open>
  The fence of every other write of an attempt:
  \<open>owner_attempt = $attempt AND status <> ALL(TERMINAL_STATUSES)\<close>.
\<close>

definition owns_unfinished :: "int \<Rightarrow> job_row \<Rightarrow> bool" where
  "owns_unfinished attempt r \<longleftrightarrow> owner_attempt r = Some attempt \<and> \<not> terminal (status r)"

text \<open>
  The \<open>details\<close> dictionary of a progress callback: each entry is present or absent
  (\<open>details.get(key)\<close>, \<open>key in details\<close>).
\<close>

record progress =
  p_step :: "string option"
  p_step_index :: "int option"
  p_total_steps :: "int option"
  p_calculation :: "json option"
  p_travel_times :: "json option"
  p_outputs :: "string list option"

definition progressed_row :: "string \<Rightarrow> progress \<Rightarrow> int \<Rightarrow> job_row \<Rightarrow> job_row" where
  "progressed_row message p now r =
     r\<lparr> status := RUNNING, details := Some message,
        cur_step := coalesce (p_step p) (cur_step r),
        step_index := coalesce (p_step_index p) (step_index r),
        total_steps := coalesce (p_total_steps p) (total_steps r),
        calculation := coalesce (p_calculation p) (calculation r),
        travel_times := coalesce (p_travel_times p) (travel_times r),
        updated_at := now \<rparr>"

definition record_progress ::
  "uuid \<Rightarrow> uuid \<Rightarrow> string \<Rightarrow> progress \<Rightarrow> int \<Rightarrow> int \<Rightarrow> compute_db \<Rightarrow> bool \<times> compute_db" where
  "record_progress j sid message p attempt now =
     fenced_write (owns_unfinished attempt) (progressed_row message p now) j sid"

text \<open>
  \<open>record_failure\<close> notifies whether or not its update matched a row.
\<close>

definition retrying_row :: "exn \<Rightarrow> int \<Rightarrow> job_row \<Rightarrow> job_row" where
  "retrying_row e now r =
     r\<lparr> details := Some (''Retrying after transient error ('' @ exn_name e @ '')''), updated_at := now \<rparr>"

definition failed_row :: "exn \<Rightarrow> string option \<Rightarrow> int \<Rightarrow> job_row \<Rightarrow> job_row" where
  "failed_row e failed_step now r =
     r\<lparr> status := FAILED, details := Some FAILED_JOB_DETAILS,
        error_text := Some (public_error (exn_name e) failed_step),
        finished_at := Some now, updated_at := now \<rparr>"

definition record_failure ::
  "uuid \<Rightarrow> uuid \<Rightarrow> exn \<Rightarrow> string option \<Rightarrow> bool \<Rightarrow> int \<Rightarrow> int \<Rightarrow> compute_db \<Rightarrow> compute_db" where
  "record_failure j sid e failed_step will_retry attempt now db =
     db\<lparr> rows := update_where (\<lambda>r. job_id r = j \<and> owns_unfinished attempt r)
                  (if will_retry then retrying_row e now else failed_row e failed_step now) (rows db),
         notified := notified db @ [sid] \<rparr>"

subsection \<open>Completing a job\<close>

text \<open>
  \<open>SimulationResult\<close> of tsdhn/engine.py, as far as the repository reads it: the dumped
  calculation and travel times, and the output files.
\<close>

record simulation_result =
  res_calculation :: json
  res_travel_times :: json
  res_outputs :: "output_file list"

definition manifest :: "string \<Rightarrow> output_file list \<Rightarrow> stored_output list" where
  "manifest sim files =
     map (\<lambda>f. \<lparr> out_name = of_name f, out_key = output_key sim f,
                out_filename = path_name (of_path f), out_content_type = of_content_type f \<rparr>) files"

definition json_opt :: "('a \<Rightarrow> json) \<Rightarrow> 'a option \<Rightarrow> json" where
  "json_opt f x = (case x of None \<Rightarrow> JNull | Some a \<Rightarrow> f a)"

definition output_json :: "stored_output \<Rightarrow> json" where
  "output_json s =
     JObj [(''name'', JStr (out_name s)), (''key'', JStr (out_key s)),
           (''filename'', JStr (out_filename s)), (''content_type'', JStr (out_content_type s))]"

text \<open>The metadata document; \<open>isoformat\<close> is \<open>datetime.isoformat\<close> of the standard library.\<close>

definition result_metadata :: "(int \<Rightarrow> string) \<Rightarrow> job_row \<Rightarrow> simulation_result \<Rightarrow> int \<Rightarrow> json" where
  "result_metadata isoformat row res now =
     (let sim = uuid_str (simulation_id row) in
      JObj [(''simulation_id'', JStr sim),
            (''compute_job_id'', JStr (uuid_str (job_id row))),
            (''status'', JStr (status_value COMPLETED)),
            (''created_at'', JStr (isoformat (created_at row))),
            (''started_at'', json_opt (JStr \<circ> isoformat) (started_at row)),
            (''finished_at'', JStr (isoformat now)),
            (''calculation'', res_calculation res),
            (''travel_times'', res_travel_times res),
            (''outputs'', JArr (map output_json (manifest sim (res_outputs res))))])"

definition completed_row ::
  "simulation_result \<Rightarrow> stored_output list \<Rightarrow> string \<Rightarrow> string \<Rightarrow> int \<Rightarrow> job_row \<Rightarrow> job_row" where
  "completed_row res outs bucket key now r =
     r\<lparr> status := COMPLETED, details := Some ''Simulation completed successfully'',
        calculation := Some (res_calculation res), travel_times := Some (res_travel_times res),
        outputs := outs, result_bucket := Some bucket, result_key := Some key,
        error_text := None, finished_at := Some now, updated_at := now \<rparr>"

text \<open>
  What a transaction on an open connection can do to the client: it commits, it is rolled
  back with an exception, or it commits and the connection is lost before the client learns
  it ("a connection lost at commit is ambiguous"). The exception passes through
  \<open>transient_connection_errors\<close>.
\<close>

datatype tx_outcome = Commits | RollsBack exn closed_probe | CommitsButRaises exn closed_probe

fun transact :: "tx_outcome \<Rightarrow> (compute_db \<Rightarrow> 'a \<times> compute_db) \<Rightarrow> compute_db \<Rightarrow> (exn + 'a) \<times> compute_db" where
  "transact Commits f db = (let (a, db') = f db in (Inr a, db'))"
| "transact (RollsBack e p) f db = (transient_connection_errors p (Inl e), db)"
| "transact (CommitsButRaises e p) f db = (transient_connection_errors p (Inl e), snd (f db))"

text \<open>
  \<open>complete_job\<close>: \<open>row\<close> is the row the caller read when the attempt began, not the current
  one. The upload comes first; only then is the fenced update tried.
\<close>

definition complete_update ::
  "job_row \<Rightarrow> simulation_result \<Rightarrow> string \<Rightarrow> string \<Rightarrow> int \<Rightarrow> int \<Rightarrow> compute_db \<Rightarrow> bool \<times> compute_db" where
  "complete_update row res bucket key attempt now =
     fenced_write (owns_unfinished attempt)
       (completed_row res (manifest (uuid_str (simulation_id row)) (res_outputs res)) bucket key now)
       (job_id row) (simulation_id row)"

definition complete_job ::
  "('s, json) s3_client \<Rightarrow> string \<Rightarrow> (int \<Rightarrow> string) \<Rightarrow> tx_outcome \<Rightarrow> job_row \<Rightarrow> simulation_result
   \<Rightarrow> int \<Rightarrow> int \<Rightarrow> compute_db \<times> 's \<Rightarrow> (exn + bool) \<times> (compute_db \<times> 's)" where
  "complete_job c bucket isoformat tx row res attempt now st =
     (let sim = uuid_str (simulation_id row);
          cid = uuid_str (job_id row);
          (up, s') = upload_simulation_result c bucket sim cid (res_outputs res)
                       (result_metadata isoformat row res now) (snd st)
      in case up of
           Inl e \<Rightarrow> (Inl e, (fst st, s'))
         | Inr (b, key) \<Rightarrow>
             (let (r, db') = transact tx (complete_update row res b key attempt now) (fst st)
              in (r, (db', s'))))"

subsection \<open>Expiry of outputs\<close>

definition expired_row :: "int \<Rightarrow> job_row \<Rightarrow> job_row" where
  "expired_row now r =
     r\<lparr> outputs := [], outputs_expired_at := Some now, updated_at := now \<rparr>"

definition may_expire :: "uuid \<Rightarrow> job_row \<Rightarrow> bool" where
  "may_expire sid r \<longleftrightarrow>
     simulation_id r = sid \<and> status r = COMPLETED \<and> outputs_expired_at r = None"

definition mark_outputs_expired :: "string \<Rightarrow> int \<Rightarrow> compute_db \<Rightarrow> (exn + bool) \<times> compute_db" where
  "mark_outputs_expired sim now db =
     (case as_uuid sim of
        None \<Rightarrow> (Inl bad_uuid, db)
      | Some sid \<Rightarrow>
          (if \<exists>r \<in> set (rows db). may_expire sid r
           then (Inr True, db\<lparr> rows := update_where (may_expire sid) (expired_row now) (rows db),
                               notified := notified db @ [sid] \<rparr>)
           else (Inr False, db)))"

subsection \<open>Reconciliation with the queue\<close>

text \<open>
  The columns of a row of the queue's \<open>jobs\<close> table that the service's statements read. The
  table belongs to rqueue; here it is an argument. \<open>q_payload\<close> is
  \<open>payload->>'compute_job_id'\<close>, NULL when the payload has no such key.
\<close>

record queue_row =
  q_id :: uuid
  q_queue :: string
  q_task :: string
  q_state :: string
  q_payload :: "string option"
  q_attempt :: int
  q_finished_at :: "int option"
  q_error_type :: "string option"
  q_scheduled_at :: int

definition QUEUE_GAVE_UP :: "string list" where
  "QUEUE_GAVE_UP = [''failed'', ''cancelled'']"

text \<open>\<open>(payload->>'compute_job_id')::uuid\<close>, evaluated only behind the pattern \<open>JOB_ID_RE\<close>.\<close>

definition payload_uuid :: "queue_row \<Rightarrow> uuid option" where
  "payload_uuid q =
     (case q_payload q of
        None \<Rightarrow> None
      | Some t \<Rightarrow> if job_id_re t then map_option word_of_int (int_base16 (filter (\<lambda>c. c \<noteq> CHR ''-'') t)) else None)"

definition gave_up :: "string \<Rightarrow> string \<Rightarrow> int \<Rightarrow> queue_row \<Rightarrow> bool" where
  "gave_up queue_name task cutoff q \<longleftrightarrow>
     q_queue q = queue_name \<and> q_task q = task \<and> q_state q \<in> set QUEUE_GAVE_UP \<and>
     (case q_finished_at q of None \<Rightarrow> False | Some t \<Rightarrow> t < cutoff) \<and>
     payload_uuid q \<noteq> None"

definition reconcilable :: "queue_row \<Rightarrow> job_row \<Rightarrow> bool" where
  "reconcilable q r \<longleftrightarrow>
     payload_uuid q = Some (job_id r) \<and> \<not> terminal (status r) \<and>
     (case owner_attempt r of None \<Rightarrow> True | Some w \<Rightarrow> w \<le> q_attempt q)"

definition reconciled_row :: "int \<Rightarrow> queue_row \<Rightarrow> job_row \<Rightarrow> job_row" where
  "reconciled_row now q r =
     r\<lparr> status := FAILED, details := Some RECONCILED_JOB_DETAILS,
        error_text := Some (reconciled_error (case q_error_type q of None \<Rightarrow> q_state q | Some t \<Rightarrow> t)),
        finished_at := coalesce (finished_at r) (coalesce (q_finished_at q) (Some now)),
        owner_attempt := Some (max (case owner_attempt r of None \<Rightarrow> 0 | Some w \<Rightarrow> w) (q_attempt q)),
        updated_at := now \<rparr>"

text \<open>
  \<open>UPDATE compute.jobs AS j ... FROM gave_up AS q\<close>: each row that joins a gave-up queue row is
  written once. PostgreSQL leaves open which queue row supplies the values when several
  join; the model takes the first.
\<close>

definition reconcile_row :: "int \<Rightarrow> queue_row list \<Rightarrow> job_row \<Rightarrow> job_row" where
  "reconcile_row now qs r =
     (case List.find (\<lambda>q. reconcilable q r) qs of None \<Rightarrow> r | Some q \<Rightarrow> reconciled_row now q r)"

definition reconcile_terminal_jobs ::
  "string \<Rightarrow> string \<Rightarrow> int \<Rightarrow> queue_row list \<Rightarrow> int \<Rightarrow> compute_db \<Rightarrow> uuid list \<times> compute_db" where
  "reconcile_terminal_jobs queue_name task cutoff queue now db =
     (let qs = filter (gave_up queue_name task cutoff) queue;
          hit = filter (\<lambda>r. \<exists>q \<in> set qs. reconcilable q r) (rows db)
      in (map job_id hit,
          db\<lparr> rows := map (reconcile_row now qs) (rows db),
              notified := notified db @ map simulation_id hit \<rparr>))"

text \<open>
  \<open>oldest_queued_age_seconds\<close>: \<open>round(float(age), 1)\<close> of the longest wait among the claimable
  rows, in seconds. Times are microseconds, \<open>round1\<close> is the rounding of Python's floats, an
  argument.
\<close>

definition oldest_queued_age_seconds ::
  "(real \<Rightarrow> real) \<Rightarrow> string \<Rightarrow> int \<Rightarrow> queue_row list \<Rightarrow> real" where
  "oldest_queued_age_seconds round1 queue_name now queue =
     (let waits = map q_scheduled_at
            (filter (\<lambda>q. q_queue q = queue_name \<and> q_state q = ''pending'' \<and> q_scheduled_at q \<le> now) queue)
      in case waits of
           [] \<Rightarrow> 0
         | w # ws \<Rightarrow> round1 (real_of_int (now - foldl min w ws) / 1000000))"

subsection \<open>Creating a job\<close>

text \<open>
  \<open>create_or_get_job\<close>: insert and enqueue in one transaction. \<open>defer\<close> enqueues the new job on
  the same connection; the queue it changes is the second component of the state. Any
  exception rolls both back. A primary key that is already taken is an integrity error.
\<close>

definition unique_violation :: exn where
  "unique_violation = SqlError ''UniqueViolationError'' ''23505''"

definition input_conflict :: exn where
  "input_conflict = ValueError ''Job id already exists with different input''"

definition create_or_get_job ::
  "('q \<Rightarrow> uuid \<Rightarrow> exn + 'q) \<Rightarrow> earthquake_input \<Rightarrow> string \<Rightarrow> uuid \<Rightarrow> int \<Rightarrow> compute_db \<times> 'q
   \<Rightarrow> (exn + job_view) \<times> (compute_db \<times> 'q)" where
  "create_or_get_job defer inp sim new_id now st =
     (case as_uuid sim of
        None \<Rightarrow> (Inl bad_uuid, st)
      | Some sid \<Rightarrow>
          (case fetch_by_simulation_id (fst st) sid of
             Some existing \<Rightarrow>
               (if input_params existing \<noteq> inp then (Inl input_conflict, st)
                else (Inr (status_from_row existing), st))
           | None \<Rightarrow>
               (if new_id \<in> job_id ` set (rows (fst st)) then (Inl unique_violation, st)
                else
                  let row = inserted_row new_id sid inp now in
                  (case defer (snd st) new_id of
                     Inl e \<Rightarrow> (Inl e, st)
                   | Inr q' \<Rightarrow> (Inr (status_from_row row),
                                ((fst st)\<lparr> rows := rows (fst st) @ [row] \<rparr>, q'))))))"

end
