(* ===== verification/JobTrace.thy ===== *)
theory JobTrace
  imports JobStore
begin

text \<open>
  What the repository promises over time. Several workers and the API act on one table in any
  order, so a history is a list of committed operations, each with the attempt number and
  the arguments it was called with; nothing is assumed about their order. The interface the
  task runner relies on (ownership only moves forward, a superseded attempt writes nothing,
  a completed row keeps its result) is the locale \<open>fenced_rows\<close>, whose consequences for
  whole histories are proved once and used through its interpretation on the rows here.
\<close>

subsection \<open>Committed operations\<close>

datatype job_event =
    Started uuid uuid int int
  | Progressed uuid uuid string progress int int
  | FailureRecorded uuid uuid exn "string option" bool int int
  | CompletionRecorded job_row simulation_result string string int int
  | Reconciled string string int "queue_row list" int
  | OutputsExpired string int
  | Created earthquake_input string uuid int

fun apply_event :: "job_event \<Rightarrow> compute_db \<Rightarrow> compute_db" where
  "apply_event (Started j sid a now) db = snd (mark_started j sid a now db)"
| "apply_event (Progressed j sid m p a now) db = snd (record_progress j sid m p a now db)"
| "apply_event (FailureRecorded j sid e st w a now) db = record_failure j sid e st w a now db"
| "apply_event (CompletionRecorded row res b k a now) db = snd (complete_update row res b k a now db)"
| "apply_event (Reconciled qn t ct q now) db = snd (reconcile_terminal_jobs qn t ct q now db)"
| "apply_event (OutputsExpired sim now) db = snd (mark_outputs_expired sim now db)"
| "apply_event (Created inp sim new_id now) db =
     fst (snd (create_or_get_job (\<lambda>q _. Inr q) inp sim new_id now (db, ())))"

definition run_events :: "job_event list \<Rightarrow> compute_db \<Rightarrow> compute_db" where
  "run_events es db = fold apply_event es db"

lemma run_events_simps [simp]:
  "run_events [] db = db"
  "run_events (e # es) db = run_events es (apply_event e db)"
  by (simp_all add: run_events_def)

lemma run_events_append: "run_events (xs @ ys) db = run_events ys (run_events xs db)"
  by (simp add: run_events_def)

subsection \<open>The effect of an operation on one row\<close>

definition guarded :: "('r \<Rightarrow> bool) \<Rightarrow> ('r \<Rightarrow> 'r) \<Rightarrow> 'r \<Rightarrow> 'r" where
  "guarded P f r = (if P r then f r else r)"

fun row_effect :: "job_event \<Rightarrow> job_row \<Rightarrow> job_row" where
  "row_effect (Started j sid a now) r =
     guarded (\<lambda>r. job_id r = j \<and> may_start a r) (started_row a now) r"
| "row_effect (Progressed j sid m p a now) r =
     guarded (\<lambda>r. job_id r = j \<and> owns_unfinished a r) (progressed_row m p now) r"
| "row_effect (FailureRecorded j sid e st w a now) r =
     guarded (\<lambda>r. job_id r = j \<and> owns_unfinished a r)
       (if w then retrying_row e now else failed_row e st now) r"
| "row_effect (CompletionRecorded row res b k a now) r =
     guarded (\<lambda>r. job_id r = job_id row \<and> owns_unfinished a r)
       (completed_row res (manifest (uuid_str (simulation_id row)) (res_outputs res)) b k now) r"
| "row_effect (Reconciled qn t ct q now) r = reconcile_row now (filter (gave_up qn t ct) q) r"
| "row_effect (OutputsExpired sim now) r =
     (case as_uuid sim of None \<Rightarrow> r | Some sid \<Rightarrow> guarded (may_expire sid) (expired_row now) r)"
| "row_effect (Created inp sim new_id now) r = r"

fun created_rows :: "job_event \<Rightarrow> compute_db \<Rightarrow> job_row list" where
  "created_rows (Created inp sim new_id now) db =
     (case as_uuid sim of
        None \<Rightarrow> []
      | Some sid \<Rightarrow>
          if sid \<in> simulation_id ` set (rows db) \<or> new_id \<in> job_id ` set (rows db) then []
          else [inserted_row new_id sid inp now])"
| "created_rows _ db = []"

lemma rows_fenced_write:
  "rows (snd (fenced_write g f j sid db)) = update_where (\<lambda>r. job_id r = j \<and> g r) f (rows db)"
  by (auto simp: fenced_write_def update_where_id)

lemma update_where_guarded: "update_where P f rs = map (guarded P f) rs"
  by (simp add: update_where_def guarded_def [abs_def])

lemma rows_create_or_get_job:
  "rows (fst (snd (create_or_get_job (\<lambda>q _. Inr q) inp sim n now (db, ()))))
     = rows db @ created_rows (Created inp sim n now) db"
proof (cases "as_uuid sim")
  case None
  then show ?thesis by (simp add: create_or_get_job_def)
next
  case (Some sid)
  show ?thesis
  proof (cases "find_by simulation_id sid (rows db)")
    case None
    then have "sid \<notin> simulation_id ` set (rows db)" by (simp only: find_by_None not_False_eq_True)
    with Some None show ?thesis
      by (simp add: create_or_get_job_def fetch_by_simulation_id_def Let_def)
  next
    case (Some r)
    then have "sid \<in> simulation_id ` set (rows db)" by (auto dest: find_by_SomeD)
    with \<open>as_uuid sim = Some sid\<close> Some show ?thesis
      by (simp add: create_or_get_job_def fetch_by_simulation_id_def)
  qed
qed

text \<open>Every operation acts on each row alone, and a creation appends at most one row.\<close>

lemma rows_apply_event:
  "rows (apply_event e db) = map (row_effect e) (rows db) @ created_rows e db"
proof (cases e)
  case (OutputsExpired sim now)
  then show ?thesis
    by (auto simp: mark_outputs_expired_def guarded_def update_where_def
        intro!: map_idI [symmetric] split: option.split)
next
  case (Created inp sim new_id now)
  have "map (row_effect (Created inp sim new_id now)) (rows db) = rows db"
    by (rule map_idI) simp
  with Created show ?thesis by (simp only: apply_event.simps rows_create_or_get_job)
qed (simp_all add: mark_started_def record_progress_def record_failure_def complete_update_def
       reconcile_terminal_jobs_def rows_fenced_write update_where_guarded Let_def)

subsection \<open>Identity and well-formedness are invariants\<close>

lemma reconcile_row_cases:
  obtains "reconcile_row now qs r = r"
  | q where "q \<in> set qs" and "reconcilable q r" and "reconcile_row now qs r = reconciled_row now q r"
proof (cases "List.find (\<lambda>q. reconcilable q r) qs")
  case None
  then show thesis using that(1) by (simp add: reconcile_row_def)
next
  case (Some q)
  then have "q \<in> set qs" and "reconcilable q r"
    by (auto simp: find_Some_iff in_set_conv_nth)
  with Some show thesis using that(2) by (simp add: reconcile_row_def)
qed

lemma reconcile_row_miss: "\<forall>q \<in> set qs. \<not> reconcilable q r \<Longrightarrow> reconcile_row now qs r = r"
  by (cases rule: reconcile_row_cases [of now qs r]) auto

lemma reconcile_row_hit:
  assumes "q \<in> set qs" and "reconcilable q r"
  obtains q' where "q' \<in> set qs" and "reconcilable q' r"
    and "reconcile_row now qs r = reconciled_row now q' r"
proof (cases "List.find (\<lambda>q. reconcilable q r) qs")
  case None
  with assms show thesis by (metis find_None_iff)
next
  case (Some q')
  then have "q' \<in> set qs" and "reconcilable q' r"
    by (auto simp: find_Some_iff in_set_conv_nth)
  with Some show thesis using that by (simp add: reconcile_row_def)
qed

lemma row_effect_id [simp]:
  "job_id (row_effect e r) = job_id r" "simulation_id (row_effect e r) = simulation_id r"
  "input_params (row_effect e r) = input_params r"
proof -
  have rec: "job_id (reconcile_row n qs r) = job_id r \<and>
      simulation_id (reconcile_row n qs r) = simulation_id r \<and>
      input_params (reconcile_row n qs r) = input_params r" for n qs
    by (cases rule: reconcile_row_cases [of n qs r]) (simp_all add: reconciled_row_def)
  have "job_id (row_effect e r) = job_id r \<and> simulation_id (row_effect e r) = simulation_id r \<and>
      input_params (row_effect e r) = input_params r"
    by (cases e) (auto simp: guarded_def started_row_def progressed_row_def retrying_row_def
        failed_row_def completed_row_def expired_row_def rec split: option.split)
  then show "job_id (row_effect e r) = job_id r" "simulation_id (row_effect e r) = simulation_id r"
    "input_params (row_effect e r) = input_params r" by auto
qed

lemma row_wf_reconcile: "row_wf r \<Longrightarrow> row_wf (reconcile_row now qs r)"
  by (cases rule: reconcile_row_cases [of now qs r])
     (auto simp: row_wf_def reconciled_row_def reconcilable_def terminal_iff coalesce_def split: option.splits)

lemma row_wf_effect [wf_intros]: "row_wf r \<Longrightarrow> row_wf (row_effect e r)"
proof (cases e)
  case (Started j sid a now)
  then show "row_wf r \<Longrightarrow> row_wf (row_effect e r)"
    by (auto simp: guarded_def row_wf_def started_row_def may_start_def terminal_iff)
next
  case (Progressed j sid m p a now)
  then show "row_wf r \<Longrightarrow> row_wf (row_effect e r)"
    by (cases "status r")
       (auto simp: guarded_def row_wf_def progressed_row_def owns_unfinished_def terminal_iff)
next
  case (FailureRecorded j sid ex st w a now)
  then show "row_wf r \<Longrightarrow> row_wf (row_effect e r)"
    by (cases "status r")
       (auto simp: guarded_def row_wf_def retrying_row_def failed_row_def owns_unfinished_def terminal_iff)
next
  case (CompletionRecorded row res b k a now)
  then show "row_wf r \<Longrightarrow> row_wf (row_effect e r)"
    by (cases "status r")
       (auto simp: guarded_def row_wf_def completed_row_def owns_unfinished_def terminal_iff)
next
  case (OutputsExpired sim now)
  then show "row_wf r \<Longrightarrow> row_wf (row_effect e r)"
    by (auto simp: guarded_def row_wf_def expired_row_def may_expire_def terminal_iff split: option.split)
qed (simp_all add: row_wf_reconcile)

lemma created_rows_wf: "r \<in> set (created_rows e db) \<Longrightarrow> row_wf r"
  by (cases e)
     (auto simp: as_uuid_def Let_def set_version4_idem intro!: row_wf_inserted
       split: option.splits if_splits)

lemma created_rows_cases:
  obtains "created_rows e db = []"
  | r where "created_rows e db = [r]" and "job_id r \<notin> job_id ` set (rows db)"
      and "simulation_id r \<notin> simulation_id ` set (rows db)"
proof (cases e)
  case (Created inp sim new_id now)
  show thesis
  proof (cases "\<exists>sid. as_uuid sim = Some sid \<and> sid \<notin> simulation_id ` set (rows db)
      \<and> new_id \<notin> job_id ` set (rows db)")
    case True
    with Created show thesis using that(2) by auto
  next
    case False
    with Created show thesis using that(1) by (auto split: option.split)
  qed
qed (use that(1) in simp_all)

lemma distinct_keys_apply_event:
  assumes "db_wf db"
  shows "distinct (map job_id (rows (apply_event e db)))"
    and "distinct (map simulation_id (rows (apply_event e db)))"
proof -
  have keys: "map job_id (map (row_effect e) rs) = map job_id rs"
      "map simulation_id (map (row_effect e) rs) = map simulation_id rs" for rs
    by simp_all
  show "distinct (map job_id (rows (apply_event e db)))"
    by (cases rule: created_rows_cases [of e db])
       (use assms in \<open>simp_all add: rows_apply_event keys db_wf_def del: map_map\<close>)
  show "distinct (map simulation_id (rows (apply_event e db)))"
    by (cases rule: created_rows_cases [of e db])
       (use assms in \<open>simp_all add: rows_apply_event keys db_wf_def del: map_map\<close>)
qed

lemma db_wf_apply_event [wf_intros]:
  assumes "db_wf db"
  shows "db_wf (apply_event e db)"
proof -
  have "\<forall>r \<in> set (rows (apply_event e db)). row_wf r"
    using assms by (auto simp: rows_apply_event db_wf_def intro: wf_intros created_rows_wf)
  with distinct_keys_apply_event [OF assms, of e] show ?thesis by (simp add: db_wf_def)
qed

lemma db_wf_run_events [wf_intros]: "db_wf db \<Longrightarrow> db_wf (run_events es db)"
  by (induction es arbitrary: db) (auto intro: wf_intros)

subsection \<open>The interface: rows with an owner\<close>

text \<open>
  \<open>effect e r\<close> is what operation \<open>e\<close> makes of row \<open>r\<close>, \<open>writer e\<close> the attempt that performs
  it (none for maintenance), \<open>owner r\<close> the attempt that owns the row, \<open>settled\<close> the rows
  whose \<open>result\<close> is final.
\<close>

locale fenced_rows =
  fixes effect :: "'e \<Rightarrow> 'r \<Rightarrow> 'r"
    and writer :: "'e \<Rightarrow> int option"
    and owner :: "'r \<Rightarrow> int option"
    and settled :: "'r \<Rightarrow> bool"
    and result :: "'r \<Rightarrow> 'c"
  assumes owner_forward: "owner r = Some a \<Longrightarrow> \<exists>b. owner (effect e r) = Some b \<and> a \<le> b"
    and superseded: "writer e = Some a \<Longrightarrow> owner r = Some b \<Longrightarrow> a < b \<Longrightarrow> effect e r = r"
    and settled_stable: "settled r \<Longrightarrow> settled (effect e r) \<and> result (effect e r) = result r"
begin

lemma owner_forward_run:
  "owner r = Some a \<Longrightarrow> \<exists>b. owner (fold effect es r) = Some b \<and> a \<le> b"
proof (induction es arbitrary: r a)
  case (Cons e es)
  obtain b where "owner (effect e r) = Some b" and "a \<le> b"
    using owner_forward [OF Cons.prems] by blast
  with Cons.IH [of "effect e r" b] show ?case by (auto intro: order_trans)
qed simp

lemma settled_run:
  "settled r \<Longrightarrow> settled (fold effect es r) \<and> result (fold effect es r) = result r"
  by (induction es arbitrary: r) (simp_all add: settled_stable)

text \<open>Once \<open>b\<close> owns the row, the operations of every older attempt can be struck from the history.\<close>

lemma erase_superseded:
  assumes "owner r = Some w" and "b \<le> w"
  shows "fold effect es r
    = fold effect (filter (\<lambda>e. case writer e of None \<Rightarrow> True | Some a \<Rightarrow> b \<le> a) es) r"
  using assms
proof (induction es arbitrary: r w)
  case (Cons e es)
  show ?case
  proof (cases "case writer e of None \<Rightarrow> True | Some a \<Rightarrow> b \<le> a")
    case True
    obtain w' where "owner (effect e r) = Some w'" and "w \<le> w'"
      using owner_forward [OF Cons.prems(1)] by blast
    with Cons.IH [of "effect e r" w'] Cons.prems(2) True show ?thesis by simp
  next
    case False
    then obtain a where "writer e = Some a" and "a < b" by (auto split: option.splits)
    then have "effect e r = r" using superseded [of e a r w] Cons.prems by simp
    with Cons.IH [OF Cons.prems] False show ?thesis by simp
  qed
qed simp

end

subsection \<open>The rows of \<open>compute.jobs\<close> provide it\<close>

fun event_attempt :: "job_event \<Rightarrow> int option" where
  "event_attempt (Started j sid a now) = Some a"
| "event_attempt (Progressed j sid m p a now) = Some a"
| "event_attempt (FailureRecorded j sid e st w a now) = Some a"
| "event_attempt (CompletionRecorded row res b k a now) = Some a"
| "event_attempt _ = None"

text \<open>Everything of a completed row but the columns that expiry writes.\<close>

definition final_columns :: "job_row \<Rightarrow> job_row" where
  "final_columns r = r\<lparr> outputs := [], outputs_expired_at := None, updated_at := 0 \<rparr>"

lemma owner_forward_effect:
  assumes "owner_attempt r = Some a"
  shows "\<exists>b. owner_attempt (row_effect e r) = Some b \<and> a \<le> b"
proof (cases e)
  case (Reconciled qn t ct q now)
  then show ?thesis using assms
    by (cases rule: reconcile_row_cases [of now "filter (gave_up qn t ct) q" r])
       (simp_all add: reconciled_row_def)
qed (use assms in \<open>auto simp: guarded_def started_row_def may_start_def progressed_row_def
       retrying_row_def failed_row_def completed_row_def expired_row_def split: option.split\<close>)

lemma reconcile_row_terminal: "terminal (status r) \<Longrightarrow> reconcile_row now qs r = r"
  by (cases rule: reconcile_row_cases [of now qs r]) (auto simp: reconcilable_def)

lemma completed_effect:
  assumes "status r = COMPLETED"
  shows "status (row_effect e r) = COMPLETED \<and> final_columns (row_effect e r) = final_columns r"
  using assms
  by (cases e) (auto simp: guarded_def may_start_def owns_unfinished_def terminal_iff
      reconcile_row_terminal expired_row_def final_columns_def split: option.split)

interpretation jobs: fenced_rows row_effect event_attempt owner_attempt
  "\<lambda>r. status r = COMPLETED" final_columns
proof unfold_locales
  fix e :: job_event and r :: job_row and a b
  assume "event_attempt e = Some a" and "owner_attempt r = Some b" and "a < b"
  then show "row_effect e r = r"
    by (cases e) (auto simp: guarded_def may_start_def owns_unfinished_def)
qed (simp_all add: owner_forward_effect completed_effect)

text \<open>A history acts on a row by the effects of its operations.\<close>

lemma row_of_apply_event:
  "row_of db j = Some r \<Longrightarrow> row_of (apply_event e db) j = Some (row_effect e r)"
  by (simp add: rows_apply_event find_by_append find_by_map)

lemma row_of_run_events:
  "row_of db j = Some r \<Longrightarrow> row_of (run_events es db) j = Some (fold row_effect es r)"
  by (induction es arbitrary: db r) (simp_all add: row_of_apply_event)

end
