(* ===== verification/TaskRun.thy ===== *)
theory TaskRun
  imports JobTrace
begin

text \<open>
  The queue's tasks (api/core/tasks.py): the payload of a job, one run of the simulation task
  from delivery to its end, and the maintenance passes (expiry of outputs, sweep, purge).
  What a run cannot decide itself is in its environment, a record of outcomes: whether a
  connection is obtained, how a transaction ends, what other actors commit to the table
  between two of its own steps, what the kernel reports and returns. The workspace claim is
  the theory \<open>Workspace\<close>; here it is one outcome among the others.
\<close>

subsection \<open>Payloads\<close>

definition RUN_SIMULATION :: string where
  "RUN_SIMULATION = ''api.run_simulation''"

record enqueue_request =
  eq_task :: string
  eq_payload :: json
  eq_dedupe_key :: string
  eq_on_conflict :: string
  eq_concurrency_key :: string

definition enqueue_simulation :: "uuid \<Rightarrow> enqueue_request" where
  "enqueue_simulation j =
     \<lparr> eq_task = RUN_SIMULATION, eq_payload = JObj [(''compute_job_id'', JStr (uuid_str j))],
       eq_dedupe_key = ''simulation:'' @ uuid_str j, eq_on_conflict = ''return_existing'',
       eq_concurrency_key = ''compute-job:'' @ uuid_str j \<rparr>"

text \<open>\<open>py_str\<close> is Python's \<open>str\<close> on the values that are not strings.\<close>

definition decode_payload :: "(json \<Rightarrow> string) \<Rightarrow> json \<Rightarrow> exn + uuid" where
  "decode_payload py_str payload =
     (case payload of
        JObj members \<Rightarrow>
          (case map_of members ''compute_job_id'' of
             None \<Rightarrow> Inl (OtherError ''KeyError'')
           | Some v \<Rightarrow>
               (case as_uuid (case v of JStr s \<Rightarrow> s | _ \<Rightarrow> py_str v) of
                  None \<Rightarrow> Inl bad_uuid
                | Some u \<Rightarrow> Inr u))
      | _ \<Rightarrow> Inl (ValueError ''simulation payload must be a JSON object''))"

subsection \<open>The environment of a run\<close>

text \<open>The outcome of something awaited: it ends, or the coroutine is cancelled meanwhile.\<close>

datatype 'a awaited = Ended "exn + 'a" | Cancelled

text \<open>
  One database access: what others commit before it, whether a connection is obtained, how
  the transaction ends, and the time it takes place.
\<close>

record db_access =
  da_before :: "job_event list"
  da_conn :: "exn + unit"
  da_tx :: tx_outcome
  da_now :: int

text \<open>One call of the progress callback by the kernel.\<close>

record progress_call =
  pc_message :: string
  pc_progress :: progress
  pc_access :: db_access

record task_env =
  env_read :: db_access
  env_start :: db_access
  env_stand_down :: db_access
  env_claim :: "bool awaited"
  env_calls :: "progress_call list"
  env_kernel :: "simulation_result awaited"
  env_complete :: db_access
  env_cancel_complete :: bool
  env_step :: db_access
  env_failure :: db_access
  env_cancel_failure :: bool
  env_will_retry :: "exn \<Rightarrow> bool"

text \<open>\<open>async with db.acquire() as conn\<close> around one transaction, and around a read.\<close>

definition access_db ::
  "db_access \<Rightarrow> (compute_db \<Rightarrow> 'a \<times> compute_db) \<Rightarrow> compute_db \<Rightarrow> (exn + 'a) \<times> compute_db" where
  "access_db da f db =
     (let db1 = run_events (da_before da) db in
      case acquire (da_conn da) of
        Inl e \<Rightarrow> (Inl e, db1)
      | Inr _ \<Rightarrow> transact (da_tx da) f db1)"

definition read_row :: "db_access \<Rightarrow> uuid \<Rightarrow> compute_db \<Rightarrow> (exn + job_row option) \<times> compute_db" where
  "read_row da j = access_db da (\<lambda>db. (fetch_by_id db j, db))"

subsection \<open>The run\<close>

definition no_longer_owns :: exn where
  "no_longer_owns = CancelJob ''attempt no longer owns this job''"

definition abandoned_attempt :: exn where
  "abandoned_attempt = AbandonedAttempt ''attempt no longer owns this job''"

text \<open>
  The kernel thread: each progress report is written before the kernel goes on; a refused
  write ends the kernel with \<open>AbandonedAttempt\<close>, a failed one with its exception.
\<close>

fun run_progress ::
  "uuid \<Rightarrow> uuid \<Rightarrow> int \<Rightarrow> progress_call list \<Rightarrow> compute_db \<Rightarrow> (exn + unit) \<times> compute_db" where
  "run_progress j sid attempt [] db = (Inr (), db)"
| "run_progress j sid attempt (c # cs) db =
     (case access_db (pc_access c)
         (record_progress j sid (pc_message c) (pc_progress c) attempt (da_now (pc_access c))) db of
        (Inl e, db') \<Rightarrow> (Inl e, db')
      | (Inr False, db') \<Rightarrow> (Inl abandoned_attempt, db')
      | (Inr True, db') \<Rightarrow> run_progress j sid attempt cs db')"

definition run_kernel ::
  "uuid \<Rightarrow> uuid \<Rightarrow> int \<Rightarrow> task_env \<Rightarrow> compute_db \<Rightarrow> simulation_result awaited \<times> compute_db" where
  "run_kernel j sid attempt env db =
     (case run_progress j sid attempt (env_calls env) db of
        (Inl e, db') \<Rightarrow> (Ended (Inl e), db')
      | (Inr _, db') \<Rightarrow> (env_kernel env, db'))"

datatype task_end = TaskReturns | TaskRaises exn | TaskCancelled

text \<open>
  \<open>_record_failure\<close>: the failed step is read first, then the failure is written on the same
  connection; an error of either is swallowed.
\<close>

definition record_task_failure ::
  "uuid \<Rightarrow> uuid \<Rightarrow> int \<Rightarrow> task_env \<Rightarrow> exn \<Rightarrow> compute_db \<Rightarrow> compute_db" where
  "record_task_failure j sid attempt env e db =
     (case access_db (env_step env) (\<lambda>db. (get_current_step db j, db)) db of
        (Inl _, db1) \<Rightarrow> db1
      | (Inr failed_step, db1) \<Rightarrow>
          (let da = env_failure env; db2 = run_events (da_before da) db1 in
           snd (transact (da_tx da)
                  (\<lambda>db. ((), record_failure j sid e failed_step (env_will_retry env e) attempt (da_now da) db))
                  db2)))"

text \<open>\<open>_stand_down\<close>: the attempt whose claim of the row was refused.\<close>

definition stand_down :: "uuid \<Rightarrow> task_env \<Rightarrow> compute_db \<Rightarrow> task_end \<times> compute_db" where
  "stand_down j env db =
     (case read_row (env_stand_down env) j db of
        (Inl e, db') \<Rightarrow> (TaskRaises e, db')
      | (Inr current, db') \<Rightarrow>
          (case current of
             None \<Rightarrow> (TaskRaises no_longer_owns, db')
           | Some r \<Rightarrow> (if status r = COMPLETED then TaskReturns else TaskRaises no_longer_owns, db')))"

text \<open>
  The \<open>except\<close> clauses around claim, kernel and completion: a cancellation passes, an
  abandoned attempt becomes \<open>CancelJob\<close>, any other exception is recorded and raised again.
\<close>

definition task_failed ::
  "uuid \<Rightarrow> uuid \<Rightarrow> int \<Rightarrow> task_env \<Rightarrow> exn \<Rightarrow> compute_db \<Rightarrow> task_end \<times> compute_db" where
  "task_failed j sid attempt env e db =
     (case e of
        AbandonedAttempt m \<Rightarrow> (TaskRaises (CancelJob m), db)
      | _ \<Rightarrow> (if env_cancel_failure env then TaskCancelled else TaskRaises e,
              record_task_failure j sid attempt env e db))"

text \<open>\<open>complete_job\<close> on a borrowed connection; \<open>store\<close> is the state of the object store.\<close>

definition finish_run ::
  "('s, json) s3_client \<Rightarrow> string \<Rightarrow> (int \<Rightarrow> string) \<Rightarrow> job_row \<Rightarrow> int \<Rightarrow> task_env \<Rightarrow> simulation_result
   \<Rightarrow> compute_db \<times> 's \<Rightarrow> (exn + bool) \<times> (compute_db \<times> 's)" where
  "finish_run c bucket isoformat row attempt env res st =
     (let da = env_complete env; db1 = run_events (da_before da) (fst st) in
      case acquire (da_conn da) of
        Inl e \<Rightarrow> (Inl e, (db1, snd st))
      | Inr _ \<Rightarrow> complete_job c bucket isoformat (da_tx da) row res attempt (da_now da) (db1, snd st))"

definition run_claimed ::
  "('s, json) s3_client \<Rightarrow> string \<Rightarrow> (int \<Rightarrow> string) \<Rightarrow> job_row \<Rightarrow> int \<Rightarrow> task_env
   \<Rightarrow> compute_db \<times> 's \<Rightarrow> task_end \<times> (compute_db \<times> 's)" where
  "run_claimed c bucket isoformat row attempt env st =
     (let j = job_id row; sid = simulation_id row; (db, s) = st;
          failed = (\<lambda>e db s. let (r, db') = task_failed j sid attempt env e db in (r, (db', s)))
      in case env_claim env of
           Cancelled \<Rightarrow> (TaskCancelled, (db, s))
         | Ended (Inl e) \<Rightarrow> failed e db s
         | Ended (Inr resume) \<Rightarrow>
             (case run_kernel j sid attempt env db of
                (Cancelled, db') \<Rightarrow> (TaskCancelled, (db', s))
              | (Ended (Inl e), db') \<Rightarrow> failed e db' s
              | (Ended (Inr res), db') \<Rightarrow>
                  (case finish_run c bucket isoformat row attempt env res (db', s) of
                     (Inl e, (db2, s2)) \<Rightarrow>
                       (if env_cancel_complete env then (TaskCancelled, (db2, s2)) else failed e db2 s2)
                   | (Inr recorded, (db2, s2)) \<Rightarrow>
                       (if env_cancel_complete env then TaskCancelled
                        else if recorded then TaskReturns
                        else TaskRaises no_longer_owns, (db2, s2)))))"

definition run_simulation_task ::
  "('s, json) s3_client \<Rightarrow> string \<Rightarrow> (int \<Rightarrow> string) \<Rightarrow> uuid \<Rightarrow> int \<Rightarrow> task_env
   \<Rightarrow> compute_db \<times> 's \<Rightarrow> task_end \<times> (compute_db \<times> 's)" where
  "run_simulation_task c bucket isoformat j attempt env st =
     (case read_row (env_read env) j (fst st) of
        (Inl e, db1) \<Rightarrow> (TaskRaises e, (db1, snd st))
      | (Inr None, db1) \<Rightarrow> (TaskRaises (PermanentFailure ''Unknown compute job''), (db1, snd st))
      | (Inr (Some row), db1) \<Rightarrow>
          (case access_db (env_start env)
              (mark_started j (simulation_id row) attempt (da_now (env_start env))) db1 of
             (Inl e, db2) \<Rightarrow> (TaskRaises e, (db2, snd st))
           | (Inr False, db2) \<Rightarrow>
               (let (r, db3) = stand_down j env db2 in (r, (db3, snd st)))
           | (Inr True, db2) \<Rightarrow> run_claimed c bucket isoformat row attempt env (db2, snd st)))"

subsection \<open>A run is a history\<close>

text \<open>
  The operations a run commits itself: those of its attempt on its job. Between them stand
  the operations of the others, as the environment gives them.
\<close>

fun own_event :: "uuid \<Rightarrow> uuid \<Rightarrow> int \<Rightarrow> job_event \<Rightarrow> bool" where
  "own_event j sid a (Started j' sid' a' now) = (j' = j \<and> sid' = sid \<and> a' = a)"
| "own_event j sid a (Progressed j' sid' m p a' now) = (j' = j \<and> sid' = sid \<and> a' = a)"
| "own_event j sid a (FailureRecorded j' sid' e st w a' now) = (j' = j \<and> sid' = sid \<and> a' = a)"
| "own_event j sid a (CompletionRecorded row res b k a' now) = (job_id row = j \<and> simulation_id row = sid \<and> a' = a)"
| "own_event j sid a _ = False"

text \<open>\<open>extends others P db db'\<close>: a history of own operations and of operations of the
  others leads from \<open>db\<close> to \<open>db'\<close>.\<close>

definition extends :: "job_event set \<Rightarrow> (job_event \<Rightarrow> bool) \<Rightarrow> compute_db \<Rightarrow> compute_db \<Rightarrow> bool" where
  "extends others own db db' \<longleftrightarrow> (\<exists>es. (\<forall>e \<in> set es. e \<in> others \<or> own e) \<and> db' = run_events es db)"

lemma extends_refl [intro]: "extends others own db db"
  unfolding extends_def by (rule exI [of _ "[]"]) simp

lemma extends_trans: "extends X own db db1 \<Longrightarrow> extends X own db1 db2 \<Longrightarrow> extends X own db db2"
  unfolding extends_def by (metis Un_iff run_events_append set_append)

lemma extends_others: "set es \<subseteq> X \<Longrightarrow> extends X own db (run_events es db)"
  unfolding extends_def by blast

lemma extends_event: "own e \<Longrightarrow> extends X own db (apply_event e db)"
  unfolding extends_def by (rule exI [of _ "[e]"]) simp

lemma extends_mono: "extends X own db db' \<Longrightarrow> X \<subseteq> Y \<Longrightarrow> (\<And>e. own e \<Longrightarrow> own' e) \<Longrightarrow> extends Y own' db db'"
  unfolding extends_def by blast

lemma transact_extends:
  assumes "extends X own db (snd (f db))"
  shows "extends X own db (snd (transact tx f db))"
  using assms by (cases tx) (auto split: prod.splits)

lemma access_extends:
  assumes "\<And>db. extends X own db (snd (f db))" and "set (da_before da) \<subseteq> X"
  shows "extends X own db (snd (access_db da f db))"
proof -
  have "extends X own (run_events (da_before da) db) (snd (transact (da_tx da) f (run_events (da_before da) db)))"
    by (rule transact_extends [OF assms(1)])
  then have "extends X own db (snd (transact (da_tx da) f (run_events (da_before da) db)))"
    by (rule extends_trans [OF extends_others [OF assms(2)]])
  with extends_others [OF assms(2), of own db] show ?thesis
    by (auto simp: access_db_def Let_def split: sum.split)
qed

definition others_of :: "task_env \<Rightarrow> job_event set" where
  "others_of env =
     set (da_before (env_read env)) \<union> set (da_before (env_start env)) \<union>
     set (da_before (env_stand_down env)) \<union> (\<Union>c \<in> set (env_calls env). set (da_before (pc_access c))) \<union>
     set (da_before (env_complete env)) \<union> set (da_before (env_step env)) \<union> set (da_before (env_failure env))"

lemma mark_started_extends:
  "extends X (own_event j sid a) db (snd (mark_started j sid a now db))"
  using extends_event [of "own_event j sid a" "Started j sid a now" X db] by simp

lemma record_progress_extends:
  "extends X (own_event j sid a) db (snd (record_progress j sid m p a now db))"
  using extends_event [of "own_event j sid a" "Progressed j sid m p a now" X db] by simp

lemma record_failure_extends:
  "extends X (own_event j sid a) db (snd ((), record_failure j sid e st w a now db))"
  using extends_event [of "own_event j sid a" "FailureRecorded j sid e st w a now" X db] by simp

lemma complete_update_extends:
  "extends X (own_event (job_id row) (simulation_id row) a) db (snd (complete_update row res b k a now db))"
  using extends_event [of "own_event (job_id row) (simulation_id row) a" "CompletionRecorded row res b k a now" X db]
  by simp

lemma run_progress_extends:
  assumes "(\<Union>c \<in> set cs. set (da_before (pc_access c))) \<subseteq> X"
  shows "extends X (own_event j sid a) db (snd (run_progress j sid a cs db))"
  using assms
proof (induction cs arbitrary: db)
  case (Cons c cs)
  let ?r = "access_db (pc_access c) (record_progress j sid (pc_message c) (pc_progress c) a (da_now (pc_access c))) db"
  have step: "extends X (own_event j sid a) db (snd ?r)"
    by (rule access_extends [OF record_progress_extends]) (use Cons.prems in auto)
  have rest: "extends X (own_event j sid a) (snd ?r) (snd (run_progress j sid a cs (snd ?r)))"
    by (rule Cons.IH) (use Cons.prems in auto)
  show ?case
    using step extends_trans [OF step rest]
    by (cases ?r) (auto split: sum.split bool.split)
qed auto

lemma record_task_failure_extends:
  assumes "others_of env \<subseteq> X"
  shows "extends X (own_event j sid a) db (record_task_failure j sid a env e db)"
proof -
  let ?r = "access_db (env_step env) (\<lambda>db. (get_current_step db j, db)) db"
  have step: "extends X (own_event j sid a) db (snd ?r)"
    by (rule access_extends) (use assms in \<open>auto simp: others_of_def\<close>)
  have mid: "extends X (own_event j sid a) (snd ?r) (run_events (da_before (env_failure env)) (snd ?r))"
    by (rule extends_others) (use assms in \<open>auto simp: others_of_def\<close>)
  have fin: "extends X (own_event j sid a) db'
      (snd (transact tx (\<lambda>db. ((), record_failure j sid e st w a now db)) db'))" for db' tx st w now
    by (rule transact_extends [OF record_failure_extends])
  show ?thesis
    using step extends_trans [OF step extends_trans [OF mid fin]]
    by (cases ?r) (auto simp: record_task_failure_def Let_def split: sum.split)
qed

subsection \<open>Accesses that succeed\<close>

lemma transact_ok: "transact tx f db = (Inr r, db') \<Longrightarrow> f db = (r, db')"
  by (cases tx) (auto simp: transient_connection_errors_def split: prod.splits exn.splits if_splits)

lemma access_ok_cases:
  assumes "access_db da f db = (Inr r, db')"
  shows "f (run_events (da_before da) db) = (r, db')"
  using assms by (cases "da_tx da")
    (auto simp: access_db_def Let_def transient_connection_errors_def split: sum.splits prod.splits exn.splits if_splits)

end
