(* ===== verification/Maintenance.thy ===== *)
theory Maintenance
  imports TaskRun
begin

text \<open>
  The maintenance passes of the worker (api/core/tasks.py): expiry of old outputs, the purge
  of finished queue rows, the periodic loop around every pass, and the registration of the
  task. Times are microseconds; \<open>now\<close> is the clock.
\<close>

subsection \<open>Expiry of outputs\<close>

text \<open>
  The state of a pass: table, object store, number of database accesses so far and jobs
  expired so far. The \<open>n\<close>-th access has the outcome \<open>das n\<close>.
\<close>

record 's expiry =
  x_db :: compute_db
  x_store :: 's
  x_calls :: nat
  x_expired :: nat

definition expiry_access ::
  "(nat \<Rightarrow> db_access) \<Rightarrow> (int \<Rightarrow> compute_db \<Rightarrow> (exn + 'a) \<times> compute_db) \<Rightarrow> 's expiry \<Rightarrow> (exn + 'a) \<times> 's expiry" where
  "expiry_access das f x =
     (let da = das (x_calls x); (r, db') = access_db da (f (da_now da)) (x_db x)
      in (case r of Inl e \<Rightarrow> Inl e | Inr q \<Rightarrow> q, x\<lparr> x_db := db', x_calls := x_calls x + 1 \<rparr>))"

text \<open>The body of the \<open>for\<close>: files first, then the manifest.\<close>

fun expire_ids ::
  "('s, 'm) s3_client \<Rightarrow> (nat \<Rightarrow> db_access) \<Rightarrow> string list \<Rightarrow> 's expiry \<Rightarrow> (exn + unit) \<times> 's expiry" where
  "expire_ids c das [] x = (Inr (), x)"
| "expire_ids c das (sim # sims) x =
     (case delete_simulation_outputs c sim (x_store x) of
        (Inl e, s) \<Rightarrow> (Inl e, x\<lparr> x_store := s \<rparr>)
      | (Inr _, s) \<Rightarrow>
          (case expiry_access das (\<lambda>now. mark_outputs_expired sim now) (x\<lparr> x_store := s \<rparr>) of
             (Inl e, x') \<Rightarrow> (Inl e, x')
           | (Inr stamped, x') \<Rightarrow>
               expire_ids c das sims (if stamped then x'\<lparr> x_expired := x_expired x' + 1 \<rparr> else x')))"

text \<open>\<open>while True\<close>: fuel bounds the passes; None is a pass that has not returned yet.\<close>

fun expire_loop ::
  "nat \<Rightarrow> ('s, 'm) s3_client \<Rightarrow> (nat \<Rightarrow> db_access) \<Rightarrow> int \<Rightarrow> nat \<Rightarrow> 's expiry \<Rightarrow> ((exn + nat) \<times> 's expiry) option" where
  "expire_loop 0 c das cutoff batch x = None"
| "expire_loop (Suc n) c das cutoff batch x =
     (case expiry_access das (\<lambda>_ db. (Inr (list_jobs_with_expired_outputs db cutoff batch), db)) x of
        (Inl e, x1) \<Rightarrow> Some (Inl e, x1)
      | (Inr ids, x1) \<Rightarrow>
          (case expire_ids c das ids x1 of
             (Inl e, x2) \<Rightarrow> Some (Inl e, x2)
           | (Inr _, x2) \<Rightarrow>
               if length ids < batch then Some (Inr (x_expired x2), x2)
               else expire_loop n c das cutoff batch x2))"

definition EXPIRY_BATCH :: nat where
  "EXPIRY_BATCH = 100"

definition expire_old_outputs ::
  "nat \<Rightarrow> ('s, 'm) s3_client \<Rightarrow> (nat \<Rightarrow> db_access) \<Rightarrow> int \<Rightarrow> int \<Rightarrow> nat \<Rightarrow> compute_db \<times> 's
   \<Rightarrow> ((exn + nat) \<times> 's expiry) option" where
  "expire_old_outputs fuel c das now retention batch st =
     expire_loop fuel c das (now - retention) batch
       \<lparr> x_db = fst st, x_store = snd st, x_calls = 0, x_expired = 0 \<rparr>"

subsection \<open>Sweep of abandoned workspaces\<close>

text \<open>\<open>remove\<close> is \<open>remove_workspace\<close> on the directory of a simulation, in a thread.\<close>

definition WORK_DIR_TTL :: int where
  "WORK_DIR_TTL = 24 * 60 * 60 * 1000000"

definition sweep_abandoned_work_dirs ::
  "(string \<Rightarrow> 'f \<Rightarrow> 'f) \<Rightarrow> int \<Rightarrow> compute_db \<Rightarrow> 'f \<Rightarrow> 'f" where
  "sweep_abandoned_work_dirs remove now db fs =
     fold remove (list_abandoned_work_dirs db (now - WORK_DIR_TTL)) fs"

subsection \<open>Purge of finished queue rows\<close>

definition JOB_RETENTION :: int where
  "JOB_RETENTION = 7 * 24 * 60 * 60 * 1000000"

definition PURGE_LIMIT :: nat where
  "PURGE_LIMIT = 10000"

text \<open>\<open>terminal_states\<close> is rqueue's \<open>TERMINAL_STATES\<close>, an argument.\<close>

definition queue_finished_before :: "int \<Rightarrow> queue_row \<Rightarrow> bool" where
  "queue_finished_before cutoff q = (case q_finished_at q of None \<Rightarrow> False | Some t \<Rightarrow> t < cutoff)"

definition purge_candidate :: "string \<Rightarrow> string list \<Rightarrow> int \<Rightarrow> queue_row \<Rightarrow> bool" where
  "purge_candidate queue_name terminal_states cutoff q \<longleftrightarrow>
     q_queue q = queue_name \<and> q_state q \<in> set terminal_states \<and> queue_finished_before cutoff q \<and>
     payload_uuid q \<noteq> None"

text \<open>The join: a candidate whose compute row exists and is terminal.\<close>

definition eligible_queue_job_ids ::
  "string \<Rightarrow> string list \<Rightarrow> int \<Rightarrow> compute_db \<Rightarrow> queue_row list \<Rightarrow> uuid list" where
  "eligible_queue_job_ids queue_name terminal_states cutoff db queue =
     map q_id (take PURGE_LIMIT
       (sort_key (\<lambda>q. case q_finished_at q of None \<Rightarrow> 0 | Some t \<Rightarrow> t)
         (filter (\<lambda>q. purge_candidate queue_name terminal_states cutoff q \<and>
                      (\<exists>r \<in> set (rows db). payload_uuid q = Some (job_id r) \<and> terminal (status r)))
           queue)))"

definition deletable :: "string \<Rightarrow> string list \<Rightarrow> int \<Rightarrow> uuid list \<Rightarrow> queue_row \<Rightarrow> bool" where
  "deletable queue_name terminal_states cutoff ids q \<longleftrightarrow>
     q_id q \<in> set ids \<and> q_queue q = queue_name \<and> q_state q \<in> set terminal_states \<and>
     queue_finished_before cutoff q"

definition delete_queue_job_ids ::
  "string \<Rightarrow> string list \<Rightarrow> int \<Rightarrow> uuid list \<Rightarrow> queue_row list \<Rightarrow> nat \<times> queue_row list" where
  "delete_queue_job_ids queue_name terminal_states cutoff ids queue =
     (if ids = [] then (0, queue)
      else (length (filter (deletable queue_name terminal_states cutoff ids) queue),
            filter (\<lambda>q. \<not> deletable queue_name terminal_states cutoff ids q) queue))"

text \<open>
  \<open>purge_finished_jobs\<close>: select on the worker's pool, delete on the purger's. Between the two
  the queue and the table may change: \<open>queue'\<close> is what the deletion finds.
\<close>

definition purge_finished_jobs ::
  "string \<Rightarrow> string list \<Rightarrow> int \<Rightarrow> compute_db \<Rightarrow> queue_row list \<Rightarrow> queue_row list \<Rightarrow> nat \<times> queue_row list" where
  "purge_finished_jobs queue_name terminal_states now db queue queue' =
     (let cutoff = now - JOB_RETENTION;
          ids = eligible_queue_job_ids queue_name terminal_states cutoff db queue
      in delete_queue_job_ids queue_name terminal_states cutoff ids queue')"

subsection \<open>The periodic loop\<close>

text \<open>
  \<open>_run_periodically\<close> over a list of rounds: whether \<open>stop\<close> is set when the loop tests it, and
  the outcome of the pass, which is logged when it is an exception.
\<close>

fun run_periodically :: "('w \<Rightarrow> (exn + unit) \<times> 'w) \<Rightarrow> bool list \<Rightarrow> 'w \<Rightarrow> exn list \<times> 'w" where
  "run_periodically run_pass [] w = ([], w)"
| "run_periodically run_pass (stop # stops) w =
     (if stop then ([], w)
      else let (r, w') = run_pass w; (errs, w'') = run_periodically run_pass stops w'
           in (case r of Inl e \<Rightarrow> e # errs | Inr _ \<Rightarrow> errs, w''))"

subsection \<open>Registration\<close>

record task_registration =
  tr_max_attempts :: nat
  tr_initial_backoff :: int
  tr_multiplier :: int
  tr_retry_on :: "exn \<Rightarrow> bool"
  tr_timeout :: "int option"

definition MAX_ATTEMPTS :: nat where
  "MAX_ATTEMPTS = 3"

text \<open>\<open>TRANSIENT_RETRY\<close> with \<open>RUN_TIMEOUT_SECONDS = None\<close>; the backoff is in seconds.\<close>

definition simulation_registration :: task_registration where
  "simulation_registration =
     \<lparr> tr_max_attempts = MAX_ATTEMPTS, tr_initial_backoff = 15, tr_multiplier = 2,
       tr_retry_on = is_retryable, tr_timeout = None \<rparr>"

definition register_tasks :: "(string \<rightharpoonup> task_registration) \<Rightarrow> (string \<rightharpoonup> task_registration)" where
  "register_tasks tasks =
     (if tasks RUN_SIMULATION \<noteq> None then tasks else tasks(RUN_SIMULATION \<mapsto> simulation_registration))"

subsection \<open>One job expires\<close>

lemma expired_iff_may_expire:
  "has_expired_outputs cutoff r \<Longrightarrow> may_expire (simulation_id r) r"
  by (simp add: has_expired_outputs_def may_expire_def)

lemma mark_outputs_expired_hit:
  assumes "db_wf db" and "r \<in> set (rows db)" and "has_expired_outputs cutoff r"
    and "mark_outputs_expired (uuid_str (simulation_id r)) now db = (res, db')"
  shows "res = Inr True" and "db_wf db'"
    and "filter (has_expired_outputs cutoff) (rows db')
           = filter (\<lambda>x. has_expired_outputs cutoff x \<and> simulation_id x \<noteq> simulation_id r) (rows db)"
    and "map simulation_id (rows db') = map simulation_id (rows db)"
proof -
  let ?sid = "simulation_id r"
  have sid: "as_uuid (uuid_str ?sid) = Some ?sid"
    using assms(1,2) by (simp add: as_uuid_uuid_str db_wf_def row_wf_def)
  have hit: "\<exists>x \<in> set (rows db). may_expire ?sid x"
    using assms(2,3) expired_iff_may_expire by blast
  with sid assms(4) have res: "res = Inr True"
    and db': "rows db' = update_where (may_expire ?sid) (expired_row now) (rows db)"
    by (auto simp: mark_outputs_expired_def)
  show "res = Inr True" by (rule res)
  show "db_wf db'"
    using db_wf_apply_event [OF assms(1), of "OutputsExpired (uuid_str ?sid) now"] assms(4) by simp
  show "map simulation_id (rows db') = map simulation_id (rows db)"
    unfolding db' by (rule map_update_where) (simp add: expired_row_def)
  have "filter (has_expired_outputs cutoff) (update_where (may_expire ?sid) (expired_row now) rs)
      = filter (\<lambda>x. has_expired_outputs cutoff x \<and> simulation_id x \<noteq> ?sid) rs" for rs
    by (induction rs) (auto simp: has_expired_outputs_def may_expire_def expired_row_def finished_before_def)
  then show "filter (has_expired_outputs cutoff) (rows db')
      = filter (\<lambda>x. has_expired_outputs cutoff x \<and> simulation_id x \<noteq> ?sid) (rows db)"
    by (simp add: db')
qed

subsection \<open>A pass over a batch\<close>

text \<open>Nobody else writes between the accesses of the pass.\<close>

definition undisturbed :: "(nat \<Rightarrow> db_access) \<Rightarrow> bool" where
  "undisturbed das \<longleftrightarrow> (\<forall>k. da_before (das k) = [])"

lemma expiry_access_ok:
  assumes "undisturbed das" and "expiry_access das f x = (Inr v, x')"
  shows "\<exists>now. f now (x_db x) = (Inr v, x_db x')" and "x_store x' = x_store x" and "x_expired x' = x_expired x"
proof -
  let ?da = "das (x_calls x)"
  obtain r db' where acc: "access_db ?da (f (da_now ?da)) (x_db x) = (r, db')" by fastforce
  have r: "r = Inr (Inr v)" and x': "x' = x\<lparr> x_db := db', x_calls := x_calls x + 1 \<rparr>"
    using assms(2) acc by (auto simp: expiry_access_def Let_def split: sum.splits)
  have "f (da_now ?da) (x_db x) = (Inr v, db')"
    using access_ok_cases [OF acc [unfolded r]] assms(1) by (simp add: undisturbed_def)
  with x' show "\<exists>now. f now (x_db x) = (Inr v, x_db x')" by auto
  show "x_store x' = x_store x" "x_expired x' = x_expired x" by (simp_all add: x')
qed

text \<open>The still unexpired rows among those a pass is about.\<close>

abbreviation left_to_expire :: "int \<Rightarrow> compute_db \<Rightarrow> job_row list" where
  "left_to_expire cutoff db \<equiv> filter (has_expired_outputs cutoff) (rows db)"

lemma expire_ids_ok:
  assumes "undisturbed das" and "db_wf (x_db x)"
    and "distinct (map simulation_id rs)" and "set rs \<subseteq> set (left_to_expire cutoff (x_db x))"
    and "expire_ids c das (map (\<lambda>r. uuid_str (simulation_id r)) rs) x = (Inr u, x')"
  shows "db_wf (x_db x')" and "x_expired x' = x_expired x + length rs"
    and "left_to_expire cutoff (x_db x')
      = filter (\<lambda>r. simulation_id r \<notin> simulation_id ` set rs) (left_to_expire cutoff (x_db x))"
  using assms(2-)
proof (induction rs arbitrary: x)
  case Nil
  { case 1 then show ?case by simp next case 2 then show ?case by simp next case 3 then show ?case by simp }
next
  case (Cons r rs)
  have main: "db_wf (x_db x') \<and> x_expired x' = x_expired x + length (r # rs) \<and>
      left_to_expire cutoff (x_db x')
        = filter (\<lambda>q. simulation_id q \<notin> simulation_id ` set (r # rs)) (left_to_expire cutoff (x_db x))"
    if wf: "db_wf (x_db x)" and dist: "distinct (map simulation_id (r # rs))"
      and sub: "set (r # rs) \<subseteq> set (left_to_expire cutoff (x_db x))"
      and run: "expire_ids c das (map (\<lambda>r. uuid_str (simulation_id r)) (r # rs)) x = (Inr u, x')" for x
  proof -
    let ?sim = "uuid_str (simulation_id r)"
    obtain d s where del: "delete_simulation_outputs c ?sim (x_store x) = (d, s)" by fastforce
    obtain n where d: "d = Inr n" using run del by (cases d) auto
    obtain m x1 where mark: "expiry_access das (\<lambda>now. mark_outputs_expired ?sim now) (x\<lparr> x_store := s \<rparr>) = (m, x1)"
      by fastforce
    obtain stamped where m: "m = Inr stamped" using run del d mark by (cases m) auto
    obtain now where hit: "mark_outputs_expired ?sim now (x_db x) = (Inr stamped, x_db x1)"
      and n1: "x_expired x1 = x_expired x"
      using expiry_access_ok [OF assms(1) mark [unfolded m]] by auto
    have r: "r \<in> set (rows (x_db x))" "has_expired_outputs cutoff r" using sub by auto
    note e = mark_outputs_expired_hit [OF wf r hit]
    let ?x2 = "x1\<lparr> x_expired := x_expired x1 + 1 \<rparr>"
    have st: stamped using e(1) by simp
    have rest: "expire_ids c das (map (\<lambda>r. uuid_str (simulation_id r)) rs) ?x2 = (Inr u, x')"
      using run del d mark m st by simp
    have "set rs \<subseteq> set (left_to_expire cutoff (x_db ?x2))"
    proof
      fix q assume "q \<in> set rs"
      then have "simulation_id q \<noteq> simulation_id r" "q \<in> set (left_to_expire cutoff (x_db x))"
        using dist sub by (auto, metis image_eqI)
      then show "q \<in> set (left_to_expire cutoff (x_db ?x2))" using e(3) by simp
    qed
    with Cons.IH [of ?x2] e(2) dist rest
    have "db_wf (x_db x')" "x_expired x' = x_expired x1 + 1 + length rs"
      "left_to_expire cutoff (x_db x')
        = filter (\<lambda>q. simulation_id q \<notin> simulation_id ` set rs) (left_to_expire cutoff (x_db x1))"
      by simp_all
    with e(3) n1 show ?thesis by (simp add: conj_ac)
  qed
  { case 1 from main [OF this] show ?case by blast next
    case 2 from main [OF this] show ?case by blast next
    case 3 from main [OF this] show ?case by blast }
qed

definition expiry_batch :: "int \<Rightarrow> nat \<Rightarrow> compute_db \<Rightarrow> job_row list" where
  "expiry_batch cutoff batch db =
     take batch (sort_key (\<lambda>r. case finished_at r of None \<Rightarrow> 0 | Some t \<Rightarrow> t) (left_to_expire cutoff db))"

lemma list_jobs_batch:
  "list_jobs_with_expired_outputs db cutoff batch = map (\<lambda>r. uuid_str (simulation_id r)) (expiry_batch cutoff batch db)"
  by (simp add: list_jobs_with_expired_outputs_def expiry_batch_def)

lemma expiry_batch_props:
  assumes "db_wf db"
  shows "distinct (map simulation_id (expiry_batch cutoff batch db))"
    and "set (expiry_batch cutoff batch db) \<subseteq> set (left_to_expire cutoff db)"
    and "length (expiry_batch cutoff batch db) = min batch (length (left_to_expire cutoff db))"
    and "length (left_to_expire cutoff db) \<le> batch \<Longrightarrow>
           set (expiry_batch cutoff batch db) = set (left_to_expire cutoff db)"
proof -
  let ?k = "\<lambda>r. case finished_at r of None \<Rightarrow> 0 | Some t \<Rightarrow> t"
  let ?s = "sort_key ?k (left_to_expire cutoff db)"
  have "distinct (map simulation_id (left_to_expire cutoff db))"
    using assms by (simp add: db_wf_def distinct_map_filter)
  then have "distinct (map simulation_id ?s)" by (simp add: distinct_map)
  then show "distinct (map simulation_id (expiry_batch cutoff batch db))"
    by (simp add: expiry_batch_def take_map [symmetric])
  show "set (expiry_batch cutoff batch db) \<subseteq> set (left_to_expire cutoff db)"
    using set_take_subset [of batch ?s] by (auto simp: expiry_batch_def)
  show "length (expiry_batch cutoff batch db) = min batch (length (left_to_expire cutoff db))"
    by (simp add: expiry_batch_def)
  show "length (left_to_expire cutoff db) \<le> batch \<Longrightarrow>
      set (expiry_batch cutoff batch db) = set (left_to_expire cutoff db)"
    by (simp add: expiry_batch_def)
qed

lemma filter_out_subset:
  assumes "distinct (map f xs)" and "set ys \<subseteq> set xs" and "distinct (map f ys)"
  shows "length (filter (\<lambda>x. f x \<notin> f ` set ys) xs) + length ys = length xs"
proof -
  have inj: "inj_on f (set xs)" using assms(1) by (simp add: distinct_map)
  have "set (filter (\<lambda>x. f x \<notin> f ` set ys) xs) = set xs - set ys"
    using inj assms(2) by (auto simp: inj_on_def)
  then have "length (filter (\<lambda>x. f x \<notin> f ` set ys) xs) = card (set xs - set ys)"
    using assms(1) by (metis distinct_card distinct_filter distinct_map)
  also have "\<dots> = length xs - length ys"
    using assms by (simp add: card_Diff_subset distinct_card distinct_map)
  finally show ?thesis
    using assms card_mono [of "set xs" "set ys"] by (simp add: distinct_card distinct_map)
qed

lemma expire_loop_returns:
  assumes "undisturbed das" and "0 < batch" and "db_wf (x_db x)"
    and "length (left_to_expire cutoff (x_db x)) < fuel"
  shows "\<exists>r x'. expire_loop fuel c das cutoff batch x = Some (r, x') \<and>
    (\<forall>n. r = Inr n \<longrightarrow> left_to_expire cutoff (x_db x') = [] \<and>
       n = x_expired x + length (left_to_expire cutoff (x_db x)))"
  using assms(3,4)
proof (induction fuel arbitrary: x)
  case (Suc fuel)
  obtain r1 x1 where acc: "expiry_access das (\<lambda>_ db. (Inr (list_jobs_with_expired_outputs db cutoff batch), db)) x = (r1, x1)"
    by fastforce
  show ?case
  proof (cases r1)
    case (Inl e)
    with acc show ?thesis by simp
  next
    case (Inr ids)
    let ?rs = "expiry_batch cutoff batch (x_db x)"
    have x1: "x_db x1 = x_db x" "x_expired x1 = x_expired x"
      and ids: "ids = map (\<lambda>r. uuid_str (simulation_id r)) ?rs"
      using expiry_access_ok [OF assms(1) acc [unfolded Inr]] by (auto simp: list_jobs_batch)
    obtain r2 x2 where run: "expire_ids c das ids x1 = (r2, x2)" by fastforce
    show ?thesis
    proof (cases r2)
      case (Inl e)
      with acc Inr run show ?thesis by simp
    next
      case (Inr u)
      note b = expiry_batch_props [OF Suc.prems(1), of cutoff batch]
      have wf1: "db_wf (x_db x1)" and sub1: "set ?rs \<subseteq> set (left_to_expire cutoff (x_db x1))"
        using Suc.prems(1) b(2) x1 by simp_all
      note ok = expire_ids_ok [OF assms(1) wf1 b(1) sub1 run [unfolded ids Inr]]
      let ?left = "left_to_expire cutoff (x_db x)" and ?left2 = "left_to_expire cutoff (x_db x2)"
      have "distinct (map simulation_id ?left)"
        using Suc.prems(1) by (simp add: db_wf_def distinct_map_filter)
      then have len: "length ?left2 + length ?rs = length ?left"
        using filter_out_subset [of simulation_id ?left ?rs] b(1,2) ok(3) x1 by simp
      have more: "x_expired x2 = x_expired x + length ?rs" using ok(2) x1 by simp
      have lids: "length ids = length ?rs" by (simp add: ids)
      show ?thesis
      proof (cases "length ids < batch")
        case True
        with b(3) lids have "length ?rs = length ?left" by simp
        with len more acc \<open>r1 = _\<close> run Inr True show ?thesis by simp
      next
        case False
        then have full: "length ?rs = batch" using b(3) lids by simp
        then have "length ?left2 < fuel" using len Suc.prems(2) assms(2) by simp
        from Suc.IH [OF ok(1) this] obtain r x' where
          "expire_loop fuel c das cutoff batch x2 = Some (r, x')" and
          "\<forall>n. r = Inr n \<longrightarrow> left_to_expire cutoff (x_db x') = [] \<and> n = x_expired x2 + length ?left2"
          by blast
        moreover have "x_expired x2 + length ?left2 = x_expired x + length ?left" using more len by simp
        ultimately show ?thesis using acc \<open>r1 = _\<close> run Inr False by simp
      qed
    qed
  qed
qed simp

text \<open>C12: The expiry pass ends and is complete. With a positive batch size the loop returns
  whatever the store and the database answer: one pass more than there are rows to expire is
  always enough; and when it returns without an exception no completed job older than the
  retention still lists files, and the number it returns is the number of jobs it expired.\<close>

theorem expire_old_outputs_terminates:
  assumes "undisturbed das" and "0 < batch" and "db_wf db"
    and "length (left_to_expire (now - retention) db) < fuel"
  shows "\<exists>r x. expire_old_outputs fuel c das now retention batch (db, s) = Some (r, x) \<and>
    (\<forall>n. r = Inr n \<longrightarrow> left_to_expire (now - retention) (x_db x) = [] \<and>
       n = length (left_to_expire (now - retention) db))"
  using expire_loop_returns [OF assms(1,2), of "\<lparr> x_db = db, x_store = s, x_calls = 0, x_expired = 0 \<rparr>"
      "now - retention" fuel c] assms(3,4)
  by (simp add: expire_old_outputs_def)

subsection \<open>Purge\<close>

text \<open>The purge deletes only what reconciliation no longer needs. A queue row it removes was,
  when the candidates were selected, an old terminal row of the service's queue whose
  payload names a compute job that is completed or failed, and is still an old terminal row
  of that queue when it is deleted; every other row of the queue stays, in its order.\<close>

theorem purge_spares_unfinished_jobs:
  assumes "purge_finished_jobs qn ts now db queue queue' = (n, left)"
  shows "(\<exists>P. left = filter (\<lambda>q. \<not> P q) queue' \<and> n = length (filter P queue') \<and>
    (\<forall>q. P q \<longrightarrow> q_queue q = qn \<and> q_state q \<in> set ts \<and> queue_finished_before (now - JOB_RETENTION) q \<and>
       (\<exists>q0 \<in> set queue. q_id q0 = q_id q \<and>
          (\<exists>r \<in> set (rows db). payload_uuid q0 = Some (job_id r) \<and> terminal (status r)))))"
proof -
  let ?ct = "now - JOB_RETENTION"
  let ?ids = "eligible_queue_job_ids qn ts ?ct db queue"
  let ?P = "deletable qn ts ?ct ?ids"
  have eligible: "\<exists>q0 \<in> set queue. q_id q0 = i \<and>
      (\<exists>r \<in> set (rows db). payload_uuid q0 = Some (job_id r) \<and> terminal (status r))" if "i \<in> set ?ids" for i
    using that by (auto simp: eligible_queue_job_ids_def dest!: in_set_takeD)
  have run: "left = filter (\<lambda>q. \<not> ?P q) queue' \<and> n = length (filter ?P queue')"
    using assms by (auto simp: purge_finished_jobs_def Let_def delete_queue_job_ids_def deletable_def split: if_splits)
  have facts: "q_queue q = qn \<and> q_state q \<in> set ts \<and> queue_finished_before ?ct q \<and>
       (\<exists>q0 \<in> set queue. q_id q0 = q_id q \<and>
          (\<exists>r \<in> set (rows db). payload_uuid q0 = Some (job_id r) \<and> terminal (status r)))" if "?P q" for q
    using that eligible by (auto simp: deletable_def)
  show ?thesis
    by (rule exI [of _ ?P]) (use run facts in blast)
qed

subsection \<open>Concrete passes\<close>

definition quiet_access :: "nat \<Rightarrow> db_access" where
  "quiet_access k = \<lparr> da_before = [], da_conn = Inr (), da_tx = Commits, da_now = 100 \<rparr>"

definition old_completed :: "uuid \<Rightarrow> uuid \<Rightarrow> job_row" where
  "old_completed j sid =
     (inserted_row j (set_version4 sid) \<lparr> Mw = 8, depth_h = 20, lat0 = 0, lon0 = 0, dia = None, hhmm = None \<rparr> 0)
       \<lparr> status := COMPLETED, owner_attempt := Some 1, started_at := Some 1, finished_at := Some 2,
         result_bucket := Some ''b'', result_key := Some ''k'' \<rparr>"

lemma old_completed_wf: "row_wf (old_completed j sid)" "has_expired_outputs 10 (old_completed j sid)"
  by (simp_all add: old_completed_def row_wf_def terminal_iff set_version4_idem has_expired_outputs_def
      finished_before_def inserted_row_def)

lemma expire_old_outputs_terminates_witness:
  "\<exists>r x. expire_old_outputs 2 (list_client :: ((string \<times> json s3_object) list, json) s3_client) quiet_access
      30 20 1 (\<lparr> rows = [old_completed 1 7], notified = [] \<rparr>, []) = Some (r, x)"
proof -
  let ?db = "\<lparr> rows = [old_completed 1 7], notified = [] \<rparr>"
  have "undisturbed quiet_access" by (simp add: undisturbed_def quiet_access_def)
  moreover have "db_wf ?db" by (simp add: db_wf_def old_completed_wf)
  moreover have "length (left_to_expire (30 - 20) ?db) < 2" by (simp add: old_completed_wf)
  ultimately show ?thesis
    using expire_old_outputs_terminates [where das = quiet_access and batch = 1 and db = ?db and now = 30
        and retention = 20 and fuel = 2
        and c = "list_client :: ((string \<times> json s3_object) list, json) s3_client" and s = "[]"]
    by auto
qed

lemma purge_spares_unfinished_jobs_witness:
  "\<exists>n left. purge_finished_jobs ''q'' [''failed''] (JOB_RETENTION + 9) \<lparr> rows = [], notified = [] \<rparr>
      [\<lparr> q_id = 3, q_queue = ''q'', q_task = ''t'', q_state = ''failed'', q_payload = None, q_attempt = 1,
         q_finished_at = Some 1, q_error_type = None, q_scheduled_at = 0 \<rparr>]
      [\<lparr> q_id = 3, q_queue = ''q'', q_task = ''t'', q_state = ''failed'', q_payload = None, q_attempt = 1,
         q_finished_at = Some 1, q_error_type = None, q_scheduled_at = 0 \<rparr>] = (n, left) \<and> length left = 1"
proof -
  let ?q = "[\<lparr> q_id = 3, q_queue = ''q'', q_task = ''t'', q_state = ''failed'', q_payload = None, q_attempt = 1,
         q_finished_at = Some 1, q_error_type = None, q_scheduled_at = 0 \<rparr>]"
  obtain n left where run: "purge_finished_jobs ''q'' [''failed''] (JOB_RETENTION + 9) \<lparr> rows = [], notified = [] \<rparr>
      ?q ?q = (n, left)" by fastforce
  from purge_spares_unfinished_jobs [OF run] have "left = ?q" by (auto simp: filter_empty_conv)
  with run show ?thesis by auto
qed

end
