(* ===== verification/Roles.thy ===== *)
theory Roles
  imports Maintenance
begin

text \<open>
  Database roles (api/queue_grants.py, api/migrate.py, api/web_grants.py). The catalog of the
  database is a record of what these scripts read and write: roles with their attributes,
  memberships, privileges on objects, default privileges, the delete policy of the queue and the
  record of the roles provisioned before. Every DDL statement the scripts issue is a value of
  \<open>ddl\<close>; the server may refuse any of them (\<open>refuses\<close>), and one it accepts has its documented
  effect. \<open>provision_role\<close> and \<open>revoke_role\<close> belong to rqueue and are arguments.
\<close>

subsection \<open>The catalog\<close>

datatype privilege =
    SELECT | INSERT | UPDATE | DELETE | TRUNCATE | REFERENCES | TRIGGER | USAGE | CREATE | CONNECT | EXECUTE

definition ALL_PRIVILEGES :: "privilege list" where
  "ALL_PRIVILEGES = [SELECT, INSERT, UPDATE, DELETE, TRUNCATE, REFERENCES, TRIGGER, USAGE, CREATE, CONNECT, EXECUTE]"

lemma all_privileges [simp]: "p \<in> set ALL_PRIVILEGES"
  by (cases p) (simp_all add: ALL_PRIVILEGES_def)

datatype db_object =
    Database | Schema string | Table string string | Sequence string string | Function string string

text \<open>The columns of \<open>pg_roles\<close>, except \<open>rolcanlogin\<close>, and the clause that clears each.\<close>

datatype attribute = Superuser | Createdb | Createrole | Bypassrls | Replication | Inherit

record role_info =
  ri_attributes :: "attribute set"
  ri_login :: bool

text \<open>One entry of \<open>pg_default_acl\<close>; without a schema it is about every schema.\<close>

record default_acl =
  d_grantor :: string
  d_schema :: "string option"
  d_type :: char
  d_grantee :: string
  d_privileges :: "privilege set"

text \<open>The helper function and the row-level security policy of the purger.\<close>

record delete_policy =
  dp_role :: string
  dp_states :: "string list"
  dp_retention :: int
  dp_function :: "string \<times> string"

text \<open>
  \<open>c_members\<close> has (granted, member, grantor); \<open>c_functions\<close> the statuses a helper function accepts;
  \<open>c_state\<close> the rows of \<open>queue_runtime_roles\<close>, \<open>None\<close> before the table exists; \<open>c_managed\<close> the
  role names in rqueue's \<open>role_queue_grants\<close>; \<open>c_owner\<close> the owners of the objects that exist.
\<close>

record catalog =
  c_roles :: "string \<rightharpoonup> role_info"
  c_members :: "(string \<times> string \<times> string) list"
  c_acl :: "db_object \<Rightarrow> string \<Rightarrow> privilege set"
  c_defaults :: "default_acl list"
  c_functions :: "string \<times> string \<rightharpoonup> job_status list"
  c_policies :: "string \<rightharpoonup> delete_policy"
  c_state :: "(string \<times> string) list option"
  c_managed :: "string set"
  c_owner :: "(db_object \<times> string) list"

text \<open>The reserved name of every role.\<close>

definition PUBLIC :: string where "PUBLIC = ''public''"

subsection \<open>Statements\<close>

text \<open>\<open>ALL TABLES IN SCHEMA s\<close> and \<open>ALL SEQUENCES IN SCHEMA s\<close> are the objects that exist.\<close>

datatype object_kind = Tables | Sequences

fun of_kind :: "object_kind \<Rightarrow> string \<Rightarrow> db_object \<Rightarrow> bool" where
  "of_kind Tables sch (Table sch' t) = (sch' = sch)"
| "of_kind Sequences sch (Sequence sch' t) = (sch' = sch)"
| "of_kind _ _ _ = False"

datatype ddl =
    Revoke "privilege list" db_object string
  | Grant "privilege list" db_object string
  | CreateRole string | AlterRole string | AlterRoleNo "attribute list" string
  | RevokeDefault "privilege list" string "string option" char string
  | GrantDefault "privilege list" string "string option" char string
  | RevokeMember string string "string option"
  | CreateFunction string string "job_status list"
  | DropPolicy string | CreatePolicy string delete_policy
  | CreateStateTable | DeleteState | InsertState string string
  | AlterOwner db_object string
  | RevokeAll "privilege list" object_kind string string | GrantAll "privilege list" object_kind string string

definition set_acl :: "db_object \<Rightarrow> string \<Rightarrow> (privilege set \<Rightarrow> privilege set) \<Rightarrow> catalog \<Rightarrow> catalog" where
  "set_acl ob r f cat = cat\<lparr> c_acl := (c_acl cat)(ob := (c_acl cat ob)(r := f (c_acl cat ob r))) \<rparr>"

definition set_acl_all :: "object_kind \<Rightarrow> string \<Rightarrow> string \<Rightarrow> (privilege set \<Rightarrow> privilege set) \<Rightarrow> catalog \<Rightarrow> catalog" where
  "set_acl_all k sch r f cat =
     cat\<lparr> c_acl := (\<lambda>ob x. if x = r \<and> of_kind k sch ob \<and> ob \<in> fst ` set (c_owner cat) then f (c_acl cat ob x) else c_acl cat ob x) \<rparr>"

definition default_is :: "string \<Rightarrow> string option \<Rightarrow> char \<Rightarrow> string \<Rightarrow> default_acl \<Rightarrow> bool" where
  "default_is grantor sch t grantee d \<longleftrightarrow>
     d_grantor d = grantor \<and> d_schema d = sch \<and> d_type d = t \<and> d_grantee d = grantee"

text \<open>
  \<open>CREATE ROLE\<close> gives \<open>INHERIT\<close> and no other attribute; a new function may be executed by
  \<open>PUBLIC\<close>, a replaced one keeps its privileges; \<open>REVOKE\<close> of a membership without a grantor (before
  PostgreSQL 16) removes it whoever granted it.
\<close>

fun apply_ddl :: "ddl \<Rightarrow> catalog \<Rightarrow> catalog" where
  "apply_ddl (Revoke ps ob r) cat = set_acl ob r (\<lambda>have. have - set ps) cat"
| "apply_ddl (Grant ps ob r) cat = set_acl ob r (\<lambda>have. have \<union> set ps) cat"
| "apply_ddl (CreateRole r) cat = cat\<lparr> c_roles := (c_roles cat)(r \<mapsto> \<lparr> ri_attributes = {Inherit}, ri_login = True \<rparr>) \<rparr>"
| "apply_ddl (AlterRole r) cat = cat\<lparr> c_roles := (c_roles cat)(r := map_option (ri_login_update (\<lambda>_. True)) (c_roles cat r)) \<rparr>"
| "apply_ddl (AlterRoleNo as r) cat =
     cat\<lparr> c_roles := (c_roles cat)(r := map_option (ri_attributes_update (\<lambda>have. have - set as)) (c_roles cat r)) \<rparr>"
| "apply_ddl (RevokeDefault ps g sch t r) cat =
     cat\<lparr> c_defaults := map (\<lambda>d. if default_is g sch t r d then d\<lparr> d_privileges := d_privileges d - set ps \<rparr> else d) (c_defaults cat) \<rparr>"
| "apply_ddl (GrantDefault ps g sch t r) cat =
     cat\<lparr> c_defaults := \<lparr> d_grantor = g, d_schema = sch, d_type = t, d_grantee = r, d_privileges = set ps \<rparr> # c_defaults cat \<rparr>"
| "apply_ddl (RevokeMember g m by) cat =
     cat\<lparr> c_members := filter (\<lambda>(g', m', by'). \<not> (g' = g \<and> m' = m \<and> (by = None \<or> by = Some by'))) (c_members cat) \<rparr>"
| "apply_ddl (CreateFunction sch f statuses) cat =
     (let new = c_functions cat (sch, f) = None; cat = cat\<lparr> c_functions := (c_functions cat)((sch, f) \<mapsto> statuses) \<rparr>
      in if new then set_acl (Function sch f) PUBLIC (\<lambda>have. have \<union> {EXECUTE}) cat else cat)"
| "apply_ddl (DropPolicy p) cat = cat\<lparr> c_policies := (c_policies cat)(p := None) \<rparr>"
| "apply_ddl (CreatePolicy p d) cat = cat\<lparr> c_policies := (c_policies cat)(p \<mapsto> d) \<rparr>"
| "apply_ddl CreateStateTable cat = cat\<lparr> c_state := Some (case c_state cat of None \<Rightarrow> [] | Some s \<Rightarrow> s) \<rparr>"
| "apply_ddl DeleteState cat = cat\<lparr> c_state := map_option (\<lambda>_. []) (c_state cat) \<rparr>"
| "apply_ddl (InsertState k r) cat = cat\<lparr> c_state := map_option (\<lambda>s. s @ [(k, r)]) (c_state cat) \<rparr>"
| "apply_ddl (AlterOwner ob r) cat = cat\<lparr> c_owner := map (\<lambda>(ob', w). (ob', if ob' = ob then r else w)) (c_owner cat) \<rparr>"
| "apply_ddl (RevokeAll ps k sch r) cat = set_acl_all k sch r (\<lambda>have. have - set ps) cat"
| "apply_ddl (GrantAll ps k sch r) cat = set_acl_all k sch r (\<lambda>have. have \<union> set ps) cat"

type_synonym server = "ddl \<Rightarrow> catalog \<Rightarrow> exn option"

definition run_ddl :: "server \<Rightarrow> ddl \<Rightarrow> catalog \<Rightarrow> exn + catalog" where
  "run_ddl refuses d cat = (case refuses d cat of Some e \<Rightarrow> Inl e | None \<Rightarrow> Inr (apply_ddl d cat))"

text \<open>A loop whose body may raise.\<close>

fun each :: "('a \<Rightarrow> 's \<Rightarrow> exn + 's) \<Rightarrow> 'a list \<Rightarrow> 's \<Rightarrow> exn + 's" where
  "each f [] s = Inr s"
| "each f (x # xs) s = bind_ok (f x s) (each f xs)"

end
