(* ===== verification/QueueGrants.thy ===== *)
theory QueueGrants
  imports Roles
begin

text \<open>
  Provisioning the runtime roles of the queue (api/queue_grants.py): the producer, the worker and
  the purger, each with the capabilities its process needs. The settings the module reads are a
  record; \<open>provision_role\<close> and \<open>revoke_role\<close> of rqueue, and its check of queue names, are
  arguments.
\<close>

subsection \<open>The roles\<close>

datatype capability = PRODUCE | CONSUME | INSPECT

record queue_role =
  qr_name :: string
  qr_password :: string
  qr_env_var :: string
  qr_capabilities :: "capability list"
  qr_compute_privileges :: "privilege list"
  qr_extra_queue_privileges :: "(string \<times> privilege list) list"

text \<open>\<open>owner_name\<close> is the user of \<open>COMPUTE_DATABASE_URL\<close>, if it has one.\<close>

record role_settings =
  PRODUCER_ROLE :: string
  PRODUCER_PASSWORD :: string
  WORKER_ROLE :: string
  WORKER_PASSWORD :: string
  PURGER_ROLE :: string
  PURGER_PASSWORD :: string
  APP_DB_ROLE :: string
  owner_name :: "string option"
  QUEUE :: string
  QUEUE_SCHEMA :: string

definition queue_roles :: "role_settings \<Rightarrow> queue_role list" where
  "queue_roles s =
     [\<lparr> qr_name = PRODUCER_ROLE s, qr_password = PRODUCER_PASSWORD s, qr_env_var = ''COMPUTE_PRODUCER_PASSWORD'',
        qr_capabilities = [PRODUCE], qr_compute_privileges = [SELECT, INSERT], qr_extra_queue_privileges = [] \<rparr>,
      \<lparr> qr_name = WORKER_ROLE s, qr_password = WORKER_PASSWORD s, qr_env_var = ''COMPUTE_WORKER_PASSWORD'',
        qr_capabilities = [CONSUME], qr_compute_privileges = [SELECT, UPDATE], qr_extra_queue_privileges = [] \<rparr>,
      \<lparr> qr_name = PURGER_ROLE s, qr_password = PURGER_PASSWORD s, qr_env_var = ''COMPUTE_PURGER_PASSWORD'',
        qr_capabilities = [INSPECT], qr_compute_privileges = [], qr_extra_queue_privileges = [(''jobs'', [DELETE])] \<rparr>]"

definition ROLE_KINDS :: "string list" where
  "ROLE_KINDS = [''producer'', ''worker'', ''purger'']"

definition ROLE_ATTRIBUTES :: "attribute list" where
  "ROLE_ATTRIBUTES = [Superuser, Createdb, Createrole, Bypassrls, Replication, Inherit]"

definition PURGER_DELETE_FUNCTION :: string where
  "PURGER_DELETE_FUNCTION = ''compute_purger_can_delete''"

definition POLICY_NAME :: string where
  "POLICY_NAME = ''compute_purger_terminal_delete''"

definition COMPUTE_JOBS :: db_object where
  "COMPUTE_JOBS = Table ''compute'' ''jobs''"

subsection \<open>compute.jobs\<close>

definition grant_compute_access :: "server \<Rightarrow> queue_role \<Rightarrow> catalog \<Rightarrow> exn + catalog" where
  "grant_compute_access pg q =
     each (run_ddl pg)
       ([Revoke ALL_PRIVILEGES COMPUTE_JOBS (qr_name q), Revoke [CREATE] (Schema ''compute'') (qr_name q)] @
        (if qr_compute_privileges q = [] then [Revoke [USAGE] (Schema ''compute'') (qr_name q)]
         else [Grant [USAGE] (Schema ''compute'') (qr_name q),
               Grant (qr_compute_privileges q) COMPUTE_JOBS (qr_name q)]))"

subsection \<open>Authority beyond privileges\<close>

text \<open>The object types of \<open>_DEFAULT_PRIVILEGE_OBJECT_TYPES\<close>; others are passed over.\<close>

definition default_object_type :: "char \<Rightarrow> string option" where
  "default_object_type t =
     (if t = CHR ''r'' then Some ''TABLES'' else if t = CHR ''S'' then Some ''SEQUENCES''
      else if t = CHR ''f'' then Some ''FUNCTIONS'' else if t = CHR ''T'' then Some ''TYPES'' else None)"

definition managed_default :: "string \<Rightarrow> string \<Rightarrow> default_acl \<Rightarrow> bool" where
  "managed_default schema r d \<longleftrightarrow>
     d_grantee d = r \<and> d_privileges d \<noteq> {} \<and>
     (case d_schema d of None \<Rightarrow> True | Some n \<Rightarrow> n = ''compute'' \<or> n = schema)"

text \<open>The query orders its rows; the statements they lead to touch different entries.\<close>

definition reset_default_privileges :: "server \<Rightarrow> string \<Rightarrow> string \<Rightarrow> catalog \<Rightarrow> exn + catalog" where
  "reset_default_privileges pg schema r cat =
     each (\<lambda>(grantor, sch, t).
         if default_object_type t = None then Inr else run_ddl pg (RevokeDefault ALL_PRIVILEGES grantor sch t r))
       (remdups (map (\<lambda>d. (d_grantor d, d_schema d, d_type d)) (filter (managed_default schema r) (c_defaults cat))))
       cat"

definition memberships_of :: "string \<Rightarrow> catalog \<Rightarrow> (string \<times> string \<times> string) list" where
  "memberships_of r cat = filter (\<lambda>(granted, member, by). member = r \<or> granted = r) (c_members cat)"

text \<open>\<open>server_version >= 160000\<close> is \<open>per_grantor\<close>.\<close>

definition reset_memberships :: "server \<Rightarrow> bool \<Rightarrow> string \<Rightarrow> catalog \<Rightarrow> exn + catalog" where
  "reset_memberships pg per_grantor r cat =
     (if per_grantor
      then each (\<lambda>(granted, member, by). run_ddl pg (RevokeMember granted member (Some by))) (memberships_of r cat) cat
      else each (\<lambda>(granted, member). run_ddl pg (RevokeMember granted member None))
             (remdups (map (\<lambda>(granted, member, by). (granted, member)) (memberships_of r cat))) cat)"

definition reset_role_security :: "server \<Rightarrow> bool \<Rightarrow> string \<Rightarrow> string \<Rightarrow> catalog \<Rightarrow> exn + catalog" where
  "reset_role_security pg per_grantor schema r cat =
     (case c_roles cat r of
        None \<Rightarrow> Inr cat
      | Some info \<Rightarrow>
          let clauses = filter (\<lambda>a. a \<in> ri_attributes info) ROLE_ATTRIBUTES in
          bind_ok (if clauses = [] then Inr cat else run_ddl pg (AlterRoleNo clauses r) cat) (\<lambda>cat.
          bind_ok (reset_default_privileges pg schema r cat) (reset_memberships pg per_grantor r)))"

subsection \<open>The purger's policy\<close>

definition purger_policy :: "string \<Rightarrow> string list \<Rightarrow> queue_role \<Rightarrow> delete_policy" where
  "purger_policy schema terminal_states q =
     \<lparr> dp_role = qr_name q, dp_states = terminal_states, dp_retention = JOB_RETENTION,
       dp_function = (schema, PURGER_DELETE_FUNCTION) \<rparr>"

definition grant_purger_delete_policy :: "server \<Rightarrow> string \<Rightarrow> string list \<Rightarrow> queue_role \<Rightarrow> catalog \<Rightarrow> exn + catalog" where
  "grant_purger_delete_policy pg schema terminal_states q =
     each (run_ddl pg)
       [CreateFunction schema PURGER_DELETE_FUNCTION TERMINAL_STATUSES,
        Revoke ALL_PRIVILEGES (Function schema PURGER_DELETE_FUNCTION) PUBLIC,
        Grant [EXECUTE] (Function schema PURGER_DELETE_FUNCTION) (qr_name q),
        DropPolicy POLICY_NAME,
        CreatePolicy POLICY_NAME (purger_policy schema terminal_states q)]"

subsection \<open>Checks\<close>

text \<open>The order of \<open>role_env_vars\<close> is that of the roles.\<close>

definition ROLE_ENV_VARS :: "string list" where
  "ROLE_ENV_VARS = [''COMPUTE_PRODUCER_ROLE'', ''COMPUTE_WORKER_ROLE'', ''COMPUTE_PURGER_ROLE'']"

definition protected_names :: "role_settings \<Rightarrow> (string \<times> string) list" where
  "protected_names s =
     [(''APP_DB_ROLE'', APP_DB_ROLE s),
      (''COMPUTE_DATABASE_URL username'', case owner_name s of None \<Rightarrow> '''' | Some u \<Rightarrow> u)]"

definition validate_role_names :: "role_settings \<Rightarrow> exn + unit" where
  "validate_role_names s =
     (let roles = queue_roles s in
      if \<not> distinct (map qr_name roles)
      then Inl (ValueError ''COMPUTE_PRODUCER_ROLE, COMPUTE_WORKER_ROLE, and COMPUTE_PURGER_ROLE must be pairwise distinct'')
      else each (\<lambda>(env_var, q) u. each (\<lambda>(protected, v) u.
             if v \<noteq> '''' \<and> qr_name q = v then Inl (ValueError (env_var @ '' collides with '' @ protected)) else Inr u)
             (protected_names s) u) (zip ROLE_ENV_VARS roles) ())"

definition validate_compute_queue :: "(string \<Rightarrow> bool) \<Rightarrow> string \<Rightarrow> exn + unit" where
  "validate_compute_queue valid_name queue =
     (if valid_name queue then Inr () else Inl (ValueError ''COMPUTE_QUEUE is invalid''))"

definition attribute_label :: "attribute \<Rightarrow> string" where
  "attribute_label a =
     (case a of Superuser \<Rightarrow> ''SUPERUSER'' | Createdb \<Rightarrow> ''CREATEDB'' | Createrole \<Rightarrow> ''CREATEROLE''
      | Bypassrls \<Rightarrow> ''BYPASSRLS'' | Replication \<Rightarrow> ''REPLICATION'' | Inherit \<Rightarrow> ''INHERIT'')"

definition unmanaged_profile :: "catalog \<Rightarrow> string \<Rightarrow> role_info \<Rightarrow> string list" where
  "unmanaged_profile cat r info =
     (let profile = map attribute_label (filter (\<lambda>a. a \<in> ri_attributes info) ROLE_ATTRIBUTES) @
            (if ri_login info then [] else [''NOLOGIN'']) @
            (if \<exists>(g, m, by) \<in> set (c_members cat). m = r then [''role membership''] else [])
      in if profile = [] then [''ordinary login''] else profile)"

fun listed :: "string list \<Rightarrow> string" where
  "listed [] = []"
| "listed [x] = x"
| "listed (x # y # xs) = x @ '', '' @ listed (y # xs)"

text \<open>The query returns the existing roles in no order; here it is that of the roles.\<close>

definition validate_existing_role_names :: "role_settings \<Rightarrow> catalog \<Rightarrow> exn + unit" where
  "validate_existing_role_names s cat =
     each (\<lambda>q u. case c_roles cat (qr_name q) of
          None \<Rightarrow> Inr u
        | Some info \<Rightarrow>
            if qr_name q \<in> c_managed cat then Inr u
            else Inl (ValueError (qr_env_var q @ ''='' @ qr_name q @ '' names an unmanaged existing database role with '' @
                   listed (unmanaged_profile cat (qr_name q) info) @ ''; refusing to alter it'')))
       (queue_roles s) ()"


subsection \<open>The record of provisioned roles\<close>

definition STATE_TABLE :: "string \<Rightarrow> db_object" where
  "STATE_TABLE schema = Table schema ''queue_runtime_roles''"

definition load_role_state :: "server \<Rightarrow> string \<Rightarrow> catalog \<Rightarrow> exn + (string \<times> string) list \<times> catalog" where
  "load_role_state pg schema cat =
     bind_ok (each (run_ddl pg) [CreateStateTable, Revoke ALL_PRIVILEGES (STATE_TABLE schema) PUBLIC] cat) (\<lambda>cat.
       Inr (case c_state cat of None \<Rightarrow> [] | Some s \<Rightarrow> s, cat))"

text \<open>rqueue: \<open>revoke\<close> is \<open>revoke_role(..., drop=True)\<close>, \<open>provision\<close> is \<open>provision_role\<close>.\<close>

record rqueue_roles =
  revoke :: "string \<Rightarrow> string \<Rightarrow> catalog \<Rightarrow> exn + catalog"
  provision :: "string \<Rightarrow> capability list \<Rightarrow> string \<Rightarrow> string \<Rightarrow> string \<Rightarrow> catalog \<Rightarrow> exn + catalog"

definition retire_role ::
  "rqueue_roles \<Rightarrow> server \<Rightarrow> bool \<Rightarrow> string \<Rightarrow> string \<Rightarrow> string \<Rightarrow> catalog \<Rightarrow> exn + catalog" where
  "retire_role rq pg per_grantor schema kind r cat =
     (if c_roles cat r = None then Inr cat
      else bind_ok (if kind = ''purger'' then run_ddl pg (DropPolicy POLICY_NAME) cat else Inr cat) (\<lambda>cat.
           bind_ok (reset_role_security pg per_grantor schema r cat) (\<lambda>cat.
           bind_ok (each (run_ddl pg) [Revoke ALL_PRIVILEGES COMPUTE_JOBS r,
                                       Revoke ALL_PRIVILEGES (Schema ''compute'') r] cat)
             (revoke rq r schema))))"

definition retire_previous_roles ::
  "rqueue_roles \<Rightarrow> server \<Rightarrow> bool \<Rightarrow> role_settings \<Rightarrow> (string \<times> string) list \<Rightarrow> catalog \<Rightarrow> exn + catalog" where
  "retire_previous_roles rq pg per_grantor s previous =
     each (\<lambda>(kind, r) cat.
       if kind \<in> set ROLE_KINDS \<and> r \<notin> set (map qr_name (queue_roles s))
       then retire_role rq pg per_grantor (QUEUE_SCHEMA s) kind r cat else Inr cat) previous"

definition save_role_state :: "server \<Rightarrow> queue_role list \<Rightarrow> catalog \<Rightarrow> exn + catalog" where
  "save_role_state pg roles =
     each (run_ddl pg) (DeleteState # map (\<lambda>(k, q). InsertState k (qr_name q)) (zip ROLE_KINDS roles))"

subsection \<open>Provisioning\<close>

definition provision_queue_role ::
  "rqueue_roles \<Rightarrow> server \<Rightarrow> bool \<Rightarrow> role_settings \<Rightarrow> string list \<Rightarrow> queue_role \<Rightarrow> catalog \<Rightarrow> exn + catalog" where
  "provision_queue_role rq pg per_grantor s terminal_states q cat =
     (if qr_password q = '''' then Inl (RuntimeError (qr_env_var q @ '' must be set''))
      else bind_ok (provision rq (qr_name q) (qr_capabilities q) (QUEUE_SCHEMA s) (QUEUE s) (qr_password q) cat) (\<lambda>cat.
           bind_ok (reset_role_security pg per_grantor (QUEUE_SCHEMA s) (qr_name q) cat) (\<lambda>cat.
           bind_ok (if qr_name q = WORKER_ROLE s
                    then run_ddl pg (Revoke [INSERT] (Table (QUEUE_SCHEMA s) ''jobs'') (qr_name q)) cat else Inr cat) (\<lambda>cat.
           bind_ok (each (\<lambda>(table, privileges). run_ddl pg (Grant privileges (Table (QUEUE_SCHEMA s) table) (qr_name q)))
                     (qr_extra_queue_privileges q) cat) (\<lambda>cat.
           bind_ok (if qr_name q = PURGER_ROLE s
                    then grant_purger_delete_policy pg (QUEUE_SCHEMA s) terminal_states q cat else Inr cat)
             (grant_compute_access pg q))))))"

definition provision_queue_roles ::
  "rqueue_roles \<Rightarrow> server \<Rightarrow> bool \<Rightarrow> (string \<Rightarrow> bool) \<Rightarrow> role_settings \<Rightarrow> string list \<Rightarrow> catalog \<Rightarrow> exn + catalog" where
  "provision_queue_roles rq pg per_grantor valid_name s terminal_states cat =
     bind_ok (validate_compute_queue valid_name (QUEUE s)) (\<lambda>_.
     bind_ok (validate_role_names s) (\<lambda>_.
     bind_ok (load_role_state pg (QUEUE_SCHEMA s) cat) (\<lambda>(previous, cat).
     bind_ok (validate_existing_role_names s cat) (\<lambda>_.
     bind_ok (retire_previous_roles rq pg per_grantor s previous cat) (\<lambda>cat.
     bind_ok (each (provision_queue_role rq pg per_grantor s terminal_states) (queue_roles s) cat)
       (save_role_state pg (queue_roles s)))))))"

text \<open>\<open>_run\<close>: one transaction; \<open>commit\<close> is its end, and what an exception leaves is the old catalog.\<close>

definition run_queue_grants ::
  "rqueue_roles \<Rightarrow> server \<Rightarrow> bool \<Rightarrow> (string \<Rightarrow> bool) \<Rightarrow> role_settings \<Rightarrow> string list \<Rightarrow> exn + unit \<Rightarrow> catalog
   \<Rightarrow> (exn + unit) \<times> catalog" where
  "run_queue_grants rq pg per_grantor valid_name s terminal_states commit cat =
     (case bind_ok (provision_queue_roles rq pg per_grantor valid_name s terminal_states cat)
             (\<lambda>cat'. bind_ok commit (\<lambda>_. Inr cat')) of
        Inl e \<Rightarrow> (Inl e, cat)
      | Inr cat' \<Rightarrow> (Inr (), cat'))"

subsection \<open>What the policy lets through\<close>

text \<open>
  \<open>DELETE\<close> of a queue row by a role: the restrictive policies for that role must hold. The helper
  looks its job up with its owner's rights; one that does not exist makes the statement fail.
\<close>

definition can_delete :: "job_status list \<Rightarrow> compute_db \<Rightarrow> queue_row \<Rightarrow> bool" where
  "can_delete statuses db q =
     (case payload_uuid q of
        None \<Rightarrow> False
      | Some u \<Rightarrow> \<exists>r \<in> set (rows db). job_id r = u \<and> status r \<in> set statuses)"

definition policy_admits :: "catalog \<Rightarrow> int \<Rightarrow> compute_db \<Rightarrow> delete_policy \<Rightarrow> queue_row \<Rightarrow> bool" where
  "policy_admits cat now db p q \<longleftrightarrow>
     q_state q \<in> set (dp_states p) \<and> queue_finished_before (now - dp_retention p) q \<and>
     (case c_functions cat (dp_function p) of None \<Rightarrow> False | Some statuses \<Rightarrow> can_delete statuses db q)"

definition may_delete :: "catalog \<Rightarrow> string \<Rightarrow> string \<Rightarrow> int \<Rightarrow> compute_db \<Rightarrow> queue_row \<Rightarrow> bool" where
  "may_delete cat schema r now db q \<longleftrightarrow>
     DELETE \<in> c_acl cat (Table schema ''jobs'') r \<and>
     (case c_policies cat POLICY_NAME of
        None \<Rightarrow> True
      | Some p \<Rightarrow> dp_role p = r \<longrightarrow> policy_admits cat now db p q)"


text \<open>The purge as it runs in production: selected on the worker's pool at \<open>now\<close>, deleted by the purger
  at \<open>now'\<close>, on the rows and jobs it finds then. Row-level security hides rows, it raises nothing.\<close>

definition purge_as_purger ::
  "catalog \<Rightarrow> role_settings \<Rightarrow> string list \<Rightarrow> int \<Rightarrow> compute_db \<Rightarrow> queue_row list \<Rightarrow> int \<Rightarrow> compute_db \<Rightarrow> queue_row list
   \<Rightarrow> exn + nat \<times> queue_row list" where
  "purge_as_purger cat s terminal_states now db queue now' db' queue' =
     (let cutoff = now - JOB_RETENTION;
          ids = eligible_queue_job_ids (QUEUE s) terminal_states cutoff db queue;
          gone = (\<lambda>q. deletable (QUEUE s) terminal_states cutoff ids q \<and>
                      may_delete cat (QUEUE_SCHEMA s) (PURGER_ROLE s) now' db' q)
      in if ids = [] then Inr (0, queue')
         else if DELETE \<notin> c_acl cat (Table (QUEUE_SCHEMA s) ''jobs'') (PURGER_ROLE s)
         then Inl (SqlError ''InsufficientPrivilegeError'' ''42501'')
         else Inr (length (filter gone queue'), filter (\<lambda>q. \<not> gone q) queue'))"

end
