(* ===== verification/QueueGrantLaws.thy ===== *)
theory QueueGrantLaws
  imports QueueGrants
begin

text \<open>
  Laws of provisioning: what one statement can touch, that a run which succeeds leaves every
  runtime role with exactly its authority and touches no other role, what it refuses, and what
  the purger's policy adds to the purge.
\<close>

subsection \<open>Loops\<close>

lemma each_preserves:
  assumes "each f xs s = Inr s'" and "P s" and "\<And>x t t'. x \<in> set xs \<Longrightarrow> P t \<Longrightarrow> f x t = Inr t' \<Longrightarrow> P t'"
  shows "P s'"
  using assms by (induction xs arbitrary: s) auto

lemma each_establishes:
  assumes "each f xs s = Inr s'" and "x \<in> set xs" and "\<And>t t'. f x t = Inr t' \<Longrightarrow> Q t'"
    and "\<And>y t t'. y \<in> set xs \<Longrightarrow> Q t \<Longrightarrow> f y t = Inr t' \<Longrightarrow> Q t'"
  shows "Q s'"
  using assms
proof (induction xs arbitrary: s)
  case (Cons y ys)
  obtain t where t: "f y s = Inr t" "each f ys t = Inr s'" using Cons.prems(1) by auto
  show ?case
  proof (cases "x = y")
    case True
    show ?thesis
    proof (rule each_preserves [OF t(2)])
      show "Q t" using Cons.prems(3) t(1) True by blast
      show "Q w'" if "z \<in> set ys" "Q w" "f z w = Inr w'" for z w w'
        using Cons.prems(4) that by (meson list.set_intros(2))
    qed
  next
    case False
    show ?thesis
    proof (rule Cons.IH [OF t(2)])
      show "x \<in> set ys" using Cons.prems(2) False by simp
      show "Q w'" if "f x w = Inr w'" for w w' by (rule Cons.prems(3) [OF that])
      show "Q w'" if "z \<in> set ys" "Q w" "f z w = Inr w'" for z w w'
        using Cons.prems(4) that by (meson list.set_intros(2))
    qed
  qed
qed simp

lemma each_append [simp]: "each f (xs @ ys) s = bind_ok (each f xs s) (each f ys)"
  by (induction xs arbitrary: s) (auto simp: bind_ok_def split: sum.splits)

lemma each_pass: "each (\<lambda>x. if b x then Inr else f x) xs = each f (filter (\<lambda>x. \<not> b x) xs)"
proof (induction xs)
  case (Cons a xs)
  then show ?case by (intro ext) auto
qed (intro ext; simp)

lemma run_ddl_Inr [simp]: "run_ddl pg d cat = Inr cat' \<longleftrightarrow> pg d cat = None \<and> cat' = apply_ddl d cat"
  by (auto simp: run_ddl_def split: option.splits)

lemma run_ddls: "each (run_ddl pg) ds cat = Inr cat' \<Longrightarrow> cat' = fold apply_ddl ds cat"
  by (induction ds arbitrary: cat) auto

lemma set_acl_fields [simp]:
  "c_roles (set_acl ob r f cat) = c_roles cat" "c_members (set_acl ob r f cat) = c_members cat"
  "c_defaults (set_acl ob r f cat) = c_defaults cat" "c_functions (set_acl ob r f cat) = c_functions cat"
  "c_policies (set_acl ob r f cat) = c_policies cat" "c_state (set_acl ob r f cat) = c_state cat"
  "c_managed (set_acl ob r f cat) = c_managed cat" "c_owner (set_acl ob r f cat) = c_owner cat"
  by (simp_all add: set_acl_def)

lemma set_acl_at [simp]:
  "c_acl (set_acl ob r f cat) = (\<lambda>ob' x. if ob' = ob \<and> x = r then f (c_acl cat ob r) else c_acl cat ob' x)"
  by (auto simp: set_acl_def fun_eq_iff)

lemma create_function_fields [simp]:
  "c_roles (apply_ddl (CreateFunction sch f st) cat) = c_roles cat"
  "c_members (apply_ddl (CreateFunction sch f st) cat) = c_members cat"
  "c_defaults (apply_ddl (CreateFunction sch f st) cat) = c_defaults cat"
  "c_functions (apply_ddl (CreateFunction sch f st) cat) = (c_functions cat)((sch, f) \<mapsto> st)"
  "c_policies (apply_ddl (CreateFunction sch f st) cat) = c_policies cat"
  "c_state (apply_ddl (CreateFunction sch f st) cat) = c_state cat"
  "c_managed (apply_ddl (CreateFunction sch f st) cat) = c_managed cat"
  "c_owner (apply_ddl (CreateFunction sch f st) cat) = c_owner cat"
  "c_acl (apply_ddl (CreateFunction sch f st) cat) =
     (\<lambda>ob x. if ob = Function sch f \<and> x = PUBLIC \<and> c_functions cat (sch, f) = None
        then c_acl cat ob x \<union> {EXECUTE} else c_acl cat ob x)"
  by (auto simp: Let_def fun_eq_iff)

lemma minus_all [simp]: "x - set ALL_PRIVILEGES = {}"
  by auto

subsection \<open>What changes\<close>

text \<open>Outside the roles of \<open>R\<close> nothing changes; memberships and default privileges only shrink.\<close>

definition shrunk :: "default_acl list \<Rightarrow> default_acl list \<Rightarrow> bool" where
  "shrunk ds ds' \<longleftrightarrow> (\<forall>d' \<in> set ds'. \<exists>d \<in> set ds. default_is (d_grantor d) (d_schema d) (d_type d) (d_grantee d) d' \<and>
     d_privileges d' \<subseteq> d_privileges d)"

definition confined :: "string set \<Rightarrow> catalog \<Rightarrow> catalog \<Rightarrow> bool" where
  "confined R cat cat' \<longleftrightarrow>
     (\<forall>x. x \<notin> R \<longrightarrow> c_roles cat' x = c_roles cat x) \<and>
     (\<forall>ob x. x \<notin> R \<longrightarrow> c_acl cat' ob x = c_acl cat ob x) \<and>
     set (c_members cat') \<subseteq> set (c_members cat) \<and>
     (\<forall>g m by. (g, m, by) \<in> set (c_members cat) \<longrightarrow> g \<notin> R \<longrightarrow> m \<notin> R \<longrightarrow> (g, m, by) \<in> set (c_members cat')) \<and>
     shrunk (c_defaults cat) (c_defaults cat') \<and>
     filter (\<lambda>d. d_grantee d \<notin> R) (c_defaults cat') = filter (\<lambda>d. d_grantee d \<notin> R) (c_defaults cat) \<and>
     c_owner cat' = c_owner cat \<and> (c_state cat \<noteq> None \<longrightarrow> c_state cat' \<noteq> None)"

lemma shrunk_refl: "shrunk ds ds"
  by (auto simp: shrunk_def default_is_def)

lemma shrunk_trans:
  assumes "shrunk a b" and "shrunk b c"
  shows "shrunk a c"
  unfolding shrunk_def
proof
  fix z assume "z \<in> set c"
  then obtain y where y: "y \<in> set b" "default_is (d_grantor y) (d_schema y) (d_type y) (d_grantee y) z"
      "d_privileges z \<subseteq> d_privileges y"
    using assms(2) unfolding shrunk_def by blast
  obtain x where x: "x \<in> set a" "default_is (d_grantor x) (d_schema x) (d_type x) (d_grantee x) y"
      "d_privileges y \<subseteq> d_privileges x"
    using assms(1) y(1) unfolding shrunk_def by blast
  have "default_is (d_grantor x) (d_schema x) (d_type x) (d_grantee x) z" "d_privileges z \<subseteq> d_privileges x"
    using x y by (auto simp: default_is_def)
  then show "\<exists>x \<in> set a. default_is (d_grantor x) (d_schema x) (d_type x) (d_grantee x) z \<and> d_privileges z \<subseteq> d_privileges x"
    using x(1) by blast
qed

lemma confined_refl [simp]: "confined R cat cat"
  by (simp add: confined_def shrunk_refl)

lemma filter_stronger:
  assumes "filter P xs = filter P ys" and "\<And>x. Q x \<Longrightarrow> P x"
  shows "filter Q xs = filter Q ys"
proof -
  have "filter Q zs = filter Q (filter P zs)" for zs
    using assms(2) by (induction zs) auto
  then show ?thesis using assms(1) by metis
qed

lemma confined_mono:
  assumes "confined A cat cat'" and "A \<subseteq> B"
  shows "confined B cat cat'"
proof -
  have "filter (\<lambda>d. d_grantee d \<notin> A) (c_defaults cat') = filter (\<lambda>d. d_grantee d \<notin> A) (c_defaults cat)"
    using assms(1) by (simp add: confined_def)
  then have "filter (\<lambda>d. d_grantee d \<notin> B) (c_defaults cat') = filter (\<lambda>d. d_grantee d \<notin> B) (c_defaults cat)"
    by (rule filter_stronger) (use assms(2) in blast)
  then show ?thesis using assms unfolding confined_def by (intro conjI; blast)
qed

lemma confined_trans: "confined R a b \<Longrightarrow> confined R b c \<Longrightarrow> confined R a c"
  by (simp add: confined_def) (meson shrunk_trans subset_trans)

lemma each_confined:
  assumes "each f xs s = Inr s'" and "\<And>x t t'. x \<in> set xs \<Longrightarrow> f x t = Inr t' \<Longrightarrow> confined R t t'"
  shows "confined R s s'"
  by (rule each_preserves [OF assms(1)]) (use assms(2) confined_trans in auto)

text \<open>The role a statement is about; the statements that widen default privileges, create roles
  or change owners are not among those of this module.\<close>

fun subject :: "ddl \<Rightarrow> string set option" where
  "subject (Revoke ps ob r) = Some {r}"
| "subject (Grant ps ob r) = Some {r}"
| "subject (AlterRoleNo as r) = Some {r}"
| "subject (RevokeDefault ps g sch t r) = Some {r}"
| "subject (RevokeMember g m by) = Some {g, m}"
| "subject (CreateFunction sch f statuses) = Some {PUBLIC}"
| "subject (DropPolicy p) = Some {}"
| "subject (CreatePolicy p d) = Some {}"
| "subject CreateStateTable = Some {}"
| "subject DeleteState = Some {}"
| "subject (InsertState k r) = Some {}"
| "subject _ = None"

lemma apply_ddl_confined:
  assumes "subject d = Some R"
  shows "confined R cat (apply_ddl d cat)"
proof (cases d)
  case (RevokeDefault ps g sch t r)
  have "filter (\<lambda>d. d_grantee d \<noteq> r) (map (\<lambda>d. if default_is g sch t r d then d\<lparr> d_privileges := d_privileges d - set ps \<rparr> else d) ds) =
      filter (\<lambda>d. d_grantee d \<noteq> r) ds" for ds
    by (induction ds) (auto simp: default_is_def)
  then show ?thesis using assms RevokeDefault
    by (auto simp: confined_def shrunk_def default_is_def split: if_splits)
qed (use assms in \<open>auto simp: confined_def shrunk_refl set_acl_def Let_def\<close>)

lemma run_ddl_confined: "run_ddl pg d cat = Inr cat' \<Longrightarrow> subject d = Some A \<Longrightarrow> A \<subseteq> R \<Longrightarrow> confined R cat cat'"
  by (metis apply_ddl_confined confined_mono run_ddl_Inr)

lemma ddls_confined:
  assumes "each (run_ddl pg) ds cat = Inr cat'" and "\<forall>d \<in> set ds. \<exists>A. subject d = Some A \<and> A \<subseteq> R"
  shows "confined R cat cat'"
  by (rule each_confined [OF assms(1)]) (use assms(2) run_ddl_confined in blast)


subsection \<open>The steps\<close>

lemma grant_compute_access_effect:
  assumes "grant_compute_access pg q cat = Inr cat'"
  shows "confined {qr_name q} cat cat'" and "c_acl cat' COMPUTE_JOBS (qr_name q) = set (qr_compute_privileges q)"
    and "CREATE \<notin> c_acl cat' (Schema ''compute'') (qr_name q)"
    and "USAGE \<in> c_acl cat' (Schema ''compute'') (qr_name q) \<longleftrightarrow> qr_compute_privileges q \<noteq> []"
    and "\<And>ob. ob \<noteq> COMPUTE_JOBS \<Longrightarrow> ob \<noteq> Schema ''compute'' \<Longrightarrow> c_acl cat' ob = c_acl cat ob"
    and "c_roles cat' = c_roles cat" "c_members cat' = c_members cat" "c_defaults cat' = c_defaults cat"
    and "c_policies cat' = c_policies cat" "c_functions cat' = c_functions cat" "c_managed cat' = c_managed cat"
proof -
  show "confined {qr_name q} cat cat'"
    using assms unfolding grant_compute_access_def by (rule ddls_confined) (auto split: if_splits)
  note cat' = run_ddls [OF assms [unfolded grant_compute_access_def]]
  show "c_acl cat' COMPUTE_JOBS (qr_name q) = set (qr_compute_privileges q)"
    "CREATE \<notin> c_acl cat' (Schema ''compute'') (qr_name q)"
    "USAGE \<in> c_acl cat' (Schema ''compute'') (qr_name q) \<longleftrightarrow> qr_compute_privileges q \<noteq> []"
    "\<And>ob. ob \<noteq> COMPUTE_JOBS \<Longrightarrow> ob \<noteq> Schema ''compute'' \<Longrightarrow> c_acl cat' ob = c_acl cat ob"
    "c_roles cat' = c_roles cat" "c_members cat' = c_members cat" "c_defaults cat' = c_defaults cat"
    "c_policies cat' = c_policies cat" "c_functions cat' = c_functions cat" "c_managed cat' = c_managed cat"
    unfolding cat' by (auto simp: COMPUTE_JOBS_def fun_eq_iff)
qed

lemma policy_confined:
  assumes "grant_purger_delete_policy pg sch ts q cat = Inr cat'"
  shows "confined {qr_name q, PUBLIC} cat cat'"
    and "c_policies cat' POLICY_NAME = Some (purger_policy sch ts q)"
    and "c_functions cat' (sch, PURGER_DELETE_FUNCTION) = Some TERMINAL_STATUSES"
    and "qr_name q \<noteq> PUBLIC \<Longrightarrow> EXECUTE \<notin> c_acl cat' (Function sch PURGER_DELETE_FUNCTION) PUBLIC"
    and "\<And>t x. c_acl cat' (Table t x) = c_acl cat (Table t x)" "\<And>t. c_acl cat' (Schema t) = c_acl cat (Schema t)"
    and "c_roles cat' = c_roles cat" "c_members cat' = c_members cat" "c_defaults cat' = c_defaults cat"
    and "c_managed cat' = c_managed cat"
proof -
  show "confined {qr_name q, PUBLIC} cat cat'"
    using assms unfolding grant_purger_delete_policy_def by (rule ddls_confined) auto
  note cat' = run_ddls [OF assms [unfolded grant_purger_delete_policy_def]]
  show "c_policies cat' POLICY_NAME = Some (purger_policy sch ts q)"
    "c_functions cat' (sch, PURGER_DELETE_FUNCTION) = Some TERMINAL_STATUSES"
    "qr_name q \<noteq> PUBLIC \<Longrightarrow> EXECUTE \<notin> c_acl cat' (Function sch PURGER_DELETE_FUNCTION) PUBLIC"
    "\<And>t x. c_acl cat' (Table t x) = c_acl cat (Table t x)" "\<And>t. c_acl cat' (Schema t) = c_acl cat (Schema t)"
    "c_roles cat' = c_roles cat" "c_members cat' = c_members cat" "c_defaults cat' = c_defaults cat"
    "c_managed cat' = c_managed cat"
    unfolding cat' by (auto simp: fun_eq_iff simp del: apply_ddl.simps(9))
qed

definition revoke_default_entry :: "server \<Rightarrow> string \<Rightarrow> string \<times> string option \<times> char \<Rightarrow> catalog \<Rightarrow> exn + catalog" where
  "revoke_default_entry pg r = (\<lambda>(g, s, t). if default_object_type t = None then Inr else run_ddl pg (RevokeDefault ALL_PRIVILEGES g s t r))"

definition same_but_defaults :: "catalog \<Rightarrow> catalog \<Rightarrow> bool" where
  "same_but_defaults cat cat' \<longleftrightarrow> cat' = cat\<lparr> c_defaults := c_defaults cat' \<rparr>"

lemma same_but_defaults_fields:
  assumes "same_but_defaults cat cat'"
  shows "c_roles cat' = c_roles cat" "c_acl cat' = c_acl cat" "c_members cat' = c_members cat"
    "c_policies cat' = c_policies cat" "c_functions cat' = c_functions cat" "c_managed cat' = c_managed cat"
  using assms by (metis (lifting) same_but_defaults_def catalog.select_convs catalog.surjective catalog.update_convs(4))+

lemma same_but_defaults_trans: "same_but_defaults a b \<Longrightarrow> same_but_defaults b c \<Longrightarrow> same_but_defaults a c"
  by (cases a; cases b; cases c) (simp add: same_but_defaults_def)

lemma revoke_default_effect:
  assumes "cat' = apply_ddl (RevokeDefault ALL_PRIVILEGES g s t r) cat"
  shows "confined {r} cat cat'" and "same_but_defaults cat cat'"
    and "\<forall>d \<in> set (c_defaults cat'). default_is g s t r d \<longrightarrow> d_privileges d = {}"
proof -
  show "confined {r} cat cat'" unfolding assms by (rule apply_ddl_confined) simp
  show "same_but_defaults cat cat'" unfolding assms by (simp add: same_but_defaults_def)
  have eq: "c_defaults cat' =
      map (\<lambda>d. if default_is g s t r d then d\<lparr> d_privileges := d_privileges d - set ALL_PRIVILEGES \<rparr> else d) (c_defaults cat)"
    unfolding assms by simp
  show "\<forall>d \<in> set (c_defaults cat'). default_is g s t r d \<longrightarrow> d_privileges d = {}"
  proof (intro ballI impI)
    fix d assume "d \<in> set (c_defaults cat')" "default_is g s t r d"
    then obtain d0 where "d = (if default_is g s t r d0 then d0\<lparr> d_privileges := d_privileges d0 - set ALL_PRIVILEGES \<rparr> else d0)"
      unfolding eq set_map by blast
    then show "d_privileges d = {}" using \<open>default_is g s t r d\<close> by (cases "default_is g s t r d0") simp_all
  qed
qed

lemma revoke_default_entry_effect:
  assumes "revoke_default_entry pg r k cat = Inr cat'"
  shows "confined {r} cat cat'" and "same_but_defaults cat cat'"
    and "k = (g, s, t) \<Longrightarrow> default_object_type t \<noteq> None \<Longrightarrow>
      \<forall>d \<in> set (c_defaults cat'). default_is g s t r d \<longrightarrow> d_privileges d = {}"
proof -
  obtain g' s' t' where k: "k = (g', s', t')" by (cases k)
  have cases: "default_object_type t' = None \<and> cat' = cat \<or> cat' = apply_ddl (RevokeDefault ALL_PRIVILEGES g' s' t' r) cat"
    using assms unfolding k by (cases "default_object_type t'") (simp_all add: revoke_default_entry_def del: apply_ddl.simps)
  have "same_but_defaults cat cat" by (simp add: same_but_defaults_def)
  then show "confined {r} cat cat'" "same_but_defaults cat cat'"
    using cases by (elim disjE; simp add: revoke_default_effect(1,2) del: apply_ddl.simps)+
  show "\<forall>d \<in> set (c_defaults cat'). default_is g s t r d \<longrightarrow> d_privileges d = {}"
    if "k = (g, s, t)" "default_object_type t \<noteq> None"
    using cases that k revoke_default_effect(3) [of cat' g s t r cat] by (elim disjE) (simp_all del: apply_ddl.simps)
qed

lemma cleared_shrunk:
  assumes "shrunk ds ds'" and "\<forall>d \<in> set ds. default_is g s t r d \<longrightarrow> d_privileges d = {}"
  shows "\<forall>d \<in> set ds'. default_is g s t r d \<longrightarrow> d_privileges d = {}"
proof (intro ballI impI)
  fix d' assume d': "d' \<in> set ds'" "default_is g s t r d'"
  then obtain d where "d \<in> set ds" "default_is (d_grantor d) (d_schema d) (d_type d) (d_grantee d) d'"
      "d_privileges d' \<subseteq> d_privileges d"
    using assms(1) unfolding shrunk_def by blast
  then show "d_privileges d' = {}" using assms(2) d'(2) by (auto simp: default_is_def)
qed

lemma shrunk_origin:
  assumes "shrunk ds ds'" and "d' \<in> set ds'" and "managed_default sch r d'"
  shows "\<exists>d \<in> set ds. managed_default sch r d \<and> d_type d = d_type d' \<and> d_grantor d = d_grantor d' \<and> d_schema d = d_schema d'"
proof -
  obtain d where d: "d \<in> set ds" "default_is (d_grantor d) (d_schema d) (d_type d) (d_grantee d) d'"
      "d_privileges d' \<subseteq> d_privileges d"
    using assms(1,2) unfolding shrunk_def by blast
  then have "managed_default sch r d \<and> d_type d = d_type d' \<and> d_grantor d = d_grantor d' \<and> d_schema d = d_schema d'"
    using assms(3) by (auto simp: managed_default_def default_is_def)
  then show ?thesis using d(1) by blast
qed

lemma reset_defaults_effect:
  assumes "reset_default_privileges pg sch r cat = Inr cat'"
  shows "confined {r} cat cat'" and "same_but_defaults cat cat'"
    and "\<forall>d \<in> set (c_defaults cat'). managed_default sch r d \<longrightarrow> default_object_type (d_type d) = None"
proof -
  let ?key = "\<lambda>d. (d_grantor d, d_schema d, d_type d)"
  let ?keys = "remdups (map ?key (filter (managed_default sch r) (c_defaults cat)))"
  have run: "each (revoke_default_entry pg r) ?keys cat = Inr cat'"
    using assms by (simp add: reset_default_privileges_def revoke_default_entry_def)
  note entry = revoke_default_entry_effect
  show conf: "confined {r} cat cat'" by (rule each_confined [OF run]) (rule entry(1))
  show "same_but_defaults cat cat'"
  proof (rule each_preserves [OF run])
    show "same_but_defaults cat cat" by (simp add: same_but_defaults_def)
    show "same_but_defaults cat w'" if "same_but_defaults cat w" "revoke_default_entry pg r k w = Inr w'" for k w w'
      by (rule same_but_defaults_trans [OF that(1) entry(2) [OF that(2)]])
  qed
  have cleared: "\<forall>d \<in> set (c_defaults cat'). default_is g s t r d \<longrightarrow> d_privileges d = {}"
    if k: "(g, s, t) \<in> set ?keys" "default_object_type t \<noteq> None" for g s t
  proof (rule each_establishes [OF run k(1)])
    show "\<forall>d \<in> set (c_defaults w'). default_is g s t r d \<longrightarrow> d_privileges d = {}"
      if "revoke_default_entry pg r (g, s, t) w = Inr w'" for w w'
      by (rule entry(3) [OF that refl k(2)])
    show "\<forall>d \<in> set (c_defaults w'). default_is g s t r d \<longrightarrow> d_privileges d = {}"
      if "\<forall>d \<in> set (c_defaults w). default_is g s t r d \<longrightarrow> d_privileges d = {}" "revoke_default_entry pg r k w = Inr w'" for k w w'
    proof (rule cleared_shrunk [OF _ that(1)])
      show "shrunk (c_defaults w) (c_defaults w')"
        using entry(1) [OF that(2)] by (simp add: confined_def)
    qed
  qed
  show "\<forall>d \<in> set (c_defaults cat'). managed_default sch r d \<longrightarrow> default_object_type (d_type d) = None"
  proof (intro ballI impI, rule ccontr)
    fix d' assume d': "d' \<in> set (c_defaults cat')" "managed_default sch r d'" "default_object_type (d_type d') \<noteq> None"
    have "shrunk (c_defaults cat) (c_defaults cat')" using conf by (simp add: confined_def)
    from shrunk_origin [OF this d'(1,2)] obtain d where d: "d \<in> set (c_defaults cat)" "managed_default sch r d"
        "d_type d = d_type d'" "d_grantor d = d_grantor d'" "d_schema d = d_schema d'" by blast
    then have "?key d = ?key d'" by simp
    have "d \<in> set (filter (managed_default sch r) (c_defaults cat))" using d(1,2) by simp
    then have "?key d \<in> set ?keys" unfolding set_remdups set_map by (rule imageI)
    then have "?key d' \<in> set ?keys" using \<open>?key d = ?key d'\<close> by simp
    from cleared [OF this d'(3)] have "default_is (d_grantor d') (d_schema d') (d_type d') r d' \<longrightarrow> d_privileges d' = {}"
      using d'(1) by blast
    then have "d_privileges d' = {}" using d'(2) by (simp add: default_is_def managed_default_def)
    then show False using d'(2) by (simp add: managed_default_def)
  qed
qed


lemma revoke_member_confined: "r = g \<or> r = m \<Longrightarrow> confined {r} cat (apply_ddl (RevokeMember g m by) cat)"
  by (auto simp: confined_def shrunk_refl)

definition same_but_members :: "catalog \<Rightarrow> catalog \<Rightarrow> bool" where
  "same_but_members cat cat' \<longleftrightarrow>
     cat' = cat\<lparr> c_members := c_members cat' \<rparr> \<and> set (c_members cat') \<subseteq> set (c_members cat)"

lemma same_but_members_fields:
  assumes "same_but_members cat cat'"
  shows "c_roles cat' = c_roles cat" "c_acl cat' = c_acl cat" "c_defaults cat' = c_defaults cat"
    "c_policies cat' = c_policies cat" "c_functions cat' = c_functions cat" "c_managed cat' = c_managed cat"
  using assms by (metis (lifting) same_but_members_def catalog.select_convs catalog.surjective catalog.update_convs(2))+

lemma same_but_members_trans: "same_but_members a b \<Longrightarrow> same_but_members b c \<Longrightarrow> same_but_members a c"
  by (cases a; cases b; cases c) (auto simp: same_but_members_def)

lemma same_but_members_refl: "same_but_members a a"
  by (simp add: same_but_members_def)

lemma same_but_members_revoke: "same_but_members cat (apply_ddl (RevokeMember g m by) cat)"
  by (auto simp: same_but_members_def)

lemma memberships_of_iff: "(g, m, by) \<in> set (memberships_of r cat) \<longleftrightarrow> (g, m, by) \<in> set (c_members cat) \<and> (m = r \<or> g = r)"
  by (auto simp: memberships_of_def)

text \<open>A loop of revocations of memberships of \<open>r\<close>, one for every membership of \<open>r\<close>.\<close>

lemma revocations_effect:
  assumes "each f ks cat = Inr cat'"
    and "\<And>k w w'. k \<in> set ks \<Longrightarrow> f k w = Inr w' \<Longrightarrow> \<exists>g m by. (r = g \<or> r = m) \<and> w' = apply_ddl (RevokeMember g m by) w"
    and "\<And>g m by. (g, m, by) \<in> set (memberships_of r cat) \<Longrightarrow>
       \<exists>k \<in> set ks. \<forall>w w'. f k w = Inr w' \<longrightarrow> (g, m, by) \<notin> set (c_members w')"
  shows "confined {r} cat cat'" and "same_but_members cat cat'" and "memberships_of r cat' = []"
proof -
  show "confined {r} cat cat'"
    by (rule each_confined [OF assms(1)]) (metis assms(2) revoke_member_confined)
  show same: "same_but_members cat cat'"
    by (rule each_preserves [OF assms(1) same_but_members_refl]) (metis assms(2) same_but_members_revoke same_but_members_trans)
  have "x \<notin> set (memberships_of r cat')" for x
  proof
    obtain g m "by" where x: "x = (g, m, by)" by (cases x)
    assume "x \<in> set (memberships_of r cat')"
    then have left: "(g, m, by) \<in> set (c_members cat')" "(g, m, by) \<in> set (memberships_of r cat)"
      using same unfolding x by (auto simp: memberships_of_iff same_but_members_def)
    then obtain k where k: "k \<in> set ks" "\<And>w w'. f k w = Inr w' \<Longrightarrow> (g, m, by) \<notin> set (c_members w')"
      using assms(3) by blast
    have "(g, m, by) \<notin> set (c_members cat')"
    proof (rule each_establishes [OF assms(1) k])
      show "(g, m, by) \<notin> set (c_members w')" if "y \<in> set ks" "(g, m, by) \<notin> set (c_members w)" "f y w = Inr w'" for y w w'
        using assms(2) [OF that(1,3)] that(2) by auto
    qed
    then show False using left(1) by blast
  qed
  then show "memberships_of r cat' = []" by (metis list.set_intros(1) neq_Nil_conv)
qed

lemma reset_memberships_effect:
  assumes "reset_memberships pg per_grantor r cat = Inr cat'"
  shows "confined {r} cat cat'" and "same_but_members cat cat'" and "memberships_of r cat' = []"
proof -
  let ?f = "\<lambda>(g, m, by). run_ddl pg (RevokeMember g m (Some by))"
  let ?h = "\<lambda>(g, m). run_ddl pg (RevokeMember g m None)"
  let ?ks = "remdups (map (\<lambda>(g, m, by). (g, m)) (memberships_of r cat))"
  have "confined {r} cat cat' \<and> same_but_members cat cat' \<and> memberships_of r cat' = []"
  proof (cases per_grantor)
    case True
    then have run: "each ?f (memberships_of r cat) cat = Inr cat'" using assms by (simp add: reset_memberships_def)
    have shape: "\<exists>g m by. (r = g \<or> r = m) \<and> w' = apply_ddl (RevokeMember g m by) w"
      if "k \<in> set (memberships_of r cat)" "?f k w = Inr w'" for k w w'
      using that by (cases k rule: prod_cases3) (auto simp: memberships_of_iff simp del: apply_ddl.simps)
    have gone: "\<exists>k \<in> set (memberships_of r cat). \<forall>w w'. ?f k w = Inr w' \<longrightarrow> (g, m, by) \<notin> set (c_members w')"
      if "(g, m, by) \<in> set (memberships_of r cat)" for g m "by"
      by (rule bexI [OF _ that]) auto
    show ?thesis by (intro conjI) (rule revocations_effect [OF run]; (erule (1) shape | erule gone))+
  next
    case False
    then have run: "each ?h ?ks cat = Inr cat'" using assms by (simp add: reset_memberships_def)
    have shape: "\<exists>g m by. (r = g \<or> r = m) \<and> w' = apply_ddl (RevokeMember g m by) w"
      if k_in: "k \<in> set ?ks" and k_run: "?h k w = Inr w'" for k w w'
    proof -
      obtain g m "by" where k: "k = (g, m)" and mem: "(g, m, by) \<in> set (memberships_of r cat)" using k_in by auto
      have "r = g \<or> r = m" using mem unfolding memberships_of_iff by blast
      moreover have "w' = apply_ddl (RevokeMember g m None) w" using k_run by (simp add: k del: apply_ddl.simps)
      ultimately show ?thesis by blast
    qed
    have gone: "\<exists>k \<in> set ?ks. \<forall>w w'. ?h k w = Inr w' \<longrightarrow> (g, m, by) \<notin> set (c_members w')"
      if "(g, m, by) \<in> set (memberships_of r cat)" for g m "by"
    proof (rule bexI [of _ "(g, m)"])
      show "(g, m) \<in> set ?ks" using that by force
    qed auto
    show ?thesis by (intro conjI) (rule revocations_effect [OF run]; (erule (1) shape | erule gone))+
  qed
  then show "confined {r} cat cat'" "same_but_members cat cat'" "memberships_of r cat' = []" by blast+
qed

text \<open>After the reset of its security a role has no attribute, no membership and no default
  privilege of the kinds the module knows; its privileges are as before.\<close>

definition bare :: "string \<Rightarrow> string \<Rightarrow> catalog \<Rightarrow> bool" where
  "bare sch r cat \<longleftrightarrow>
     (\<exists>info. c_roles cat r = Some info \<and> ri_attributes info = {} \<and> ri_login info) \<and>
     memberships_of r cat = [] \<and>
     (\<forall>d \<in> set (c_defaults cat). managed_default sch r d \<longrightarrow> default_object_type (d_type d) = None)"

lemma all_attributes [simp]: "set ROLE_ATTRIBUTES = UNIV"
proof -
  have "a \<in> set ROLE_ATTRIBUTES" for a by (cases a) (simp_all add: ROLE_ATTRIBUTES_def)
  then show ?thesis by blast
qed

lemma attributes_cleared [simp]: "filter (\<lambda>a. a \<in> A) ROLE_ATTRIBUTES = [] \<longleftrightarrow> A = {}"
  by (auto simp: filter_empty_conv)

lemma attributes_dropped [simp]: "ri_attributes_update (\<lambda>have. have - ri_attributes info) info = info\<lparr> ri_attributes := {} \<rparr>"
  by (cases info) simp

lemma reset_role_security_effect:
  assumes "reset_role_security pg per_grantor sch r cat = Inr cat'"
  shows "confined {r} cat cat'" and "c_acl cat' = c_acl cat" "c_policies cat' = c_policies cat"
    "c_functions cat' = c_functions cat" "c_managed cat' = c_managed cat" 
    and "\<And>info. c_roles cat r = Some info \<Longrightarrow> ri_login info \<Longrightarrow> bare sch r cat'"
proof -
  have "confined {r} cat cat' \<and> c_acl cat' = c_acl cat \<and> c_policies cat' = c_policies cat \<and>
    c_functions cat' = c_functions cat \<and> c_managed cat' = c_managed cat \<and>
    (\<forall>info. c_roles cat r = Some info \<longrightarrow> ri_login info \<longrightarrow> bare sch r cat')"
  proof (cases "c_roles cat r")
    case None
    then show ?thesis using assms by (simp add: reset_role_security_def)
  next
    case (Some info)
    let ?clauses = "filter (\<lambda>a. a \<in> ri_attributes info) ROLE_ATTRIBUTES"
    obtain c1 c2 where c1: "(if ?clauses = [] then Inr cat else run_ddl pg (AlterRoleNo ?clauses r) cat) = Inr c1"
      and c2: "reset_default_privileges pg sch r c1 = Inr c2" and c3: "reset_memberships pg per_grantor r c2 = Inr cat'"
      using assms Some unfolding reset_role_security_def by (auto simp: Let_def simp del: attributes_cleared)
    have one: "confined {r} cat c1" "c_acl c1 = c_acl cat" "c_policies c1 = c_policies cat" "c_functions c1 = c_functions cat"
        "c_managed c1 = c_managed cat" "c_roles c1 r = Some (info\<lparr> ri_attributes := {} \<rparr>)"
      using c1 Some apply_ddl_confined [of "AlterRoleNo ?clauses r" "{r}" cat] by (auto split: if_splits)
    note two = reset_defaults_effect [OF c2] and three = reset_memberships_effect [OF c3]
    note fields = same_but_defaults_fields [OF two(2)] same_but_members_fields [OF three(2)]
    have "confined {r} cat cat'" using one(1) two(1) three(1) confined_trans by blast
    moreover have "bare sch r cat'" if "ri_login info"
      using two(3) three(3) that by (simp add: bare_def fields one)
    ultimately show ?thesis using Some by (simp add: fields one)
  qed
  then show "confined {r} cat cat'" "c_acl cat' = c_acl cat" "c_policies cat' = c_policies cat"
    "c_functions cat' = c_functions cat" "c_managed cat' = c_managed cat"
    "\<And>info. c_roles cat r = Some info \<Longrightarrow> ri_login info \<Longrightarrow> bare sch r cat'" by blast+
qed


subsection \<open>What rqueue promises\<close>

text \<open>
  \<open>grants caps t\<close> are the privileges on table \<open>t\<close> of the queue's schema that capabilities carry.
  Provisioning creates the role if need be, resets its privileges on those tables and records it;
  attributes and memberships of a role that exists it leaves alone. Revoking drops the role.
  Neither touches another role or the schema \<open>compute\<close>.
\<close>

definition only_role :: "string \<Rightarrow> catalog \<Rightarrow> catalog \<Rightarrow> bool" where
  "only_role r cat cat' \<longleftrightarrow>
     confined {r} cat cat' \<and> c_members cat' = c_members cat \<and> c_defaults cat' = c_defaults cat \<and>
     c_functions cat' = c_functions cat \<and> c_policies cat' = c_policies cat \<and>
     c_managed cat' - {r} = c_managed cat - {r}"

definition rqueue_contract :: "rqueue_roles \<Rightarrow> (capability list \<Rightarrow> string \<Rightarrow> privilege set) \<Rightarrow> bool" where
  "rqueue_contract rq grants \<longleftrightarrow>
     (\<forall>r caps sch queue pw cat cat'. provision rq r caps sch queue pw cat = Inr cat' \<longrightarrow>
        r \<noteq> PUBLIC \<and> only_role r cat cat' \<and> r \<in> c_managed cat' \<and>
        (\<exists>info. c_roles cat' r = Some info \<and> ri_login info) \<and>
        (\<forall>t. c_acl cat' (Table sch t) r = grants caps t)) \<and>
     (\<forall>r sch cat cat'. revoke rq r sch cat = Inr cat' \<longrightarrow>
        only_role r cat cat' \<and> r \<notin> c_managed cat' \<and> c_roles cat' r = None \<and> (\<forall>ob. c_acl cat' ob r = {}))"

subsection \<open>One role\<close>

definition queue_privileges :: "(capability list \<Rightarrow> string \<Rightarrow> privilege set) \<Rightarrow> role_settings \<Rightarrow> queue_role \<Rightarrow> string \<Rightarrow> privilege set" where
  "queue_privileges grants s q t =
     (grants (qr_capabilities q) t - (if qr_name q = WORKER_ROLE s \<and> t = ''jobs'' then {INSERT} else {})) \<union>
     (\<Union>(t', ps) \<in> set (qr_extra_queue_privileges q). if t' = t then set ps else {})"

definition holds_exactly :: "(capability list \<Rightarrow> string \<Rightarrow> privilege set) \<Rightarrow> role_settings \<Rightarrow> queue_role \<Rightarrow> catalog \<Rightarrow> bool" where
  "holds_exactly grants s q cat \<longleftrightarrow>
     bare (QUEUE_SCHEMA s) (qr_name q) cat \<and> qr_name q \<noteq> PUBLIC \<and>
     c_acl cat COMPUTE_JOBS (qr_name q) = set (qr_compute_privileges q) \<and>
     CREATE \<notin> c_acl cat (Schema ''compute'') (qr_name q) \<and>
     (USAGE \<in> c_acl cat (Schema ''compute'') (qr_name q) \<longleftrightarrow> qr_compute_privileges q \<noteq> []) \<and>
     (\<forall>t. c_acl cat (Table (QUEUE_SCHEMA s) t) (qr_name q) = queue_privileges grants s q t)"

lemma bare_confined:
  assumes "bare sch r cat" and "confined R cat cat'" and "r \<notin> R"
  shows "bare sch r cat'"
proof -
  have "set (memberships_of r cat') \<subseteq> set (memberships_of r cat)"
    using assms(2) by (auto simp: confined_def memberships_of_def)
  then have "memberships_of r cat' = []" using assms(1) by (simp add: bare_def)
  moreover have "default_object_type (d_type d') = None" if "d' \<in> set (c_defaults cat')" "managed_default sch r d'" for d'
  proof -
    have "shrunk (c_defaults cat) (c_defaults cat')" using assms(2) by (simp add: confined_def)
    from shrunk_origin [OF this that] show ?thesis using assms(1) unfolding bare_def by metis
  qed
  moreover have "c_roles cat' r = c_roles cat r" using assms(2,3) by (simp add: confined_def)
  ultimately show ?thesis using assms(1) by (simp add: bare_def)
qed

lemma holds_exactly_confined:
  assumes "holds_exactly grants s q cat" and "confined R cat cat'" and "qr_name q \<notin> R"
  shows "holds_exactly grants s q cat'"
proof -
  have "c_acl cat' ob (qr_name q) = c_acl cat ob (qr_name q)" for ob using assms(2,3) by (simp add: confined_def)
  then show ?thesis using assms(1) bare_confined [OF _ assms(2,3)] by (simp add: holds_exactly_def)
qed

text \<open>The extra privileges.\<close>

lemma extra_grants_effect:
  assumes "each (\<lambda>(t, ps). run_ddl pg (Grant ps (Table sch t) r)) xs cat = Inr cat'"
  shows "confined {r} cat cat'"
    and "c_acl cat' (Table sch t) r = c_acl cat (Table sch t) r \<union> (\<Union>(t', ps) \<in> set xs. if t' = t then set ps else {})"
    and "c_roles cat' = c_roles cat" "c_members cat' = c_members cat" "c_defaults cat' = c_defaults cat"
    and "c_policies cat' = c_policies cat" "c_functions cat' = c_functions cat"
proof -
  have "confined {r} cat cat' \<and> c_acl cat' (Table sch t) r = c_acl cat (Table sch t) r \<union> (\<Union>(t', ps) \<in> set xs. if t' = t then set ps else {}) \<and>
    c_roles cat' = c_roles cat \<and> c_members cat' = c_members cat \<and> c_defaults cat' = c_defaults cat \<and>
    c_policies cat' = c_policies cat \<and> c_functions cat' = c_functions cat"
    using assms
  proof (induction xs arbitrary: cat)
    case (Cons x xs)
    obtain t' ps where x: "x = (t', ps)" by (cases x)
    define c where "c = apply_ddl (Grant ps (Table sch t') r) cat"
    have rest: "each (\<lambda>(t, ps). run_ddl pg (Grant ps (Table sch t) r)) xs c = Inr cat'"
      using Cons.prems unfolding x c_def by (auto simp del: apply_ddl.simps)
    have "confined {r} cat c" unfolding c_def by (rule apply_ddl_confined) simp
    then show ?case using Cons.IH [OF rest] confined_trans by (auto simp: x c_def)
  qed simp
  then show "confined {r} cat cat'"
    "c_acl cat' (Table sch t) r = c_acl cat (Table sch t) r \<union> (\<Union>(t', ps) \<in> set xs. if t' = t then set ps else {})"
    "c_roles cat' = c_roles cat" "c_members cat' = c_members cat" "c_defaults cat' = c_defaults cat"
    "c_policies cat' = c_policies cat" "c_functions cat' = c_functions cat" by blast+
qed

definition purger_ready :: "role_settings \<Rightarrow> string list \<Rightarrow> queue_role \<Rightarrow> catalog \<Rightarrow> bool" where
  "purger_ready s ts q cat \<longleftrightarrow>
     c_policies cat POLICY_NAME = Some (purger_policy (QUEUE_SCHEMA s) ts q) \<and>
     c_functions cat (QUEUE_SCHEMA s, PURGER_DELETE_FUNCTION) = Some TERMINAL_STATUSES \<and>
     EXECUTE \<notin> c_acl cat (Function (QUEUE_SCHEMA s) PURGER_DELETE_FUNCTION) PUBLIC"

lemma provision_queue_role_stages:
  assumes "provision_queue_role rq pg per_grantor s ts q cat = Inr cat'"
  obtains c1 c2 c3 c4 c5
  where "provision rq (qr_name q) (qr_capabilities q) (QUEUE_SCHEMA s) (QUEUE s) (qr_password q) cat = Inr c1"
    and "reset_role_security pg per_grantor (QUEUE_SCHEMA s) (qr_name q) c1 = Inr c2"
    and "(if qr_name q = WORKER_ROLE s then run_ddl pg (Revoke [INSERT] (Table (QUEUE_SCHEMA s) ''jobs'') (qr_name q)) c2
          else Inr c2) = Inr c3"
    and "each (\<lambda>(t, ps). run_ddl pg (Grant ps (Table (QUEUE_SCHEMA s) t) (qr_name q))) (qr_extra_queue_privileges q) c3 = Inr c4"
    and "(if qr_name q = PURGER_ROLE s then grant_purger_delete_policy pg (QUEUE_SCHEMA s) ts q c4 else Inr c4) = Inr c5"
    and "grant_compute_access pg q c5 = Inr cat'"
proof -
  have "qr_password q \<noteq> ''''" using assms by (auto simp: provision_queue_role_def)
  note run = assms [unfolded provision_queue_role_def if_not_P [OF this]]
  show ?thesis by (rule bind_ok_Inr [OF run], elim bind_ok_Inr) (rule that)
qed

lemma worker_revocation_effect:
  assumes "(if r = w then run_ddl pg (Revoke [INSERT] (Table sch ''jobs'') r) cat else Inr cat) = Inr cat'"
  shows "confined {r} cat cat'" and "c_roles cat' = c_roles cat" and "c_members cat' = c_members cat"
    and "c_defaults cat' = c_defaults cat" and "c_policies cat' = c_policies cat" and "c_functions cat' = c_functions cat"
    and "c_acl cat' (Table sch t) r = c_acl cat (Table sch t) r - (if r = w \<and> t = ''jobs'' then {INSERT} else {})"
proof -
  let ?d = "Revoke [INSERT] (Table sch ''jobs'') r"
  have "(r = w \<longrightarrow> cat' = apply_ddl ?d cat) \<and> (r \<noteq> w \<longrightarrow> cat' = cat)"
    using assms by (simp del: apply_ddl.simps split: if_splits)
  then consider "r = w" "cat' = apply_ddl ?d cat" | "r \<noteq> w" "cat' = cat" by blast
  then have "confined {r} cat cat' \<and> c_roles cat' = c_roles cat \<and> c_members cat' = c_members cat \<and>
      c_defaults cat' = c_defaults cat \<and> c_policies cat' = c_policies cat \<and> c_functions cat' = c_functions cat \<and>
      c_acl cat' (Table sch t) r = c_acl cat (Table sch t) r - (if r = w \<and> t = ''jobs'' then {INSERT} else {})"
  proof cases
    case 1
    have "confined {r} cat cat'" unfolding 1(2) by (rule apply_ddl_confined) simp
    moreover have "c_roles cat' = c_roles cat \<and> c_members cat' = c_members cat \<and>
      c_defaults cat' = c_defaults cat \<and> c_policies cat' = c_policies cat \<and> c_functions cat' = c_functions cat"
      unfolding 1(2) by simp
    moreover have "c_acl cat' (Table sch t) r = c_acl cat (Table sch t) r - (if r = w \<and> t = ''jobs'' then {INSERT} else {})"
      unfolding 1(2) using 1(1) by simp
    ultimately show ?thesis by blast
  qed simp
  then show "confined {r} cat cat'" "c_roles cat' = c_roles cat" "c_members cat' = c_members cat"
    "c_defaults cat' = c_defaults cat" "c_policies cat' = c_policies cat" "c_functions cat' = c_functions cat"
    "c_acl cat' (Table sch t) r = c_acl cat (Table sch t) r - (if r = w \<and> t = ''jobs'' then {INSERT} else {})" by blast+
qed

lemma policy_step_effect:
  assumes "(if qr_name q = p then grant_purger_delete_policy pg sch ts q cat else Inr cat) = Inr cat'"
  shows "confined {qr_name q, PUBLIC} cat cat'" and "c_roles cat' = c_roles cat" and "c_members cat' = c_members cat"
    and "c_defaults cat' = c_defaults cat" and "c_acl cat' (Table t x) = c_acl cat (Table t x)"
    and "c_acl cat' (Schema t) = c_acl cat (Schema t)"
proof -
  have "confined {qr_name q, PUBLIC} cat cat' \<and> c_roles cat' = c_roles cat \<and> c_members cat' = c_members cat \<and>
    c_defaults cat' = c_defaults cat \<and> c_acl cat' (Table t x) = c_acl cat (Table t x) \<and> c_acl cat' (Schema t) = c_acl cat (Schema t)"
  proof (cases "qr_name q = p")
    case True
    with assms have run: "grant_purger_delete_policy pg sch ts q cat = Inr cat'" by simp
    show ?thesis using policy_confined(1,5-9) [OF run] by blast
  qed (use assms in simp)
  then show "confined {qr_name q, PUBLIC} cat cat'" "c_roles cat' = c_roles cat" "c_members cat' = c_members cat"
    "c_defaults cat' = c_defaults cat" "c_acl cat' (Table t x) = c_acl cat (Table t x)"
    "c_acl cat' (Schema t) = c_acl cat (Schema t)" by blast+
qed

lemma provision_effect:
  assumes "rqueue_contract rq grants" and "provision rq r caps sch queue pw cat = Inr cat'"
  shows "r \<noteq> PUBLIC" and "only_role r cat cat'" and "\<exists>info. c_roles cat' r = Some info \<and> ri_login info"
    and "c_acl cat' (Table sch t) r = grants caps t"
  using assms unfolding rqueue_contract_def by metis+

lemma provision_queue_role_holds:
  assumes "rqueue_contract rq grants" and "QUEUE_SCHEMA s \<noteq> ''compute''"
    and "provision_queue_role rq pg per_grantor s ts q cat = Inr cat'"
  shows "holds_exactly grants s q cat'"
  using assms(3)
proof (rule provision_queue_role_stages)
  let ?r = "qr_name q" and ?sch = "QUEUE_SCHEMA s"
  fix c1 c2 c3 c4 c5
  assume c: "provision rq ?r (qr_capabilities q) ?sch (QUEUE s) (qr_password q) cat = Inr c1"
    "reset_role_security pg per_grantor ?sch ?r c1 = Inr c2"
    "(if ?r = WORKER_ROLE s then run_ddl pg (Revoke [INSERT] (Table ?sch ''jobs'') ?r) c2 else Inr c2) = Inr c3"
    "each (\<lambda>(t, ps). run_ddl pg (Grant ps (Table ?sch t) ?r)) (qr_extra_queue_privileges q) c3 = Inr c4"
    "(if ?r = PURGER_ROLE s then grant_purger_delete_policy pg ?sch ts q c4 else Inr c4) = Inr c5"
    "grant_compute_access pg q c5 = Inr cat'"
  note one = provision_effect [OF assms(1) c(1)] and two = reset_role_security_effect [OF c(2)]
  note three = worker_revocation_effect [OF c(3)] and four = extra_grants_effect [OF c(4)]
  note five = policy_step_effect [OF c(5)] and six = grant_compute_access_effect [OF c(6)]
  have "bare ?sch ?r c2" using two(6) one(3) by blast
  then have "bare ?sch ?r cat'"
    by (simp add: bare_def memberships_of_def six(6-8) five(2-4) four(3-5) three(2-4))
  moreover have "c_acl cat' (Table ?sch t) ?r = queue_privileges grants s q t" for t
  proof -
    have "c_acl cat' (Table ?sch t) = c_acl c5 (Table ?sch t)" using assms(2) by (intro six(5)) (simp_all add: COMPUTE_JOBS_def)
    then show ?thesis by (simp add: five(5) four(2) three(7) two(2) one(4) queue_privileges_def)
  qed
  ultimately show ?thesis using six(2-4) one(1) by (simp add: holds_exactly_def)
qed

lemma provision_queue_role_confined:
  assumes "rqueue_contract rq grants" and "provision_queue_role rq pg per_grantor s ts q cat = Inr cat'"
  shows "confined {qr_name q, PUBLIC} cat cat' \<and> (qr_name q = PURGER_ROLE s \<longrightarrow> purger_ready s ts q cat')"
  using assms(2)
proof (rule provision_queue_role_stages)
  let ?r = "qr_name q" and ?sch = "QUEUE_SCHEMA s"
  fix c1 c2 c3 c4 c5
  assume c: "provision rq ?r (qr_capabilities q) ?sch (QUEUE s) (qr_password q) cat = Inr c1"
    "reset_role_security pg per_grantor ?sch ?r c1 = Inr c2"
    "(if ?r = WORKER_ROLE s then run_ddl pg (Revoke [INSERT] (Table ?sch ''jobs'') ?r) c2 else Inr c2) = Inr c3"
    "each (\<lambda>(t, ps). run_ddl pg (Grant ps (Table ?sch t) ?r)) (qr_extra_queue_privileges q) c3 = Inr c4"
    "(if ?r = PURGER_ROLE s then grant_purger_delete_policy pg ?sch ts q c4 else Inr c4) = Inr c5"
    "grant_compute_access pg q c5 = Inr cat'"
  note one = provision_effect [OF assms(1) c(1)] and six = grant_compute_access_effect [OF c(6)]
  have "confined {?r} cat c1" using one(2) by (simp add: only_role_def)
  then have "confined {?r} cat c4"
    using reset_role_security_effect(1) [OF c(2)] worker_revocation_effect(1) [OF c(3)] extra_grants_effect(1) [OF c(4)]
      confined_trans by blast
  then have "confined {?r, PUBLIC} cat c4" "confined {?r, PUBLIC} c5 cat'"
    using six(1) confined_mono [of "{?r}" _ _ "{?r, PUBLIC}"] by blast+
  then have "confined {?r, PUBLIC} cat cat'" using policy_step_effect(1) [OF c(5)] confined_trans by blast
  moreover have "purger_ready s ts q cat'" if "?r = PURGER_ROLE s"
  proof -
    have run: "grant_purger_delete_policy pg ?sch ts q c4 = Inr c5" using c(5) that by simp
    have "c_acl cat' (Function ?sch PURGER_DELETE_FUNCTION) = c_acl c5 (Function ?sch PURGER_DELETE_FUNCTION)"
      by (rule six(5)) (simp_all add: COMPUTE_JOBS_def)
    then show ?thesis using policy_confined(2-4) [OF run] one(1) by (simp add: purger_ready_def six(9,10))
  qed
  ultimately show ?thesis by blast
qed


subsection \<open>A whole run\<close>

lemma each_passed:
  assumes "each f xs s = Inr s'" and "x \<in> set xs"
  shows "\<exists>t t'. f x t = Inr t'"
  by (rule each_establishes [OF assms, of "\<lambda>_. \<exists>t t'. f x t = Inr t'"]) auto

lemma validate_role_names_ok:
  assumes "validate_role_names s = Inr u"
  shows "distinct (map qr_name (queue_roles s))"
    and "q \<in> set (queue_roles s) \<Longrightarrow> v \<in> set (map snd (protected_names s)) \<Longrightarrow> v \<noteq> '''' \<Longrightarrow> qr_name q \<noteq> v"
proof -
  show dist: "distinct (map qr_name (queue_roles s))"
    using assms by (auto simp: validate_role_names_def Let_def split: if_splits)
  let ?f = "\<lambda>env q (p, v) (u :: unit). if v \<noteq> '''' \<and> qr_name q = v then Inl (ValueError (env @ '' collides with '' @ p)) else Inr u"
  have run: "each (\<lambda>(env, q) u. each (?f env q) (protected_names s) u) (zip ROLE_ENV_VARS (queue_roles s)) () = Inr u"
    using assms unfolding validate_role_names_def Let_def by (simp only: dist not_True_eq_False if_False)
  show "qr_name q \<noteq> v" if q: "q \<in> set (queue_roles s)" and v: "v \<in> set (map snd (protected_names s))" "v \<noteq> ''''"
  proof -
    have "length ROLE_ENV_VARS = length (queue_roles s)" by (simp add: ROLE_ENV_VARS_def queue_roles_def)
    then obtain env where "(env, q) \<in> set (zip ROLE_ENV_VARS (queue_roles s))"
      using q by (rule in_set_impl_in_set_zip2)
    from each_passed [OF run this]
    obtain t t' where inner: "each (?f env q) (protected_names s) t = Inr t'" unfolding prod.case by blast
    obtain p where "(p, v) \<in> set (protected_names s)" using v(1) by auto
    from each_passed [OF inner this] show ?thesis using v(2) by (simp split: if_splits)
  qed
qed

definition recorded :: "catalog \<Rightarrow> (string \<times> string) list" where
  "recorded cat = (case c_state cat of None \<Rightarrow> [] | Some st \<Rightarrow> st)"

lemma load_role_state_effect:
  assumes "load_role_state pg sch cat = Inr (previous, cat')"
  shows "previous = recorded cat" and "confined {PUBLIC} cat cat'" and "c_state cat' \<noteq> None"
    and "c_roles cat' = c_roles cat" and "c_managed cat' = c_managed cat"
proof -
  let ?ds = "[CreateStateTable, Revoke ALL_PRIVILEGES (STATE_TABLE sch) PUBLIC]"
  have run: "each (run_ddl pg) ?ds cat = Inr cat'" and prev: "previous = (case c_state cat' of None \<Rightarrow> [] | Some st \<Rightarrow> st)"
    using assms unfolding load_role_state_def by (auto simp del: apply_ddl.simps each.simps)
  show "confined {PUBLIC} cat cat'" by (rule ddls_confined [OF run]) auto
  show "previous = recorded cat" "c_state cat' \<noteq> None" "c_roles cat' = c_roles cat" "c_managed cat' = c_managed cat"
    unfolding prev run_ddls [OF run] by (simp_all add: recorded_def split: option.split)
qed

lemma insert_states: "c_state cat \<noteq> None \<Longrightarrow>
    c_state (fold apply_ddl (map (\<lambda>(k, q). InsertState k (qr_name q)) kqs) cat) =
      Some (the (c_state cat) @ map (\<lambda>(k, q). (k, qr_name q)) kqs)"
  by (induction kqs arbitrary: cat) auto

lemma save_role_state_effect:
  assumes "save_role_state pg qs cat = Inr cat'"
  shows "confined {} cat cat'" and "c_acl cat' = c_acl cat" "c_policies cat' = c_policies cat" "c_functions cat' = c_functions cat"
    and "c_state cat \<noteq> None \<Longrightarrow> recorded cat' = map (\<lambda>(k, q). (k, qr_name q)) (zip ROLE_KINDS qs)"
proof -
  let ?ds = "map (\<lambda>(k, q). InsertState k (qr_name q)) (zip ROLE_KINDS qs)"
  have run: "each (run_ddl pg) (DeleteState # ?ds) cat = Inr cat'" using assms by (simp add: save_role_state_def)
  show "confined {} cat cat'" by (rule ddls_confined [OF run]) auto
  have cat': "cat' = fold apply_ddl ?ds (apply_ddl DeleteState cat)" using run_ddls [OF run] by simp
  have "c_acl (fold apply_ddl (map (\<lambda>(k, q). InsertState k (qr_name q)) kqs) c) = c_acl c \<and>
      c_policies (fold apply_ddl (map (\<lambda>(k, q). InsertState k (qr_name q)) kqs) c) = c_policies c \<and>
      c_functions (fold apply_ddl (map (\<lambda>(k, q). InsertState k (qr_name q)) kqs) c) = c_functions c"
    for kqs :: "(string \<times> queue_role) list" and c
    by (induction kqs arbitrary: c) auto
  then show "c_acl cat' = c_acl cat" "c_policies cat' = c_policies cat" "c_functions cat' = c_functions cat"
    unfolding cat' by simp_all
  show "recorded cat' = map (\<lambda>(k, q). (k, qr_name q)) (zip ROLE_KINDS qs)" if "c_state cat \<noteq> None"
    using insert_states [of "apply_ddl DeleteState cat" "zip ROLE_KINDS qs"] that unfolding cat' by (auto simp: recorded_def)
qed

lemma provision_queue_roles_stages:
  assumes "provision_queue_roles rq pg per_grantor valid s ts cat = Inr cat'"
  obtains c1 c2 c3
  where "validate_role_names s = Inr ()" and "load_role_state pg (QUEUE_SCHEMA s) cat = Inr (recorded cat, c1)"
    and "validate_existing_role_names s c1 = Inr ()"
    and "retire_previous_roles rq pg per_grantor s (recorded cat) c1 = Inr c2"
    and "each (provision_queue_role rq pg per_grantor s ts) (queue_roles s) c2 = Inr c3"
    and "save_role_state pg (queue_roles s) c3 = Inr cat'"
proof -
  let ?rest = "\<lambda>(previous, cat). bind_ok (validate_existing_role_names s cat) (\<lambda>_.
     bind_ok (retire_previous_roles rq pg per_grantor s previous cat) (\<lambda>cat.
     bind_ok (each (provision_queue_role rq pg per_grantor s ts) (queue_roles s) cat)
       (save_role_state pg (queue_roles s))))"
  obtain u where r1: "bind_ok (validate_role_names s) (\<lambda>_. bind_ok (load_role_state pg (QUEUE_SCHEMA s) cat) ?rest) = Inr cat'"
    by (rule bind_ok_Inr [OF assms [unfolded provision_queue_roles_def]]) (rule that)
  obtain v where names: "validate_role_names s = Inr v" and r2: "bind_ok (load_role_state pg (QUEUE_SCHEMA s) cat) ?rest = Inr cat'"
    by (rule bind_ok_Inr [OF r1]) (rule that)
  obtain p where load: "load_role_state pg (QUEUE_SCHEMA s) cat = Inr p" and rest: "?rest p = Inr cat'"
    by (rule bind_ok_Inr [OF r2]) (rule that)
  obtain prev c1 where p: "p = (prev, c1)" by (cases p)
  have prev: "prev = recorded cat" using load_role_state_effect(1) [OF load [unfolded p]] .
  note r3 = rest [unfolded p prev prod.case]
  obtain w where existing: "validate_existing_role_names s c1 = Inr w" and r4:
      "bind_ok (retire_previous_roles rq pg per_grantor s (recorded cat) c1) (\<lambda>cat.
        bind_ok (each (provision_queue_role rq pg per_grantor s ts) (queue_roles s) cat) (save_role_state pg (queue_roles s))) = Inr cat'"
    by (rule bind_ok_Inr [OF r3]) (rule that)
  obtain c2 where c2: "retire_previous_roles rq pg per_grantor s (recorded cat) c1 = Inr c2" and r5:
      "bind_ok (each (provision_queue_role rq pg per_grantor s ts) (queue_roles s) c2) (save_role_state pg (queue_roles s)) = Inr cat'"
    by (rule bind_ok_Inr [OF r4]) (rule that)
  obtain c3 where "each (provision_queue_role rq pg per_grantor s ts) (queue_roles s) c2 = Inr c3"
      and "save_role_state pg (queue_roles s) c3 = Inr cat'"
    by (rule bind_ok_Inr [OF r5]) (rule that)
  moreover have "v = ()" "w = ()" by simp_all
  ultimately show ?thesis by (intro that [OF _ load [unfolded p prev] _ c2]) (use names existing in simp_all)
qed

lemma retire_role_confined:
  assumes "rqueue_contract rq grants" and "retire_role rq pg per_grantor sch kind r cat = Inr cat'"
  shows "confined {r} cat cat'" and "c_roles cat' r = None" and "c_roles cat r \<noteq> None \<Longrightarrow> c_acl cat' ob r = {}"
proof -
  have "confined {r} cat cat' \<and> c_roles cat' r = None \<and> (c_roles cat r \<noteq> None \<longrightarrow> (\<forall>ob. c_acl cat' ob r = {}))"
  proof (cases "c_roles cat r = None")
    case False
    note run = assms(2) [unfolded retire_role_def if_not_P [OF False]]
    obtain c1 c2 c3 where c: "(if kind = ''purger'' then run_ddl pg (DropPolicy POLICY_NAME) cat else Inr cat) = Inr c1"
      "reset_role_security pg per_grantor sch r c1 = Inr c2"
      "each (run_ddl pg) [Revoke ALL_PRIVILEGES COMPUTE_JOBS r, Revoke ALL_PRIVILEGES (Schema ''compute'') r] c2 = Inr c3"
      "revoke rq r sch c3 = Inr cat'"
      by (rule bind_ok_Inr [OF run], elim bind_ok_Inr) (rule that)
    have "confined {r} cat c1"
      using c(1) run_ddl_confined [of pg "DropPolicy POLICY_NAME" cat c1 "{}" "{r}"]
      by (cases "kind = ''purger''") (simp_all del: run_ddl_Inr)
    then have "confined {r} cat c2" by (rule confined_trans [OF _ reset_role_security_effect(1) [OF c(2)]])
    then have "confined {r} cat c3" by (rule confined_trans) (rule ddls_confined [OF c(3)], simp)
    moreover have dropped: "only_role r c3 cat'" "c_roles cat' r = None" "\<forall>ob. c_acl cat' ob r = {}"
      using assms(1) c(4) unfolding rqueue_contract_def by metis+
    moreover have "confined {r} c3 cat'" using dropped(1) by (simp only: only_role_def)
    ultimately show ?thesis using confined_trans by metis
  qed (use assms(2) in \<open>simp add: retire_role_def\<close>)
  then show "confined {r} cat cat'" "c_roles cat' r = None" "c_roles cat r \<noteq> None \<Longrightarrow> c_acl cat' ob r = {}" by blast+
qed

lemma retire_previous_confined:
  assumes "rqueue_contract rq grants" and "retire_previous_roles rq pg per_grantor s previous cat = Inr cat'"
  shows "confined (snd ` set previous) cat cat'"
proof (rule each_confined [OF assms(2) [unfolded retire_previous_roles_def]])
  fix x c c' assume x: "x \<in> set previous" and run: "(\<lambda>(kind, r) cat. if kind \<in> set ROLE_KINDS \<and> r \<notin> set (map qr_name (queue_roles s))
       then retire_role rq pg per_grantor (QUEUE_SCHEMA s) kind r cat else Inr cat) x c = Inr c'"
  have "confined {snd x} c c'"
    using run retire_role_confined(1) [OF assms(1), of pg per_grantor "QUEUE_SCHEMA s" "fst x" "snd x" c c']
    by (cases x) (auto split: if_splits)
  then show "confined (snd ` set previous) c c'" by (rule confined_mono) (use x in auto)
qed

lemma provision_all_confined:
  assumes "rqueue_contract rq grants" and "each (provision_queue_role rq pg per_grantor s ts) qs cat = Inr cat'"
  shows "confined (insert PUBLIC (qr_name ` set qs)) cat cat'"
proof (rule each_confined [OF assms(2)])
  fix q c c' assume "q \<in> set qs" "provision_queue_role rq pg per_grantor s ts q c = Inr c'"
  then show "confined (insert PUBLIC (qr_name ` set qs)) c c'"
    using provision_queue_role_confined [OF assms(1)] by (blast intro: confined_mono)
qed


subsection \<open>The laws\<close>

lemma provisioned_roles_hold:
  assumes "rqueue_contract rq grants" and "QUEUE_SCHEMA s \<noteq> ''compute''" and "distinct (map qr_name qs)"
    and "each (provision_queue_role rq pg per_grantor s ts) qs c = Inr c'" and "q \<in> set qs"
  shows "holds_exactly grants s q c'"
proof (rule each_establishes [OF assms(4,5)])
  show "holds_exactly grants s q w'" if "provision_queue_role rq pg per_grantor s ts q w = Inr w'" for w w'
    by (rule provision_queue_role_holds [OF assms(1,2) that])
  fix x w w' assume x: "x \<in> set qs" "holds_exactly grants s q w"
    and run: "provision_queue_role rq pg per_grantor s ts x w = Inr w'"
  show "holds_exactly grants s q w'"
  proof (cases "qr_name x = qr_name q")
    case True
    then have "x = q" using assms(3,5) x(1) by (auto simp: distinct_map dest: inj_onD)
    then show ?thesis using provision_queue_role_holds [OF assms(1,2) run] by simp
  next
    case False
    have "qr_name q \<noteq> PUBLIC" using x(2) by (simp add: holds_exactly_def)
    then have "qr_name q \<notin> {qr_name x, PUBLIC}" using False by simp
    then show ?thesis
      by (rule holds_exactly_confined [OF x(2) conjunct1 [OF provision_queue_role_confined [OF assms(1) run]]])
  qed
qed

lemma provisioned_purger_ready:
  assumes "rqueue_contract rq grants" and "distinct (map qr_name (queue_roles s))"
    and "each (provision_queue_role rq pg per_grantor s ts) (queue_roles s) c = Inr c'"
    and "q \<in> set (queue_roles s)" and "qr_name q = PURGER_ROLE s"
  shows "purger_ready s ts q c'"
proof -
  obtain a b p where roles: "queue_roles s = [a, b, p]" and p: "qr_name p = PURGER_ROLE s" by (simp add: queue_roles_def)
  obtain w where run: "provision_queue_role rq pg per_grantor s ts p w = Inr c'" using assms(3) unfolding roles by auto
  have "p \<in> set (queue_roles s)" by (simp add: roles)
  then have "q = p" using assms(2,4,5) p by (metis distinct_map inj_onD)
  then show ?thesis using provision_queue_role_confined [OF assms(1) run] p by simp
qed


text \<open>Provisioning touches nobody else: a role that is neither configured nor in the record of earlier
  runs keeps its attributes, its privileges on every object, its default privileges and its
  memberships with such roles, and no membership or default privilege is added.\<close>

theorem provisioning_touches_no_other_role:
  assumes "rqueue_contract rq grants" and "provision_queue_roles rq pg per_grantor valid s ts cat = Inr cat'"
  shows "confined (insert PUBLIC (qr_name ` set (queue_roles s) \<union> snd ` set (recorded cat))) cat cat'"
  using assms(2)
proof (rule provision_queue_roles_stages)
  fix c1 c2 c3
  assume load: "load_role_state pg (QUEUE_SCHEMA s) cat = Inr (recorded cat, c1)"
    and retire: "retire_previous_roles rq pg per_grantor s (recorded cat) c1 = Inr c2"
    and all: "each (provision_queue_role rq pg per_grantor s ts) (queue_roles s) c2 = Inr c3"
    and save: "save_role_state pg (queue_roles s) c3 = Inr cat'"
  let ?R = "insert PUBLIC (qr_name ` set (queue_roles s) \<union> snd ` set (recorded cat))"
  have steps: "confined ?R cat c1" "confined ?R c1 c2" "confined ?R c2 c3" "confined ?R c3 cat'"
    by (rule confined_mono [OF load_role_state_effect(2) [OF load]], simp)
      (rule confined_mono [OF retire_previous_confined [OF assms(1) retire]], blast,
       rule confined_mono [OF provision_all_confined [OF assms(1) all]], blast,
       rule confined_mono [OF save_role_state_effect(1) [OF save]], simp)
  show ?thesis by (rule confined_trans [OF confined_trans [OF confined_trans [OF steps(1,2)] steps(3)] steps(4)])
qed

lemma unmanaged_role_raises:
  assumes "q \<in> set (queue_roles s)" and "c_roles c1 (qr_name q) = Some info" and "qr_name q \<notin> c_managed c1"
  shows "validate_existing_role_names s c1 \<noteq> Inr u"
proof
  assume run: "validate_existing_role_names s c1 = Inr u"
  let ?f = "\<lambda>q (u :: unit). case c_roles c1 (qr_name q) of None \<Rightarrow> Inr u
      | Some info \<Rightarrow> if qr_name q \<in> c_managed c1 then Inr u
         else Inl (ValueError (qr_env_var q @ ''='' @ qr_name q @ '' names an unmanaged existing database role with '' @
                   listed (unmanaged_profile c1 (qr_name q) info) @ ''; refusing to alter it''))"
  have "each ?f (queue_roles s) () = Inr u" using run by (simp only: validate_existing_role_names_def)
  then have "\<exists>t t'. ?f q t = Inr t'" using assms(1) by (rule each_passed)
  then show False using assms(2,3) by simp
qed

lemma unmanaged_role_stops:
  assumes "q \<in> set (queue_roles s)" and "c_roles cat (qr_name q) = Some info" and "qr_name q \<notin> c_managed cat"
  shows "provision_queue_roles rq pg per_grantor valid s ts cat \<noteq> Inr cat'"
proof
  assume "provision_queue_roles rq pg per_grantor valid s ts cat = Inr cat'"
  then show False
  proof (rule provision_queue_roles_stages)
    fix c1
    assume load: "load_role_state pg (QUEUE_SCHEMA s) cat = Inr (recorded cat, c1)"
      and existing: "validate_existing_role_names s c1 = Inr ()"
    show False
      by (rule notE [OF unmanaged_role_raises [OF assms(1)] existing]) (use assms(2,3) load_role_state_effect(4,5) [OF load] in simp_all)
  qed
qed

text \<open>A configured name that belongs to an existing role which rqueue does not manage stops the run:
  it ends with an exception and the transaction leaves the catalog as it was.\<close>

theorem unmanaged_role_is_refused:
  assumes "q \<in> set (queue_roles s)" and "c_roles cat (qr_name q) = Some info" and "qr_name q \<notin> c_managed cat"
  shows "\<exists>e. run_queue_grants rq pg per_grantor valid s ts commit cat = (Inl e, cat)"
proof (cases "provision_queue_roles rq pg per_grantor valid s ts cat")
  case (Inr cat')
  with unmanaged_role_stops [OF assms] show ?thesis by blast
qed (simp add: run_queue_grants_def)


subsection \<open>The purge behind the policy\<close>

lemma purger_may_delete:
  assumes "purger_ready s ts q cat" and "qr_name q = PURGER_ROLE s"
    and "DELETE \<in> c_acl cat (Table (QUEUE_SCHEMA s) ''jobs'') (PURGER_ROLE s)"
  shows "may_delete cat (QUEUE_SCHEMA s) (PURGER_ROLE s) now db x \<longleftrightarrow>
    q_state x \<in> set ts \<and> queue_finished_before (now - JOB_RETENTION) x \<and>
    (\<exists>r \<in> set (rows db). payload_uuid x = Some (job_id r) \<and> terminal (status r))"
  using assms by (auto simp: may_delete_def policy_admits_def purger_ready_def purger_policy_def can_delete_def split: option.splits)

lemma eligible_origin:
  assumes "i \<in> set (eligible_queue_job_ids qn ts ct db queue)"
  shows "\<exists>y \<in> set queue. q_id y = i \<and> purge_candidate qn ts ct y \<and>
    (\<exists>r \<in> set (rows db). payload_uuid y = Some (job_id r) \<and> terminal (status r))"
  using assms by (auto simp: eligible_queue_job_ids_def dest!: in_set_takeD)


subsection \<open>A role that changed its part\<close>

definition retire_entry ::
  "rqueue_roles \<Rightarrow> server \<Rightarrow> bool \<Rightarrow> role_settings \<Rightarrow> string \<times> string \<Rightarrow> catalog \<Rightarrow> exn + catalog" where
  "retire_entry rq pg per_grantor s x =
     (if fst x \<in> set ROLE_KINDS \<and> snd x \<notin> set (map qr_name (queue_roles s))
      then retire_role rq pg per_grantor (QUEUE_SCHEMA s) (fst x) (snd x) else Inr)"

lemma retire_previous_roles_entries:
  "retire_previous_roles rq pg per_grantor s previous = each (retire_entry rq pg per_grantor s) previous"
proof -
  have "(\<lambda>(kind, r) cat. if kind \<in> set ROLE_KINDS \<and> r \<notin> set (map qr_name (queue_roles s))
       then retire_role rq pg per_grantor (QUEUE_SCHEMA s) kind r cat else Inr cat) = retire_entry rq pg per_grantor s"
    by (intro ext) (simp only: retire_entry_def split_beta, simp)
  then show ?thesis by (simp only: retire_previous_roles_def)
qed

text \<open>What one entry does to a role: nothing, or it is gone.\<close>

definition gone_from :: "string \<Rightarrow> catalog \<Rightarrow> bool" where
  "gone_from r cat \<longleftrightarrow> c_roles cat r = None \<and> (\<forall>ob. c_acl cat ob r = {})"

lemma retire_entry_effect:
  assumes "rqueue_contract rq grants" and "retire_entry rq pg per_grantor s x cat = Inr cat'"
    and "c_roles cat r = None \<longrightarrow> gone_from r cat"
  shows "c_roles cat' r = None \<longrightarrow> gone_from r cat'" and "gone_from r cat \<Longrightarrow> gone_from r cat'"
    and "snd x = r \<Longrightarrow> fst x \<in> set ROLE_KINDS \<Longrightarrow> r \<notin> qr_name ` set (queue_roles s) \<Longrightarrow> gone_from r cat'"
proof -
  have "(c_roles cat' r = None \<longrightarrow> gone_from r cat') \<and> (gone_from r cat \<longrightarrow> gone_from r cat') \<and>
    (snd x = r \<longrightarrow> fst x \<in> set ROLE_KINDS \<longrightarrow> r \<notin> qr_name ` set (queue_roles s) \<longrightarrow> gone_from r cat')"
  proof (cases "fst x \<in> set ROLE_KINDS \<and> snd x \<notin> set (map qr_name (queue_roles s))")
    case True
    have run: "retire_role rq pg per_grantor (QUEUE_SCHEMA s) (fst x) (snd x) cat = Inr cat'"
      using assms(2) [unfolded retire_entry_def if_P [OF True]] .
    note effect = retire_role_confined [OF assms(1) run]
    show ?thesis
    proof (cases "snd x = r")
      case same: True
      show ?thesis
      proof (cases "c_roles cat r = None")
        case none: True
        then have "cat' = cat" using run same by (simp add: retire_role_def)
        then show ?thesis using assms(3) none by simp
      next
        case False
        then have "gone_from r cat'" using effect(2,3) same by (simp add: gone_from_def)
        then show ?thesis by blast
      qed
    next
      case False
      then have "c_roles cat' r = c_roles cat r" "\<And>ob. c_acl cat' ob r = c_acl cat ob r"
        using effect(1) by (simp_all add: confined_def)
      then have "gone_from r cat' = gone_from r cat" "c_roles cat' r = c_roles cat r" by (simp_all add: gone_from_def)
      then show ?thesis using assms(3) False by simp
    qed
  next
    case False
    then have "cat' = cat" using assms(2) [unfolded retire_entry_def if_not_P [OF False]] by (simp only: sum.inject)
    then show ?thesis using assms(3) False by (metis set_map)
  qed
  then show "c_roles cat' r = None \<longrightarrow> gone_from r cat'" "gone_from r cat \<Longrightarrow> gone_from r cat'"
    "snd x = r \<Longrightarrow> fst x \<in> set ROLE_KINDS \<Longrightarrow> r \<notin> qr_name ` set (queue_roles s) \<Longrightarrow> gone_from r cat'" by blast+
qed

lemma retired_role_gone:
  assumes "rqueue_contract rq grants" and "retire_previous_roles rq pg per_grantor s previous cat = Inr cat'"
    and "(kind, r) \<in> set previous" and "kind \<in> set ROLE_KINDS" and "r \<notin> qr_name ` set (queue_roles s)"
    and "c_roles cat r \<noteq> None"
  shows "gone_from r cat'"
proof -
  have run: "each (retire_entry rq pg per_grantor s) previous cat = Inr cat'"
    using assms(2) by (simp only: retire_previous_roles_entries)
  let ?P = "\<lambda>c. c_roles c r = None \<longrightarrow> gone_from r c"
  obtain xs ys where prev: "previous = xs @ (kind, r) # ys" using assms(3) by (meson split_list)
  obtain c1 c2 where c1: "each (retire_entry rq pg per_grantor s) xs cat = Inr c1"
      and c2: "retire_entry rq pg per_grantor s (kind, r) c1 = Inr c2"
      and c3: "each (retire_entry rq pg per_grantor s) ys c2 = Inr cat'"
    using run unfolding prev by auto
  have "?P c1"
  proof (rule each_preserves [where P = ?P, OF c1])
    show "?P cat" using assms(6) by blast
    show "?P c'" if "?P c" "retire_entry rq pg per_grantor s x c = Inr c'" for x c c'
      by (rule retire_entry_effect(1) [OF assms(1) that(2,1)])
  qed
  then have "gone_from r c2" using retire_entry_effect(3) [OF assms(1) c2] assms(4,5) by simp
  show ?thesis
  proof (rule each_preserves [where P = "gone_from r", OF c3 \<open>gone_from r c2\<close>])
    fix x c c' assume "gone_from r c" "retire_entry rq pg per_grantor s x c = Inr c'"
    then show "gone_from r c'" using retire_entry_effect(2) [OF assms(1), of pg per_grantor s x c c' r] by blast
  qed
qed

text \<open>A deployment that gives the web application's role a name one of these roles had before loses it:
  the checks compare the configured names with \<open>APP_DB_ROLE\<close>, not those of earlier runs, so
  the run that succeeds has dropped that role with everything it could do.\<close>

theorem retiring_drops_the_web_role:
  assumes "rqueue_contract rq grants" and "provision_queue_roles rq pg per_grantor valid s ts cat = Inr cat'"
    and "(kind, APP_DB_ROLE s) \<in> set (recorded cat)" and "kind \<in> set ROLE_KINDS"
    and "c_roles cat (APP_DB_ROLE s) \<noteq> None" and "APP_DB_ROLE s \<noteq> ''''" and "APP_DB_ROLE s \<noteq> PUBLIC"
  shows "c_roles cat' (APP_DB_ROLE s) = None \<and> (\<forall>ob. c_acl cat' ob (APP_DB_ROLE s) = {})"
  using assms(2)
proof (rule provision_queue_roles_stages)
  fix c1 c2 c3
  assume names: "validate_role_names s = Inr ()" and load: "load_role_state pg (QUEUE_SCHEMA s) cat = Inr (recorded cat, c1)"
    and retire: "retire_previous_roles rq pg per_grantor s (recorded cat) c1 = Inr c2"
    and all: "each (provision_queue_role rq pg per_grantor s ts) (queue_roles s) c2 = Inr c3"
    and save: "save_role_state pg (queue_roles s) c3 = Inr cat'"
  let ?app = "APP_DB_ROLE s"
  have "?app \<in> set (map snd (protected_names s))" by (simp add: protected_names_def)
  then have "qr_name q \<noteq> ?app" if "q \<in> set (queue_roles s)" for q using validate_role_names_ok(2) [OF names that] assms(6) by blast
  then have free: "?app \<notin> qr_name ` set (queue_roles s)" by (metis imageE)
  have "c_roles c1 ?app \<noteq> None" using assms(5) load_role_state_effect(4) [OF load] by simp
  then have "gone_from ?app c2" by (rule retired_role_gone [OF assms(1) retire assms(3,4) free])
  moreover have "confined (insert PUBLIC (qr_name ` set (queue_roles s))) c2 c3" by (rule provision_all_confined [OF assms(1) all])
  moreover have "confined {} c3 cat'" by (rule save_role_state_effect(1) [OF save])
  moreover have "?app \<notin> insert PUBLIC (qr_name ` set (queue_roles s))" using free assms(7) by blast
  ultimately show ?thesis by (simp add: confined_def gone_from_def)
qed


subsection \<open>A deployment\<close>

definition sample_grants :: "capability list \<Rightarrow> string \<Rightarrow> privilege set" where
  "sample_grants caps t =
     (if t = ''jobs'' then if caps = [INSPECT] then {SELECT} else {SELECT, INSERT, UPDATE} else {})"

definition sample_rqueue :: rqueue_roles where
  "sample_rqueue =
     \<lparr> revoke = \<lambda>r sch cat. Inr (cat\<lparr> c_roles := (c_roles cat)(r := None),
          c_acl := \<lambda>ob x. if x = r then {} else c_acl cat ob x, c_managed := c_managed cat - {r} \<rparr>),
       provision = \<lambda>r caps sch queue pw cat.
          if r = PUBLIC then Inl OSError
          else Inr (cat\<lparr> c_roles := (c_roles cat)(r \<mapsto> \<lparr> ri_attributes =
                   (case c_roles cat r of None \<Rightarrow> {Inherit} | Some i \<Rightarrow> ri_attributes i), ri_login = True \<rparr>),
               c_acl := \<lambda>ob x. case ob of
                   Table sch' t \<Rightarrow> if x = r \<and> sch' = sch then sample_grants caps t else c_acl cat ob x
                 | _ \<Rightarrow> c_acl cat ob x,
               c_managed := insert r (c_managed cat) \<rparr>) \<rparr>"

lemma sample_rqueue_contract: "rqueue_contract sample_rqueue sample_grants"
  unfolding rqueue_contract_def
proof (intro conjI allI impI)
  fix r caps sch queue pw and cat cat' :: catalog
  assume run: "provision sample_rqueue r caps sch queue pw cat = Inr cat'"
  then have r: "r \<noteq> PUBLIC" by (auto simp: sample_rqueue_def)
  then have cat': "cat' = cat\<lparr> c_roles := (c_roles cat)(r \<mapsto> \<lparr> ri_attributes =
                   (case c_roles cat r of None \<Rightarrow> {Inherit} | Some i \<Rightarrow> ri_attributes i), ri_login = True \<rparr>),
               c_acl := \<lambda>ob x. case ob of
                   Table sch' t \<Rightarrow> if x = r \<and> sch' = sch then sample_grants caps t else c_acl cat ob x
                 | _ \<Rightarrow> c_acl cat ob x,
               c_managed := insert r (c_managed cat) \<rparr>"
    using run by (simp add: sample_rqueue_def)
  show "r \<noteq> PUBLIC" by (rule r)
  show "only_role r cat cat'" unfolding cat' by (auto simp: only_role_def confined_def shrunk_refl split: db_object.split)
  show "r \<in> c_managed cat'" "\<exists>info. c_roles cat' r = Some info \<and> ri_login info" unfolding cat' by simp_all
  show "c_acl cat' (Table sch t) r = sample_grants caps t" for t unfolding cat' by simp
next
  fix r sch and cat cat' :: catalog
  assume "revoke sample_rqueue r sch cat = Inr cat'"
  then have cat': "cat' = cat\<lparr> c_roles := (c_roles cat)(r := None),
          c_acl := \<lambda>ob x. if x = r then {} else c_acl cat ob x, c_managed := c_managed cat - {r} \<rparr>"
    by (simp add: sample_rqueue_def)
  show "only_role r cat cat'" unfolding cat' by (auto simp: only_role_def confined_def shrunk_refl)
  show "r \<notin> c_managed cat'" "c_roles cat' r = None" "c_acl cat' ob r = {}" for ob unfolding cat' by simp_all
qed

text \<open>The producer was called \<open>old\<close>, the worker \<open>w\<close> was widened by hand, and the web application now
  uses the name \<open>old\<close>.\<close>

definition sample_settings :: role_settings where
  "sample_settings = \<lparr> PRODUCER_ROLE = ''p'', PRODUCER_PASSWORD = ''a'', WORKER_ROLE = ''w'', WORKER_PASSWORD = ''b'',
     PURGER_ROLE = ''d'', PURGER_PASSWORD = ''c'', APP_DB_ROLE = ''old'', owner_name = Some ''o'', QUEUE = ''q'',
     QUEUE_SCHEMA = ''task'' \<rparr>"

definition sample_catalog :: catalog where
  "sample_catalog = \<lparr> c_roles = [''old'' \<mapsto> \<lparr> ri_attributes = {}, ri_login = True \<rparr>,
        ''w'' \<mapsto> \<lparr> ri_attributes = {Superuser}, ri_login = True \<rparr>],
     c_members = [(''o'', ''w'', ''o'')],
     c_acl = (\<lambda>ob x. if x = ''w'' \<and> ob = COMPUTE_JOBS then {DELETE} else {}),
     c_defaults = [\<lparr> d_grantor = ''o'', d_schema = None, d_type = CHR ''r'', d_grantee = ''w'', d_privileges = {SELECT} \<rparr>],
     c_functions = Map.empty, c_policies = Map.empty,
     c_state = Some [(''producer'', ''old''), (''worker'', ''w'')],
     c_managed = {''old'', ''w''}, c_owner = [] \<rparr>"

abbreviation sample_run :: "exn + catalog" where
  "sample_run \<equiv> provision_queue_roles sample_rqueue (\<lambda>d cat. None) True (\<lambda>n. True) sample_settings [''done''] sample_catalog"

lemma accepted: "run_ddl (\<lambda>d cat. None) d cat = Inr (apply_ddl d cat)"
  by (simp add: run_ddl_def)

lemma accepted_all: "each (run_ddl (\<lambda>d cat. None)) ds cat = Inr (fold apply_ddl ds cat)"
  by (induction ds arbitrary: cat) (simp_all add: accepted)

lemma each_returns: "(\<And>x s. x \<in> set xs \<Longrightarrow> \<exists>s'. f x s = Inr s') \<Longrightarrow> \<exists>s'. each f xs s = Inr s'"
proof (induction xs arbitrary: s)
  case (Cons x xs)
  obtain t where "f x s = Inr t" using Cons.prems [of x s] by auto
  moreover obtain s' where "each f xs t = Inr s'" using Cons.IH [of t] Cons.prems by auto
  ultimately show ?case by simp
qed simp

lemma accepted_defaults: "\<exists>c'. reset_default_privileges (\<lambda>d cat. None) sch r c = Inr c'"
  unfolding reset_default_privileges_def by (rule each_returns) (auto simp: accepted simp del: apply_ddl.simps)

lemma accepted_memberships: "\<exists>c'. reset_memberships (\<lambda>d cat. None) b r c = Inr c'"
  unfolding reset_memberships_def
  by (cases b; simp only: if_True if_False; rule each_returns) (auto simp: accepted simp del: apply_ddl.simps)

lemma accepted_security: "\<exists>cat'. reset_role_security (\<lambda>d cat. None) b sch r cat = Inr cat'"
proof (cases "c_roles cat r")
  case (Some info)
  let ?clauses = "filter (\<lambda>a. a \<in> ri_attributes info) ROLE_ATTRIBUTES"
  obtain c1 where c1: "(if ?clauses = [] then Inr cat else run_ddl (\<lambda>d cat. None) (AlterRoleNo ?clauses r) cat) = Inr c1"
    by (cases "?clauses = []") (simp_all add: accepted del: attributes_cleared apply_ddl.simps)
  obtain c2 where c2: "reset_default_privileges (\<lambda>d cat. None) sch r c1 = Inr c2" using accepted_defaults by blast
  obtain c3 where c3: "reset_memberships (\<lambda>d cat. None) b r c2 = Inr c3" using accepted_memberships by blast
  have "reset_role_security (\<lambda>d cat. None) b sch r cat = Inr c3"
    unfolding reset_role_security_def Some option.case Let_def c1 bind_ok_simps c2 c3 ..
  then show ?thesis ..
qed (simp add: reset_role_security_def)

lemma accepted_retirement: "\<exists>cat'. retire_role sample_rqueue (\<lambda>d cat. None) b sch k r cat = Inr cat'"
proof (cases "c_roles cat r = None")
  case False
  obtain c1 where c1: "(if k = ''purger'' then run_ddl (\<lambda>d cat. None) (DropPolicy POLICY_NAME) cat else Inr cat) = Inr c1"
    by (cases "k = ''purger''") (simp_all add: accepted del: apply_ddl.simps)
  obtain c2 where c2: "reset_role_security (\<lambda>d cat. None) b sch r c1 = Inr c2" using accepted_security by blast
  have "\<exists>c'. revoke sample_rqueue r sch c = Inr c'" for c by (simp add: sample_rqueue_def)
  then show ?thesis
    unfolding retire_role_def if_not_P [OF False] c1 bind_ok_simps c2 accepted_all .
qed (simp add: retire_role_def)

lemma accepted_entry: "\<exists>cat'. retire_entry sample_rqueue (\<lambda>d cat. None) b s x cat = Inr cat'"
proof (cases "fst x \<in> set ROLE_KINDS \<and> snd x \<notin> set (map qr_name (queue_roles s))")
  case True
  show ?thesis unfolding retire_entry_def if_P [OF True] by (rule accepted_retirement)
next
  case False
  show ?thesis unfolding retire_entry_def if_not_P [OF False] by blast
qed

lemma accepted_provisioning:
  assumes "qr_password q \<noteq> ''''" and "qr_name q \<noteq> PUBLIC"
  shows "\<exists>cat'. provision_queue_role sample_rqueue (\<lambda>d cat. None) b s ts q cat = Inr cat'"
proof -
  obtain c1 where c1: "provision sample_rqueue (qr_name q) (qr_capabilities q) (QUEUE_SCHEMA s) (QUEUE s) (qr_password q) cat = Inr c1"
    using assms(2) by (simp add: sample_rqueue_def)
  obtain c2 where c2: "reset_role_security (\<lambda>d cat. None) b (QUEUE_SCHEMA s) (qr_name q) c1 = Inr c2" using accepted_security by blast
  obtain c3 where c3: "(if qr_name q = WORKER_ROLE s
      then run_ddl (\<lambda>d cat. None) (Revoke [INSERT] (Table (QUEUE_SCHEMA s) ''jobs'') (qr_name q)) c2 else Inr c2) = Inr c3"
    by (cases "qr_name q = WORKER_ROLE s") (simp_all add: accepted del: apply_ddl.simps)
  obtain c4 where c4: "each (\<lambda>(t, ps). run_ddl (\<lambda>d cat. None) (Grant ps (Table (QUEUE_SCHEMA s) t) (qr_name q)))
      (qr_extra_queue_privileges q) c3 = Inr c4"
    using each_returns [of "qr_extra_queue_privileges q" "\<lambda>(t, ps). run_ddl (\<lambda>d cat. None) (Grant ps (Table (QUEUE_SCHEMA s) t) (qr_name q))" c3]
    by (auto simp: accepted simp del: apply_ddl.simps)
  obtain c5 where c5: "(if qr_name q = PURGER_ROLE s then grant_purger_delete_policy (\<lambda>d cat. None) (QUEUE_SCHEMA s) ts q c4 else Inr c4) = Inr c5"
    unfolding grant_purger_delete_policy_def accepted_all by (cases "qr_name q = PURGER_ROLE s") simp_all
  have "provision_queue_role sample_rqueue (\<lambda>d cat. None) b s ts q cat = grant_compute_access (\<lambda>d cat. None) q c5"
    unfolding provision_queue_role_def if_not_P [OF assms(1)] c1 bind_ok_simps c2 c3 c4 c5 ..
  then show ?thesis unfolding grant_compute_access_def accepted_all by blast
qed

lemma sample_roles: "q \<in> set (queue_roles sample_settings) \<Longrightarrow> qr_password q \<noteq> '''' \<and> qr_name q \<noteq> PUBLIC"
  by (auto simp: queue_roles_def sample_settings_def PUBLIC_def)

lemma sample_returns: "\<exists>cat'. sample_run = Inr cat'"
proof -
  have names: "validate_role_names sample_settings = Inr ()"
    by (simp add: validate_role_names_def queue_roles_def sample_settings_def ROLE_ENV_VARS_def protected_names_def)
  obtain prev c1 where load: "load_role_state (\<lambda>d cat. None) (QUEUE_SCHEMA sample_settings) sample_catalog = Inr (prev, c1)"
    unfolding load_role_state_def accepted_all bind_ok_simps by blast
  have "validate_existing_role_names sample_settings c1 = Inr ()"
    using load_role_state_effect(4,5) [OF load]
    by (simp add: validate_existing_role_names_def queue_roles_def sample_settings_def sample_catalog_def)
  moreover obtain c2 where "retire_previous_roles sample_rqueue (\<lambda>d cat. None) True sample_settings prev c1 = Inr c2"
    unfolding retire_previous_roles_entries
    using each_returns [of prev "retire_entry sample_rqueue (\<lambda>d cat. None) True sample_settings" c1] accepted_entry by blast
  moreover obtain c3 where "each (provision_queue_role sample_rqueue (\<lambda>d cat. None) True sample_settings [''done''])
      (queue_roles sample_settings) c2 = Inr c3"
    using each_returns [of "queue_roles sample_settings" "provision_queue_role sample_rqueue (\<lambda>d cat. None) True sample_settings [''done'']" c2]
      accepted_provisioning [of _ True sample_settings "[''done'']"] sample_roles by blast
  moreover obtain c4 where "save_role_state (\<lambda>d cat. None) (queue_roles sample_settings) c3 = Inr c4"
    unfolding save_role_state_def accepted_all by blast
  ultimately have "sample_run = Inr c4"
    using names load by (simp add: provision_queue_roles_def validate_compute_queue_def)
  then show ?thesis ..
qed

lemma sample_facts:
  "QUEUE_SCHEMA sample_settings \<noteq> ''compute''" "(''producer'', APP_DB_ROLE sample_settings) \<in> set (recorded sample_catalog)"
  "''producer'' \<in> set ROLE_KINDS" "c_roles sample_catalog (APP_DB_ROLE sample_settings) \<noteq> None"
  "APP_DB_ROLE sample_settings \<noteq> ''''" "APP_DB_ROLE sample_settings \<noteq> PUBLIC"
  by (simp_all add: sample_settings_def sample_catalog_def recorded_def ROLE_KINDS_def PUBLIC_def)


lemma provisioning_touches_no_other_role_witness:
  "\<exists>cat'. sample_run = Inr cat' \<and> (\<forall>ob. c_acl cat' ob ''x'' = c_acl sample_catalog ob ''x'')"
proof -
  obtain cat' where run: "sample_run = Inr cat'" using sample_returns by blast
  have "''x'' \<notin> insert PUBLIC (qr_name ` set (queue_roles sample_settings) \<union> snd ` set (recorded sample_catalog))"
    by (simp add: PUBLIC_def queue_roles_def sample_settings_def recorded_def sample_catalog_def)
  then show ?thesis
    using provisioning_touches_no_other_role [OF sample_rqueue_contract run] run by (simp add: confined_def)
qed

lemma unmanaged_role_is_refused_witness:
  "\<exists>e. run_queue_grants sample_rqueue (\<lambda>d cat. None) True (\<lambda>n. True) sample_settings [''done''] (Inr ())
     (sample_catalog\<lparr> c_managed := {''old''} \<rparr>) = (Inl e, sample_catalog\<lparr> c_managed := {''old''} \<rparr>)"
  by (rule unmanaged_role_is_refused [where q = "queue_roles sample_settings ! 1" and info = "\<lparr> ri_attributes = {Superuser}, ri_login = True \<rparr>"])
    (simp_all add: queue_roles_def sample_settings_def sample_catalog_def)

lemma retiring_drops_the_web_role_witness:
  "\<exists>cat'. sample_run = Inr cat' \<and> c_roles cat' ''old'' = None"
  using sample_returns retiring_drops_the_web_role [OF sample_rqueue_contract _ sample_facts(2-6)]
  by (fastforce simp: sample_settings_def)


definition purge_catalog :: catalog where
  "purge_catalog = sample_catalog\<lparr> c_acl := (\<lambda>ob x. {DELETE}) (Function ''task'' PURGER_DELETE_FUNCTION := (\<lambda>x. {})),
     c_functions := [(''task'', PURGER_DELETE_FUNCTION) \<mapsto> TERMINAL_STATUSES],
     c_policies := [POLICY_NAME \<mapsto> purger_policy ''task'' [''done''] (queue_roles sample_settings ! 2)] \<rparr>"


end
