(* ===== verification/WebRole.thy ===== *)
theory WebRole
  imports QueueGrantLaws "HOL-Library.List_Lexorder" "HOL-Library.Char_ord"
begin

text \<open>
  Migrations of the compute schema and the web application's database role (api/migrate.py,
  api/web_grants.py), over the catalog of \<open>Roles\<close>.
\<close>

subsection \<open>Migrations\<close>

text \<open>
  A migration file is its name and its SQL; \<open>exec\<close> runs the SQL on the schema. \<open>sorted\<close> over paths of
  one directory compares their names. \<open>path.stem\<close> drops the suffix \<open>.sql\<close>.
\<close>

definition stem :: "string \<Rightarrow> string" where
  "stem name = take (length name - 4) name"

fun apply_migrations ::
  "(string \<Rightarrow> 's \<Rightarrow> exn + 's) \<Rightarrow> (string \<times> string) list \<Rightarrow> string list \<Rightarrow> 's \<times> string list \<Rightarrow> exn + string list \<times> 's \<times> string list" where
  "apply_migrations exec [] applied st = Inr ([], st)"
| "apply_migrations exec ((name, text) # files) applied (s, versions) =
     (if stem name \<in> set applied then apply_migrations exec files applied (s, versions)
      else bind_ok (exec text s) (\<lambda>s'.
           if stem name \<in> set versions then Inl (SqlError ''UniqueViolationError'' ''23505'')
           else bind_ok (apply_migrations exec files applied (s', versions @ [stem name])) (\<lambda>(new, st).
             Inr (stem name # new, st))))"

text \<open>\<open>applied\<close> is read once, before the loop; \<open>versions\<close> is the table as it grows.\<close>

definition install_compute_schema ::
  "(string \<Rightarrow> 's \<Rightarrow> exn + 's) \<Rightarrow> (string \<times> string) list \<Rightarrow> 's \<times> string list \<Rightarrow> exn + string list \<times> 's \<times> string list" where
  "install_compute_schema exec files st = apply_migrations exec (sort_key fst files) (snd st) st"

lemma apply_migrations_result:
  assumes "apply_migrations exec files applied (s, versions) = Inr (new, s', versions')"
  shows "new = filter (\<lambda>v. v \<notin> set applied) (map (stem \<circ> fst) files) \<and> versions' = versions @ new"
  using assms
proof (induction exec files applied "(s, versions)" arbitrary: s versions new s' versions' rule: apply_migrations.induct)
  case (2 exec name sql files applied s versions)
  show ?case
  proof (cases "stem name \<in> set applied")
    case True
    then show ?thesis using 2 by simp
  next
    case False
    with "2.prems" obtain s1 new1 s2 v2 where s1: "exec sql s = Inr s1"
      and rest: "stem name \<notin> set versions" "apply_migrations exec files applied (s1, versions @ [stem name]) = Inr (new1, s2, v2)"
      and new: "new = stem name # new1" "versions' = v2"
      by (auto split: if_splits)
    show ?thesis using "2.hyps"(2) [OF False rest(1) rest(2)] False new by simp
  qed
qed auto

lemma apply_migrations_all_applied:
  "stem ` fst ` set files \<subseteq> set applied \<Longrightarrow> apply_migrations exec files applied st = Inr ([], st)"
  by (induction exec files applied st rule: apply_migrations.induct) auto

text \<open>A migration runs once: a run records exactly the files that were not recorded, in the order of
  their names, and a second run over the same files applies nothing and changes nothing.\<close>

theorem migrations_apply_once:
  assumes "install_compute_schema exec files (s, versions) = Inr (new, s', versions')"
  shows "new = filter (\<lambda>v. v \<notin> set versions) (map (stem \<circ> fst) (sort_key fst files)) \<and> versions' = versions @ new \<and>
    install_compute_schema exec files (s', versions') = Inr ([], s', versions')"
proof -
  note res = apply_migrations_result [OF assms [unfolded install_compute_schema_def]]
  then have "stem ` fst ` set (sort_key fst files) \<subseteq> set versions'" by (auto simp: comp_def)
  then show ?thesis using res by (simp add: install_compute_schema_def apply_migrations_all_applied)
qed

definition sample_files :: "(string \<times> string) list" where
  "sample_files = [(''0002_b.sql'', ''y''), (''0001_a.sql'', ''x'')]"

lemma migrations_apply_once_witness:
  "install_compute_schema (\<lambda>text s. Inr (s @ text)) sample_files ([], []) = Inr ([''0001_a'', ''0002_b''], ''xy'', [''0001_a'', ''0002_b'']) \<and>
   install_compute_schema (\<lambda>text s. Inr (s @ text)) sample_files (''xy'', [''0001_a'', ''0002_b'']) = Inr ([], ''xy'', [''0001_a'', ''0002_b''])"
proof -
  have run: "install_compute_schema (\<lambda>text s. Inr (s @ text)) sample_files ([], []) =
      Inr ([''0001_a'', ''0002_b''], ''xy'', [''0001_a'', ''0002_b''])" by code_simp
  with migrations_apply_once [OF run] show ?thesis by blast
qed


subsection \<open>The web application's role\<close>

text \<open>\<open>conn.info.user\<close> and the objects of \<open>public\<close> and \<open>drizzle\<close> that the role owns.\<close>

record web_settings =
  WEB_ROLE :: string
  WEB_PASSWORD :: string
  migration_role :: string

fun web_object :: "db_object \<Rightarrow> bool" where
  "web_object (Table sch t) = (sch = ''public'' \<or> sch = ''drizzle'')"
| "web_object (Sequence sch t) = (sch = ''public'' \<or> sch = ''drizzle'')"
| "web_object _ = False"

definition transfer_web_ownership :: "server \<Rightarrow> web_settings \<Rightarrow> catalog \<Rightarrow> exn + catalog" where
  "transfer_web_ownership pg w cat =
     bind_ok (each (\<lambda>(ob, owner). run_ddl pg (AlterOwner ob (migration_role w)))
                (filter (\<lambda>(ob, owner). web_object ob \<and> owner = WEB_ROLE w) (c_owner cat)) cat) (\<lambda>cat.
       if (Schema ''drizzle'', WEB_ROLE w) \<in> set (c_owner cat)
       then each (run_ddl pg) [AlterOwner (Schema ''drizzle'') (migration_role w),
              Revoke ALL_PRIVILEGES (Schema ''drizzle'') (WEB_ROLE w), Revoke [CREATE] (Schema ''drizzle'') PUBLIC] cat
       else Inr cat)"

definition web_role_statements :: "web_settings \<Rightarrow> ddl list" where
  "web_role_statements w =
     [Revoke [CREATE] Database (WEB_ROLE w),
      Revoke [CREATE] (Schema ''public'') PUBLIC,
      Revoke [CREATE] (Schema ''public'') (WEB_ROLE w),
      RevokeAll ALL_PRIVILEGES Tables ''public'' (WEB_ROLE w),
      RevokeAll ALL_PRIVILEGES Sequences ''public'' (WEB_ROLE w),
      RevokeAll ALL_PRIVILEGES Tables ''compute'' (WEB_ROLE w),
      RevokeAll ALL_PRIVILEGES Sequences ''compute'' (WEB_ROLE w),
      RevokeDefault [SELECT, INSERT, UPDATE, DELETE] (migration_role w) (Some ''public'') (CHR ''r'') (WEB_ROLE w),
      RevokeDefault [USAGE, SELECT, UPDATE] (migration_role w) (Some ''public'') (CHR ''S'') (WEB_ROLE w),
      Revoke ALL_PRIVILEGES COMPUTE_JOBS (WEB_ROLE w),
      Grant [CONNECT] Database (WEB_ROLE w),
      Grant [USAGE] (Schema ''public'') (WEB_ROLE w),
      Grant [USAGE] (Schema ''compute'') (WEB_ROLE w),
      Grant [SELECT] COMPUTE_JOBS (WEB_ROLE w)]"

definition provision_web_role :: "server \<Rightarrow> web_settings \<Rightarrow> catalog \<Rightarrow> exn + catalog" where
  "provision_web_role pg w cat =
     (if WEB_PASSWORD w = '''' then Inl (RuntimeError ''APP_DB_PASSWORD must be set'')
      else bind_ok (run_ddl pg (if c_roles cat (WEB_ROLE w) \<noteq> None then AlterRole (WEB_ROLE w) else CreateRole (WEB_ROLE w)) cat) (\<lambda>cat.
           bind_ok (transfer_web_ownership pg w cat) (each (run_ddl pg) (web_role_statements w))))"

text \<open>\<open>grant_web_tables\<close>, run after the web application's own migrations.\<close>

definition grant_web_tables :: "server \<Rightarrow> web_settings \<Rightarrow> catalog \<Rightarrow> exn + catalog" where
  "grant_web_tables pg w =
     each (run_ddl pg)
       [GrantAll [SELECT, INSERT, UPDATE, DELETE] Tables ''public'' (WEB_ROLE w),
        GrantAll [USAGE, SELECT, UPDATE] Sequences ''public'' (WEB_ROLE w),
        GrantDefault [SELECT, INSERT, UPDATE, DELETE] (migration_role w) (Some ''public'') (CHR ''r'') (WEB_ROLE w),
        GrantDefault [USAGE, SELECT, UPDATE] (migration_role w) (Some ''public'') (CHR ''S'') (WEB_ROLE w)]"

text \<open>\<open>_run\<close> of migrate.py: migrations and the role, committed together.\<close>

definition migrate ::
  "server \<Rightarrow> web_settings \<Rightarrow> (string \<Rightarrow> 's \<Rightarrow> exn + 's) \<Rightarrow> (string \<times> string) list \<Rightarrow> exn + unit \<Rightarrow> ('s \<times> string list) \<times> catalog
   \<Rightarrow> (exn + string list) \<times> ('s \<times> string list) \<times> catalog" where
  "migrate pg w exec files commit st =
     (case bind_ok (install_compute_schema exec files (fst st)) (\<lambda>(new, sch).
             bind_ok (provision_web_role pg w (snd st)) (\<lambda>cat. bind_ok commit (\<lambda>_. Inr (new, sch, cat)))) of
        Inl e \<Rightarrow> (Inl e, st)
      | Inr (new, sch, cat) \<Rightarrow> (Inr new, sch, cat))"

subsection \<open>What the role may do\<close>

lemma set_acl_all_fields [simp]:
  "c_roles (set_acl_all k sch r f cat) = c_roles cat" "c_members (set_acl_all k sch r f cat) = c_members cat"
  "c_owner (set_acl_all k sch r f cat) = c_owner cat"
  "c_acl (set_acl_all k sch r f cat) =
     (\<lambda>ob x. if x = r \<and> of_kind k sch ob \<and> ob \<in> fst ` set (c_owner cat) then f (c_acl cat ob r) else c_acl cat ob x)"
  by (auto simp: set_acl_all_def fun_eq_iff)

lemma transferred:
  assumes "each (\<lambda>(ob, owner). run_ddl pg (AlterOwner ob m)) xs cat = Inr cat'"
  shows "c_owner cat' = map (\<lambda>(ob, w). (ob, if ob \<in> fst ` set xs then m else w)) (c_owner cat)"
    and "c_acl cat' = c_acl cat" "c_roles cat' = c_roles cat" "c_members cat' = c_members cat"
proof -
  have "c_owner cat' = map (\<lambda>(ob, w). (ob, if ob \<in> fst ` set xs then m else w)) (c_owner cat) \<and>
    c_acl cat' = c_acl cat \<and> c_roles cat' = c_roles cat \<and> c_members cat' = c_members cat"
    using assms
  proof (induction xs arbitrary: cat)
    case (Cons x xs)
    obtain ob w where x: "x = (ob, w)" by (cases x)
    then have "each (\<lambda>(ob, owner). run_ddl pg (AlterOwner ob m)) xs (apply_ddl (AlterOwner ob m) cat) = Inr cat'"
      using Cons.prems by (auto simp del: apply_ddl.simps)
    from Cons.IH [OF this] show ?case by (auto simp: x)
  qed (simp add: case_prod_beta)
  then show "c_owner cat' = map (\<lambda>(ob, w). (ob, if ob \<in> fst ` set xs then m else w)) (c_owner cat)"
    "c_acl cat' = c_acl cat" "c_roles cat' = c_roles cat" "c_members cat' = c_members cat" by blast+
qed

lemma transfer_effect:
  assumes "transfer_web_ownership pg w cat = Inr cat'" and "migration_role w \<noteq> WEB_ROLE w"
  shows "fst ` set (c_owner cat') = fst ` set (c_owner cat)"
    and "(ob, WEB_ROLE w) \<in> set (c_owner cat') \<Longrightarrow> \<not> web_object ob \<and> ob \<noteq> Schema ''drizzle''"
    and "c_roles cat' = c_roles cat" "c_members cat' = c_members cat"
    and "ob' \<noteq> Schema ''drizzle'' \<Longrightarrow> c_acl cat' ob' = c_acl cat ob'"
proof -
  let ?mine = "filter (\<lambda>(ob, owner). web_object ob \<and> owner = WEB_ROLE w) (c_owner cat)"
  let ?ds = "[AlterOwner (Schema ''drizzle'') (migration_role w), Revoke ALL_PRIVILEGES (Schema ''drizzle'') (WEB_ROLE w),
      Revoke [CREATE] (Schema ''drizzle'') PUBLIC]"
  obtain c1 where c1: "each (\<lambda>(ob, owner). run_ddl pg (AlterOwner ob (migration_role w))) ?mine cat = Inr c1"
    and c2: "(if (Schema ''drizzle'', WEB_ROLE w) \<in> set (c_owner c1) then each (run_ddl pg) ?ds c1 else Inr c1) = Inr cat'"
    by (rule bind_ok_Inr [OF assms(1) [unfolded transfer_web_ownership_def]]) (rule that)
  note one = transferred [OF c1]
  have fst1: "fst ` set (c_owner c1) = fst ` set (c_owner cat)" by (force simp: one(1))
  have left: "\<not> web_object ob" if "(ob, WEB_ROLE w) \<in> set (c_owner c1)" for ob
    using that assms(2) by (force simp: one(1) split: if_splits)
  have "cat' = (if (Schema ''drizzle'', WEB_ROLE w) \<in> set (c_owner c1) then fold apply_ddl ?ds c1 else c1)"
    using c2 run_ddls [of pg ?ds c1 cat'] by (simp del: each.simps fold.simps split: if_splits)
  note cat' = this
  show "fst ` set (c_owner cat') = fst ` set (c_owner cat)"
    unfolding fst1 [symmetric] cat' by (force split: if_splits)
  show "\<not> web_object ob \<and> ob \<noteq> Schema ''drizzle''" if "(ob, WEB_ROLE w) \<in> set (c_owner cat')"
    using that left [of ob] assms(2) unfolding cat' by (auto split: if_splits)
  show "c_roles cat' = c_roles cat" "c_members cat' = c_members cat" unfolding cat' by (simp_all add: one)
  show "c_acl cat' ob' = c_acl cat ob'" if "ob' \<noteq> Schema ''drizzle''"
    unfolding cat' using that by (auto simp: one fun_eq_iff)
qed


lemma revoke_default_fields [simp]:
  "c_acl (apply_ddl (RevokeDefault ps g sch t r) cat) = c_acl cat" "c_roles (apply_ddl (RevokeDefault ps g sch t r) cat) = c_roles cat"
  "c_members (apply_ddl (RevokeDefault ps g sch t r) cat) = c_members cat" "c_owner (apply_ddl (RevokeDefault ps g sch t r) cat) = c_owner cat"
  by simp_all

lemma web_role_statements_effect:
  assumes "each (run_ddl pg) (web_role_statements w) cat = Inr cat'" and "WEB_ROLE w \<noteq> PUBLIC"
  shows "c_owner cat' = c_owner cat" "c_roles cat' = c_roles cat" "c_members cat' = c_members cat"
    and "c_acl cat' COMPUTE_JOBS (WEB_ROLE w) = {SELECT}"
    and "CREATE \<notin> c_acl cat' Database (WEB_ROLE w)" "CREATE \<notin> c_acl cat' (Schema ''public'') (WEB_ROLE w)"
      "CREATE \<notin> c_acl cat' (Schema ''public'') PUBLIC"
    and "c_acl cat' (Schema ''compute'') (WEB_ROLE w) = insert USAGE (c_acl cat (Schema ''compute'') (WEB_ROLE w))"
    and "sch = ''compute'' \<or> sch = ''public'' \<Longrightarrow> ob \<in> fst ` set (c_owner cat) \<Longrightarrow> ob = Table sch t \<or> ob = Sequence sch t \<Longrightarrow>
      ob \<noteq> COMPUTE_JOBS \<Longrightarrow> c_acl cat' ob (WEB_ROLE w) = {}"
proof -
  note cat' = run_ddls [OF assms(1)]
  note fold = web_role_statements_def List.fold_simps comp_def
  show "c_owner cat' = c_owner cat" "c_roles cat' = c_roles cat" "c_members cat' = c_members cat"
    unfolding cat' fold by simp_all
  show "c_acl cat' COMPUTE_JOBS (WEB_ROLE w) = {SELECT}"
    "CREATE \<notin> c_acl cat' Database (WEB_ROLE w)" "CREATE \<notin> c_acl cat' (Schema ''public'') (WEB_ROLE w)"
    "CREATE \<notin> c_acl cat' (Schema ''public'') PUBLIC"
    "c_acl cat' (Schema ''compute'') (WEB_ROLE w) = insert USAGE (c_acl cat (Schema ''compute'') (WEB_ROLE w))"
    unfolding cat' fold using assms(2) by (simp_all add: COMPUTE_JOBS_def)
  show "c_acl cat' ob (WEB_ROLE w) = {}"
    if "sch = ''compute'' \<or> sch = ''public''" "ob \<in> fst ` set (c_owner cat)" "ob = Table sch t \<or> ob = Sequence sch t" "ob \<noteq> COMPUTE_JOBS"
    unfolding cat' fold using that by (auto simp: COMPUTE_JOBS_def)
qed

lemma grant_web_tables_effect:
  assumes "grant_web_tables pg w cat = Inr cat'"
  shows "c_owner cat' = c_owner cat" "c_roles cat' = c_roles cat" "c_members cat' = c_members cat"
    and "c_acl cat' ob x = c_acl cat ob x \<union> (if x = WEB_ROLE w \<and> ob \<in> fst ` set (c_owner cat) then
       (if of_kind Tables ''public'' ob then {SELECT, INSERT, UPDATE, DELETE}
        else if of_kind Sequences ''public'' ob then {USAGE, SELECT, UPDATE} else {}) else {})"
proof -
  note cat' = run_ddls [OF assms [unfolded grant_web_tables_def]]
  note fold = List.fold_simps comp_def
  show "c_owner cat' = c_owner cat" "c_roles cat' = c_roles cat" "c_members cat' = c_members cat"
    unfolding cat' fold by simp_all
  have both: "\<not> (of_kind Tables ''public'' ob \<and> of_kind Sequences ''public'' ob)" by (cases ob) simp_all
  show "c_acl cat' ob x = c_acl cat ob x \<union> (if x = WEB_ROLE w \<and> ob \<in> fst ` set (c_owner cat) then
       (if of_kind Tables ''public'' ob then {SELECT, INSERT, UPDATE, DELETE}
        else if of_kind Sequences ''public'' ob then {USAGE, SELECT, UPDATE} else {}) else {})"
    unfolding cat' fold using both by simp
qed

lemma login_effect:
  assumes "run_ddl pg (if c_roles cat r \<noteq> None then AlterRole r else CreateRole r) cat = Inr cat'"
  shows "c_acl cat' = c_acl cat" "c_owner cat' = c_owner cat" "c_members cat' = c_members cat"
    and "c_roles cat r = Some info \<Longrightarrow> c_roles cat' r = Some (info\<lparr> ri_login := True \<rparr>)"
proof -
  have "cat' = apply_ddl (if c_roles cat r \<noteq> None then AlterRole r else CreateRole r) cat"
    using assms by (simp only: run_ddl_Inr)
  note cat' = this
  show "c_acl cat' = c_acl cat" "c_owner cat' = c_owner cat" "c_members cat' = c_members cat"
    unfolding cat' by (cases "c_roles cat r"; simp)+
  show "c_roles cat' r = Some (info\<lparr> ri_login := True \<rparr>)" if "c_roles cat r = Some info"
    unfolding cat' using that by (cases info) simp
qed

text \<open>Provisioning narrows the web application's role to reading compute.jobs and working on the
  tables and sequences of the schema public: it cannot create there, owns nothing there and in
  drizzle, and has nothing on the other objects of the schema compute. What it does not repair is
  the role's attributes, its memberships, and a CREATE on the schema compute.\<close>

theorem web_role_reads_only_the_jobs:
  assumes "bind_ok (provision_web_role pg w cat) (grant_web_tables pg w) = Inr cat'"
    and "migration_role w \<noteq> WEB_ROLE w" and "WEB_ROLE w \<noteq> PUBLIC"
  shows "c_acl cat' COMPUTE_JOBS (WEB_ROLE w) = {SELECT} \<and>
    (\<forall>ob t. ob \<in> fst ` set (c_owner cat) \<longrightarrow> ob \<noteq> COMPUTE_JOBS \<longrightarrow>
       (ob = Table ''compute'' t \<or> ob = Sequence ''compute'' t \<longrightarrow> c_acl cat' ob (WEB_ROLE w) = {}) \<and>
       (ob = Table ''public'' t \<longrightarrow> c_acl cat' ob (WEB_ROLE w) = {SELECT, INSERT, UPDATE, DELETE}) \<and>
       (ob = Sequence ''public'' t \<longrightarrow> c_acl cat' ob (WEB_ROLE w) = {USAGE, SELECT, UPDATE})) \<and>
    CREATE \<notin> c_acl cat' Database (WEB_ROLE w) \<and> CREATE \<notin> c_acl cat' (Schema ''public'') (WEB_ROLE w) \<and>
    CREATE \<notin> c_acl cat' (Schema ''public'') PUBLIC \<and>
    (\<forall>ob. (ob, WEB_ROLE w) \<in> set (c_owner cat') \<longrightarrow> \<not> web_object ob \<and> ob \<noteq> Schema ''drizzle'') \<and>
    (CREATE \<in> c_acl cat' (Schema ''compute'') (WEB_ROLE w) \<longleftrightarrow> CREATE \<in> c_acl cat (Schema ''compute'') (WEB_ROLE w)) \<and>
    (\<forall>info. c_roles cat (WEB_ROLE w) = Some info \<longrightarrow> c_roles cat' (WEB_ROLE w) = Some (info\<lparr> ri_login := True \<rparr>)) \<and>
    c_members cat' = c_members cat"
proof -
  let ?r = "WEB_ROLE w"
  obtain c3 where prov: "provision_web_role pg w cat = Inr c3" and grants: "grant_web_tables pg w c3 = Inr cat'"
    using assms(1) by (rule bind_ok_Inr)
  have pw: "WEB_PASSWORD w \<noteq> ''''" using prov by (auto simp: provision_web_role_def)
  obtain c1 where c1: "run_ddl pg (if c_roles cat ?r \<noteq> None then AlterRole ?r else CreateRole ?r) cat = Inr c1"
    and rest: "bind_ok (transfer_web_ownership pg w c1) (each (run_ddl pg) (web_role_statements w)) = Inr c3"
    by (rule bind_ok_Inr [OF prov [unfolded provision_web_role_def if_not_P [OF pw]]]) (rule that)
  obtain c2 where c2: "transfer_web_ownership pg w c1 = Inr c2" and c3: "each (run_ddl pg) (web_role_statements w) c2 = Inr c3"
    using rest by (rule bind_ok_Inr)
  note one = login_effect [OF c1]
  note two = transfer_effect [OF c2 assms(2)] and three = web_role_statements_effect [OF c3 assms(3)]
  note same = grant_web_tables_effect(1-3) [OF grants] and acl = grant_web_tables_effect(4) [OF grants]
  have objs: "fst ` set (c_owner c3) = fst ` set (c_owner cat)" by (simp add: three(1) two(1) one(2))
  have none: "c_acl c3 ob ?r = {}"
    if "ob \<in> fst ` set (c_owner cat)" "ob \<noteq> COMPUTE_JOBS" "sch = ''compute'' \<or> sch = ''public''" "ob = Table sch t \<or> ob = Sequence sch t" for ob sch t
  proof -
    have "ob \<in> fst ` set (c_owner c2)" using that(1) by (simp add: two(1) one(2))
    then show ?thesis by (rule three(9) [OF that(3) _ that(4,2)])
  qed
  have exact: "\<forall>ob t. ob \<in> fst ` set (c_owner cat) \<longrightarrow> ob \<noteq> COMPUTE_JOBS \<longrightarrow>
       (ob = Table ''compute'' t \<or> ob = Sequence ''compute'' t \<longrightarrow> c_acl cat' ob ?r = {}) \<and>
       (ob = Table ''public'' t \<longrightarrow> c_acl cat' ob ?r = {SELECT, INSERT, UPDATE, DELETE}) \<and>
       (ob = Sequence ''public'' t \<longrightarrow> c_acl cat' ob ?r = {USAGE, SELECT, UPDATE})"
  proof (intro allI impI conjI)
    fix ob t assume ob: "ob \<in> fst ` set (c_owner cat)" "ob \<noteq> COMPUTE_JOBS"
    show "c_acl cat' ob ?r = {}" if "ob = Table ''compute'' t \<or> ob = Sequence ''compute'' t"
    proof -
      have "\<not> of_kind Tables ''public'' ob" "\<not> of_kind Sequences ''public'' ob" using that by auto
      then show ?thesis using none [OF ob _ that] by (simp add: acl)
    qed
    show "c_acl cat' ob ?r = {SELECT, INSERT, UPDATE, DELETE}" if "ob = Table ''public'' t"
      using none [OF ob, of "''public''" t] ob(1) that by (simp add: acl objs)
    show "c_acl cat' ob ?r = {USAGE, SELECT, UPDATE}" if "ob = Sequence ''public'' t"
      using none [OF ob, of "''public''" t] ob(1) that by (simp add: acl objs)
  qed
  have "CREATE \<in> c_acl cat' (Schema ''compute'') ?r \<longleftrightarrow> CREATE \<in> c_acl cat (Schema ''compute'') ?r"
    by (simp add: acl three(8) two(5) one(1))
  moreover have "c_acl cat' COMPUTE_JOBS ?r = {SELECT}"
    using three(4) by (simp only: acl) (simp add: COMPUTE_JOBS_def)
  moreover have "\<forall>ob. (ob, ?r) \<in> set (c_owner cat') \<longrightarrow> \<not> web_object ob \<and> ob \<noteq> Schema ''drizzle''"
    using two(2) by (simp only: same three(1)) blast
  moreover have "c_members cat' = c_members cat" by (simp only: same three(3) two(4) one(3))
  moreover have "\<forall>info. c_roles cat ?r = Some info \<longrightarrow> c_roles cat' ?r = Some (info\<lparr> ri_login := True \<rparr>)"
    using one(4) by (simp only: same three(2) two(3)) blast
  moreover have "CREATE \<notin> c_acl cat' Database ?r" "CREATE \<notin> c_acl cat' (Schema ''public'') ?r" "CREATE \<notin> c_acl cat' (Schema ''public'') PUBLIC"
    using three(5-7) by (simp_all add: acl)
  ultimately show ?thesis using exact by (intro conjI) assumption+
qed


lemma accepted_web:
  assumes "WEB_PASSWORD w \<noteq> ''''"
  shows "\<exists>cat'. bind_ok (provision_web_role (\<lambda>d cat. None) w cat) (grant_web_tables (\<lambda>d cat. None) w) = Inr cat'"
proof -
  define c1 where "c1 = apply_ddl (if c_roles cat (WEB_ROLE w) \<noteq> None then AlterRole (WEB_ROLE w) else CreateRole (WEB_ROLE w)) cat"
  obtain c2 where c2: "each (\<lambda>(ob, owner). run_ddl (\<lambda>d cat. None) (AlterOwner ob (migration_role w)))
      (filter (\<lambda>(ob, owner). web_object ob \<and> owner = WEB_ROLE w) (c_owner c1)) c1 = Inr c2"
    using each_returns [of "filter (\<lambda>(ob, owner). web_object ob \<and> owner = WEB_ROLE w) (c_owner c1)"
        "\<lambda>(ob, owner). run_ddl (\<lambda>d cat. None) (AlterOwner ob (migration_role w))" c1]
    by (auto simp: accepted simp del: apply_ddl.simps)
  obtain c3 where c3: "transfer_web_ownership (\<lambda>d cat. None) w c1 = Inr c3"
    unfolding transfer_web_ownership_def c2 bind_ok_simps accepted_all
    by (cases "(Schema ''drizzle'', WEB_ROLE w) \<in> set (c_owner c2)") (simp_all del: List.fold_simps)
  show ?thesis
    unfolding provision_web_role_def if_not_P [OF assms] accepted c1_def [symmetric] bind_ok_simps c3 accepted_all grant_web_tables_def
    by blast
qed

lemma web_role_reads_only_the_jobs_witness:
  "\<exists>cat'. bind_ok (provision_web_role (\<lambda>d cat. None) \<lparr> WEB_ROLE = ''w'', WEB_PASSWORD = ''s'', migration_role = ''o'' \<rparr> sample_catalog)
      (grant_web_tables (\<lambda>d cat. None) \<lparr> WEB_ROLE = ''w'', WEB_PASSWORD = ''s'', migration_role = ''o'' \<rparr>) = Inr cat' \<and>
    c_acl cat' COMPUTE_JOBS ''w'' = {SELECT}"
proof -
  let ?w = "\<lparr> WEB_ROLE = ''w'', WEB_PASSWORD = ''s'', migration_role = ''o'' \<rparr>"
  obtain cat' where run: "bind_ok (provision_web_role (\<lambda>d cat. None) ?w sample_catalog) (grant_web_tables (\<lambda>d cat. None) ?w) = Inr cat'"
    using accepted_web [of ?w sample_catalog] by auto
  show ?thesis using web_role_reads_only_the_jobs [OF run] run by (auto simp: PUBLIC_def)
qed

end
