(* ===== verification/JobLaws.thy ===== *)
theory JobLaws
  imports JobTrace
begin

text \<open>
  The promises of the compute row over arbitrary histories of committed operations: the
  invariant of every reachable table, the life cycle of a status, finality of a completed
  job, the fence against superseded attempts, reconciliation, and submission. The proofs
  rest on the interpretation \<open>jobs\<close> of \<open>fenced_rows\<close>.
\<close>

subsection \<open>Reachable tables\<close>

definition empty_db :: compute_db where
  "empty_db = \<lparr> rows = [], notified = [] \<rparr>"

lemma db_wf_empty [wf_intros]: "db_wf empty_db"
  by (simp add: db_wf_def empty_db_def)

text \<open>C1: Every table that any history of repository operations can produce is well formed:
  no two rows share an id or a public id, exactly the completed and failed rows have a
  finish time, exactly the failed rows carry an error, a completed row has its owner and
  its result location, only a completed row lists output files and none once they have
  expired.\<close>

theorem every_history_keeps_rows_well_formed: "db_wf (run_events es empty_db)"
  by (intro wf_intros)

subsection \<open>The life cycle of a job\<close>

text \<open>
  The transitions of docs/jobs.md between two states of one row: \<open>a\<close> is the attempt that
  acts, if one does.
\<close>

inductive status_step :: "int option \<Rightarrow> job_row \<Rightarrow> job_row \<Rightarrow> bool" where
  stay: "status r' = status r \<Longrightarrow> owner_attempt r' = owner_attempt r \<Longrightarrow> status_step w r r'"
| claim: "status r \<noteq> COMPLETED \<Longrightarrow> status r' = RUNNING \<Longrightarrow> owner_attempt r' = Some a \<Longrightarrow>
     (\<And>b. owner_attempt r = Some b \<Longrightarrow> b \<le> a \<and> (status r = FAILED \<longrightarrow> b < a)) \<Longrightarrow>
     status_step (Some a) r r'"
| report: "status r = RUNNING \<Longrightarrow> status r' \<in> {COMPLETED, FAILED} \<Longrightarrow>
     owner_attempt r = Some a \<Longrightarrow> owner_attempt r' = Some a \<Longrightarrow> status_step (Some a) r r'"
| give_up: "status r \<in> {QUEUED, RUNNING} \<Longrightarrow> status r' = FAILED \<Longrightarrow>
     owner_attempt r' = Some a \<Longrightarrow> (\<And>b. owner_attempt r = Some b \<Longrightarrow> b \<le> a) \<Longrightarrow>
     status_step None r r'"

inductive_cases status_step_attemptE: "status_step (Some a) r r'"
inductive_cases status_step_maintenanceE: "status_step None r r'"

lemma owned_unfinished_running:
  "row_wf r \<Longrightarrow> owns_unfinished a r \<Longrightarrow> status r = RUNNING"
  by (cases "status r") (auto simp: row_wf_def owns_unfinished_def terminal_iff)

lemma started_step: "may_start a r \<Longrightarrow> status_step (Some a) r (started_row a now r)"
  by (rule status_step.claim) (auto simp: may_start_def started_row_def)

lemma reconcile_row_step: "status_step None r (reconcile_row now qs r)"
proof (cases rule: reconcile_row_cases [of now qs r])
  case 1
  then show ?thesis by (auto intro: status_step.stay)
next
  case (2 q)
  then have "status r \<in> {QUEUED, RUNNING}"
    by (cases "status r") (auto simp: reconcilable_def terminal_iff)
  with 2 show ?thesis
    by (auto simp: reconciled_row_def intro!: status_step.give_up)
qed

text \<open>C4: A well-formed row changes status only along the documented life cycle. An attempt
  claims a row that is not completed and whose owner is not newer (strictly older when the
  row is failed), the owner of a running row reports its completion or failure, and only
  maintenance fails a queued or running row on the queue's word.\<close>

theorem status_changes_follow_life_cycle:
  assumes "row_wf r"
  shows "status_step (event_attempt e) r (row_effect e r)"
proof (cases e)
  case (Started j sid a now)
  then show ?thesis
    by (simp add: guarded_def started_step status_step.stay)
next
  case (CompletionRecorded row res b k a now)
  then show ?thesis using owned_unfinished_running [OF assms, of a]
    by (auto simp: guarded_def completed_row_def owns_unfinished_def
        intro: status_step.stay status_step.report)
next
  case (FailureRecorded j sid ex st w a now)
  then show ?thesis using owned_unfinished_running [OF assms, of a]
    by (auto simp: guarded_def failed_row_def retrying_row_def owns_unfinished_def
        intro: status_step.stay status_step.report)
next
  case (Progressed j sid m p a now)
  then show ?thesis using owned_unfinished_running [OF assms, of a]
    by (auto simp: guarded_def progressed_row_def intro: status_step.stay)
next
  case (OutputsExpired sim now)
  then show ?thesis
    by (auto simp: guarded_def expired_row_def intro: status_step.stay split: option.split)
qed (auto simp: reconcile_row_step intro: status_step.stay)

text \<open>C3: A completed job is final. Whatever operations follow, by whatever attempts, the row
  stays completed with the same owner, result, times and error; only the retention pass may
  empty its output list, and then it stamps the expiry.\<close>

theorem completed_job_is_final:
  assumes "row_of db j = Some r" and "status r = COMPLETED"
  shows "\<exists>r'. row_of (run_events es db) j = Some r' \<and> status r' = COMPLETED \<and>
    final_columns r' = final_columns r"
  using row_of_run_events [OF assms(1), of es] jobs.settled_run [of r es] assms(2) by simp

text \<open>C2: Superseded attempts are powerless. Once attempt \<open>b\<close> owns a row, deleting from the
  rest of the history every operation performed by an attempt older than \<open>b\<close> leaves the row
  exactly as it is: such an attempt can neither report progress, a failure or a completion,
  nor claim the row back.\<close>

theorem superseded_attempts_have_no_effect:
  assumes "row_of db j = Some r" and "owner_attempt r = Some b"
  shows "row_of (run_events es db) j
    = row_of (run_events
        (filter (\<lambda>e. case event_attempt e of None \<Rightarrow> True | Some a \<Rightarrow> b \<le> a) es) db) j"
  using row_of_run_events [OF assms(1)] jobs.erase_superseded [OF assms(2) order_refl, of es]
  by simp

text \<open>The attempt that owns a row is never replaced by an older one, in any history.\<close>

theorem ownership_moves_forward:
  assumes "row_of db j = Some r" and "owner_attempt r = Some a"
  shows "\<exists>r' b. row_of (run_events es db) j = Some r' \<and> owner_attempt r' = Some b \<and> a \<le> b"
  using row_of_run_events [OF assms(1), of es] jobs.owner_forward_run [OF assms(2), of es] by auto

subsection \<open>Reconciliation\<close>

lemma reconcile_result:
  assumes "reconcile_terminal_jobs qn t ct queue now db = (ids, db')"
  shows "rows db' = map (reconcile_row now (filter (gave_up qn t ct) queue)) (rows db)"
    and "ids = map job_id (filter (\<lambda>r. \<exists>q \<in> set (filter (gave_up qn t ct) queue). reconcilable q r) (rows db))"
    and "notified db' = notified db @ map simulation_id
           (filter (\<lambda>r. \<exists>q \<in> set (filter (gave_up qn t ct) queue). reconcilable q r) (rows db))"
  using assms by (auto simp: reconcile_terminal_jobs_def Let_def)

lemma reconcile_row_terminates:
  "terminal (status (reconcile_row now qs r)) \<or> (\<forall>q \<in> set qs. \<not> reconcilable q (reconcile_row now qs r))"
proof (cases "\<exists>q \<in> set qs. reconcilable q r")
  case True
  then obtain q where "reconcile_row now qs r = reconciled_row now q r"
    by (blast elim: reconcile_row_hit)
  then show ?thesis by (simp add: reconciled_row_def terminal_iff)
next
  case False
  then show ?thesis by (simp add: reconcile_row_miss)
qed

text \<open>Repeating the reconciliation pass, at any later time, over the same queue rows
  changes nothing more and reports no job: a second worker running the same pass is
  harmless.\<close>

theorem reconciliation_is_idempotent:
  assumes "reconcile_terminal_jobs qn t ct queue now db = (ids, db1)"
  shows "reconcile_terminal_jobs qn t ct queue later db1 = ([], db1)"
proof -
  let ?qs = "filter (gave_up qn t ct) queue"
  have none: "\<not> reconcilable q r" if "r \<in> set (rows db1)" "q \<in> set ?qs" for q r
    using that reconcile_row_terminates [of now ?qs]
    unfolding reconcile_result(1) [OF assms] by (auto simp: reconcilable_def)
  then have "map (reconcile_row later ?qs) (rows db1) = rows db1"
    by (intro map_idI reconcile_row_miss) blast
  moreover have "filter (\<lambda>r. \<exists>q \<in> set ?qs. reconcilable q r) (rows db1) = []"
    using none by (auto simp: filter_empty_conv)
  ultimately show ?thesis by (simp add: reconcile_terminal_jobs_def Let_def)
qed

text \<open>C5: Reconciliation never overrules a live attempt and never touches a finished job: a row
  it changes was unfinished, the queue had given up on it at an attempt no older than the
  row's owner, and the row becomes failed with that attempt as its owner; every other row is
  left exactly as it was.\<close>

theorem reconciliation_spares_newer_attempts:
  assumes "reconcile_terminal_jobs qn t ct queue now db = (ids, db')"
    and "row_of db j = Some r"
  shows "\<exists>r'. row_of db' j = Some r' \<and>
    (r' = r \<or>
     (\<exists>q \<in> set queue. gave_up qn t ct q \<and> payload_uuid q = Some j \<and> \<not> terminal (status r) \<and>
        (\<forall>w. owner_attempt r = Some w \<longrightarrow> w \<le> q_attempt q) \<and>
        status r' = FAILED \<and> owner_attempt r' = Some (max (case owner_attempt r of None \<Rightarrow> 0 | Some w \<Rightarrow> w) (q_attempt q))))"
proof -
  let ?qs = "filter (gave_up qn t ct) queue"
  have id: "job_id r = j" using assms(2) by (auto dest: find_by_SomeD)
  have "row_of db' j = Some (reconcile_row now ?qs r)"
    using assms(2) row_effect_id(1) [of "Reconciled qn t ct queue now"]
    by (simp add: reconcile_result(1) [OF assms(1)] find_by_map)
  moreover have "reconcile_row now ?qs r = r \<or>
     (\<exists>q \<in> set queue. gave_up qn t ct q \<and> payload_uuid q = Some j \<and> \<not> terminal (status r) \<and>
        (\<forall>w. owner_attempt r = Some w \<longrightarrow> w \<le> q_attempt q) \<and>
        status (reconcile_row now ?qs r) = FAILED \<and> owner_attempt (reconcile_row now ?qs r) = Some (max (case owner_attempt r of None \<Rightarrow> 0 | Some w \<Rightarrow> w) (q_attempt q)))"
    by (cases rule: reconcile_row_cases [of now ?qs r])
       (use id in \<open>auto simp: reconcilable_def reconciled_row_def split: option.splits\<close>)
  ultimately show ?thesis by blast
qed

text \<open>After reconciliation has failed a job at queue attempt \<open>n\<close>, the attempt it failed and
  every older one is refused by \<open>mark_started\<close> and changes nothing, while an operator's
  retry, which the queue delivers with a larger attempt number, claims the row: it runs
  again with its error and finish time cleared.\<close>

theorem reconciled_job_reopens_only_for_newer_attempt:
  assumes "db_wf db" and "reconcile_terminal_jobs qn t ct queue now db = (ids, db')"
    and "j \<in> set ids" and "row_of db' j = Some r" and "owner_attempt r = Some n"
  shows "(a \<le> n \<longrightarrow> mark_started j sid a later db' = (False, db')) \<and>
    (n < a \<longrightarrow> (\<exists>db''. mark_started j sid a later db' = (True, db'') \<and>
       row_of db'' j = Some (started_row a later r)))"
proof -
  let ?qs = "filter (gave_up qn t ct) queue"
  have wf': "db_wf db'"
    using db_wf_apply_event [OF assms(1), of "Reconciled qn t ct queue now"] assms(2) by simp
  obtain r0 q where "r0 \<in> set (rows db)" "job_id r0 = j" and q: "q \<in> set ?qs" "reconcilable q r0"
    using assms(3) unfolding reconcile_result(2) [OF assms(2)] by auto
  then have "row_of db j = Some r0" using assms(1) by (simp add: db_wf_def find_by_eq_Some)
  then have "r = reconcile_row now ?qs r0"
    using assms(4) row_effect_id(1) [of "Reconciled qn t ct queue now"]
    by (simp add: reconcile_result(1) [OF assms(2)] find_by_map)
  moreover obtain q' where "reconcile_row now ?qs r0 = reconciled_row now q' r0"
    using q by (blast elim: reconcile_row_hit)
  ultimately have failed: "status r = FAILED" by (simp add: reconciled_row_def)
  have distinct: "distinct (map job_id (rows db'))" using wf' by (simp add: db_wf_def)
  have unique: "r' = r" if "r' \<in> set (rows db')" "job_id r' = j" for r'
    using find_by_eq_Some [OF distinct, of j r'] that assms(4) by simp
  have member: "r \<in> set (rows db')" "job_id r = j" using assms(4) by (auto dest: find_by_SomeD)
  have "may_start a r \<longleftrightarrow> n < a" using failed assms(5) by (auto simp: may_start_def)
  then have guard: "(\<exists>r' \<in> set (rows db'). job_id r' = j \<and> may_start a r') \<longleftrightarrow> n < a"
    using unique member by metis
  have "row_of (snd (mark_started j sid a later db')) j = Some (row_effect (Started j sid a later) r)"
    using row_of_apply_event [OF assms(4), of "Started j sid a later"] by simp
  with guard \<open>may_start a r \<longleftrightarrow> n < a\<close> member show ?thesis
    by (auto simp: mark_started_def fenced_write_def guarded_def)
qed

subsection \<open>Submission\<close>

lemma fetch_by_simulation_id_apply_event:
  "fetch_by_simulation_id db sid = Some r \<Longrightarrow>
     fetch_by_simulation_id (apply_event e db) sid = Some (row_effect e r)"
  by (simp add: fetch_by_simulation_id_def rows_apply_event find_by_append find_by_map)

lemma fetch_by_simulation_id_run_events:
  "fetch_by_simulation_id db sid = Some r \<Longrightarrow>
     fetch_by_simulation_id (run_events es db) sid = Some (fold row_effect es r)"
  by (induction es arbitrary: db r) (simp_all add: fetch_by_simulation_id_apply_event)

lemma fold_row_effect_input: "input_params (fold row_effect es r) = input_params r"
  by (induction es arbitrary: r) simp_all

lemma create_or_get_job_ok:
  assumes "create_or_get_job defer inp sim nid now (db, q) = (Inr v, (db1, q1))"
  obtains sid r where "as_uuid sim = Some sid" and "fetch_by_simulation_id db1 sid = Some r"
    and "input_params r = inp" and "v = status_from_row r"
proof (cases "as_uuid sim")
  case (Some sid)
  show thesis
  proof (cases "fetch_by_simulation_id db sid")
    case None
    with Some assms have "rows db1 = rows db @ [inserted_row nid sid inp now]"
        "v = status_from_row (inserted_row nid sid inp now)"
      by (auto simp: create_or_get_job_def Let_def split: if_splits sum.splits)
    with that [OF Some, of "inserted_row nid sid inp now"] None show thesis
      by (simp add: fetch_by_simulation_id_def find_by_append)
  next
    case (Some r)
    with \<open>as_uuid sim = Some sid\<close> assms that show thesis
      by (auto simp: create_or_get_job_def split: if_splits)
  qed
qed (use assms in \<open>simp add: create_or_get_job_def\<close>)

text \<open>A simulation is submitted once. After a submission has been accepted, and whatever has
  happened to the job since, submitting the same id with the same input returns the job's
  current status without touching the table or the queue, and submitting it with another
  input is rejected, again without touching either.\<close>

theorem resubmission_returns_existing_job:
  assumes "create_or_get_job defer inp sim nid now (db, q) = (Inr v, (db1, q1))"
    and "db2 = run_events es db1"
  shows "\<exists>sid r. as_uuid sim = Some sid \<and> fetch_by_simulation_id db2 sid = Some r \<and>
    create_or_get_job defer inp sim nid2 later (db2, q2) = (Inr (status_from_row r), (db2, q2)) \<and>
    (inp2 \<noteq> inp \<longrightarrow>
       create_or_get_job defer inp2 sim nid2 later (db2, q2) = (Inl input_conflict, (db2, q2)))"
proof -
  obtain sid r where sid: "as_uuid sim = Some sid"
      and r: "fetch_by_simulation_id db1 sid = Some r" "input_params r = inp"
    using create_or_get_job_ok [OF assms(1)] by metis
  have "fetch_by_simulation_id db2 sid = Some (fold row_effect es r)"
    unfolding assms(2) by (rule fetch_by_simulation_id_run_events [OF r(1)])
  with sid r(2) show ?thesis
    by (auto simp: create_or_get_job_def fold_row_effect_input)
qed

text \<open>A submission commits the row and its queue entry together or leaves both stores alone:
  either nothing changed, or one queued row without an owner was appended under the new id
  and the queue is the one \<open>defer\<close> produced for exactly that id.\<close>

theorem submission_is_atomic:
  assumes "create_or_get_job defer inp sim nid now (db, q) = (res, (db', q'))"
  shows "(db' = db \<and> q' = q) \<or>
    (is_ok res \<and> defer q nid = Inr q' \<and>
     (\<exists>r. rows db' = rows db @ [r] \<and> job_id r = nid \<and> status r = QUEUED \<and>
        owner_attempt r = None \<and> nid \<notin> job_id ` set (rows db) \<and>
        simulation_id r \<notin> simulation_id ` set (rows db)))"
proof (cases "as_uuid sim")
  case (Some sid)
  show ?thesis
  proof (cases "find_by simulation_id sid (rows db)")
    case None
    then have "sid \<notin> simulation_id ` set (rows db)" by (simp only: find_by_None not_False_eq_True)
    with Some None assms show ?thesis
      by (auto simp: create_or_get_job_def fetch_by_simulation_id_def Let_def
          split: if_splits sum.splits)
  next
    case (Some r)
    with \<open>as_uuid sim = Some sid\<close> assms show ?thesis
      by (auto simp: create_or_get_job_def fetch_by_simulation_id_def split: if_splits)
  qed
qed (use assms in \<open>simp add: create_or_get_job_def\<close>)

subsection \<open>Notifications\<close>

text \<open>
  The callers pass the job's own public id beside its internal id; a creation notifies
  nobody, and changes no existing row.
\<close>

fun addressed :: "job_event \<Rightarrow> job_row \<Rightarrow> bool" where
  "addressed (Started j sid a now) r = (job_id r = j \<longrightarrow> simulation_id r = sid)"
| "addressed (Progressed j sid m p a now) r = (job_id r = j \<longrightarrow> simulation_id r = sid)"
| "addressed (FailureRecorded j sid e st w a now) r = (job_id r = j \<longrightarrow> simulation_id r = sid)"
| "addressed (CompletionRecorded row res b k a now) r =
     (job_id r = job_id row \<longrightarrow> simulation_id r = simulation_id row)"
| "addressed _ r = True"

lemma fenced_write_notifies:
  assumes "r \<in> set (rows db)" and "job_id r = j" and "g r"
  shows "notified (snd (fenced_write g f j sid db)) = notified db @ [sid]"
  using assms by (auto simp: fenced_write_def)

text \<open>C6: No change goes unannounced. Whenever an operation changes a row, the transaction
  that changes it also notifies the channel of the row's public id.\<close>

theorem every_change_is_notified:
  assumes "row_of db j = Some r" and "addressed e r" and "row_effect e r \<noteq> r"
  shows "\<exists>news. notified (apply_event e db) = notified db @ news \<and> simulation_id r \<in> set news"
proof -
  have r: "r \<in> set (rows db)" "job_id r = j" using assms(1) by (auto dest: find_by_SomeD)
  show ?thesis
  proof (cases e)
    case (Reconciled qn t ct q now)
    let ?qs = "filter (gave_up qn t ct) q"
    obtain ids db' where run: "reconcile_terminal_jobs qn t ct q now db = (ids, db')" by fastforce
    have "\<exists>q \<in> set ?qs. reconcilable q r"
      using assms(3) Reconciled reconcile_row_miss [of ?qs r now] by auto
    with r(1) run Reconciled show ?thesis by (auto simp: reconcile_result(3) [OF run])
  next
    case (OutputsExpired sim now)
    then show ?thesis using assms(3) r(1)
      by (auto simp: mark_outputs_expired_def guarded_def may_expire_def split: option.splits if_splits)
  next
    case (FailureRecorded k sid ex st w a now)
    then show ?thesis using assms(2,3) r
      by (auto simp: record_failure_def guarded_def split: if_splits)
  next
    case (CompletionRecorded row res b k a now)
    then show ?thesis using assms(2,3) r
      by (auto simp: complete_update_def guarded_def fenced_write_notifies split: if_splits)
  next
    case (Started k sid a now)
    then show ?thesis using assms(2,3) r
      by (auto simp: mark_started_def guarded_def fenced_write_notifies split: if_splits)
  next
    case (Progressed k sid m p a now)
    then show ?thesis using assms(2,3) r
      by (auto simp: record_progress_def guarded_def fenced_write_notifies split: if_splits)
  qed (use assms(3) in simp)
qed

subsection \<open>Concrete histories\<close>

text \<open>
  One job, as it is queued, running under attempt 1 and completed, and a queue row that gave
  up on it: the inputs at which the theorems with hypotheses are applied.
\<close>

definition sample_input :: earthquake_input where
  "sample_input = \<lparr> Mw = 8, depth_h = 20, lat0 = - 12, lon0 = - 77, dia = None, hhmm = None \<rparr>"

definition sample_queued :: job_row where
  "sample_queued = inserted_row 1 (set_version4 9) sample_input 0"

definition sample_running :: job_row where
  "sample_running = started_row 1 5 sample_queued"

definition sample_result :: simulation_result where
  "sample_result = \<lparr> res_calculation = JNull, res_travel_times = JNull,
     res_outputs = [\<lparr> of_name = ''report'', of_path = ''/w/report.pdf'', of_content_type = ''application/pdf'' \<rparr>] \<rparr>"

definition sample_completed :: job_row where
  "sample_completed = completed_row sample_result
     [\<lparr> out_name = ''report'', out_key = ''k/report.pdf'', out_filename = ''report.pdf'',
        out_content_type = ''application/pdf'' \<rparr>] ''bucket'' ''k/metadata.json'' 9 sample_running"

abbreviation sample_db :: "job_row \<Rightarrow> compute_db" where
  "sample_db r \<equiv> \<lparr> rows = [r], notified = [] \<rparr>"

definition sample_gave_up :: queue_row where
  "sample_gave_up = \<lparr> q_id = 3, q_queue = ''simulations'', q_task = ''simulate'', q_state = ''failed'',
     q_payload = Some ''00000000-0000-0000-0000-000000000001'', q_attempt = 2,
     q_finished_at = Some 50, q_error_type = Some ''MemoryError'', q_scheduled_at = 1 \<rparr>"

definition sample_reconciled :: job_row where
  "sample_reconciled = reconciled_row 200 sample_gave_up sample_running"

lemmas sample_defs = sample_queued_def sample_running_def sample_completed_def sample_gave_up_def
  sample_reconciled_def sample_result_def inserted_row_def started_row_def completed_row_def
  reconciled_row_def

lemma sample_simps [simp]:
  "job_id sample_queued = 1" "job_id sample_running = 1" "job_id sample_completed = 1"
  "job_id sample_reconciled = 1"
  "simulation_id sample_queued = set_version4 9" "simulation_id sample_running = set_version4 9"
  "simulation_id sample_completed = set_version4 9" "simulation_id sample_reconciled = set_version4 9"
  "status sample_queued = QUEUED" "status sample_running = RUNNING"
  "status sample_completed = COMPLETED" "status sample_reconciled = FAILED"
  "owner_attempt sample_queued = None" "owner_attempt sample_running = Some 1"
  "owner_attempt sample_completed = Some 1" "owner_attempt sample_reconciled = Some 2"
  by (simp_all add: sample_defs)

lemma sample_wf: "row_wf sample_queued" "row_wf sample_running" "row_wf sample_completed"
  by (simp_all add: row_wf_def sample_defs terminal_iff set_version4_idem)

lemma sample_db_wf: "row_wf r \<Longrightarrow> db_wf (sample_db r)"
  by (simp add: db_wf_def)

lemma sample_payload: "payload_uuid sample_gave_up = Some 1"
  by code_simp

lemma sample_reconcile:
  "reconcile_terminal_jobs ''simulations'' ''simulate'' 100 [sample_gave_up] 200 (sample_db sample_running)
     = ([1], \<lparr> rows = [sample_reconciled], notified = [set_version4 9] \<rparr>)"
proof -
  have "reconcilable sample_gave_up sample_running"
    using sample_payload by (simp add: reconcilable_def terminal_iff) (simp add: sample_gave_up_def)
  moreover have "gave_up ''simulations'' ''simulate'' 100 sample_gave_up"
    using sample_payload by (simp add: gave_up_def QUEUE_GAVE_UP_def) (simp add: sample_gave_up_def)
  ultimately show ?thesis
    by (simp add: reconcile_terminal_jobs_def reconcile_row_def sample_reconciled_def)
qed

lemma status_changes_follow_life_cycle_witness:
  "status_step (Some 2) sample_running (row_effect (Started 1 (set_version4 9) 2 10) sample_running) \<and>
   owner_attempt (row_effect (Started 1 (set_version4 9) 2 10) sample_running) = Some 2"
  using status_changes_follow_life_cycle [OF sample_wf(2), of "Started 1 (set_version4 9) 2 10"]
  by (simp add: guarded_def may_start_def) (simp add: started_row_def)

lemma completed_job_is_final_witness:
  "\<exists>r'. row_of (run_events [Started 1 (set_version4 9) 2 10,
      FailureRecorded 1 (set_version4 9) OSError None False 1 11] (sample_db sample_completed)) 1 = Some r' \<and>
    status r' = COMPLETED \<and> final_columns r' = final_columns sample_completed"
  by (rule completed_job_is_final) simp_all

lemma superseded_attempts_have_no_effect_witness:
  "row_of (run_events [Started 1 (set_version4 9) 0 10,
      FailureRecorded 1 (set_version4 9) OSError None False 0 11,
      FailureRecorded 1 (set_version4 9) OSError None False 1 12] (sample_db sample_running)) 1
   = row_of (run_events [FailureRecorded 1 (set_version4 9) OSError None False 1 12]
       (sample_db sample_running)) 1"
  using superseded_attempts_have_no_effect [of 1 "sample_db sample_running" sample_running 1
      "[Started 1 (set_version4 9) 0 10, FailureRecorded 1 (set_version4 9) OSError None False 0 11,
        FailureRecorded 1 (set_version4 9) OSError None False 1 12]"]
  by (simp del: run_events_simps)

lemma ownership_moves_forward_witness:
  "\<exists>r' b. row_of (run_events [Started 1 (set_version4 9) 4 10, Started 1 (set_version4 9) 3 11]
      (sample_db sample_running)) 1 = Some r' \<and> owner_attempt r' = Some b \<and> 1 \<le> b"
  by (rule ownership_moves_forward [of _ _ sample_running]) simp_all

lemma reconciliation_is_idempotent_witness:
  "reconcile_terminal_jobs ''simulations'' ''simulate'' 100 [sample_gave_up] 300
      \<lparr> rows = [sample_reconciled], notified = [set_version4 9] \<rparr>
     = ([], \<lparr> rows = [sample_reconciled], notified = [set_version4 9] \<rparr>)"
  by (rule reconciliation_is_idempotent [OF sample_reconcile])

lemma reconciliation_spares_newer_attempts_witness:
  "\<exists>r'. row_of \<lparr> rows = [sample_reconciled], notified = [set_version4 9] \<rparr> 1 = Some r' \<and>
     (r' = sample_running \<or>
      (\<exists>q \<in> set [sample_gave_up]. gave_up ''simulations'' ''simulate'' 100 q \<and> payload_uuid q = Some 1 \<and>
         \<not> terminal (status sample_running) \<and>
         (\<forall>w. owner_attempt sample_running = Some w \<longrightarrow> w \<le> q_attempt q) \<and>
         status r' = FAILED \<and> owner_attempt r' = Some (max (case owner_attempt sample_running of
           None \<Rightarrow> 0 | Some w \<Rightarrow> w) (q_attempt q))))"
  by (rule reconciliation_spares_newer_attempts [OF sample_reconcile]) simp

lemma reconciled_job_reopens_only_for_newer_attempt_witness:
  "\<exists>db''. mark_started 1 (set_version4 9) 3 400 \<lparr> rows = [sample_reconciled], notified = [set_version4 9] \<rparr>
     = (True, db'') \<and> row_of db'' 1 = Some (started_row 3 400 sample_reconciled)"
  using reconciled_job_reopens_only_for_newer_attempt
    [OF sample_db_wf [OF sample_wf(2)] sample_reconcile, of 1 sample_reconciled 2 3 "set_version4 9" 400]
  by simp

lemma sample_as_uuid: "as_uuid (uuid_str 9) = Some (set_version4 9)"
  by (rule as_uuid_uuid_str)

lemma sample_create:
  "create_or_get_job (\<lambda>q n. Inr (q @ [n])) sample_input (uuid_str 9) 1 0 (empty_db, [])
     = (Inr (status_from_row sample_queued), (sample_db sample_queued, [1]))"
  by (simp add: create_or_get_job_def sample_as_uuid fetch_by_simulation_id_def empty_db_def
      sample_queued_def Let_def)

lemma resubmission_returns_existing_job_witness:
  "\<exists>sid r. as_uuid (uuid_str 9) = Some sid \<and>
    fetch_by_simulation_id (run_events [Started 1 (set_version4 9) 1 5] (sample_db sample_queued)) sid = Some r \<and>
    create_or_get_job (\<lambda>q n. Inr (q @ [n])) sample_input (uuid_str 9) 2 8
        (run_events [Started 1 (set_version4 9) 1 5] (sample_db sample_queued), [1])
      = (Inr (status_from_row r), (run_events [Started 1 (set_version4 9) 1 5] (sample_db sample_queued), [1]))"
  using resubmission_returns_existing_job [OF sample_create refl, of "[Started 1 (set_version4 9) 1 5]" 2 8 "[1]" sample_input]
  by blast

lemma submission_is_atomic_witness:
  "\<exists>r. rows (sample_db sample_queued) = rows empty_db @ [r] \<and> job_id r = 1 \<and> owner_attempt r = None"
  using submission_is_atomic [OF sample_create] by (auto simp: empty_db_def)

lemma every_change_is_notified_witness:
  "\<exists>news. notified (apply_event (Started 1 (set_version4 9) 2 10) (sample_db sample_running))
      = [] @ news \<and> set_version4 9 \<in> set news"
proof -
  have "row_effect (Started 1 (set_version4 9) 2 10) sample_running \<noteq> sample_running"
    by (simp add: guarded_def may_start_def terminal_iff) (simp add: sample_defs)
  with every_change_is_notified [of 1 "sample_db sample_running" sample_running
      "Started 1 (set_version4 9) 2 10"]
  show ?thesis by simp
qed

end
