(* ===== verification/TaskLaws.thy ===== *)
theory TaskLaws
  imports TaskRun JobLaws
begin

text \<open>
  What a run of the simulation task guarantees, whatever its environment does: it acts on
  the table only through fenced operations of its own attempt on its own job, it returns
  only for a completed job, a superseded run leaves no trace, and a failure that is not the
  attempt's to report is not reported. The proofs rest on the interpretation \<open>jobs\<close>.
\<close>

subsection \<open>A run is a history\<close>

lemma before_others:
  "set (da_before (env_read env)) \<subseteq> others_of env" "set (da_before (env_start env)) \<subseteq> others_of env"
  "set (da_before (env_stand_down env)) \<subseteq> others_of env"
  by (auto simp: others_of_def)

lemma finish_run_extends:
  assumes "others_of env \<subseteq> X"
  shows "extends X (own_event (job_id row) (simulation_id row) a) db
    (fst (snd (finish_run c bucket isoformat row a env res (db, s))))"
proof -
  let ?own = "own_event (job_id row) (simulation_id row) a"
  let ?db1 = "run_events (da_before (env_complete env)) db"
  have one: "extends X ?own db ?db1"
    by (rule extends_others) (use assms in \<open>auto simp: others_of_def\<close>)
  have tx: "extends X ?own ?db1 (snd (transact tx (complete_update row res b k a now) ?db1))" for tx b k now
    by (rule transact_extends [OF complete_update_extends])
  show ?thesis using one extends_trans [OF one tx]
    by (auto simp: finish_run_def complete_job_def Let_def split: sum.split prod.split)
       (metis snd_conv)
qed

lemma task_failed_extends:
  assumes "others_of env \<subseteq> X"
  shows "extends X (own_event j sid a) db (snd (task_failed j sid a env e db))"
  using record_task_failure_extends [OF assms] by (cases e) (auto simp: task_failed_def)

lemma run_kernel_extends:
  assumes "others_of env \<subseteq> X"
  shows "extends X (own_event j sid a) db (snd (run_kernel j sid a env db))"
proof -
  have "extends X (own_event j sid a) db (snd (run_progress j sid a (env_calls env) db))"
    by (rule run_progress_extends) (use assms in \<open>auto simp: others_of_def\<close>)
  then show ?thesis by (auto simp: run_kernel_def split: sum.split prod.split)
qed

lemma run_claimed_extends:
  assumes "others_of env \<subseteq> X"
  shows "extends X (own_event (job_id row) (simulation_id row) a) db
    (fst (snd (run_claimed c bucket isoformat row a env (db, s))))"
proof (cases "env_claim env")
  case Cancelled
  then show ?thesis by (auto simp: run_claimed_def)
next
  case (Ended claim)
  have fail: "extends X (own_event (job_id row) (simulation_id row) a) db db'"
    if "task_failed (job_id row) (simulation_id row) a env e db = (x, db')" for e db x db'
    using task_failed_extends [OF assms, of "job_id row" "simulation_id row" a db e] that by simp
  show ?thesis
  proof (cases claim)
    case (Inl e)
    with Ended show ?thesis by (auto simp: run_claimed_def Let_def split: prod.split intro: fail)
  next
    case (Inr resume)
    obtain out db1 where k: "run_kernel (job_id row) (simulation_id row) a env db = (out, db1)" by fastforce
    have one: "extends X (own_event (job_id row) (simulation_id row) a) db db1"
      using run_kernel_extends [OF assms, of "job_id row" "simulation_id row" a db] k by simp
    show ?thesis
    proof (cases out)
      case Cancelled
      with Ended Inr k one show ?thesis by (simp add: run_claimed_def Let_def)
    next
      case (Ended kres)
      show ?thesis
      proof (cases kres)
        case (Inl e)
        with \<open>env_claim env = _\<close> \<open>claim = _\<close> k Ended show ?thesis
          by (auto simp: run_claimed_def Let_def split: prod.split intro: extends_trans [OF one fail])
      next
        case (Inr res)
        obtain fin db2 s2 where f: "finish_run c bucket isoformat row a env res (db1, s) = (fin, (db2, s2))"
          by (metis prod.exhaust)
        have two: "extends X (own_event (job_id row) (simulation_id row) a) db db2"
          using extends_trans [OF one] finish_run_extends [OF assms, of row a db1 c bucket isoformat res s] f
          by simp
        with \<open>env_claim env = _\<close> \<open>claim = _\<close> k Ended Inr f show ?thesis
          by (auto simp: run_claimed_def Let_def split: sum.split prod.split
              intro: extends_trans [OF two fail])
      qed
    qed
  qed
qed

lemma read_row_extends:
  assumes "set (da_before da) \<subseteq> X"
  shows "extends X own db (snd (read_row da j db))"
  unfolding read_row_def by (rule access_extends [OF _ assms]) auto

lemma read_row_found:
  assumes "read_row da j db = (Inr (Some row), db')"
  shows "job_id row = j" and "row_of db' j = Some row"
proof -
  have "(fetch_by_id db' j) = Some row"
    using access_ok_cases [OF assms [unfolded read_row_def]] by auto
  then show "row_of db' j = Some row" "job_id row = j"
    by (auto simp: fetch_by_id_def dest: find_by_SomeD)
qed

lemma run_simulation_task_extends:
  obtains sid where "extends (others_of env) (own_event j sid a) db
    (fst (snd (run_simulation_task c bucket isoformat j a env (db, s))))"
proof -
  let ?X = "others_of env"
  obtain r1 db1 where read: "read_row (env_read env) j db = (r1, db1)" by fastforce
  have one: "extends ?X own db db1" for own
    using read_row_extends [of "env_read env" ?X own db j] read by (auto simp: others_of_def)
  show thesis
  proof (cases "\<exists>row. r1 = Inr (Some row)")
    case False
    with read one that show thesis
      by (auto simp: run_simulation_task_def split: sum.splits option.splits)
  next
    case True
    then obtain row where r1: "r1 = Inr (Some row)" ..
    have j: "job_id row = j" using read_row_found(1) read r1 by blast
    let ?own = "own_event j (simulation_id row) a"
    obtain r2 db2 where start: "access_db (env_start env)
        (mark_started j (simulation_id row) a (da_now (env_start env))) db1 = (r2, db2)" by fastforce
    have "extends ?X ?own db1 db2"
      using access_extends [of ?X ?own "mark_started j (simulation_id row) a (da_now (env_start env))"
          "env_start env" db1] mark_started_extends start
      by (auto simp: others_of_def)
    then have two: "extends ?X ?own db db2" by (rule extends_trans [OF one])
    have stand: "extends ?X ?own db2 (snd (stand_down j env db2))"
      using read_row_extends [OF before_others(3), of env ?own db2 j]
      by (auto simp: stand_down_def split: sum.split prod.split option.split)
    have run: "extends ?X ?own db2 (fst (snd (run_claimed c bucket isoformat row a env (db2, s))))"
      using run_claimed_extends [OF order_refl, of env row a db2 c bucket isoformat s] j by simp
    have "extends ?X ?own db (fst (snd (run_simulation_task c bucket isoformat j a env (db, s))))"
      using two extends_trans [OF two stand] extends_trans [OF two run] read r1 start
      by (auto simp: run_simulation_task_def Let_def split: sum.split bool.split prod.split)
    with that show thesis .
  qed
qed

text \<open>C10: A run of the task is a history of the table: whatever connections fail, whatever others
  commit in between and however the run ends, the table it leaves is reached from the one it
  found by operations of the others and by operations of its own attempt on its own job, and
  by nothing else; in particular every guarantee about histories holds for it.\<close>

theorem task_run_is_a_history:
  assumes "run_simulation_task c bucket isoformat j a env (db, s) = (r, (db', s'))"
  shows "\<exists>sid es. db' = run_events es db \<and> (\<forall>e \<in> set es. e \<in> others_of env \<or> own_event j sid a e)"
proof -
  obtain sid where "extends (others_of env) (own_event j sid a) db
      (fst (snd (run_simulation_task c bucket isoformat j a env (db, s))))"
    by (rule run_simulation_task_extends)
  with assms show ?thesis by (auto simp: extends_def)
qed

lemma own_event_attempt: "own_event j sid a e \<Longrightarrow> event_attempt e = Some a"
  by (cases e) auto

text \<open>A zombie leaves no trace. If a newer attempt owns the row when a run of an older
  attempt begins, the row the run leaves behind is one that the others' operations alone
  produce: the run, with all its progress reports, its failure report and its completion,
  has not changed it.\<close>

theorem superseded_run_changes_nothing:
  assumes "run_simulation_task c bucket isoformat j a env (db, s) = (r, (db', s'))"
    and "row_of db j = Some row" and "owner_attempt row = Some b" and "a < b"
  shows "\<exists>es. set es \<subseteq> others_of env \<and> row_of db' j = row_of (run_events es db) j"
proof -
  obtain sid where "extends (others_of env) (own_event j sid a) db
      (fst (snd (run_simulation_task c bucket isoformat j a env (db, s))))"
    by (rule run_simulation_task_extends)
  then obtain es where db': "db' = run_events es db"
    and es: "\<forall>e \<in> set es. e \<in> others_of env \<or> own_event j sid a e"
    using assms(1) by (auto simp: extends_def)
  let ?es = "filter (\<lambda>e. case event_attempt e of None \<Rightarrow> True | Some a \<Rightarrow> b \<le> a) es"
  have "row_of db' j = row_of (run_events ?es db) j"
    using row_of_run_events [OF assms(2)] jobs.erase_superseded [OF assms(3) order_refl, of es]
    by (simp add: db')
  moreover have "set ?es \<subseteq> others_of env"
    using es assms(4) own_event_attempt by fastforce
  ultimately show ?thesis by blast
qed

subsection \<open>What returning means\<close>

lemma complete_update_recorded:
  assumes "complete_update row res b k a now db = (True, db')" and "db_wf db"
  shows "\<exists>r. row_of db' (job_id row) = Some r \<and> status r = COMPLETED \<and> owner_attempt r = Some a"
proof -
  have "\<exists>r \<in> set (rows db). job_id r = job_id row \<and> owns_unfinished a r"
    using assms(1) by (auto simp: complete_update_def fenced_write_def split: if_splits)
  then obtain r where r: "r \<in> set (rows db)" "job_id r = job_id row" and own: "owns_unfinished a r" by blast
  then have "row_of db (job_id row) = Some r" using assms(2) by (simp add: db_wf_def find_by_eq_Some)
  then have "row_of db' (job_id row) = Some (row_effect (CompletionRecorded row res b k a now) r)"
    using row_of_apply_event [of "job_id row" db r "CompletionRecorded row res b k a now"] assms(1) by simp
  then show ?thesis using r(2) own by (simp add: guarded_def completed_row_def owns_unfinished_def)
qed

lemma extends_wf: "extends X own db db' \<Longrightarrow> db_wf db \<Longrightarrow> db_wf db'"
  by (auto simp: extends_def intro: wf_intros)

lemma finish_run_recorded:
  assumes "finish_run c bucket isoformat row a env res (db, s) = (Inr True, (db', s'))" and "db_wf db"
  shows "\<exists>r. row_of db' (job_id row) = Some r \<and> status r = COMPLETED"
proof -
  let ?db1 = "run_events (da_before (env_complete env)) db"
  have wf: "db_wf ?db1" by (rule db_wf_run_events [OF assms(2)])
  obtain b k now where "transact (da_tx (env_complete env)) (complete_update row res b k a now) ?db1 = (Inr True, db')"
    using assms(1) by (auto simp: finish_run_def complete_job_def Let_def split: sum.splits prod.splits)
  then have "complete_update row res b k a now ?db1 = (True, db')" by (rule transact_ok)
  from complete_update_recorded [OF this wf] show ?thesis by blast
qed

lemma task_failed_not_returns: "task_failed j sid a env e db \<noteq> (TaskReturns, db')"
  by (cases e) (auto simp: task_failed_def)

lemma task_failed_ends:
  "(case task_failed j sid a env e db of (r, db') \<Rightarrow> (r, (db', s))) \<noteq> (TaskReturns, st)"
  using task_failed_not_returns [of j sid a env e db] by (auto split: prod.split)

lemma run_claimed_returnsE:
  assumes "run_claimed c bucket isoformat row a env (db, s) = (TaskReturns, (db', s'))"
  obtains res db1 where "run_kernel (job_id row) (simulation_id row) a env db = (Ended (Inr res), db1)"
    and "finish_run c bucket isoformat row a env res (db1, s) = (Inr True, (db', s'))"
proof -
  obtain resume where claim: "env_claim env = Ended (Inr resume)"
    using assms by (auto simp: run_claimed_def Let_def task_failed_ends split: awaited.splits sum.splits)
  obtain out db1 where k: "run_kernel (job_id row) (simulation_id row) a env db = (out, db1)" by fastforce
  obtain res where out: "out = Ended (Inr res)"
    using assms claim k
    by (auto simp: run_claimed_def Let_def task_failed_ends split: awaited.splits sum.splits)
  obtain fin db2 s2 where f: "finish_run c bucket isoformat row a env res (db1, s) = (fin, (db2, s2))"
    by (metis prod.exhaust)
  have "fin = Inr True \<and> db2 = db' \<and> s2 = s'"
    using assms claim k out f
    by (simp add: run_claimed_def Let_def task_failed_ends split: sum.splits if_splits)
  with that k out f show thesis by simp
qed

lemma run_claimed_returns:
  assumes "run_claimed c bucket isoformat row a env (db, s) = (TaskReturns, (db', s'))" and "db_wf db"
  shows "\<exists>r. row_of db' (job_id row) = Some r \<and> status r = COMPLETED"
proof -
  obtain res db1 where k: "run_kernel (job_id row) (simulation_id row) a env db = (Ended (Inr res), db1)"
    and f: "finish_run c bucket isoformat row a env res (db1, s) = (Inr True, (db', s'))"
    by (rule run_claimed_returnsE [OF assms(1)])
  have "db_wf db1"
    using extends_wf [OF run_kernel_extends [OF order_refl]] assms(2) k by (metis snd_conv)
  from finish_run_recorded [OF f this] show ?thesis .
qed

text \<open>C11: The task returns only for a completed job. On every path on which a run ends normally,
  the job's row is completed when it does, so the queue records a success only of a job
  whose result is committed; every other ending raises or is cancelled.\<close>

theorem returning_means_completed:
  assumes "run_simulation_task c bucket isoformat j a env (db, s) = (TaskReturns, (db', s'))"
    and "db_wf db"
  shows "\<exists>r. row_of db' j = Some r \<and> status r = COMPLETED"
proof -
  obtain r1 db1 where read1: "read_row (env_read env) j db = (r1, db1)" by fastforce
  obtain row where r1: "r1 = Inr (Some row)"
    using assms(1) read1 by (auto simp: run_simulation_task_def split: sum.splits option.splits)
  note read = read1 [unfolded r1]
  have j: "job_id row = j" by (rule read_row_found(1) [OF read])
  obtain r2 db2 where start2: "access_db (env_start env)
      (mark_started j (simulation_id row) a (da_now (env_start env))) db1 = (r2, db2)" by fastforce
  obtain claimed where r2: "r2 = Inr claimed"
    using assms(1) read start2 by (auto simp: run_simulation_task_def split: sum.splits)
  note start = start2 [unfolded r2]
  have wf1: "db_wf db1"
    using extends_wf [OF read_row_extends [OF before_others(1), of env "own_event j j a" db j] assms(2)] read
    by simp
  have "extends (others_of env) (own_event j (simulation_id row) a) db1 db2"
    using access_extends [of "others_of env" "own_event j (simulation_id row) a"
        "mark_started j (simulation_id row) a (da_now (env_start env))" "env_start env" db1]
      mark_started_extends before_others(2) start by simp
  then have wf2: "db_wf db2" by (rule extends_wf) (rule wf1)
  show ?thesis
  proof (cases claimed)
    case True
    with assms(1) read start have "run_claimed c bucket isoformat row a env (db2, s) = (TaskReturns, (db', s'))"
      by (simp add: run_simulation_task_def)
    from run_claimed_returns [OF this wf2] show ?thesis by (simp add: j)
  next
    case False
    with assms(1) read start have "stand_down j env db2 = (TaskReturns, db')"
      by (simp add: run_simulation_task_def split: prod.splits)
    moreover obtain x db3 where "read_row (env_stand_down env) j db2 = (x, db3)" by fastforce
    ultimately obtain r where "read_row (env_stand_down env) j db2 = (Inr (Some r), db')" "status r = COMPLETED"
      by (auto simp: stand_down_def split: sum.splits option.splits if_splits)
    with read_row_found(2) show ?thesis by blast
  qed
qed

subsection \<open>Payloads name the job\<close>

text \<open>The queue entry of a job names that job and no other. Decoding the payload that
  \<open>enqueue_simulation\<close> writes gives the id back with its version bits set (ids are version-4
  UUIDs, which have them set), the reconciliation statement reads the same id from the same
  payload, and two jobs never share a deduplication or concurrency key.\<close>

theorem enqueued_payload_names_its_job:
  "decode_payload py_str (eq_payload (enqueue_simulation j)) = Inr (set_version4 j) \<and>
   payload_uuid (q\<lparr> q_payload := Some (uuid_str j) \<rparr>) = Some j \<and>
   (eq_dedupe_key (enqueue_simulation j) = eq_dedupe_key (enqueue_simulation j') \<longleftrightarrow> j = j') \<and>
   (eq_concurrency_key (enqueue_simulation j) = eq_concurrency_key (enqueue_simulation j') \<longleftrightarrow> j = j')"
  by (simp add: decode_payload_def enqueue_simulation_def as_uuid_uuid_str uuid_str_inject
      payload_uuid_def job_id_re_uuid_str filter_dash_uuid_str int_base16_uuid_hex)

subsection \<open>A concrete run\<close>

definition clean_access :: db_access where
  "clean_access = \<lparr> da_before = [], da_conn = Inr (), da_tx = Commits, da_now = 5 \<rparr>"

text \<open>A run in which nothing fails, with one progress report.\<close>

definition sample_env :: task_env where
  "sample_env =
     \<lparr> env_read = clean_access, env_start = clean_access, env_stand_down = clean_access,
       env_claim = Ended (Inr False),
       env_calls = [\<lparr> pc_message = ''Processing'',
         pc_progress = \<lparr> p_step = Some ''fault_plane'', p_step_index = Some 1, p_total_steps = Some 8,
           p_calculation = None, p_travel_times = None, p_outputs = None \<rparr>, pc_access = clean_access \<rparr>],
       env_kernel = Ended (Inr sample_result), env_complete = clean_access,
       env_cancel_complete = False, env_step = clean_access, env_failure = clean_access,
       env_cancel_failure = False, env_will_retry = (\<lambda>e. is_retryable e) \<rparr>"

abbreviation sample_run :: "int \<Rightarrow> job_row \<Rightarrow> task_end \<times> compute_db \<times> (string \<times> json s3_object) list" where
  "sample_run a r \<equiv> run_simulation_task list_client ''outputs'' (\<lambda>_. ''t'') 1 a sample_env (sample_db r, [])"

lemmas run_eval = run_simulation_task_def read_row_def access_db_def clean_access_def sample_env_def
  acquire_def fetch_by_id_def mark_started_def fenced_write_def may_start_def

lemma sample_run_returns: "fst (sample_run 1 sample_queued) = TaskReturns"
  by (simp add: run_eval run_claimed_def run_kernel_def finish_run_def complete_job_def record_progress_def
      owns_unfinished_def terminal_iff started_row_def progressed_row_def complete_update_def
      upload_simulation_result_def ensure_bucket_def bucket_usable_def list_client_def sample_result_def Let_def)

lemma returning_means_completed_witness:
  "\<exists>r. row_of (fst (snd (sample_run 1 sample_queued))) 1 = Some r \<and> status r = COMPLETED"
proof -
  have run: "sample_run 1 sample_queued
      = (TaskReturns, (fst (snd (sample_run 1 sample_queued)), snd (snd (sample_run 1 sample_queued))))"
    using sample_run_returns by (metis prod.collapse)
  show ?thesis by (rule returning_means_completed [OF run sample_db_wf [OF sample_wf(1)]])
qed

lemma task_run_is_a_history_witness:
  "\<exists>sid es. fst (snd (sample_run 1 sample_queued)) = run_events es (sample_db sample_queued) \<and>
     list_all (own_event 1 sid 1) es"
proof -
  have run: "sample_run 1 sample_queued = (fst (sample_run 1 sample_queued),
      (fst (snd (sample_run 1 sample_queued)), snd (snd (sample_run 1 sample_queued))))"
    by simp
  have "others_of sample_env = {}" by (simp add: others_of_def sample_env_def clean_access_def)
  with task_run_is_a_history [OF run] show ?thesis by (auto simp: list_all_iff)
qed

lemma superseded_run_changes_nothing_witness:
  "row_of (fst (snd (sample_run 0 sample_running))) 1 = Some sample_running"
proof -
  have run: "sample_run 0 sample_running = (fst (sample_run 0 sample_running),
      (fst (snd (sample_run 0 sample_running)), snd (snd (sample_run 0 sample_running))))"
    by simp
  have "others_of sample_env = {}" by (simp add: others_of_def sample_env_def clean_access_def)
  with superseded_run_changes_nothing [OF run, of sample_running 1] show ?thesis by auto
qed

end
