(* ===== verification/Interleaving.thy ===== *)
theory Interleaving
  imports Prelude
begin

text \<open>
  Actors that share a world. Each actor has a local state and moves on its own, one atomic
  action at a time, in any order with the others; what the actors exchange goes through the
  world. \<open>move\<close> is partial: an action that is not enabled does not happen. The locale
  \<open>owned_resources\<close> is the reasoning principle the workspace lock rests on: what an actor
  owns is safe from the moves of the others.
\<close>

type_synonym ('a, 'w, 'x) mover = "'a \<Rightarrow> 'w \<Rightarrow> 'x \<Rightarrow> ('w \<times> 'x) option"

inductive actor_step :: "('a, 'w, 'x) mover \<Rightarrow> 'w \<times> (nat \<Rightarrow> 'x) \<Rightarrow> 'w \<times> (nat \<Rightarrow> 'x) \<Rightarrow> bool"
  for move where
  step: "move a w (xs p) = Some (w', x') \<Longrightarrow> actor_step move (w, xs) (w', xs(p := x'))"

inductive_cases actor_stepE: "actor_step move (w, xs) t"

inductive actor_reach :: "('a, 'w, 'x) mover \<Rightarrow> 'w \<times> (nat \<Rightarrow> 'x) \<Rightarrow> 'w \<times> (nat \<Rightarrow> 'x) \<Rightarrow> bool"
  for move where
  init: "actor_reach move s s"
| step: "actor_reach move s t \<Longrightarrow> actor_step move t u \<Longrightarrow> actor_reach move s u"

text \<open>A schedule, run to the end or to the first action that is not enabled.\<close>

fun run_schedule ::
  "('a, 'w, 'x) mover \<Rightarrow> (nat \<times> 'a) list \<Rightarrow> 'w \<times> (nat \<Rightarrow> 'x) \<Rightarrow> ('w \<times> (nat \<Rightarrow> 'x)) option" where
  "run_schedule move [] s = Some s"
| "run_schedule move ((p, a) # sched) (w, xs) =
     (case move a w (xs p) of
        None \<Rightarrow> None
      | Some (w', x') \<Rightarrow> run_schedule move sched (w', xs(p := x')))"

lemma actor_reach_trans:
  "actor_reach move t u \<Longrightarrow> actor_reach move s t \<Longrightarrow> actor_reach move s u"
  by (induction rule: actor_reach.induct) (auto intro: actor_reach.step)

lemma run_schedule_reach: "run_schedule move sched s = Some t \<Longrightarrow> actor_reach move s t"
proof (induction move sched s rule: run_schedule.induct)
  case (2 move p a sched w xs)
  then obtain w' x' where mv: "move a w (xs p) = Some (w', x')"
    and "run_schedule move sched (w', xs(p := x')) = Some t"
    by (auto split: option.splits)
  with 2 have "actor_reach move (w', xs(p := x')) t" by simp
  moreover have "actor_reach move (w, xs) (w', xs(p := x'))"
    using mv by (intro actor_reach.step [OF actor_reach.init] actor_step.step)
  ultimately show ?case by (rule actor_reach_trans)
qed (auto intro: actor_reach.init)

text \<open>
  \<open>own x\<close> are the resources actor \<open>x\<close> holds, numbered below \<open>bound w\<close>, the next free
  number of the world. A move keeps the mover's invariant, takes only fresh numbers, and
  keeps the invariant of every actor that owns other resources.
\<close>

locale owned_resources =
  fixes move :: "('a, 'w, 'x) mover"
    and ok :: "'w \<Rightarrow> 'x \<Rightarrow> bool"
    and own :: "'x \<Rightarrow> int set"
    and bound :: "'w \<Rightarrow> int"
  assumes own_bound: "ok w x \<Longrightarrow> own x \<subseteq> {..<bound w}"
    and move_ok: "move a w x = Some (w', x') \<Longrightarrow> ok w x \<Longrightarrow> ok w' x'"
    and move_own: "move a w x = Some (w', x') \<Longrightarrow> ok w x \<Longrightarrow> own x' \<subseteq> own x \<union> {bound w..}"
    and move_frame: "move a w x = Some (w', x') \<Longrightarrow> ok w x \<Longrightarrow> ok w y \<Longrightarrow> own x \<inter> own y = {} \<Longrightarrow> ok w' y"
begin

abbreviation separated :: "'w \<times> (nat \<Rightarrow> 'x) \<Rightarrow> bool" where
  "separated s \<equiv> (\<forall>p. ok (fst s) (snd s p)) \<and>
     (\<forall>p q. p \<noteq> q \<longrightarrow> own (snd s p) \<inter> own (snd s q) = {})"

lemma separated_step:
  assumes "actor_step move s t" and "separated s"
  shows "separated t"
  using assms
proof (cases rule: actor_step.cases)
  case (step a w xs p w' x')
  then have ok: "ok w (xs r)" and sep: "r \<noteq> q \<Longrightarrow> own (xs r) \<inter> own (xs q) = {}" for r q
    using assms(2) by auto
  have new: "ok w' x'" by (rule move_ok [OF step(3) ok])
  have others: "ok w' (xs q)" if "q \<noteq> p" for q
    using move_frame [OF step(3) ok ok] sep that by metis
  have "own x' \<inter> own (xs q) = {}" if "q \<noteq> p" for q
    using move_own [OF step(3) ok] own_bound [OF ok [of q]] sep [of p q] that by fastforce
  with new others sep step(2) show ?thesis by (auto simp: Int_commute)
qed

lemma separated_reach: "actor_reach move s t \<Longrightarrow> separated s \<Longrightarrow> separated t"
proof (induction rule: actor_reach.induct)
  case (step s t u)
  from separated_step [OF step.hyps(2) step.IH [OF step.prems]] show ?case .
qed

end

end
