(* ===== verification/Workspace.thy ===== *)
theory Workspace
  imports Interleaving Errors
begin

text \<open>
  The claim on a job's workspace (api/core/tasks.py). An attempt's claim is an exclusive
  \<open>flock\<close> shared by two holders, the coroutine and the kernel thread, which may end in either
  order; a cleanup pass may try to remove the same workspace. Each system call is one atomic
  move, so the model has every interleaving of attempts and removals that the operating
  system allows. File descriptors and inodes are numbered as they are created and never
  reused, so that closing a descriptor twice would show.
\<close>

subsection \<open>The lock file, its open descriptions and the directory\<close>

text \<open>
  One workspace: \<open>lock_link\<close> is the inode the lock path names, \<open>open_files\<close> maps an open
  descriptor to its inode, \<open>flocks\<close> an inode to the descriptor that holds its lock.
  \<open>bad_close\<close> records a \<open>close\<close> of a descriptor that is not open.
\<close>

record lock_world =
  lock_link :: "nat option"
  next_inode :: nat
  open_files :: "int \<Rightarrow> nat option"
  next_fd :: int
  flocks :: "nat \<Rightarrow> int option"
  dir_exists :: bool
  bad_close :: bool

text \<open>\<open>os.open(lock_path, O_CREAT | O_RDWR)\<close>, \<open>flock(fd, LOCK_EX | LOCK_NB)\<close>, \<open>os.close\<close>,
  \<open>unlink\<close> and \<open>rmtree\<close>. A lock lives with its open description.\<close>

definition sys_open :: "lock_world \<Rightarrow> lock_world \<times> int" where
  "sys_open w =
     (let i = (case lock_link w of Some i \<Rightarrow> i | None \<Rightarrow> next_inode w) in
      (w\<lparr> lock_link := Some i,
          next_inode := (if lock_link w = None then next_inode w + 1 else next_inode w),
          open_files := (open_files w)(next_fd w := Some i),
          next_fd := next_fd w + 1 \<rparr>, next_fd w))"

definition sys_flock :: "int \<Rightarrow> lock_world \<Rightarrow> lock_world \<times> bool" where
  "sys_flock fd w =
     (case open_files w fd of
        None \<Rightarrow> (w, False)
      | Some i \<Rightarrow>
          (case flocks w i of
             None \<Rightarrow> (w\<lparr> flocks := (flocks w)(i := Some fd) \<rparr>, True)
           | Some h \<Rightarrow> (w, h = fd)))"

definition sys_close :: "int \<Rightarrow> lock_world \<Rightarrow> lock_world" where
  "sys_close fd w =
     (case open_files w fd of
        None \<Rightarrow> w\<lparr> bad_close := True \<rparr>
      | Some i \<Rightarrow>
          w\<lparr> open_files := (open_files w)(fd := None),
             flocks := (if flocks w i = Some fd then (flocks w)(i := None) else flocks w) \<rparr>)"

subsection \<open>\<open>WorkspaceClaim\<close>\<close>

record ws_claim =
  c_fd :: int
  c_shares :: int

definition new_claim :: "int \<Rightarrow> ws_claim" where
  "new_claim fd = \<lparr> c_fd = fd, c_shares = 2 \<rparr>"

definition release :: "ws_claim \<Rightarrow> lock_world \<Rightarrow> lock_world \<times> ws_claim" where
  "release c w =
     (let shares = c_shares c - 1 in
      if shares > 0 then (w, c\<lparr> c_shares := shares \<rparr>)
      else (if c_fd c \<ge> 0 then sys_close (c_fd c) w else w, \<lparr> c_fd = -1, c_shares = shares \<rparr>))"

subsection \<open>One attempt: claim thread, coroutine, kernel thread and drain\<close>

text \<open>
  Where the thread of \<open>claim_workspace\<close> stands. \<open>ClaimReturned resume\<close> is its result; the
  claim object itself is in the attempt, since coroutine, kernel and drain share it.
\<close>

datatype claim_thread =
    ClaimStart | ClaimOpened int | ClaimLocked int | ClaimReturned bool | ClaimRaised exn

text \<open>
  The coroutine of \<open>run_simulation_task\<close> from \<open>_claim_workspace_safely\<close> on. \<open>CoUnwinding s\<close>
  is the \<open>except CancelledError\<close> block after it has read \<open>kernel_started\<close> as \<open>s\<close>;
  \<open>CoFinally\<close> is the \<open>finally\<close> block with a claim.
\<close>

datatype coroutine =
    CoWaiting | CoHolding | CoFinishing | CoUnwinding bool | CoFinally | CoEnded

datatype kernel_thread = KernelNone | KernelQueued | KernelRunning | KernelEnded

record attempt =
  a_thread :: claim_thread
  a_claim :: ws_claim
  a_co :: coroutine
  a_kernel :: kernel_thread
  kernel_started :: bool
  kernel_cancelled :: bool
  draining :: bool

definition new_attempt :: attempt where
  "new_attempt = \<lparr> a_thread = ClaimStart, a_claim = \<lparr> c_fd = -1, c_shares = 0 \<rparr>, a_co = CoWaiting,
     a_kernel = KernelNone, kernel_started = False, kernel_cancelled = False, draining = False \<rparr>"

definition release_share :: "lock_world \<Rightarrow> attempt \<Rightarrow> lock_world \<times> attempt" where
  "release_share w a = (let (w', c) = release (a_claim a) w in (w', a\<lparr> a_claim := c \<rparr>))"

definition still_held :: exn where
  "still_held = TransientInfraError ''simulation workspace is still held by an earlier attempt''"

text \<open>
  The moves. \<open>Open\<close>, \<open>Lock\<close> and \<open>Stamp\<close> are the thread of \<open>claim_workspace\<close>; the argument of
  \<open>Open\<close> and \<open>Stamp\<close> is an exception of the operating system, if there is one. \<open>Receive\<close> is
  the coroutine getting the claim or the exception; \<open>CancelWaiting\<close> is a cancellation that
  wins against it, which leaves the drain task behind; \<open>Drain\<close> is that task. \<open>KernelEnter\<close>
  and \<open>KernelExit\<close> are the work item, \<open>KernelReturned\<close> the coroutine getting its outcome,
  result and exception alike, and \<open>Finish\<close> the end of \<open>complete_job\<close> or of
  \<open>_record_failure\<close>. \<open>Cancel\<close>, \<open>Unwind\<close> and \<open>Finally\<close> are a cancelled coroutine.
\<close>

datatype attempt_action =
    Open "exn option" | Lock | Stamp "exn option"
  | Receive | CancelWaiting | Drain
  | KernelEnter | KernelExit | KernelReturned | Finish
  | Cancel | Unwind | Finally

fun claim_move :: "attempt_action \<Rightarrow> lock_world \<Rightarrow> attempt \<Rightarrow> (lock_world \<times> attempt) option" where
  "claim_move (Open err) w a =
     (if a_thread a \<noteq> ClaimStart then None
      else case err of
        Some e \<Rightarrow> Some (w, a\<lparr> a_thread := ClaimRaised e \<rparr>)
      | None \<Rightarrow> (let (w', fd) = sys_open w in Some (w', a\<lparr> a_thread := ClaimOpened fd \<rparr>)))"
| "claim_move Lock w a =
     (case a_thread a of
        ClaimOpened fd \<Rightarrow>
          (let (w', got) = sys_flock fd w in
           if got then Some (w', a\<lparr> a_thread := ClaimLocked fd \<rparr>)
           else Some (sys_close fd w', a\<lparr> a_thread := ClaimRaised still_held \<rparr>))
      | _ \<Rightarrow> None)"
| "claim_move (Stamp err) w a =
     (case a_thread a of
        ClaimLocked fd \<Rightarrow>
          (case err of
             None \<Rightarrow> Some (w, a\<lparr> a_thread := ClaimReturned (dir_exists w), a_claim := new_claim fd \<rparr>)
           | Some e \<Rightarrow> Some (sys_close fd w, a\<lparr> a_thread := ClaimRaised e \<rparr>))
      | _ \<Rightarrow> None)"
| "claim_move _ w a = None"

fun task_move :: "attempt_action \<Rightarrow> lock_world \<Rightarrow> attempt \<Rightarrow> (lock_world \<times> attempt) option" where
  "task_move Receive w a =
     (if a_co a \<noteq> CoWaiting then None
      else case a_thread a of
        ClaimReturned resume \<Rightarrow> Some (w, a\<lparr> a_co := CoHolding, a_kernel := KernelQueued \<rparr>)
      | ClaimRaised e \<Rightarrow> Some (w, a\<lparr> a_co := CoEnded \<rparr>)
      | _ \<Rightarrow> None)"
| "task_move CancelWaiting w a =
     (if a_co a = CoWaiting then Some (w, a\<lparr> a_co := CoEnded, draining := True \<rparr>) else None)"
| "task_move Drain w a =
     (if \<not> draining a then None
      else case a_thread a of
        ClaimReturned resume \<Rightarrow>
          (let (w1, a1) = release_share w a; (w2, a2) = release_share w1 a1
           in Some (w2, a2\<lparr> draining := False \<rparr>))
      | ClaimRaised e \<Rightarrow> Some (w, a\<lparr> draining := False \<rparr>)
      | _ \<Rightarrow> None)"
| "task_move KernelEnter w a =
     (if a_kernel a \<noteq> KernelQueued then None
      else if kernel_cancelled a then Some (w, a\<lparr> a_kernel := KernelEnded \<rparr>)
      else Some (w\<lparr> dir_exists := True \<rparr>, a\<lparr> a_kernel := KernelRunning, kernel_started := True \<rparr>))"
| "task_move KernelExit w a =
     (if a_kernel a \<noteq> KernelRunning then None
      else let (w', a') = release_share w a in Some (w', a'\<lparr> a_kernel := KernelEnded \<rparr>))"
| "task_move KernelReturned w a =
     (if a_co a = CoHolding \<and> a_kernel a = KernelEnded then Some (w, a\<lparr> a_co := CoFinishing \<rparr>) else None)"
| "task_move Finish w a =
     (if a_co a = CoFinishing then Some (w, a\<lparr> a_co := CoFinally \<rparr>) else None)"
| "task_move Cancel w a =
     (if a_co a = CoHolding \<or> a_co a = CoFinishing
      then Some (w, a\<lparr> kernel_cancelled := True, a_co := CoUnwinding (kernel_started a) \<rparr>) else None)"
| "task_move Unwind w a =
     (case a_co a of
        CoUnwinding started \<Rightarrow>
          (if started then Some (w, a\<lparr> a_co := CoFinally \<rparr>)
           else let (w', a') = release_share w a in Some (w', a'\<lparr> a_co := CoFinally \<rparr>))
      | _ \<Rightarrow> None)"
| "task_move Finally w a =
     (if a_co a = CoFinally
      then let (w', a') = release_share w a in Some (w', a'\<lparr> a_co := CoEnded \<rparr>) else None)"
| "task_move _ w a = None"

subsection \<open>\<open>remove_workspace\<close>\<close>

datatype remover =
    RemoveStart | RemoveOpened int | RemoveLocked int | RemoveEmptied int | RemoveUnlinked int
  | RemoveDone bool

text \<open>\<open>ROpen True\<close> is an \<open>os.open\<close> that raises \<open>OSError\<close>.\<close>

datatype remover_action = ROpen bool | RLock | REmpty | RUnlink | RClose

fun remover_move :: "remover_action \<Rightarrow> lock_world \<Rightarrow> remover \<Rightarrow> (lock_world \<times> remover) option" where
  "remover_move (ROpen fails) w RemoveStart =
     (if fails then Some (w\<lparr> dir_exists := False \<rparr>, RemoveDone True)
      else let (w', fd) = sys_open w in Some (w', RemoveOpened fd))"
| "remover_move RLock w (RemoveOpened fd) =
     (let (w', got) = sys_flock fd w in
      if got then Some (w', RemoveLocked fd) else Some (sys_close fd w', RemoveDone False))"
| "remover_move REmpty w (RemoveLocked fd) = Some (w\<lparr> dir_exists := False \<rparr>, RemoveEmptied fd)"
| "remover_move RUnlink w (RemoveEmptied fd) = Some (w\<lparr> lock_link := None \<rparr>, RemoveUnlinked fd)"
| "remover_move RClose w (RemoveUnlinked fd) = Some (sys_close fd w, RemoveDone True)"
| "remover_move _ w r = None"

subsection \<open>The system\<close>

datatype ws_actor = Attempt attempt | Remover remover
datatype ws_action = ByAttempt attempt_action | ByRemover remover_action

fun attempt_move :: "attempt_action \<Rightarrow> lock_world \<Rightarrow> attempt \<Rightarrow> (lock_world \<times> attempt) option" where
  "attempt_move act w a =
     (case claim_move act w a of Some r \<Rightarrow> Some r | None \<Rightarrow> task_move act w a)"

fun ws_move :: "(ws_action, lock_world, ws_actor) mover" where
  "ws_move (ByAttempt act) w (Attempt a) = map_option (\<lambda>(w', a'). (w', Attempt a')) (attempt_move act w a)"
| "ws_move (ByRemover act) w (Remover r) = map_option (\<lambda>(w', r'). (w', Remover r')) (remover_move act w r)"
| "ws_move _ w x = None"

definition initial_world :: "bool \<Rightarrow> lock_world" where
  "initial_world dir = \<lparr> lock_link = None, next_inode = 0, open_files = (\<lambda>_. None), next_fd = 0,
     flocks = (\<lambda>_. None), dir_exists = dir, bad_close = False \<rparr>"

text \<open>Actors that have not moved yet: any mixture of attempts and removals.\<close>

fun fresh_actor :: "ws_actor \<Rightarrow> bool" where
  "fresh_actor (Attempt a) = (a = new_attempt)"
| "fresh_actor (Remover r) = (r = RemoveStart)"

end
