(* ===== verification/WorkspaceSafety.thy ===== *)
theory WorkspaceSafety
  imports Workspace
begin

text \<open>
  What the workspace claim guarantees in every reachable state of any number of attempts and
  removals: the accounting of shares, that a running kernel holds its lock, that a finished
  attempt has closed its descriptor exactly once, and mutual exclusion; and the two races
  with \<open>remove_workspace\<close> that break exclusion. The invariants come from the interpretation
  \<open>claims\<close> of \<open>owned_resources\<close>.
\<close>

subsection \<open>The invariant of one actor\<close>

definition holds_lock :: "lock_world \<Rightarrow> int \<Rightarrow> bool" where
  "holds_lock w fd \<longleftrightarrow> (\<exists>i. open_files w fd = Some i \<and> flocks w i = Some fd)"

definition world_ok :: "lock_world \<Rightarrow> bool" where
  "world_ok w \<longleftrightarrow> \<not> bad_close w \<and> 0 \<le> next_fd w \<and>
     (\<forall>i fd. flocks w i = Some fd \<longrightarrow> open_files w fd = Some i) \<and>
     (\<forall>fd. open_files w fd \<noteq> None \<longrightarrow> 0 \<le> fd \<and> fd < next_fd w)"

text \<open>The shares the code still has to give back.\<close>

definition kernel_due :: "attempt \<Rightarrow> int" where
  "kernel_due a =
     (case a_kernel a of
        KernelRunning \<Rightarrow> 1
      | KernelQueued \<Rightarrow> if kernel_cancelled a then 0 else 1
      | _ \<Rightarrow> 0)"

definition shares_due :: "attempt \<Rightarrow> int" where
  "shares_due a =
     (case a_co a of
        CoWaiting \<Rightarrow> 2
      | CoEnded \<Rightarrow> if draining a then 2 else kernel_due a
      | CoUnwinding started \<Rightarrow> (if started then 1 else 2) + kernel_due a
      | _ \<Rightarrow> 1 + kernel_due a)"

definition control_ok :: "attempt \<Rightarrow> bool" where
  "control_ok a \<longleftrightarrow>
     (case a_co a of
        CoWaiting \<Rightarrow> a_kernel a = KernelNone \<and> \<not> draining a \<and> \<not> kernel_cancelled a \<and> \<not> kernel_started a
      | CoHolding \<Rightarrow> a_kernel a \<noteq> KernelNone \<and> \<not> draining a \<and> \<not> kernel_cancelled a
      | CoFinishing \<Rightarrow> a_kernel a = KernelEnded \<and> \<not> draining a \<and> \<not> kernel_cancelled a
      | CoUnwinding s \<Rightarrow> a_kernel a \<noteq> KernelNone \<and> \<not> draining a \<and> kernel_cancelled a \<and> s = kernel_started a
      | CoFinally \<Rightarrow> a_kernel a \<noteq> KernelNone \<and> \<not> draining a \<and> (kernel_cancelled a \<or> a_kernel a = KernelEnded)
      | CoEnded \<Rightarrow> (a_kernel a = KernelQueued \<longrightarrow> kernel_cancelled a) \<and>
          (draining a \<longrightarrow> a_kernel a = KernelNone)) \<and>
     (a_kernel a = KernelQueued \<longrightarrow> \<not> kernel_started a) \<and>
     (a_kernel a = KernelRunning \<longrightarrow> kernel_started a) \<and>
     (a_kernel a = KernelEnded \<and> \<not> kernel_started a \<longrightarrow> kernel_cancelled a)"

definition unclaimed :: "attempt \<Rightarrow> bool" where
  "unclaimed a \<longleftrightarrow> a_kernel a = KernelNone \<and> a_co a \<in> {CoWaiting, CoEnded}"

text \<open>While the thread of \<open>claim_workspace\<close> runs, the coroutine or the drain waits for it.\<close>

definition awaited :: "attempt \<Rightarrow> bool" where
  "awaited a \<longleftrightarrow> a_kernel a = KernelNone \<and> (a_co a = CoWaiting \<or> a_co a = CoEnded \<and> draining a)"

lemma awaited_unclaimed: "awaited a \<Longrightarrow> unclaimed a"
  by (auto simp: awaited_def unclaimed_def)

definition attempt_ok :: "lock_world \<Rightarrow> attempt \<Rightarrow> bool" where
  "attempt_ok w a \<longleftrightarrow> control_ok a \<and>
     (case a_thread a of
        ClaimStart \<Rightarrow> awaited a
      | ClaimOpened fd \<Rightarrow> awaited a \<and> open_files w fd \<noteq> None
      | ClaimLocked fd \<Rightarrow> awaited a \<and> holds_lock w fd
      | ClaimReturned _ \<Rightarrow>
          c_shares (a_claim a) = shares_due a \<and>
          (if shares_due a > 0 then holds_lock w (c_fd (a_claim a)) else c_fd (a_claim a) = -1)
      | ClaimRaised _ \<Rightarrow> unclaimed a)"

fun remover_ok :: "lock_world \<Rightarrow> remover \<Rightarrow> bool" where
  "remover_ok w (RemoveOpened fd) = (open_files w fd \<noteq> None)"
| "remover_ok w (RemoveLocked fd) = holds_lock w fd"
| "remover_ok w (RemoveEmptied fd) = holds_lock w fd"
| "remover_ok w (RemoveUnlinked fd) = holds_lock w fd"
| "remover_ok w _ = True"

fun actor_ok :: "lock_world \<Rightarrow> ws_actor \<Rightarrow> bool" where
  "actor_ok w (Attempt a) = (world_ok w \<and> attempt_ok w a)"
| "actor_ok w (Remover r) = (world_ok w \<and> remover_ok w r)"

fun attempt_fds :: "attempt \<Rightarrow> int set" where
  "attempt_fds a =
     (case a_thread a of
        ClaimOpened fd \<Rightarrow> {fd}
      | ClaimLocked fd \<Rightarrow> {fd}
      | ClaimReturned _ \<Rightarrow> if c_fd (a_claim a) \<ge> 0 then {c_fd (a_claim a)} else {}
      | _ \<Rightarrow> {})"

fun remover_fds :: "remover \<Rightarrow> int set" where
  "remover_fds (RemoveOpened fd) = {fd}"
| "remover_fds (RemoveLocked fd) = {fd}"
| "remover_fds (RemoveEmptied fd) = {fd}"
| "remover_fds (RemoveUnlinked fd) = {fd}"
| "remover_fds _ = {}"

fun actor_fds :: "ws_actor \<Rightarrow> int set" where
  "actor_fds (Attempt a) = attempt_fds a"
| "actor_fds (Remover r) = remover_fds r"

subsection \<open>System calls disturb only the caller's descriptor\<close>

definition keeps :: "int set \<Rightarrow> lock_world \<Rightarrow> lock_world \<Rightarrow> bool" where
  "keeps F w w' \<longleftrightarrow> world_ok w' \<and> next_fd w \<le> next_fd w' \<and>
     (\<forall>fd. fd \<notin> F \<longrightarrow> (open_files w fd \<noteq> None \<longrightarrow> open_files w' fd \<noteq> None) \<and>
        (holds_lock w fd \<longrightarrow> holds_lock w' fd))"

lemma keeps_refl [intro]: "world_ok w \<Longrightarrow> keeps F w w"
  by (simp add: keeps_def)

lemma keeps_trans: "keeps F w w' \<Longrightarrow> keeps F w' w'' \<Longrightarrow> keeps F w w''"
  by (auto simp: keeps_def)

lemma keeps_dir [intro]:
  "world_ok w \<Longrightarrow> keeps F w (w\<lparr> dir_exists := b \<rparr>)" "world_ok w \<Longrightarrow> keeps F w (w\<lparr> lock_link := l \<rparr>)"
  by (auto simp: keeps_def world_ok_def holds_lock_def)

lemma world_ok_fd: "world_ok w \<Longrightarrow> open_files w fd = Some i \<Longrightarrow> 0 \<le> fd \<and> fd < next_fd w"
  by (simp add: world_ok_def)

lemma sys_open_keeps:
  assumes "world_ok w" and "sys_open w = (w', fd)"
  shows "keeps F w w'" and "open_files w' fd \<noteq> None" and "fd = next_fd w"
proof -
  have fresh: "open_files w (next_fd w) = None"
    using assms(1) by (force simp: world_ok_def)
  then have locks: "flocks w i \<noteq> Some (next_fd w)" for i
    using assms(1) by (force simp: world_ok_def)
  show "keeps F w w'" using assms fresh locks
    by (force simp: sys_open_def Let_def keeps_def world_ok_def holds_lock_def split: if_splits)
  show "open_files w' fd \<noteq> None" "fd = next_fd w" using assms(2) by (auto simp: sys_open_def Let_def)
qed

lemma sys_flock_keeps:
  assumes "world_ok w" and "open_files w fd \<noteq> None" and "sys_flock fd w = (w', got)"
  shows "keeps F w w'" and "open_files w' = open_files w" and "got \<Longrightarrow> holds_lock w' fd"
  using assms by (auto simp: sys_flock_def keeps_def world_ok_def holds_lock_def split: option.splits if_splits)

lemma sys_close_keeps:
  assumes "world_ok w" and "open_files w fd \<noteq> None" and "fd \<in> F"
  shows "keeps F w (sys_close fd w)"
proof -
  obtain i where i: "open_files w fd = Some i" using assms(2) by blast
  have one: "flocks w j \<noteq> Some fd" if "j \<noteq> i" for j
    using assms(1) that i unfolding world_ok_def by (metis option.inject)
  then have gone: "flocks (sys_close fd w) j \<noteq> Some fd" for j
    using i by (auto simp: sys_close_def)
  have lock: "flocks w j = Some fd'" if "flocks (sys_close fd w) j = Some fd'" for j fd'
    using that i by (auto simp: sys_close_def split: if_splits)
  have "open_files (sys_close fd w) fd' = Some j" if "flocks (sys_close fd w) j = Some fd'" for j fd'
    using lock [OF that] gone [of j] that assms(1) i by (auto simp: world_ok_def sys_close_def)
  then have "world_ok (sys_close fd w)"
    using assms(1) i by (auto simp: world_ok_def) (auto simp: sys_close_def split: if_splits)
  moreover have "holds_lock (sys_close fd w) fd'" if fr: "fd' \<notin> F" "holds_lock w fd'" for fd'
  proof -
    obtain k where k: "open_files w fd' = Some k" "flocks w k = Some fd'" and "fd' \<noteq> fd"
      using fr assms(3) by (auto simp: holds_lock_def)
    then have "\<not> (flocks w i = Some fd \<and> k = i)" by auto
    with k i \<open>fd' \<noteq> fd\<close> show ?thesis by (auto simp: holds_lock_def sys_close_def)
  qed
  moreover have "open_files (sys_close fd w) fd' = open_files w fd'" if "fd' \<notin> F" for fd'
    using that i assms(3) by (auto simp: sys_close_def)
  ultimately show ?thesis using i by (simp add: keeps_def) (simp add: sys_close_def)
qed

lemma holds_lock_open: "holds_lock w fd \<Longrightarrow> open_files w fd \<noteq> None"
  by (auto simp: holds_lock_def)

lemma holds_lock_nonneg: "world_ok w \<Longrightarrow> holds_lock w fd \<Longrightarrow> 0 \<le> fd"
  by (auto simp: holds_lock_def dest: world_ok_fd)

lemma release_keeps:
  assumes "world_ok w" and "holds_lock w (c_fd c)" and "release c w = (w', c')"
  shows "keeps {c_fd c} w w'" and "c_shares c' = c_shares c - 1"
    and "c_shares c' > 0 \<Longrightarrow> c_fd c' = c_fd c \<and> w' = w" and "c_shares c' \<le> 0 \<Longrightarrow> c_fd c' = -1"
proof -
  have nonneg: "0 \<le> c_fd c" by (rule holds_lock_nonneg [OF assms(1,2)])
  show "keeps {c_fd c} w w'" using assms(1,3) sys_close_keeps [OF assms(1) holds_lock_open [OF assms(2)], of "{c_fd c}"]
    by (auto simp: release_def Let_def split: if_splits)
  show "c_shares c' = c_shares c - 1" "c_shares c' > 0 \<Longrightarrow> c_fd c' = c_fd c \<and> w' = w"
    "c_shares c' \<le> 0 \<Longrightarrow> c_fd c' = -1"
    using assms(3) nonneg by (auto simp: release_def Let_def split: if_splits)
qed

subsection \<open>Every move keeps the invariant\<close>

lemma attempt_ok_keeps:
  assumes "keeps F w w'" and "attempt_ok w a" and "attempt_fds a \<inter> F = {}" and "world_ok w"
  shows "attempt_ok w' a"
proof (cases "a_thread a")
  case (ClaimReturned resume)
  have "holds_lock w' (c_fd (a_claim a))" if "holds_lock w (c_fd (a_claim a))"
    using assms(1,3) that ClaimReturned holds_lock_nonneg [OF assms(4) that] by (auto simp: keeps_def)
  with ClaimReturned assms(2) show ?thesis by (auto simp: attempt_ok_def split: if_splits)
qed (use assms in \<open>auto simp: attempt_ok_def keeps_def\<close>)

lemma remover_ok_keeps:
  "keeps F w w' \<Longrightarrow> remover_ok w r \<Longrightarrow> remover_fds r \<inter> F = {} \<Longrightarrow> remover_ok w' r"
  by (cases r) (auto simp: keeps_def)

lemma actor_ok_keeps:
  assumes "keeps F w w'" and "actor_ok w y" and "actor_fds y \<inter> F = {}"
  shows "actor_ok w' y"
proof (cases y)
  case (Attempt a)
  with assms show ?thesis using attempt_ok_keeps [OF assms(1), of a]
    by (simp del: attempt_fds.simps) (simp add: keeps_def)
next
  case (Remover r)
  with assms show ?thesis using remover_ok_keeps [OF assms(1), of r]
    by simp (simp add: keeps_def)
qed

text \<open>A move does \<open>moved w x w' x'\<close>: the mover's invariant, its descriptors and the others.\<close>

definition moved :: "lock_world \<Rightarrow> int set \<Rightarrow> lock_world \<Rightarrow> int set \<Rightarrow> bool" where
  "moved w F w' F' \<longleftrightarrow> keeps F w w' \<and> F' \<subseteq> F \<union> {next_fd w..}"

lemma claim_move_ok:
  assumes "claim_move act w a = Some (w', a')" and "world_ok w" and "attempt_ok w a"
  shows "attempt_ok w' a' \<and> moved w (attempt_fds a) w' (attempt_fds a')"
proof (cases act)
  case (Open err)
  have un: "awaited a" "control_ok a" "a_thread a = ClaimStart"
    using assms Open by (auto simp: attempt_ok_def split: if_splits)
  show ?thesis
  proof (cases err)
    case None
    obtain w1 fd where op: "sys_open w = (w1, fd)" by fastforce
    with assms(1) Open None un have "w' = w1" "a' = a\<lparr> a_thread := ClaimOpened fd \<rparr>" by auto
    with sys_open_keeps [OF assms(2) op] un show ?thesis
      by (auto simp: attempt_ok_def moved_def unclaimed_def awaited_def control_ok_def)
  next
    case (Some e)
    with assms(1,2) Open un show ?thesis
      by (auto simp: attempt_ok_def moved_def unclaimed_def awaited_def control_ok_def)
  qed
next
  case Lock
  then obtain fd where t: "a_thread a = ClaimOpened fd"
    using assms(1) by (auto split: claim_thread.splits)
  obtain w1 got where fl: "sys_flock fd w = (w1, got)" by fastforce
  have un: "awaited a" "control_ok a" and op: "open_files w fd \<noteq> None"
    using assms(3) t by (auto simp: attempt_ok_def)
  note k = sys_flock_keeps [OF assms(2) op fl]
  show ?thesis
  proof (cases got)
    case True
    with assms(1) Lock t fl have "w' = w1" "a' = a\<lparr> a_thread := ClaimLocked fd \<rparr>" by auto
    with k un t True show ?thesis
      by (auto simp: attempt_ok_def moved_def unclaimed_def awaited_def control_ok_def)
  next
    case False
    with assms(1) Lock t fl have r: "w' = sys_close fd w1" "a' = a\<lparr> a_thread := ClaimRaised still_held \<rparr>"
      by auto
    have "keeps {fd} w (sys_close fd w1)"
      using keeps_trans [OF k(1) sys_close_keeps [of w1 fd "{fd}"]] k(1,2) op by (simp add: keeps_def)
    with r un t show ?thesis
      by (auto simp: attempt_ok_def moved_def unclaimed_def awaited_def control_ok_def)
  qed
next
  case (Stamp err)
  then obtain fd where t: "a_thread a = ClaimLocked fd"
    using assms(1) by (auto split: claim_thread.splits)
  have un: "awaited a" "control_ok a" and h: "holds_lock w fd"
    using assms(3) t by (auto simp: attempt_ok_def)
  show ?thesis
  proof (cases err)
    case None
    with assms(1) Stamp t have "w' = w"
        "a' = a\<lparr> a_thread := ClaimReturned (dir_exists w), a_claim := new_claim fd \<rparr>" by auto
    with un h t assms(2) show ?thesis
      by (auto simp: attempt_ok_def moved_def unclaimed_def awaited_def control_ok_def new_claim_def
          shares_due_def kernel_due_def)
  next
    case (Some e)
    with assms(1) Stamp t have "w' = sys_close fd w" "a' = a\<lparr> a_thread := ClaimRaised e \<rparr>" by auto
    with sys_close_keeps [OF assms(2) holds_lock_open [OF h], of "{fd}"] un t show ?thesis
      by (auto simp: attempt_ok_def moved_def unclaimed_def awaited_def control_ok_def)
  qed
qed (use assms(1) in simp_all)

lemma release_share_ok:
  assumes "world_ok w" and "attempt_ok w a" and "a_thread a = ClaimReturned resume"
    and "0 < shares_due a" and "release_share w a = (w', a')"
  shows "keeps (attempt_fds a) w w'" and "c_shares (a_claim a') = shares_due a - 1"
    and "if shares_due a - 1 > 0 then holds_lock w' (c_fd (a_claim a')) \<and> c_fd (a_claim a') = c_fd (a_claim a)
         else c_fd (a_claim a') = -1"
    and "a' = a\<lparr> a_claim := a_claim a' \<rparr>"
proof -
  obtain c where r: "release (a_claim a) w = (w', c)" and a': "a' = a\<lparr> a_claim := c \<rparr>"
    using assms(5) by (auto simp: release_share_def split: prod.splits)
  have sh: "c_shares (a_claim a) = shares_due a" and h: "holds_lock w (c_fd (a_claim a))"
    using assms(2-4) by (auto simp: attempt_ok_def)
  note rk = release_keeps [OF assms(1) h r]
  show "keeps (attempt_fds a) w w'"
    using rk(1) assms(3) holds_lock_nonneg [OF assms(1) h] by simp
  show "c_shares (a_claim a') = shares_due a - 1" using rk(2) a' sh by simp
  show "if shares_due a - 1 > 0 then holds_lock w' (c_fd (a_claim a')) \<and> c_fd (a_claim a') = c_fd (a_claim a)
         else c_fd (a_claim a') = -1"
    using rk a' sh h by auto
  show "a' = a\<lparr> a_claim := a_claim a' \<rparr>" using a' by simp
qed

lemma release_share_moved:
  assumes "world_ok w" and "attempt_ok w a" and "a_thread a = ClaimReturned resume"
    and "0 < shares_due a" and "release_share w a = (w1, a1)"
    and "a_thread a' = a_thread a1" and "a_claim a' = a_claim a1"
    and "control_ok a'" and "shares_due a' = shares_due a - 1"
  shows "attempt_ok w1 a' \<and> moved w (attempt_fds a) w1 (attempt_fds a')"
proof -
  note rk = release_share_ok [OF assms(1-5)]
  have t: "a_thread a' = ClaimReturned resume" using assms(3,6) rk(4) by (metis attempt.ext_inject attempt.surjective attempt.update_convs(2))
  show ?thesis using rk(1-3) assms(7-9) t assms(3)
    by (auto simp: attempt_ok_def moved_def split: if_splits)
qed

lemma claimed_co:
  assumes "attempt_ok w a" and "a_co a \<notin> {CoWaiting, CoEnded}"
  obtains resume where "a_thread a = ClaimReturned resume"
  using assms by (auto simp: attempt_ok_def awaited_def unclaimed_def split: claim_thread.splits)

lemma claimed_kernel:
  assumes "attempt_ok w a" and "a_kernel a \<noteq> KernelNone"
  obtains resume where "a_thread a = ClaimReturned resume"
  using assms by (auto simp: attempt_ok_def awaited_def unclaimed_def split: claim_thread.splits)

lemma attempt_ok_control: "attempt_ok w a \<Longrightarrow> control_ok a"
  by (simp add: attempt_ok_def)

text \<open>A move that releases nothing only has to keep the control state and the shares due.\<close>

lemma silent_move:
  assumes "world_ok w" and "attempt_ok w a" and "a_thread a = ClaimReturned resume"
    and "a_thread a' = a_thread a" and "a_claim a' = a_claim a"
    and "control_ok a'" and "shares_due a' = shares_due a" and "w' = w \<or> w' = w\<lparr> dir_exists := b \<rparr>"
  shows "attempt_ok w' a' \<and> moved w (attempt_fds a) w' (attempt_fds a')"
  using assms by (auto simp: attempt_ok_def moved_def holds_lock_def)

lemma drain_ok:
  assumes "world_ok w" and "attempt_ok w a" and "a_thread a = ClaimReturned resume" and "draining a"
    and "release_share w a = (w1, a1)" and "release_share w1 a1 = (w2, a2)"
  shows "attempt_ok w2 (a2\<lparr> draining := False \<rparr>) \<and> moved w (attempt_fds a) w2 (attempt_fds (a2\<lparr> draining := False \<rparr>))"
proof -
  have ctl: "a_co a = CoEnded" "a_kernel a = KernelNone" "\<not> kernel_started a \<or> kernel_started a"
    using attempt_ok_control [OF assms(2)] assms(4) by (auto simp: control_ok_def split: coroutine.splits)
  then have due: "shares_due a = 2" using assms(4) by (simp add: shares_due_def)
  then have c: "c_shares (a_claim a) = 2" and h: "holds_lock w (c_fd (a_claim a))"
    using assms(2,3) by (auto simp: attempt_ok_def)
  have nn: "0 \<le> c_fd (a_claim a)" by (rule holds_lock_nonneg [OF assms(1) h])
  have w1: "w1 = w" and a1: "a1 = a\<lparr> a_claim := (a_claim a)\<lparr> c_shares := 1 \<rparr> \<rparr>"
    using assms(5) c by (auto simp: release_share_def release_def)
  have w2: "w2 = sys_close (c_fd (a_claim a)) w"
    and a2: "a2 = a1\<lparr> a_claim := \<lparr> c_fd = -1, c_shares = 0 \<rparr> \<rparr>"
    using assms(6) w1 a1 nn by (auto simp: release_share_def release_def)
  have "keeps {c_fd (a_claim a)} w w2"
    unfolding w2 by (rule sys_close_keeps [OF assms(1) holds_lock_open [OF h]]) simp
  then show ?thesis using a1 a2 ctl assms(2,3) nn
    by (auto simp: attempt_ok_def moved_def shares_due_def kernel_due_def control_ok_def)
qed

lemma release_share_fields:
  assumes "release_share w a = (w1, a1)"
  shows "a_co a1 = a_co a" "a_kernel a1 = a_kernel a" "kernel_started a1 = kernel_started a"
    "kernel_cancelled a1 = kernel_cancelled a" "draining a1 = draining a"
  using assms by (auto simp: release_share_def split: prod.splits)

lemma receive_ok:
  assumes "task_move Receive w a = Some (w', a')" and "world_ok w" and "attempt_ok w a"
  shows "attempt_ok w' a' \<and> moved w (attempt_fds a) w' (attempt_fds a')"
proof -
  have co: "a_co a = CoWaiting" using assms(1) by (auto split: if_splits)
  note ctl = attempt_ok_control [OF assms(3)]
  show ?thesis
  proof (cases "a_thread a")
    case (ClaimReturned resume)
    with assms(1) co have "w' = w" "a' = a\<lparr> a_co := CoHolding, a_kernel := KernelQueued \<rparr>" by auto
    with ctl co show ?thesis
      by (intro silent_move [OF assms(2,3) ClaimReturned]) (auto simp: control_ok_def shares_due_def kernel_due_def)
  next
    case (ClaimRaised e)
    with assms(1) co have a': "w' = w" "a' = a\<lparr> a_co := CoEnded \<rparr>" by auto
    show ?thesis unfolding a' using assms(2,3) ClaimRaised ctl co
      by (auto simp: attempt_ok_def moved_def unclaimed_def control_ok_def)
  qed (use assms(1) co in auto)
qed

lemma cancel_waiting_ok:
  assumes "task_move CancelWaiting w a = Some (w', a')" and "world_ok w" and "attempt_ok w a"
  shows "attempt_ok w' a' \<and> moved w (attempt_fds a) w' (attempt_fds a')"
proof -
  have k: "a_co a = CoWaiting" "w' = w" "a' = a\<lparr> a_co := CoEnded, draining := True \<rparr>"
    using assms(1) by (auto split: if_splits)
  have ctl: "control_ok a'" and due: "shares_due a' = shares_due a"
    using k attempt_ok_control [OF assms(3)] by (auto simp: control_ok_def shares_due_def)
  show ?thesis
    by (cases "a_thread a")
       (use k ctl due assms(2,3) in \<open>auto simp: attempt_ok_def moved_def unclaimed_def awaited_def\<close>)
qed

lemma drain_step_ok:
  assumes "task_move Drain w a = Some (w', a')" and "world_ok w" and "attempt_ok w a"
  shows "attempt_ok w' a' \<and> moved w (attempt_fds a) w' (attempt_fds a')"
proof -
  have dr: "draining a" using assms(1) by (auto split: if_splits)
  note ctl = attempt_ok_control [OF assms(3)]
  show ?thesis
  proof (cases "a_thread a")
    case (ClaimReturned resume)
    then obtain w1 a1 a2 where r: "release_share w a = (w1, a1)" "release_share w1 a1 = (w', a2)"
        and a': "a' = a2\<lparr> draining := False \<rparr>"
      using assms(1) dr by (auto split: prod.splits)
    show ?thesis unfolding a' by (rule drain_ok [OF assms(2,3) ClaimReturned dr r])
  next
    case (ClaimRaised e)
    with assms(1) dr have a': "w' = w" "a' = a\<lparr> draining := False \<rparr>" by auto
    show ?thesis unfolding a' using assms(2,3) ClaimRaised ctl
      by (auto simp: attempt_ok_def moved_def unclaimed_def control_ok_def)
  qed (use assms(1) dr in auto)
qed

lemma kernel_enter_ok:
  assumes "task_move KernelEnter w a = Some (w', a')" and "world_ok w" and "attempt_ok w a"
  shows "attempt_ok w' a' \<and> moved w (attempt_fds a) w' (attempt_fds a')"
proof -
  have k: "a_kernel a = KernelQueued" using assms(1) by (auto split: if_splits)
  then obtain resume where t: "a_thread a = ClaimReturned resume"
    using claimed_kernel [OF assms(3)] by auto
  note ctl = attempt_ok_control [OF assms(3)]
  show ?thesis
  proof (cases "kernel_cancelled a")
    case True
    with assms(1) k have a': "w' = w" "a' = a\<lparr> a_kernel := KernelEnded \<rparr>" by auto
    have "control_ok a'" and "shares_due a' = shares_due a"
      unfolding a' using k True ctl
      by (auto simp: control_ok_def shares_due_def kernel_due_def split: coroutine.splits)
    with silent_move [OF assms(2,3) t, of a' w'] show ?thesis by (simp add: a')
  next
    case False
    with assms(1) k have a': "w' = w\<lparr> dir_exists := True \<rparr>"
        "a' = a\<lparr> a_kernel := KernelRunning, kernel_started := True \<rparr>" by auto
    have "control_ok a'" and "shares_due a' = shares_due a"
      unfolding a' using k False ctl
      by (auto simp: control_ok_def shares_due_def kernel_due_def split: coroutine.splits)
    with silent_move [OF assms(2,3) t, of a' w' True] show ?thesis by (simp add: a')
  qed
qed

lemma kernel_exit_ok:
  assumes "task_move KernelExit w a = Some (w', a')" and "world_ok w" and "attempt_ok w a"
  shows "attempt_ok w' a' \<and> moved w (attempt_fds a) w' (attempt_fds a')"
proof -
  have k: "a_kernel a = KernelRunning" using assms(1) by (auto split: if_splits)
  then obtain resume where t: "a_thread a = ClaimReturned resume"
    using claimed_kernel [OF assms(3)] by auto
  obtain a1 where r: "release_share w a = (w', a1)" and a': "a' = a1\<lparr> a_kernel := KernelEnded \<rparr>"
    using assms(1) k by (auto split: prod.splits)
  have due: "0 < shares_due a" and ctl: "control_ok a"
    using k attempt_ok_control [OF assms(3)]
    by (auto simp: shares_due_def kernel_due_def control_ok_def split: coroutine.splits)
  from a' release_share_fields [OF r] have "a_co a' = a_co a" "a_kernel a' = KernelEnded" "kernel_started a' = kernel_started a"
      "kernel_cancelled a' = kernel_cancelled a" "draining a' = draining a"
    by simp_all
  then show ?thesis using k ctl a'
    by (intro release_share_moved [OF assms(2,3) t due r])
       (auto simp: control_ok_def shares_due_def kernel_due_def split: coroutine.splits)
qed

lemma kernel_returned_ok:
  assumes "task_move KernelReturned w a = Some (w', a')" and "world_ok w" and "attempt_ok w a"
  shows "attempt_ok w' a' \<and> moved w (attempt_fds a) w' (attempt_fds a')"
proof -
  have k: "a_co a = CoHolding" "a_kernel a = KernelEnded" "w' = w" "a' = a\<lparr> a_co := CoFinishing \<rparr>"
    using assms(1) by (auto split: if_splits)
  then obtain resume where t: "a_thread a = ClaimReturned resume"
    using claimed_co [OF assms(3)] by auto
  show ?thesis using k attempt_ok_control [OF assms(3)]
    by (intro silent_move [OF assms(2,3) t]) (auto simp: control_ok_def shares_due_def kernel_due_def)
qed

lemma finish_ok:
  assumes "task_move Finish w a = Some (w', a')" and "world_ok w" and "attempt_ok w a"
  shows "attempt_ok w' a' \<and> moved w (attempt_fds a) w' (attempt_fds a')"
proof -
  have k: "a_co a = CoFinishing" "w' = w" "a' = a\<lparr> a_co := CoFinally \<rparr>"
    using assms(1) by (auto split: if_splits)
  then obtain resume where t: "a_thread a = ClaimReturned resume"
    using claimed_co [OF assms(3)] by auto
  show ?thesis using k attempt_ok_control [OF assms(3)]
    by (intro silent_move [OF assms(2,3) t]) (auto simp: control_ok_def shares_due_def kernel_due_def)
qed

lemma cancel_ok:
  assumes "task_move Cancel w a = Some (w', a')" and "world_ok w" and "attempt_ok w a"
  shows "attempt_ok w' a' \<and> moved w (attempt_fds a) w' (attempt_fds a')"
proof -
  have k: "a_co a = CoHolding \<or> a_co a = CoFinishing" "w' = w"
      "a' = a\<lparr> kernel_cancelled := True, a_co := CoUnwinding (kernel_started a) \<rparr>"
    using assms(1) by (auto split: if_splits)
  then obtain resume where t: "a_thread a = ClaimReturned resume"
    using claimed_co [OF assms(3)] by fastforce
  show ?thesis using k attempt_ok_control [OF assms(3)]
    by (intro silent_move [OF assms(2,3) t])
       (auto simp: control_ok_def shares_due_def kernel_due_def split: kernel_thread.splits)
qed

lemma unwind_ok:
  assumes "task_move Unwind w a = Some (w', a')" and "world_ok w" and "attempt_ok w a"
  shows "attempt_ok w' a' \<and> moved w (attempt_fds a) w' (attempt_fds a')"
proof -
  obtain s where k: "a_co a = CoUnwinding s" using assms(1) by (auto split: coroutine.splits)
  then obtain resume where t: "a_thread a = ClaimReturned resume"
    using claimed_co [OF assms(3)] by auto
  note ctl = attempt_ok_control [OF assms(3)]
  show ?thesis
  proof (cases s)
    case True
    with assms(1) k have "w' = w" "a' = a\<lparr> a_co := CoFinally \<rparr>" by auto
    with True k ctl show ?thesis
      by (intro silent_move [OF assms(2,3) t]) (auto simp: control_ok_def shares_due_def kernel_due_def)
  next
    case False
    obtain a1 where r: "release_share w a = (w', a1)" and a': "a' = a1\<lparr> a_co := CoFinally \<rparr>"
      using assms(1) k False by (auto split: prod.splits)
    have due: "0 < shares_due a" using k by (auto simp: shares_due_def kernel_due_def split: kernel_thread.splits)
    from a' release_share_fields [OF r] have "a_co a' = CoFinally" "a_kernel a' = a_kernel a" "kernel_started a' = kernel_started a"
        "kernel_cancelled a' = kernel_cancelled a" "draining a' = draining a"
      by simp_all
    then show ?thesis using k ctl a' False
      by (intro release_share_moved [OF assms(2,3) t due r])
         (auto simp: control_ok_def shares_due_def kernel_due_def)
  qed
qed

lemma finally_ok:
  assumes "task_move Finally w a = Some (w', a')" and "world_ok w" and "attempt_ok w a"
  shows "attempt_ok w' a' \<and> moved w (attempt_fds a) w' (attempt_fds a')"
proof -
  have k: "a_co a = CoFinally" using assms(1) by (auto split: if_splits)
  then obtain resume where t: "a_thread a = ClaimReturned resume"
    using claimed_co [OF assms(3)] by auto
  obtain a1 where r: "release_share w a = (w', a1)" and a': "a' = a1\<lparr> a_co := CoEnded \<rparr>"
    using assms(1) k by (auto split: prod.splits)
  have due: "0 < shares_due a" and ctl: "control_ok a"
    using k attempt_ok_control [OF assms(3)] by (auto simp: shares_due_def kernel_due_def split: kernel_thread.splits)
  from a' release_share_fields [OF r] have "a_co a' = CoEnded" "a_kernel a' = a_kernel a" "kernel_started a' = kernel_started a"
      "kernel_cancelled a' = kernel_cancelled a" "draining a' = draining a"
    by simp_all
  then show ?thesis using k ctl a'
    by (intro release_share_moved [OF assms(2,3) t due r])
       (auto simp: control_ok_def shares_due_def kernel_due_def)
qed

lemma task_move_ok:
  assumes "task_move act w a = Some (w', a')" and "world_ok w" and "attempt_ok w a"
  shows "attempt_ok w' a' \<and> moved w (attempt_fds a) w' (attempt_fds a')"
proof (cases act)
  case Receive
  show ?thesis by (rule receive_ok [OF assms [unfolded Receive]])
next
  case CancelWaiting
  show ?thesis by (rule cancel_waiting_ok [OF assms [unfolded CancelWaiting]])
next
  case Drain
  show ?thesis by (rule drain_step_ok [OF assms [unfolded Drain]])
next
  case KernelEnter
  show ?thesis by (rule kernel_enter_ok [OF assms [unfolded KernelEnter]])
next
  case KernelExit
  show ?thesis by (rule kernel_exit_ok [OF assms [unfolded KernelExit]])
next
  case KernelReturned
  show ?thesis by (rule kernel_returned_ok [OF assms [unfolded KernelReturned]])
next
  case Finish
  show ?thesis by (rule finish_ok [OF assms [unfolded Finish]])
next
  case Cancel
  show ?thesis by (rule cancel_ok [OF assms [unfolded Cancel]])
next
  case Unwind
  show ?thesis by (rule unwind_ok [OF assms [unfolded Unwind]])
next
  case Finally
  show ?thesis by (rule finally_ok [OF assms [unfolded Finally]])
qed (use assms(1) in simp_all)

lemma attempt_move_ok:
  assumes "attempt_move act w a = Some (w', a')" and "world_ok w" and "attempt_ok w a"
  shows "attempt_ok w' a' \<and> moved w (attempt_fds a) w' (attempt_fds a')"
proof (cases "claim_move act w a")
  case None
  with assms show ?thesis using task_move_ok [of act w a w' a'] by simp
next
  case (Some r)
  with assms show ?thesis using claim_move_ok [of act w a w' a'] by simp
qed

lemma remover_move_ok:
  assumes "remover_move act w r = Some (w', r')" and "world_ok w" and "remover_ok w r"
  shows "remover_ok w' r' \<and> moved w (remover_fds r) w' (remover_fds r')"
proof (cases r)
  case RemoveStart
  then obtain fails where act: "act = ROpen fails" using assms(1) by (cases act) auto
  obtain w1 fd where op: "sys_open w = (w1, fd)" by fastforce
  show ?thesis using assms RemoveStart act op sys_open_keeps [OF assms(2) op]
    by (auto simp: moved_def split: if_splits)
next
  case (RemoveOpened fd)
  then have act: "act = RLock" using assms(1) by (cases act) auto
  obtain w1 got where fl: "sys_flock fd w = (w1, got)" by fastforce
  have op: "open_files w fd \<noteq> None" using assms(3) RemoveOpened by simp
  note k = sys_flock_keeps [OF assms(2) op fl]
  have w1: "world_ok w1" "open_files w1 fd \<noteq> None" using k(1) [of "{}"] k(2) op by (auto simp: keeps_def)
  have "keeps {fd} w (sys_close fd w1)"
    using keeps_trans [OF k(1) sys_close_keeps [OF w1, of "{fd}"]] by simp
  with k(1,3) assms(1) act RemoveOpened fl show ?thesis by (auto simp: moved_def split: if_splits)
next
  case (RemoveLocked fd)
  then have act: "act = REmpty" using assms(1) by (cases act) auto
  with assms RemoveLocked show ?thesis by (auto simp: moved_def holds_lock_def)
next
  case (RemoveEmptied fd)
  then have act: "act = RUnlink" using assms(1) by (cases act) auto
  with assms RemoveEmptied show ?thesis by (auto simp: moved_def holds_lock_def)
next
  case (RemoveUnlinked fd)
  then have act: "act = RClose" using assms(1) by (cases act) auto
  have "holds_lock w fd" using assms(3) RemoveUnlinked by simp
  with sys_close_keeps [OF assms(2) holds_lock_open, of fd "{fd}"] assms(1) act RemoveUnlinked
  show ?thesis by (auto simp: moved_def)
next
  case (RemoveDone b)
  with assms(1) show ?thesis by (cases act) auto
qed

lemma ws_move_ok:
  assumes "ws_move act w x = Some (w', x')" and "actor_ok w x"
  shows "actor_ok w' x' \<and> moved w (actor_fds x) w' (actor_fds x')"
proof (cases x)
  case (Attempt a)
  then obtain b a' where act: "act = ByAttempt b" and mv: "attempt_move b w a = Some (w', a')"
      and x': "x' = Attempt a'"
    using assms(1) by (cases act) auto
  have "attempt_ok w' a' \<and> moved w (attempt_fds a) w' (attempt_fds a')"
    using attempt_move_ok [OF mv] assms(2) Attempt by simp
  then show ?thesis using Attempt x' by (simp add: moved_def keeps_def)
next
  case (Remover r)
  then obtain b r' where act: "act = ByRemover b" and mv: "remover_move b w r = Some (w', r')"
      and x': "x' = Remover r'"
    using assms(1) by (cases act) auto
  have "remover_ok w' r' \<and> moved w (remover_fds r) w' (remover_fds r')"
    using remover_move_ok [OF mv] assms(2) Remover by simp
  then show ?thesis using Remover x' by (simp add: moved_def keeps_def)
qed

lemma actor_fds_bound:
  assumes "actor_ok w x"
  shows "actor_fds x \<subseteq> {..<next_fd w}"
proof -
  have *: "fd < next_fd w" if "world_ok w" "open_files w fd \<noteq> None" for fd
    using that by (auto simp: world_ok_def)
  show ?thesis
  proof (cases x)
    case (Attempt a)
    then show ?thesis using assms *
      by (cases "a_thread a") (auto simp: attempt_ok_def holds_lock_def split: if_splits)
  next
    case (Remover r)
    then show ?thesis using assms * by (cases r) (auto simp: holds_lock_def)
  qed
qed

interpretation claims: owned_resources ws_move actor_ok actor_fds next_fd
proof unfold_locales
  fix act :: ws_action and w w' :: lock_world and x x' y :: ws_actor
  show "actor_ok w x \<Longrightarrow> actor_fds x \<subseteq> {..<next_fd w}" by (rule actor_fds_bound)
  show "ws_move act w x = Some (w', x') \<Longrightarrow> actor_ok w x \<Longrightarrow> actor_ok w' x'"
    using ws_move_ok by blast
  show "ws_move act w x = Some (w', x') \<Longrightarrow> actor_ok w x \<Longrightarrow> actor_fds x' \<subseteq> actor_fds x \<union> {next_fd w..}"
    using ws_move_ok [of act w x w' x'] by (simp add: moved_def)
  show "ws_move act w x = Some (w', x') \<Longrightarrow> actor_ok w x \<Longrightarrow> actor_ok w y \<Longrightarrow>
      actor_fds x \<inter> actor_fds y = {} \<Longrightarrow> actor_ok w' y"
    using ws_move_ok [of act w x w' x'] actor_ok_keeps [of "actor_fds x" w w' y]
    by (simp add: moved_def Int_commute)
qed

subsection \<open>Reachable systems\<close>

definition ws_reach :: "bool \<Rightarrow> (nat \<Rightarrow> ws_actor) \<Rightarrow> lock_world \<Rightarrow> (nat \<Rightarrow> ws_actor) \<Rightarrow> bool" where
  "ws_reach dir start w xs \<longleftrightarrow>
     (\<forall>p. fresh_actor (start p)) \<and> actor_reach ws_move (initial_world dir, start) (w, xs)"

lemma fresh_actor_ok: "fresh_actor x \<Longrightarrow> actor_ok (initial_world dir) x \<and> actor_fds x = {}"
  by (cases x) (auto simp: world_ok_def initial_world_def attempt_ok_def awaited_def control_ok_def new_attempt_def)

lemma ws_reach_separated:
  assumes "ws_reach dir start w xs"
  shows "actor_ok w (xs p)" and "p \<noteq> q \<Longrightarrow> actor_fds (xs p) \<inter> actor_fds (xs q) = {}"
proof -
  have "\<forall>p. actor_ok (initial_world dir) (start p) \<and> actor_fds (start p) = {}"
    using assms fresh_actor_ok by (simp add: ws_reach_def)
  then have sep: "claims.separated (initial_world dir, start)" by simp
  have "actor_reach ws_move (initial_world dir, start) (w, xs)" using assms by (simp add: ws_reach_def)
  from claims.separated_reach [OF this sep] have "claims.separated (w, xs)" .
  then show "actor_ok w (xs p)" "p \<noteq> q \<Longrightarrow> actor_fds (xs p) \<inter> actor_fds (xs q) = {}" by auto
qed

lemma running_attempt:
  assumes "world_ok w" and "attempt_ok w a" and "a_kernel a = KernelRunning"
  shows "holds_lock w (c_fd (a_claim a))" and "attempt_fds a = {c_fd (a_claim a)}"
proof -
  obtain resume where t: "a_thread a = ClaimReturned resume"
    using claimed_kernel [OF assms(2)] assms(3) by auto
  have "0 < shares_due a"
    using assms(3) attempt_ok_control [OF assms(2)]
    by (auto simp: shares_due_def kernel_due_def control_ok_def split: coroutine.splits)
  with assms(2) t show h: "holds_lock w (c_fd (a_claim a))" by (auto simp: attempt_ok_def)
  with holds_lock_nonneg [OF assms(1) h] t show "attempt_fds a = {c_fd (a_claim a)}" by simp
qed

text \<open>C7: While the kernel of an attempt runs, the attempt's descriptor is open and holds the lock
  of its lock file, whatever the coroutine has been through (a cancelled coroutine does not
  give the lock away), and every \<open>flock\<close> of any other descriptor of the same file is refused.\<close>

theorem running_kernel_holds_lock:
  assumes "ws_reach dir start w xs" and "xs p = Attempt a" and "a_kernel a = KernelRunning"
  shows "holds_lock w (c_fd (a_claim a)) \<and>
    (\<forall>fd. open_files w fd = open_files w (c_fd (a_claim a)) \<and> fd \<noteq> c_fd (a_claim a) \<longrightarrow>
       sys_flock fd w = (w, False))"
proof -
  have ok: "world_ok w" "attempt_ok w a" using ws_reach_separated(1) [OF assms(1), of p] assms(2) by auto
  have "holds_lock w (c_fd (a_claim a))" by (rule running_attempt(1) [OF ok assms(3)])
  then show ?thesis by (auto simp: holds_lock_def sys_flock_def)
qed

subsection \<open>Nothing is leaked\<close>

text \<open>Every open descriptor belongs to an actor that has not given it back.\<close>

definition covered :: "lock_world \<Rightarrow> int set \<Rightarrow> lock_world \<Rightarrow> int set \<Rightarrow> bool" where
  "covered w F w' F' \<longleftrightarrow>
     (\<forall>fd. open_files w' fd \<noteq> None \<and> fd \<notin> F' \<longrightarrow> open_files w fd \<noteq> None \<and> fd \<notin> F)"

lemma sys_close_open_files: "open_files (sys_close fd w) = (open_files w)(fd := None)"
  by (auto simp: sys_close_def split: option.splits)

lemma sys_flock_open_files: "open_files (fst (sys_flock fd w)) = open_files w"
  by (auto simp: sys_flock_def split: option.splits)

lemma sys_open_open_files:
  "sys_open w = (w', fd) \<Longrightarrow> fd' \<noteq> fd \<Longrightarrow> open_files w' fd' = open_files w fd'"
  by (auto simp: sys_open_def Let_def split: if_splits)

lemma attempt_fds_cong:
  "a_thread a = a_thread b \<Longrightarrow> a_claim a = a_claim b \<Longrightarrow> attempt_fds a = attempt_fds b"
  by (simp only: attempt_fds.simps)

lemma claim_move_covered:
  assumes "claim_move act w a = Some (w', a')" and "world_ok w" and "attempt_ok w a"
  shows "covered w (attempt_fds a) w' (attempt_fds a')"
proof (cases act)
  case (Open err)
  obtain w1 fd where op: "sys_open w = (w1, fd)" by fastforce
  show ?thesis using assms Open op sys_open_open_files [OF op]
    by (auto simp: covered_def split: option.splits if_splits)
next
  case Lock
  then obtain fd where t: "a_thread a = ClaimOpened fd" using assms by (auto split: claim_thread.splits)
  obtain w1 got where fl: "sys_flock fd w = (w1, got)" by fastforce
  show ?thesis using assms Lock t fl sys_flock_open_files [of fd w]
    by (auto simp: covered_def sys_close_open_files split: if_splits)
next
  case (Stamp err)
  then obtain fd where t: "a_thread a = ClaimLocked fd" using assms by (auto split: claim_thread.splits)
  then have "0 \<le> fd" using assms(2,3) by (auto simp: attempt_ok_def intro: holds_lock_nonneg)
  then show ?thesis using assms(1) Stamp t
    by (auto simp: covered_def sys_close_open_files new_claim_def split: option.splits if_splits)
qed (use assms in simp_all)

lemma release_share_covered:
  assumes "release_share w a = (w', a')" and "a_thread a = ClaimReturned resume"
  shows "covered w (attempt_fds a) w' (attempt_fds a')" and "a_thread a' = a_thread a"
  using assms by (auto simp: release_share_def release_def covered_def sys_close_open_files Let_def
      split: if_splits)

lemma covered_trans: "covered w F w' F' \<Longrightarrow> covered w' F' w'' F'' \<Longrightarrow> covered w F w'' F''"
  by (auto simp: covered_def)

lemma covered_same: "open_files w' = open_files w \<Longrightarrow> F = F' \<Longrightarrow> covered w F w' F'"
  by (auto simp: covered_def)

text \<open>From here on descriptors are compared as sets, not case by case.\<close>

declare attempt_fds.simps [simp del]

lemma task_move_covered:
  assumes "task_move act w a = Some (w', a')" and "attempt_ok w a"
  shows "covered w (attempt_fds a) w' (attempt_fds a')"
proof -
  have share: "covered w (attempt_fds a) w' (attempt_fds a')"
    if r: "release_share w a = (w', a1)" and t: "a_thread a = ClaimReturned resume"
      and a': "a_thread a' = a_thread a1" "a_claim a' = a_claim a1" for a1 resume
  proof -
    have "attempt_fds a' = attempt_fds a1" by (rule attempt_fds_cong [OF a'])
    with release_share_covered(1) [OF r t] show ?thesis by simp
  qed
  have quiet: "covered w (attempt_fds a) w' (attempt_fds a')"
    if "open_files w' = open_files w" "a_thread a' = a_thread a" "a_claim a' = a_claim a"
    using that by (intro covered_same attempt_fds_cong) simp_all
  show ?thesis
  proof (cases act)
    case Drain
    then have dr: "draining a" using assms(1) by (auto split: if_splits)
    show ?thesis
    proof (cases "a_thread a")
      case (ClaimReturned resume)
      then obtain w1 a1 a2 where r: "release_share w a = (w1, a1)" "release_share w1 a1 = (w', a2)"
          and a': "a' = a2\<lparr> draining := False \<rparr>"
        using assms(1) Drain dr by (auto split: prod.splits)
      have t1: "a_thread a1 = ClaimReturned resume"
        using release_share_covered(2) [OF r(1) ClaimReturned] ClaimReturned by simp
      have "attempt_fds a' = attempt_fds a2" by (rule attempt_fds_cong) (simp_all add: a')
      with covered_trans [OF release_share_covered(1) [OF r(1) ClaimReturned]
          release_share_covered(1) [OF r(2) t1]] show ?thesis by simp
    qed (use quiet assms(1) Drain dr in auto)
  next
    case KernelExit
    then have k: "a_kernel a = KernelRunning" using assms(1) by (auto split: if_splits)
    then obtain resume where t: "a_thread a = ClaimReturned resume"
      using claimed_kernel [OF assms(2)] by auto
    then obtain a1 where "release_share w a = (w', a1)" "a' = a1\<lparr> a_kernel := KernelEnded \<rparr>"
      using assms(1) KernelExit k by (auto split: prod.splits)
    then show ?thesis by (intro share [OF _ t]) simp_all
  next
    case Unwind
    then obtain s where k: "a_co a = CoUnwinding s" using assms(1) by (auto split: coroutine.splits)
    then obtain resume where t: "a_thread a = ClaimReturned resume"
      using claimed_co [OF assms(2)] by auto
    show ?thesis
    proof (cases s)
      case True
      with assms(1) Unwind k show ?thesis by (intro quiet) auto
    next
      case False
      with assms(1) Unwind k obtain a1 where "release_share w a = (w', a1)" "a' = a1\<lparr> a_co := CoFinally \<rparr>"
        by (auto split: prod.splits)
      then show ?thesis by (intro share [OF _ t]) simp_all
    qed
  next
    case Finally
    then have k: "a_co a = CoFinally" using assms(1) by (auto split: if_splits)
    then obtain resume where t: "a_thread a = ClaimReturned resume"
      using claimed_co [OF assms(2)] by auto
    obtain a1 where "release_share w a = (w', a1)" "a' = a1\<lparr> a_co := CoEnded \<rparr>"
      using assms(1) Finally k by (auto split: prod.splits)
    then show ?thesis by (intro share [OF _ t]) simp_all
  qed (use assms(1) in \<open>auto intro!: covered_same attempt_fds_cong split: if_splits claim_thread.splits\<close>)
qed

lemma remover_move_covered:
  assumes "remover_move act w r = Some (w', r')"
  shows "covered w (remover_fds r) w' (remover_fds r')"
proof (cases r)
  case RemoveStart
  obtain w1 fd where op: "sys_open w = (w1, fd)" by fastforce
  show ?thesis using assms RemoveStart op sys_open_open_files [OF op]
    by (cases act) (auto simp: covered_def split: if_splits)
next
  case (RemoveOpened fd)
  obtain w1 got where fl: "sys_flock fd w = (w1, got)" by fastforce
  show ?thesis using assms RemoveOpened fl sys_flock_open_files [of fd w]
    by (cases act) (auto simp: covered_def sys_close_open_files split: if_splits)
next
  case (RemoveLocked fd)
  with assms have "act = REmpty" by (cases act) simp_all
  with assms RemoveLocked show ?thesis by (auto simp: covered_def)
next
  case (RemoveEmptied fd)
  with assms have "act = RUnlink" by (cases act) simp_all
  with assms RemoveEmptied show ?thesis by (auto simp: covered_def)
next
  case (RemoveUnlinked fd)
  with assms have "act = RClose" by (cases act) simp_all
  with assms RemoveUnlinked show ?thesis
    by (auto simp: covered_def sys_close_open_files split: if_splits)
next
  case (RemoveDone b)
  with assms show ?thesis by (cases act) simp_all
qed

lemma ws_move_covered:
  assumes "ws_move act w x = Some (w', x')" and "actor_ok w x"
  shows "covered w (actor_fds x) w' (actor_fds x')"
proof (cases x)
  case (Attempt a)
  then obtain b a' where mv: "attempt_move b w a = Some (w', a')" and x': "x' = Attempt a'"
    using assms(1) by (cases act) auto
  show ?thesis
  proof (cases "claim_move b w a")
    case None
    with mv Attempt x' assms(2) task_move_covered [of b w a w' a'] show ?thesis by simp
  next
    case (Some r)
    with mv Attempt x' assms(2) claim_move_covered [of b w a w' a'] show ?thesis by simp
  qed
next
  case (Remover r)
  with assms obtain b r' where "remover_move b w r = Some (w', r')" and "x' = Remover r'"
    by (cases act) auto
  with Remover remover_move_covered show ?thesis by simp
qed

definition all_covered :: "lock_world \<times> (nat \<Rightarrow> ws_actor) \<Rightarrow> bool" where
  "all_covered s \<longleftrightarrow> (\<forall>fd. open_files (fst s) fd \<noteq> None \<longrightarrow> (\<exists>p. fd \<in> actor_fds (snd s p)))"

lemma all_covered_reach:
  assumes "actor_reach ws_move s t" and "claims.separated s" and "all_covered s"
  shows "all_covered t"
  using assms
proof (induction rule: actor_reach.induct)
  case (step s t u)
  have sep: "claims.separated t" by (rule claims.separated_reach [OF step.hyps(1) step.prems(1)])
  from step.hyps(2) show ?case
  proof (cases rule: actor_step.cases)
    case (step a w xs p w' x')
    then have cov: "covered w (actor_fds (xs p)) w' (actor_fds x')"
      using ws_move_covered [of a w "xs p" w' x'] sep by simp
    have all: "all_covered (w, xs)" using step.IH step.prems step(1) by simp
    show ?thesis unfolding all_covered_def
    proof (intro allI impI)
      fix fd
      assume op: "open_files (fst u) fd \<noteq> None"
      show "\<exists>q. fd \<in> actor_fds (snd u q)"
      proof (cases "fd \<in> actor_fds x'")
        case True
        then show ?thesis using step(2) by auto
      next
        case False
        then have "open_files w fd \<noteq> None" "fd \<notin> actor_fds (xs p)"
          using cov op step(2) by (auto simp: covered_def)
        moreover obtain q where "fd \<in> actor_fds (xs q)"
          using all \<open>open_files w fd \<noteq> None\<close> by (auto simp: all_covered_def)
        ultimately show ?thesis using step(2) by (intro exI [of _ q]) auto
      qed
    qed
  qed
qed simp

fun finished_actor :: "ws_actor \<Rightarrow> bool" where
  "finished_actor (Attempt a) = (a_co a = CoEnded \<and> \<not> draining a \<and> a_kernel a \<noteq> KernelRunning)"
| "finished_actor (Remover r) = (r = RemoveStart \<or> (\<exists>b. r = RemoveDone b))"

lemma finished_owns_nothing:
  assumes "actor_ok w x" and "finished_actor x"
  shows "actor_fds x = {}"
proof (cases x)
  case (Attempt a)
  have ctl: "control_ok a" using assms(1) Attempt by (auto intro: attempt_ok_control)
  have "shares_due a = 0"
    using ctl assms(2) Attempt
    by (auto simp: shares_due_def kernel_due_def control_ok_def split: kernel_thread.splits)
  then show ?thesis using assms Attempt
    by (auto simp: attempt_ok_def awaited_def attempt_fds.simps split: claim_thread.splits)
next
  case (Remover r)
  then show ?thesis using assms(2) by auto
qed

text \<open>C8: Nothing is leaked and nothing is closed twice. In no reachable state has a descriptor
  been closed that was not open; every descriptor that is open belongs to an attempt or a
  removal that has not finished; so once all have finished, in whatever order coroutines and
  kernel threads ended and wherever cancellation struck, no descriptor is open and no lock
  is held.\<close>

theorem workspace_claims_are_not_leaked:
  assumes "ws_reach dir start w xs"
  shows "\<not> bad_close w \<and>
    (\<forall>fd. open_files w fd \<noteq> None \<longrightarrow> (\<exists>p. fd \<in> actor_fds (xs p) \<and> \<not> finished_actor (xs p))) \<and>
    ((\<forall>p. finished_actor (xs p)) \<longrightarrow> (\<forall>fd. open_files w fd = None) \<and> (\<forall>i. flocks w i = None))"
proof -
  have ok: "actor_ok w (xs p)" for p by (rule ws_reach_separated(1) [OF assms])
  then have wok: "world_ok w" by (metis actor_ok.simps ws_actor.exhaust)
  have start: "\<forall>p. actor_ok (initial_world dir) (start p) \<and> actor_fds (start p) = {}"
    and run: "actor_reach ws_move (initial_world dir, start) (w, xs)"
    using assms fresh_actor_ok by (auto simp: ws_reach_def)
  have "all_covered (w, xs)"
    using all_covered_reach [OF run] start by (simp add: all_covered_def initial_world_def)
  then have cov: "\<exists>p. fd \<in> actor_fds (xs p)" if "open_files w fd \<noteq> None" for fd
    using that by (auto simp: all_covered_def)
  have live: "\<exists>p. fd \<in> actor_fds (xs p) \<and> \<not> finished_actor (xs p)" if "open_files w fd \<noteq> None" for fd
    using cov [OF that] finished_owns_nothing [OF ok] by blast
  have "flocks w i = None" if "\<forall>p. finished_actor (xs p)" for i
  proof (rule ccontr)
    assume "flocks w i \<noteq> None"
    then obtain fd where "flocks w i = Some fd" by blast
    then have "open_files w fd \<noteq> None" using wok by (auto simp: world_ok_def)
    with live that show False by blast
  qed
  moreover have "open_files w fd = None" if "\<forall>p. finished_actor (xs p)" for fd
    using live that by blast
  moreover have "\<not> bad_close w" using wok by (simp add: world_ok_def)
  ultimately show ?thesis using live by blast
qed

subsection \<open>No attempt gets stuck\<close>

lemma claim_thread_moves:
  assumes "\<forall>r. a_thread a \<noteq> ClaimReturned r" and "\<forall>e. a_thread a \<noteq> ClaimRaised e"
  shows "\<exists>act \<in> {Open None, Lock, Stamp None}. attempt_move act w a \<noteq> None"
proof (cases "a_thread a")
  case ClaimStart
  then have "attempt_move (Open None) w a \<noteq> None" by (simp split: prod.split)
  then show ?thesis by blast
next
  case (ClaimOpened fd)
  then have "attempt_move Lock w a \<noteq> None" by (auto split: prod.split)
  then show ?thesis by blast
next
  case (ClaimLocked fd)
  then have "attempt_move (Stamp None) w a \<noteq> None" by simp
  then show ?thesis by blast
qed (use assms in simp_all)

lemma kernel_thread_moves:
  "a_kernel a = KernelQueued \<Longrightarrow> attempt_move KernelEnter w a \<noteq> None"
  "a_kernel a = KernelRunning \<Longrightarrow> attempt_move KernelExit w a \<noteq> None"
  by (simp_all add: Let_def split: prod.split)

lemma coroutine_moves:
  assumes "(\<exists>r. a_thread a = ClaimReturned r) \<or> (\<exists>e. a_thread a = ClaimRaised e)"
  shows "a_co a = CoWaiting \<Longrightarrow> attempt_move Receive w a \<noteq> None"
    and "a_co a = CoHolding \<Longrightarrow> a_kernel a = KernelEnded \<Longrightarrow> attempt_move KernelReturned w a \<noteq> None"
    and "a_co a = CoFinishing \<Longrightarrow> attempt_move Finish w a \<noteq> None"
    and "a_co a = CoUnwinding s \<Longrightarrow> attempt_move Unwind w a \<noteq> None"
    and "a_co a = CoFinally \<Longrightarrow> attempt_move Finally w a \<noteq> None"
    and "draining a \<Longrightarrow> attempt_move Drain w a \<noteq> None"
  using assms by (auto split: prod.split)

text \<open>Every attempt can always go on without being cancelled and without a system call
  failing: in each reachable state an attempt that has not finished has such a move enabled,
  so neither the claim thread, nor the coroutine, nor the drain, nor the kernel thread ever
  waits for something that cannot happen.\<close>

theorem attempts_are_never_stuck:
  assumes "ws_reach dir start w xs" and "xs p = Attempt a" and "\<not> finished_actor (Attempt a)"
  shows "\<exists>act \<in> {Open None, Lock, Stamp None, Receive, Drain, KernelEnter, KernelExit,
      KernelReturned, Finish, Unwind, Finally}. attempt_move act w a \<noteq> None"
proof (cases "(\<exists>r. a_thread a = ClaimReturned r) \<or> (\<exists>e. a_thread a = ClaimRaised e)")
  case False
  then show ?thesis using claim_thread_moves [of a w] by blast
next
  case True
  note mv = coroutine_moves [OF True, where w = w] kernel_thread_moves [of a w]
  have ctl: "control_ok a"
    using ws_reach_separated(1) [OF assms(1), of p] assms(2) by (auto intro: attempt_ok_control)
  show ?thesis
  proof (cases "a_co a")
    case CoHolding
    with ctl have "a_kernel a \<noteq> KernelNone" by (simp add: control_ok_def)
    with CoHolding show ?thesis using mv by (cases "a_kernel a") blast+
  next
    case CoEnded
    with assms(3) have "draining a \<or> a_kernel a = KernelRunning" by auto
    then show ?thesis using mv by blast
  qed (use mv in blast)+
qed

end
