(* ===== verification/WorkspaceRaces.thy ===== *)
theory WorkspaceRaces
  imports WorkspaceSafety
begin

text \<open>
  Mutual exclusion of kernels on one workspace: it holds as long as nobody removes the
  workspace, and \<open>remove_workspace\<close> breaks it in two ways.
\<close>

subsection \<open>Exclusion without removals\<close>

fun is_attempt :: "ws_actor \<Rightarrow> bool" where
  "is_attempt (Attempt a) = True"
| "is_attempt (Remover r) = False"

text \<open>Every open descriptor is of the file the lock path names.\<close>

definition one_lock_file :: "lock_world \<Rightarrow> bool" where
  "one_lock_file w \<longleftrightarrow> (\<forall>fd i. open_files w fd = Some i \<longrightarrow> lock_link w = Some i)"

lemma one_lock_file_close: "one_lock_file w \<Longrightarrow> one_lock_file (sys_close fd w)"
proof -
  assume "one_lock_file w"
  moreover have "lock_link (sys_close fd w) = lock_link w" by (simp add: sys_close_def split: option.split)
  ultimately show ?thesis by (auto simp: one_lock_file_def sys_close_open_files split: if_splits)
qed

lemma one_lock_file_flock: "one_lock_file w \<Longrightarrow> one_lock_file (fst (sys_flock fd w))"
  by (auto simp: one_lock_file_def sys_flock_def split: option.splits if_splits)

lemma one_lock_file_open: "one_lock_file w \<Longrightarrow> one_lock_file (fst (sys_open w))"
  by (auto simp: one_lock_file_def sys_open_def Let_def split: option.splits if_splits)

lemma one_lock_file_release: "one_lock_file w \<Longrightarrow> one_lock_file (fst (release_share w a))"
  by (auto simp: release_share_def release_def Let_def one_lock_file_close split: prod.splits)

lemma one_lock_file_claim:
  assumes "claim_move act w a = Some (w', a')" and "one_lock_file w"
  shows "one_lock_file w'"
proof (cases act)
  case (Open err)
  with assms one_lock_file_open [OF assms(2)] show ?thesis
    by (auto split: option.splits if_splits prod.splits)
next
  case Lock
  then obtain fd where t: "a_thread a = ClaimOpened fd" using assms(1) by (auto split: claim_thread.splits)
  obtain w1 got where fl: "sys_flock fd w = (w1, got)" by fastforce
  have "one_lock_file w1" using one_lock_file_flock [OF assms(2), of fd] fl by simp
  with assms(1) Lock t fl one_lock_file_close show ?thesis by (auto split: if_splits)
next
  case (Stamp err)
  with assms one_lock_file_close show ?thesis by (auto split: option.splits claim_thread.splits)
qed (use assms in simp_all)

lemma one_lock_file_task:
  assumes "task_move act w a = Some (w', a')" and "one_lock_file w"
  shows "one_lock_file w'"
proof -
  have share: "one_lock_file w1" if "release_share v b = (w1, a1)" "one_lock_file v" for v b w1 a1
    using one_lock_file_release [OF that(2), of b] that(1) by simp
  have dir: "one_lock_file (w\<lparr> dir_exists := True \<rparr>)" using assms(2) by (simp add: one_lock_file_def)
  show ?thesis
    by (cases act)
       (use assms dir in \<open>auto dest: share split: if_splits claim_thread.splits coroutine.splits prod.splits\<close>)
qed

lemma one_lock_file_move:
  assumes "ws_move act w x = Some (w', x')" and "is_attempt x" and "one_lock_file w"
  shows "one_lock_file w' \<and> is_attempt x'"
proof -
  obtain a b a' where "x = Attempt a" "act = ByAttempt b" "attempt_move b w a = Some (w', a')" "x' = Attempt a'"
    using assms(1,2) by (cases x; cases act) auto
  moreover from this have "one_lock_file w'"
    using one_lock_file_claim one_lock_file_task assms(3) by (cases "claim_move b w a") auto
  ultimately show ?thesis by simp
qed

lemma one_lock_file_reach:
  assumes "actor_reach ws_move s t" and "one_lock_file (fst s)" and "\<forall>p. is_attempt (snd s p)"
  shows "one_lock_file (fst t) \<and> (\<forall>p. is_attempt (snd t p))"
  using assms
proof (induction rule: actor_reach.induct)
  case (step s t u)
  from step.hyps(2) show ?case
  proof (cases rule: actor_step.cases)
    case (step a w xs p w' x')
    with step.IH step.prems one_lock_file_move [of a w "xs p" w' x'] show ?thesis by auto
  qed
qed simp

text \<open>C9: Without a removal in between, at most one kernel computes in a workspace: whatever the
  number of attempts and however they interleave, are cancelled or overlap, two running
  kernels are the same attempt's.\<close>

theorem one_kernel_at_a_time:
  assumes "ws_reach dir start w xs" and "\<forall>r. start r \<noteq> Remover RemoveStart"
    and "xs p = Attempt a" and "a_kernel a = KernelRunning"
    and "xs q = Attempt b" and "a_kernel b = KernelRunning"
  shows "p = q"
proof (rule ccontr)
  assume "p \<noteq> q"
  have att: "\<forall>r. is_attempt (start r)"
  proof
    fix r show "is_attempt (start r)"
      using assms(1,2) by (cases "start r") (auto simp: ws_reach_def elim: allE [of _ r])
  qed
  have ok: "world_ok w" "attempt_ok w a" "attempt_ok w b"
    using ws_reach_separated(1) [OF assms(1), of p] ws_reach_separated(1) [OF assms(1), of q] assms(3,5) by auto
  have reach: "actor_reach ws_move (initial_world dir, start) (w, xs)"
    using assms(1) by (simp add: ws_reach_def)
  have "one_lock_file w"
    using one_lock_file_reach [OF reach] att by (simp add: one_lock_file_def initial_world_def)
  note ra = running_attempt [OF ok(1,2) assms(4)] and rb = running_attempt [OF ok(1,3) assms(6)]
  have "c_fd (a_claim a) \<noteq> c_fd (a_claim b)"
    using ws_reach_separated(2) [OF assms(1) \<open>p \<noteq> q\<close>] ra(2) rb(2) assms(3,5) by auto
  with ra(1) rb(1) \<open>one_lock_file w\<close> show False
    by (auto simp: holds_lock_def one_lock_file_def) (metis option.inject)
qed

subsection \<open>Two races with a removal\<close>

text \<open>Actors 0 and 1 are attempts, every other actor is a removal.\<close>

definition race_start :: "nat \<Rightarrow> ws_actor" where
  "race_start p = (if p \<le> 1 then Attempt new_attempt else Remover RemoveStart)"

text \<open>
  Attempt 0 opens the lock file; a sweep opens it too, takes the lock, empties the directory,
  unlinks the file and closes it; attempt 0 then locks the unlinked inode, and attempt 1
  opens and locks a new one.
\<close>

definition unlink_race :: "(nat \<times> ws_action) list" where
  "unlink_race =
     [(0, ByAttempt (Open None)), (2, ByRemover (ROpen False)), (2, ByRemover RLock),
      (2, ByRemover REmpty), (2, ByRemover RUnlink), (2, ByRemover RClose),
      (0, ByAttempt Lock), (0, ByAttempt (Stamp None)), (0, ByAttempt Receive), (0, ByAttempt KernelEnter),
      (1, ByAttempt (Open None)), (1, ByAttempt Lock), (1, ByAttempt (Stamp None)),
      (1, ByAttempt Receive), (1, ByAttempt KernelEnter)]"

text \<open>
  The \<open>except OSError\<close> branch: an open that fails for any reason (the process has no
  descriptors left, say) lets the removal delete a directory whose lock is held.
\<close>

definition unlocked_removal :: "(nat \<times> ws_action) list" where
  "unlocked_removal =
     [(0, ByAttempt (Open None)), (0, ByAttempt Lock), (0, ByAttempt (Stamp None)),
      (0, ByAttempt Receive), (0, ByAttempt KernelEnter), (2, ByRemover (ROpen True))]"

definition kernel_runs :: "ws_actor \<Rightarrow> bool" where
  "kernel_runs x = (case x of Attempt a \<Rightarrow> a_kernel a = KernelRunning | Remover r \<Rightarrow> False)"

lemmas race_eval = race_start_def new_attempt_def initial_world_def sys_open_def sys_flock_def
  sys_close_def new_claim_def kernel_runs_def

lemma race_start_fresh: "fresh_actor (race_start p)"
  by (simp add: race_start_def)

text \<open>A removal can let two attempts compute in one workspace at the same time. Between an
  attempt's \<open>open\<close> and its \<open>flock\<close>, \<open>remove_workspace\<close> may lock, unlink and close the same
  file; the attempt then holds the lock of an inode that no path names, and the next attempt
  creates and locks a new file without contention.\<close>

theorem removal_breaks_exclusion:
  "\<exists>w xs. ws_reach True race_start w xs \<and> kernel_runs (xs 0) \<and> kernel_runs (xs 1)"
proof -
  obtain w xs where run: "run_schedule ws_move unlink_race (initial_world True, race_start) = Some (w, xs)"
    and "kernel_runs (xs 0)" and "kernel_runs (xs 1)"
    by (simp add: unlink_race_def race_eval)
  moreover have "ws_reach True race_start w xs"
    using run_schedule_reach [OF run] race_start_fresh by (simp add: ws_reach_def)
  ultimately show ?thesis by blast
qed

text \<open>\<open>remove_workspace\<close> deletes a workspace whose lock is held when its own \<open>os.open\<close> of
  the lock file raises: the directory is gone while the kernel of an attempt that holds the
  lock is computing in it, and the call reports the removal as done.\<close>

theorem failed_open_removes_held_workspace:
  "\<exists>w xs a. ws_reach True race_start w xs \<and> xs 0 = Attempt a \<and> a_kernel a = KernelRunning \<and>
     holds_lock w (c_fd (a_claim a)) \<and> \<not> dir_exists w \<and> xs 2 = Remover (RemoveDone True)"
proof -
  obtain w xs where run: "run_schedule ws_move unlocked_removal (initial_world True, race_start) = Some (w, xs)"
    and facts: "\<exists>a. xs 0 = Attempt a \<and> a_kernel a = KernelRunning \<and> holds_lock w (c_fd (a_claim a))"
      "\<not> dir_exists w" "xs 2 = Remover (RemoveDone True)"
    by (simp add: unlocked_removal_def race_eval holds_lock_def)
  moreover have "ws_reach True race_start w xs"
    using run_schedule_reach [OF run] race_start_fresh by (simp add: ws_reach_def)
  ultimately show ?thesis by blast
qed

subsection \<open>A concrete run\<close>

text \<open>Two attempts: the first computes, the second finds the lock taken and ends.\<close>

definition contended_run :: "(nat \<times> ws_action) list" where
  "contended_run =
     [(0, ByAttempt (Open None)), (1, ByAttempt (Open None)), (0, ByAttempt Lock), (0, ByAttempt (Stamp None)),
      (0, ByAttempt Receive), (1, ByAttempt Lock), (1, ByAttempt Receive), (0, ByAttempt KernelEnter)]"

definition attempts_only :: "nat \<Rightarrow> ws_actor" where
  "attempts_only p = Attempt new_attempt"

lemma contended_result:
  obtains w xs a b where "ws_reach False attempts_only w xs" and "xs 0 = Attempt a"
    and "a_kernel a = KernelRunning" and "c_fd (a_claim a) = 0" and "xs 1 = Attempt b"
    and "a_co b = CoEnded" and "open_files w 0 = Some 0"
proof -
  have fresh: "\<forall>p. fresh_actor (attempts_only p)" by (simp add: attempts_only_def)
  obtain w xs where run: "run_schedule ws_move contended_run (initial_world False, attempts_only) = Some (w, xs)"
    and "\<exists>a. xs 0 = Attempt a \<and> a_kernel a = KernelRunning \<and> c_fd (a_claim a) = 0"
    and "\<exists>b. xs 1 = Attempt b \<and> a_co b = CoEnded" and "open_files w 0 = Some 0"
    by (simp add: contended_run_def attempts_only_def race_eval)
  moreover have "ws_reach False attempts_only w xs"
    using run_schedule_reach [OF run] fresh by (simp add: ws_reach_def)
  ultimately show thesis using that by blast
qed

lemma running_kernel_holds_lock_witness:
  "\<exists>w xs a. ws_reach False attempts_only w xs \<and> xs 0 = Attempt a \<and> a_kernel a = KernelRunning \<and>
     holds_lock w (c_fd (a_claim a))"
proof -
  obtain w xs a b where r: "ws_reach False attempts_only w xs" "xs 0 = Attempt a" "a_kernel a = KernelRunning"
    by (rule contended_result)
  with running_kernel_holds_lock [OF r] show ?thesis by blast
qed

lemma workspace_claims_are_not_leaked_witness:
  "\<exists>w xs. ws_reach False attempts_only w xs \<and> \<not> bad_close w \<and>
     (\<exists>p. 0 \<in> actor_fds (xs p) \<and> \<not> finished_actor (xs p))"
proof -
  obtain w xs a b where r: "ws_reach False attempts_only w xs" and o: "open_files w 0 = Some 0"
    by (rule contended_result)
  with workspace_claims_are_not_leaked [OF r] show ?thesis by blast
qed

lemma attempts_are_never_stuck_witness:
  "\<exists>act \<in> {Open None, Lock, Stamp None, Receive, Drain, KernelEnter, KernelExit,
      KernelReturned, Finish, Unwind, Finally}. attempt_move act (initial_world True) new_attempt \<noteq> None"
proof -
  have start: "ws_reach True attempts_only (initial_world True) attempts_only"
    by (simp add: ws_reach_def attempts_only_def actor_reach.init)
  show ?thesis
    by (rule attempts_are_never_stuck [OF start, of 0]) (simp_all add: attempts_only_def new_attempt_def)
qed

lemma one_kernel_at_a_time_witness:
  "\<exists>w xs. ws_reach False attempts_only w xs \<and> kernel_runs (xs 0) \<and> \<not> kernel_runs (xs 1)"
proof -
  obtain w xs a b where r: "ws_reach False attempts_only w xs" and a: "xs 0 = Attempt a" "a_kernel a = KernelRunning"
    and b: "xs 1 = Attempt b"
    by (rule contended_result)
  have "(0::nat) = 1" if "a_kernel b = KernelRunning"
    by (rule one_kernel_at_a_time [OF r _ a b that]) (simp add: attempts_only_def)
  with r a b show ?thesis by (intro exI [of _ w] exI [of _ xs]) (auto simp: kernel_runs_def)
qed

end
