(* ===== verification/Routes.thy ===== *)
theory Routes
  imports TaskRun
begin

text \<open>
  The HTTP surface (api/routes.py, api/security.py, api/schemas.py): what each route answers for each
  result of the repository and of the storage, the token check, and the event stream of a job as a
  state machine whose moves are the stream's awaits, the commits of others and the delivery of
  their notifications.
\<close>

subsection \<open>Answers\<close>

text \<open>\<open>Unhandled\<close>: an exception that no handler maps; the framework answers 500.\<close>

datatype 'a http = Answer nat 'a | HttpError nat string | Unhandled exn

fun http_code :: "'a http \<Rightarrow> nat" where
  "http_code (Answer n a) = n"
| "http_code (HttpError n detail) = n"
| "http_code (Unhandled e) = 500"

subsection \<open>The token\<close>

text \<open>Headers are decoded as Latin-1, where \<open>str.strip\<close> also removes 0x85 and 0xA0.\<close>

definition header_space :: "char \<Rightarrow> bool" where
  "header_space c = (is_space c \<or> c = CHR 0x85 \<or> c = CHR 0xA0)"

definition is_ascii :: "string \<Rightarrow> bool" where
  "is_ascii s = (\<forall>c \<in> set s. (of_char c :: nat) < 128)"

text \<open>\<open>secrets.compare_digest\<close> of two strings: they must be ASCII.\<close>

definition compare_digest :: "string \<Rightarrow> string \<Rightarrow> exn + bool" where
  "compare_digest a b = (if is_ascii a \<and> is_ascii b then Inr (a = b) else Inl (OtherError ''TypeError''))"

definition bearer_token :: "string option \<Rightarrow> string" where
  "bearer_token authorization =
     (case authorization of
        None \<Rightarrow> ''''
      | Some h \<Rightarrow> if take 7 h = ''Bearer '' then strip_by header_space (drop 7 h) else '''')"

definition invalid_token :: "unit http" where
  "invalid_token = HttpError 401 ''Invalid or missing compute API token''"

definition require_compute_api_token :: "string option \<Rightarrow> string option \<Rightarrow> unit http" where
  "require_compute_api_token env authorization =
     (case env of
        None \<Rightarrow> HttpError 500 ''Compute API token not configured''
      | Some expected \<Rightarrow>
          if expected = '''' then HttpError 500 ''Compute API token not configured''
          else if bearer_token authorization = '''' then invalid_token
          else (case compare_digest (bearer_token authorization) expected of
                  Inl e \<Rightarrow> Unhandled e
                | Inr same \<Rightarrow> if same then Answer 200 () else invalid_token))"

subsection \<open>Jobs\<close>

definition job_created ::
  "('q \<Rightarrow> uuid \<Rightarrow> exn + 'q) \<Rightarrow> uuid \<Rightarrow> earthquake_input \<Rightarrow> uuid \<Rightarrow> int \<Rightarrow> compute_db \<times> 'q
   \<Rightarrow> (string \<times> string) http \<times> (compute_db \<times> 'q)" where
  "job_created defer sim inp new_id now st =
     (case create_or_get_job defer inp (uuid_str sim) new_id now st of
        (Inl (ValueError m), st') \<Rightarrow> (HttpError 400 m, st')
      | (Inl _, st') \<Rightarrow> (HttpError 500 ''Failed to start simulation pipeline'', st')
      | (Inr view, st') \<Rightarrow> (Answer 201 (uuid_str sim, v_status view), st'))"

text \<open>\<open>_job_status\<close>, shared by the route and the event stream; \<open>get_job_status\<close> raises only \<open>ValueError\<close>.\<close>

definition job_status_or_error :: "exn + unit \<Rightarrow> compute_db \<Rightarrow> string \<Rightarrow> job_view http" where
  "job_status_or_error conn db sim =
     (case get_job_status conn db sim of
        Inr view \<Rightarrow> Answer 200 view
      | Inl (ValueError m) \<Rightarrow> HttpError 404 m
      | Inl e \<Rightarrow> Unhandled e)"

definition get_job :: "exn + unit \<Rightarrow> compute_db \<Rightarrow> string \<Rightarrow> (string \<times> job_view) http" where
  "get_job conn db sim =
     (case job_status_or_error conn db sim of
        Answer n view \<Rightarrow> Answer n (sim, view) | HttpError n d \<Rightarrow> HttpError n d | Unhandled e \<Rightarrow> Unhandled e)"

text \<open>\<open>day_text\<close> is the ISO date of an instant.\<close>

definition outputs_or_error :: "(int \<Rightarrow> string) \<Rightarrow> exn + unit \<Rightarrow> compute_db \<Rightarrow> string \<Rightarrow> stored_output list http" where
  "outputs_or_error day_text conn db sim =
     (case get_outputs conn db sim of
        Inr outs \<Rightarrow> Answer 200 outs
      | Inl (ValueError m) \<Rightarrow> HttpError 404 m
      | Inl (OutputsExpiredError t) \<Rightarrow> HttpError 410 (''Output files expired on '' @ day_text t)
      | Inl e \<Rightarrow> Unhandled e)"

text \<open>The public part of an output: name, filename, content type; never the key.\<close>

definition public_output :: "stored_output \<Rightarrow> string \<times> string \<times> string" where
  "public_output out = (out_name out, out_filename out, out_content_type out)"

definition list_outputs ::
  "(int \<Rightarrow> string) \<Rightarrow> exn + unit \<Rightarrow> compute_db \<Rightarrow> string \<Rightarrow> (string \<times> (string \<times> string \<times> string) list) http" where
  "list_outputs day_text conn db sim =
     (case outputs_or_error day_text conn db sim of
        Answer n outs \<Rightarrow> Answer n (sim, map public_output outs)
      | HttpError n d \<Rightarrow> HttpError n d | Unhandled e \<Rightarrow> Unhandled e)"

text \<open>\<open>get_output\<close>: a redirect to a presigned URL.\<close>

definition get_output ::
  "(int \<Rightarrow> string) \<Rightarrow> ('s, 'm) s3_client \<Rightarrow> int \<Rightarrow> exn + unit \<Rightarrow> compute_db \<Rightarrow> string \<Rightarrow> string \<Rightarrow> string http" where
  "get_output day_text c ttl conn db sim name =
     (case outputs_or_error day_text conn db sim of
        HttpError n d \<Rightarrow> HttpError n d
      | Unhandled e \<Rightarrow> Unhandled e
      | Answer _ outs \<Rightarrow>
          (case find_by out_name name outs of
             None \<Rightarrow> HttpError 404 (''No output '' @ [CHR 0x27] @ name @ [CHR 0x27] @ '' for this job'')
           | Some out \<Rightarrow>
               (case presigned_url c ttl (out_key out) (out_filename out) of
                  Inl e \<Rightarrow> Unhandled e | Inr url \<Rightarrow> Answer 307 url)))"

subsection \<open>Health\<close>

record health_status =
  health :: string
  database_connected :: bool
  storage_connected :: bool
  oldest_queued_age :: "real option"

text \<open>
  \<open>probe\<close> is the outcome of \<open>SELECT 1\<close> on a borrowed connection. The queue handle is built with
  the pool (\<open>queue_built\<close>); reading the age may raise, which is logged.
\<close>

definition is_database_connected :: "exn + unit \<Rightarrow> bool" where
  "is_database_connected probe = (case probe of Inl _ \<Rightarrow> False | Inr _ \<Rightarrow> True)"

definition health_route :: "exn + unit \<Rightarrow> bool \<Rightarrow> bool \<Rightarrow> exn + real \<Rightarrow> health_status http" where
  "health_route probe storage queue_built age =
     (let db = is_database_connected probe; healthy = (db \<and> storage) in
      if db \<and> \<not> queue_built then Unhandled (RuntimeError ''simulation queue is not built; call build_queue() first'')
      else Answer (if healthy then 200 else 503)
        \<lparr> health = (if healthy then ''healthy'' else ''degraded''), database_connected = db, storage_connected = storage,
          oldest_queued_age = (if db then (case age of Inl _ \<Rightarrow> None | Inr a \<Rightarrow> Some a) else None) \<rparr>)"

subsection \<open>The event stream\<close>

definition TERMINAL :: "string set" where
  "TERMINAL = {status_value COMPLETED, status_value FAILED}"

definition final_view :: "job_view \<Rightarrow> bool" where
  "final_view v \<longleftrightarrow> v_status v \<in> TERMINAL"

datatype sse_event = Data job_view | ErrorEvent string | Keepalive

datatype sse_end = Returned | Raised exn | Disconnected

datatype sse_phase = Connecting | Subscribing | Checking | Waiting | Reading bool | Closed sse_end

text \<open>
  \<open>s_row\<close> is the job's public view in the database, \<open>s_inflight\<close> the notifications on their way to the
  stream's connection, \<open>s_slot\<close> its one-slot queue of wake-ups, \<open>s_open\<close> whether the connection is open.
\<close>

record sse =
  s_row :: job_view
  s_listening :: bool
  s_inflight :: nat
  s_slot :: bool
  s_open :: bool
  s_deadline :: real
  s_phase :: sse_phase
  s_last :: job_view
  s_sent :: "sse_event list"

text \<open>The stream up to \<open>db.connect()\<close>; \<open>now\<close> is the clock after the first event.\<close>

definition sse_start :: "real \<Rightarrow> real \<Rightarrow> job_view \<Rightarrow> job_view http \<Rightarrow> sse" where
  "sse_start max_duration now row first =
     (let s = \<lparr> s_row = row, s_listening = False, s_inflight = 0, s_slot = False, s_open = False,
                s_deadline = now + max_duration, s_phase = Connecting, s_last = row, s_sent = [] \<rparr> in
      case first of
        Answer n view \<Rightarrow>
          s\<lparr> s_last := view, s_sent := [Data view], s_phase := (if final_view view then Closed Returned else Connecting) \<rparr>
      | HttpError n d \<Rightarrow> s\<lparr> s_sent := [ErrorEvent ''unknown job''], s_phase := Closed Returned \<rparr>
      | Unhandled e \<Rightarrow> s\<lparr> s_phase := Closed (Raised e) \<rparr>)"

datatype sse_move =
    Commit job_view | Deliver
  | Connected "exn + unit" | Subscribed "exn + unit" | Check real | Wake | Elapse | ReadRow "exn option" | Hangup

definition closing :: "sse_end \<Rightarrow> sse \<Rightarrow> sse" where
  "closing e s = s\<lparr> s_phase := Closed e, s_open := False, s_listening := False, s_inflight := 0 \<rparr>"

definition send :: "sse_event \<Rightarrow> sse \<Rightarrow> sse" where
  "send e s = s\<lparr> s_sent := s_sent s @ [e] \<rparr>"

text \<open>After \<open>_job_status\<close>: a new view is sent, and ends the stream when it is final.\<close>

definition after_read :: "bool \<Rightarrow> job_view \<Rightarrow> sse \<Rightarrow> sse" where
  "after_read woken view s =
     (if view \<noteq> s_last s
      then (let s' = send (Data view) (s\<lparr> s_last := view \<rparr>)
            in if final_view view then closing Returned s' else s'\<lparr> s_phase := Checking \<rparr>)
      else if \<not> woken then (send Keepalive s)\<lparr> s_phase := Checking \<rparr>
      else s\<lparr> s_phase := Checking \<rparr>)"

fun sse_step :: "sse_move \<Rightarrow> sse \<Rightarrow> sse option" where
  "sse_step (Commit view) s =
     Some (s\<lparr> s_row := view, s_inflight := (if s_listening s then Suc (s_inflight s) else s_inflight s) \<rparr>)"
| "sse_step Deliver s =
     (if 0 < s_inflight s then Some (s\<lparr> s_inflight := s_inflight s - 1, s_slot := True \<rparr>) else None)"
| "sse_step (Connected r) s =
     (if s_phase s = Connecting
      then Some (case r of Inl e \<Rightarrow> closing (Raised e) s | Inr _ \<Rightarrow> s\<lparr> s_phase := Subscribing, s_open := True \<rparr>) else None)"
| "sse_step (Subscribed r) s =
     (if s_phase s = Subscribing
      then Some (case r of Inl e \<Rightarrow> closing (Raised e) s | Inr _ \<Rightarrow> s\<lparr> s_phase := Checking, s_listening := True \<rparr>) else None)"
| "sse_step (Check now) s =
     (if s_phase s = Checking then Some (if now < s_deadline s then s\<lparr> s_phase := Waiting \<rparr> else closing Returned s) else None)"
| "sse_step Wake s =
     (if s_phase s = Waiting \<and> s_slot s then Some (s\<lparr> s_slot := False, s_phase := Reading True \<rparr>) else None)"
| "sse_step Elapse s =
     (if s_phase s = Waiting then Some (s\<lparr> s_phase := Reading False \<rparr>) else None)"
| "sse_step (ReadRow failure) s =
     (case s_phase s of
        Reading woken \<Rightarrow>
          Some (case failure of Some e \<Rightarrow> closing (Raised e) s | None \<Rightarrow> after_read woken (s_row s) s)
      | _ \<Rightarrow> None)"
| "sse_step Hangup s =
     (case s_phase s of Closed _ \<Rightarrow> None | _ \<Rightarrow> Some (closing Disconnected s))"

fun sse_run :: "sse_move list \<Rightarrow> sse \<Rightarrow> sse option" where
  "sse_run [] s = Some s"
| "sse_run (m # ms) s = (case sse_step m s of None \<Rightarrow> None | Some s' \<Rightarrow> sse_run ms s')"

text \<open>The route: a malformed id is refused before the stream starts.\<close>

definition job_events :: "real \<Rightarrow> real \<Rightarrow> job_view \<Rightarrow> exn + unit \<Rightarrow> compute_db \<Rightarrow> string \<Rightarrow> sse http" where
  "job_events max_duration now row conn db sim =
     (if as_uuid sim = None then HttpError 404 ''Invalid or unknown job ID''
      else Answer 200 (sse_start max_duration now row (job_status_or_error conn db sim)))"

end
