(* ===== verification/RoutesLaws.thy ===== *)
theory RoutesLaws
  imports Routes JobLaws
begin

text \<open>
  Laws of the HTTP surface: who passes the token check, that a created job is found under its id, what
  a redirect can lead to, and the laws of the event stream: it sends part of the row's history in
  order, ends with a final status and never waits on a finished job once it has read the row.
\<close>

subsection \<open>The token\<close>

text \<open>C26: A request passes exactly when a token is configured and the header is a bearer token that equals it,
  surrounding blanks aside, both in ASCII.\<close>

theorem token_is_required:
  "require_compute_api_token env authorization = Answer 200 () \<longleftrightarrow>
     (\<exists>expected h. env = Some expected \<and> expected \<noteq> '''' \<and> is_ascii expected \<and>
        authorization = Some (''Bearer '' @ h) \<and> strip_by header_space h = expected)"
proof -
  have header: "take 7 h = ''Bearer '' \<longleftrightarrow> (\<exists>t. h = ''Bearer '' @ t)" for h :: string
  proof
    assume "take 7 h = ''Bearer ''"
    then have "h = ''Bearer '' @ drop 7 h" by (metis append_take_drop_id)
    then show "\<exists>t. h = ''Bearer '' @ t" ..
  qed auto
  show ?thesis
  proof (cases "\<exists>h. authorization = Some (''Bearer '' @ h)")
    case True
    then obtain h where "authorization = Some (''Bearer '' @ h)" by blast
    then have "bearer_token authorization = strip_by header_space h" "authorization = Some (''Bearer '' @ h)"
      by (simp_all add: bearer_token_def)
    then show ?thesis
      by (auto simp: require_compute_api_token_def compare_digest_def invalid_token_def split: option.split)
  next
    case False
    then have "bearer_token authorization = ''''"
      using header by (auto simp: bearer_token_def split: option.split)
    then show ?thesis using False
      by (auto simp: require_compute_api_token_def invalid_token_def split: option.split)
  qed
qed

text \<open>A bearer token with a character outside ASCII is not refused with 401: the comparison raises, and the
  request ends in a server error.\<close>

theorem non_ascii_token_is_a_server_error:
  assumes "expected \<noteq> ''''" and "strip_by header_space h = t" and "\<not> is_ascii t"
  shows "http_code (require_compute_api_token (Some expected) (Some (''Bearer '' @ h))) = 500 \<and>
    (is_ascii u \<and> u \<noteq> expected \<and> strip_by header_space g = u \<longrightarrow>
     http_code (require_compute_api_token (Some expected) (Some (''Bearer '' @ g))) = (if is_ascii expected \<or> u = '''' then 401 else 500))"
proof -
  have "t \<noteq> ''''" using assms(3) by (auto simp: is_ascii_def)
  then show ?thesis using assms
    by (auto simp: require_compute_api_token_def bearer_token_def compare_digest_def invalid_token_def)
qed

lemma non_ascii_token_is_a_server_error_witness:
  "http_code (require_compute_api_token (Some ''key'') (Some (''Bearer '' @ [CHR 0xE9]))) = 500 \<and>
   http_code (require_compute_api_token (Some ''key'') (Some ''Bearer kez'')) = 401"
proof -
  have strip: "strip_by header_space [CHR 0xE9] = [CHR 0xE9]" "\<not> is_ascii [CHR 0xE9]" by code_simp+
  have other: "is_ascii ''kez''" "is_ascii ''key''" "strip_by header_space ''kez'' = ''kez''" by code_simp+
  show ?thesis
    using non_ascii_token_is_a_server_error [of "''key''" "[CHR 0xE9]", OF _ strip, of "''kez''" "''kez''"] other by simp
qed

subsection \<open>Jobs and outputs\<close>

text \<open>A job that was accepted is found under its id with the status that was answered; every other answer
  leaves the table and the queue as they were.\<close>

theorem accepted_job_is_found:
  assumes "job_created defer sim inp new_id now st = (answer, st')"
  shows "(\<forall>i w. answer = Answer 201 (i, w) \<longrightarrow>
      (\<exists>view. get_job (Inr ()) (fst st') i = Answer 200 (i, view) \<and> v_status view = w)) \<and>
    (http_code answer \<noteq> 201 \<longrightarrow> st' = st)"
proof -
  let ?sid = "set_version4 sim"
  have sid: "as_uuid (uuid_str sim) = Some ?sid" by (simp add: as_uuid_uuid_str)
  obtain r where run: "create_or_get_job defer inp (uuid_str sim) new_id now st = (r, st')"
    and answer: "answer = (case r of Inl (ValueError m) \<Rightarrow> HttpError 400 m
        | Inl _ \<Rightarrow> HttpError 500 ''Failed to start simulation pipeline'' | Inr view \<Rightarrow> Answer 201 (uuid_str sim, v_status view))"
    using assms by (auto simp: job_created_def split: prod.splits sum.splits exn.splits)
  have found: "\<exists>row. fetch_by_simulation_id (fst st') ?sid = Some row \<and> view = status_from_row row" if "r = Inr view" for view
    using run that
    by (auto simp: create_or_get_job_def sid Let_def fetch_by_simulation_id_def find_by_append inserted_row_def
        split: option.splits if_splits sum.splits prod.splits)
  have "st' = st" if "r = Inl e" for e
    using run that by (auto simp: create_or_get_job_def sid Let_def split: option.splits if_splits sum.splits prod.splits)
  then show ?thesis
    using answer found by (cases r) (auto simp: get_job_def job_status_or_error_def get_job_status_def acquire_def sid split: exn.splits)
qed


definition sample_input :: earthquake_input where
  "sample_input = \<lparr> Mw = 8, depth_h = 20, lat0 = -12, lon0 = -77, dia = Some ''01'', hhmm = Some ''0000'' \<rparr>"

lemma accepted_job_is_found_witness:
  "\<exists>view. get_job (Inr ()) (fst (snd (job_created (\<lambda>q j. Inr (j # q)) 5 sample_input 7 100 (\<lparr> rows = [], notified = [] \<rparr>, []))))
      (uuid_str 5) = Answer 200 (uuid_str 5, view) \<and> v_status view = ''queued''"
proof -
  define out where "out = job_created (\<lambda>q j. Inr (j # q)) 5 sample_input 7 100 (\<lparr> rows = [], notified = [] \<rparr>, [])"
  have run: "job_created (\<lambda>q j. Inr (j # q)) 5 sample_input 7 100 (\<lparr> rows = [], notified = [] \<rparr>, []) = (fst out, snd out)"
    by (simp add: out_def)
  moreover have "fst out = Answer 201 (uuid_str 5, ''queued'')"
    by (simp add: out_def job_created_def create_or_get_job_def as_uuid_uuid_str fetch_by_simulation_id_def Let_def
        status_from_row_def inserted_row_def)
  ultimately show ?thesis
    using accepted_job_is_found [OF run] unfolding out_def by blast
qed

text \<open>A redirect leads only to an object that the manifest of a completed job lists under the requested
  name, and never to outputs that have expired.\<close>

theorem redirects_only_to_stored_outputs:
  assumes "get_output day_text c ttl conn db sim name = Answer n url"
  shows "n = 307 \<and> (\<exists>sid r out. as_uuid sim = Some sid \<and> fetch_by_simulation_id db sid = Some r \<and>
      status r = COMPLETED \<and> outputs_expired_at r = None \<and> out \<in> set (outputs r) \<and> out_name out = name \<and>
      presigned_url c ttl (out_key out) (out_filename out) = Inr url)"
proof -
  obtain k outs out where outs: "outputs_or_error day_text conn db sim = Answer k outs"
    and found: "find_by out_name name outs = Some out"
    and url: "n = 307" "presigned_url c ttl (out_key out) (out_filename out) = Inr url"
    using assms by (auto simp: get_output_def split: http.splits option.splits sum.splits)
  have "get_outputs conn db sim = Inr outs"
    using outs by (auto simp: outputs_or_error_def split: sum.splits exn.splits)
  then obtain sid r where "as_uuid sim = Some sid" "fetch_by_simulation_id db sid = Some r" "outputs_expired_at r = None"
    and "outs = (if status r \<noteq> COMPLETED then [] else outputs r)"
    by (auto simp: get_outputs_def split: option.splits sum.splits if_splits)
  moreover have "out \<in> set outs \<and> out_name out = name" using find_by_SomeD [OF found] by simp
  ultimately show ?thesis using url by (auto split: if_splits)
qed

text \<open>C28: While the database cannot be reached, the status route answers that the job is unknown, although
  its row exists; the routes of the outputs answer with a server error.\<close>

theorem outage_is_reported_as_unknown_job:
  assumes "is_transient e"
  shows "get_job (Inl e) db sim = HttpError 404 ''Invalid or unknown job ID'' \<and>
    (as_uuid sim \<noteq> None \<longrightarrow> list_outputs day_text (Inl e) db sim = Unhandled database_unavailable)"
  using assms
  by (auto simp: get_job_def job_status_or_error_def get_job_status_def acquire_def unknown_job_def list_outputs_def
      outputs_or_error_def get_outputs_def database_unavailable_def split: option.split)

lemma outage_is_reported_as_unknown_job_witness:
  "get_job (Inl TimeoutError) \<lparr> rows = [inserted_row 7 (set_version4 5) sample_input 100], notified = [] \<rparr> (uuid_str 5) =
     HttpError 404 ''Invalid or unknown job ID'' \<and>
   list_outputs (\<lambda>t. '''') (Inl TimeoutError) \<lparr> rows = [inserted_row 7 (set_version4 5) sample_input 100], notified = [] \<rparr> (uuid_str 5) =
     Unhandled database_unavailable"
proof -
  have "is_transient TimeoutError" by (simp add: is_transient_def)
  from outage_is_reported_as_unknown_job [OF this] show ?thesis by (simp add: as_uuid_uuid_str)
qed

subsection \<open>The event stream\<close>

fun views_of :: "sse_event list \<Rightarrow> job_view list" where
  "views_of [] = []"
| "views_of (Data v # es) = v # views_of es"
| "views_of (_ # es) = views_of es"

fun committed :: "sse_move list \<Rightarrow> job_view list" where
  "committed [] = []"
| "committed (Commit v # ms) = v # committed ms"
| "committed (_ # ms) = committed ms"

lemma views_of_append [simp]: "views_of (es @ fs) = views_of es @ views_of fs"
  by (induction es rule: views_of.induct) simp_all

lemma committed_append [simp]: "committed (ms @ ns) = committed ms @ committed ns"
  by (induction ms rule: committed.induct) simp_all

lemma sse_run_append: "sse_run (ms @ ns) s = (case sse_run ms s of None \<Rightarrow> None | Some s' \<Rightarrow> sse_run ns s')"
  by (induction ms arbitrary: s) (auto split: option.split)

fun is_closed :: "sse_phase \<Rightarrow> bool" where
  "is_closed (Closed _) = True"
| "is_closed _ = False"

lemmas sse_defs = closing_def send_def after_read_def Let_def

text \<open>
  The invariants: the stream listens whenever it is in its loop, has no connection once closed, has sent
  a final view only when it has returned, and what it sent is part of the history \<open>h\<close> of the row, with
  room left for the current view.
\<close>

definition stream_shape :: "sse \<Rightarrow> bool" where
  "stream_shape s \<longleftrightarrow>
     (s_phase s \<in> {Checking, Waiting, Reading True, Reading False} \<longrightarrow> s_listening s \<and> s_open s) \<and>
     (s_phase s = Subscribing \<longrightarrow> s_open s) \<and>
     (is_closed (s_phase s) \<longrightarrow> \<not> s_open s) \<and>
     (final_view (s_last s) \<longrightarrow> s_phase s = Closed Returned)"

definition stream_log :: "job_view list \<Rightarrow> sse \<Rightarrow> bool" where
  "stream_log h s \<longleftrightarrow>
     (\<exists>vs. views_of (s_sent s) = vs @ [s_last s] \<and> (\<forall>v \<in> set vs. \<not> final_view v) \<and> distinct_adj (vs @ [s_last s]) \<and>
        subseq (vs @ [s_last s]) h \<and> (s_row s \<noteq> s_last s \<longrightarrow> subseq (vs @ [s_last s, s_row s]) h))"

lemma distinct_adj_snoc: "distinct_adj (xs @ [x, y]) \<longleftrightarrow> distinct_adj (xs @ [x]) \<and> x \<noteq> y"
proof (induction xs)
  case (Cons a xs)
  then show ?case by (cases xs) simp_all
qed simp

lemma stream_log_quiet:
  "stream_log h s \<Longrightarrow> s_sent s' = s_sent s \<Longrightarrow> s_last s' = s_last s \<Longrightarrow> s_row s' = s_row s \<Longrightarrow> stream_log h s'"
  by (simp add: stream_log_def)

lemma stream_shape_closing: "\<not> final_view (s_last s) \<Longrightarrow> stream_shape (closing e s)"
  by (simp add: stream_shape_def closing_def)

lemma stream_shape_open: "stream_shape s \<Longrightarrow> \<not> is_closed (s_phase s) \<Longrightarrow> \<not> final_view (s_last s)"
  by (auto simp: stream_shape_def)

lemma stream_shape_read:
  assumes "\<not> final_view (s_last s)" and "s_listening s" and "s_open s"
  shows "stream_shape (after_read woken v s)"
  using assms by (simp add: after_read_def Let_def send_def closing_def stream_shape_def)

lemma stream_shape_step:
  assumes step: "sse_step m s = Some s'" and shape: "stream_shape s"
  shows "stream_shape s'"
proof (cases m)
  case (Commit v)
  then have "s' = s\<lparr> s_row := v, s_inflight := (if s_listening s then Suc (s_inflight s) else s_inflight s) \<rparr>" using step by simp
  then show ?thesis using shape by (simp add: stream_shape_def)
next
  case Deliver
  then have "s' = s\<lparr> s_inflight := s_inflight s - 1, s_slot := True \<rparr>" using step by (simp split: if_splits)
  then show ?thesis using shape by (simp add: stream_shape_def)
next
  case (Connected r)
  then have "s_phase s = Connecting" "s' = (case r of Inl e \<Rightarrow> closing (Raised e) s | Inr _ \<Rightarrow> s\<lparr> s_phase := Subscribing, s_open := True \<rparr>)"
    using step by (simp_all split: if_splits)
  then show ?thesis using stream_shape_open [OF shape] stream_shape_closing
    by (cases r) (simp_all add: stream_shape_def)
next
  case (Subscribed r)
  then have phase: "s_phase s = Subscribing"
    and s': "s' = (case r of Inl e \<Rightarrow> closing (Raised e) s | Inr _ \<Rightarrow> s\<lparr> s_phase := Checking, s_listening := True \<rparr>)"
    using step by (simp_all split: if_splits)
  have "s_open s" using shape phase by (simp add: stream_shape_def)
  then show ?thesis unfolding s' using phase stream_shape_open [OF shape] stream_shape_closing
    by (cases r) (simp_all add: stream_shape_def)
next
  case (Check now)
  then have phase: "s_phase s = Checking" and s': "s' = (if now < s_deadline s then s\<lparr> s_phase := Waiting \<rparr> else closing Returned s)"
    using step by (simp_all split: if_splits)
  have "s_open s \<and> s_listening s" using shape phase by (simp add: stream_shape_def)
  then show ?thesis unfolding s' using phase stream_shape_open [OF shape] stream_shape_closing
    by (simp add: stream_shape_def)
next
  case Wake
  then have phase: "s_phase s = Waiting" and s': "s' = s\<lparr> s_slot := False, s_phase := Reading True \<rparr>"
    using step by (simp_all split: if_splits)
  have "s_open s \<and> s_listening s" using shape phase by (simp add: stream_shape_def)
  then show ?thesis unfolding s' using phase stream_shape_open [OF shape] by (simp add: stream_shape_def)
next
  case Elapse
  then have phase: "s_phase s = Waiting" and s': "s' = s\<lparr> s_phase := Reading False \<rparr>"
    using step by (simp_all split: if_splits)
  have "s_open s \<and> s_listening s" using shape phase by (simp add: stream_shape_def)
  then show ?thesis unfolding s' using phase stream_shape_open [OF shape] by (simp add: stream_shape_def)
next
  case (ReadRow failure)
  then obtain woken where phase: "s_phase s = Reading woken"
    and s': "s' = (case failure of Some e \<Rightarrow> closing (Raised e) s | None \<Rightarrow> after_read woken (s_row s) s)"
    using step by (auto split: sse_phase.splits)
  have "s_open s \<and> s_listening s" using shape phase by (cases woken) (simp_all add: stream_shape_def)
  then show ?thesis unfolding s' using phase stream_shape_open [OF shape] stream_shape_closing stream_shape_read
    by (cases failure) simp_all
next
  case Hangup
  then have "s' = closing Disconnected s" "\<not> is_closed (s_phase s)" using step by (auto split: sse_phase.splits)
  then show ?thesis using stream_shape_open [OF shape] stream_shape_closing by simp
qed

lemma stream_logE:
  assumes "stream_log h s"
  obtains vs where "views_of (s_sent s) = vs @ [s_last s]" "\<forall>v \<in> set vs. \<not> final_view v" "distinct_adj (vs @ [s_last s])"
    "subseq (vs @ [s_last s]) h" "s_row s \<noteq> s_last s \<longrightarrow> subseq (vs @ [s_last s, s_row s]) h"
  using assms unfolding stream_log_def by blast

lemma stream_logI:
  assumes "views_of (s_sent s) = vs @ [s_last s]" "\<forall>v \<in> set vs. \<not> final_view v" "distinct_adj (vs @ [s_last s])"
    "subseq (vs @ [s_last s]) h" "s_row s \<noteq> s_last s \<longrightarrow> subseq (vs @ [s_last s, s_row s]) h"
  shows "stream_log h s"
  using assms unfolding stream_log_def by blast

lemma stream_log_commit:
  assumes "stream_log h s" and "s_sent s' = s_sent s" "s_last s' = s_last s" "s_row s' = v"
  shows "stream_log (h @ [v]) s'"
proof -
  from assms(1) obtain vs where vs: "views_of (s_sent s) = vs @ [s_last s]" "\<forall>v \<in> set vs. \<not> final_view v"
    "distinct_adj (vs @ [s_last s])" "subseq (vs @ [s_last s]) h" by (rule stream_logE)
  have "subseq ((vs @ [s_last s]) @ [v]) (h @ [v])" using vs(4) by (rule list_emb_append_mono) simp
  moreover have "subseq (vs @ [s_last s]) (h @ [v])" using vs(4) by (rule list_emb_prefix)
  ultimately show ?thesis using vs(1-3) by (intro stream_logI [of _ vs]) (simp_all add: assms(2-4))
qed

lemma stream_log_read:
  assumes "stream_log h s" and "\<not> final_view (s_last s)"
  shows "stream_log h (after_read woken (s_row s) s)"
proof -
  let ?s = "after_read woken (s_row s) s"
  from assms(1) obtain vs where vs: "views_of (s_sent s) = vs @ [s_last s]" "\<forall>v \<in> set vs. \<not> final_view v"
    "distinct_adj (vs @ [s_last s])" "subseq (vs @ [s_last s]) h" "s_row s \<noteq> s_last s \<longrightarrow> subseq (vs @ [s_last s, s_row s]) h"
    by (rule stream_logE)
  show ?thesis
  proof (cases "s_row s = s_last s")
    case True
    then have "views_of (s_sent ?s) = views_of (s_sent s)" "s_last ?s = s_last s" "s_row ?s = s_last s"
      by (simp_all add: after_read_def send_def)
    then show ?thesis using vs by (intro stream_logI [of _ vs]) simp_all
  next
    case False
    then have read: "views_of (s_sent ?s) = (vs @ [s_last s]) @ [s_row s]" "s_last ?s = s_row s" "s_row ?s = s_row s"
      using vs(1) by (simp_all add: after_read_def Let_def send_def closing_def)
    have "distinct_adj (vs @ [s_last s, s_row s])" using vs(3) False by (subst distinct_adj_snoc) auto
    then show ?thesis using vs(2,5) assms(2) False
      by (intro stream_logI [of _ "vs @ [s_last s]"]) (simp_all add: read)
  qed
qed

lemma stream_log_step:
  assumes "sse_step m s = Some s'" and "stream_shape s" and "stream_log h s"
  shows "stream_log (h @ committed [m]) s'"
proof (cases m)
  case (Commit v)
  then show ?thesis using assms(1) stream_log_commit [OF assms(3), of s' v] by auto
next
  case (ReadRow failure)
  then obtain woken where phase: "s_phase s = Reading woken"
    and s': "s' = (case failure of Some e \<Rightarrow> closing (Raised e) s | None \<Rightarrow> after_read woken (s_row s) s)"
    using assms(1) by (auto split: sse_phase.splits)
  have "\<not> final_view (s_last s)" using assms(2) phase by (auto simp: stream_shape_def)
  then show ?thesis
    using stream_log_read [OF assms(3)] stream_log_quiet [OF assms(3)] by (cases failure) (simp_all add: ReadRow s' sse_defs(1))
qed (use assms(1) in \<open>auto intro!: stream_log_quiet [OF assms(3)] simp: sse_defs split: if_splits sum.splits sse_phase.splits\<close>)

lemma stream_run:
  assumes "sse_run ms s = Some s'" and "stream_shape s" and "stream_log h s"
  shows "stream_shape s' \<and> stream_log (h @ committed ms) s'"
  using assms
proof (induction ms arbitrary: s h)
  case (Cons m ms)
  then obtain s1 where step: "sse_step m s = Some s1" and rest: "sse_run ms s1 = Some s'" by (auto split: option.splits)
  from Cons.IH [OF rest stream_shape_step [OF step Cons.prems(2)] stream_log_step [OF step Cons.prems(2,3)]]
  show ?case using committed_append [of "[m]" ms] by simp
qed simp

lemma sent_extends: "sse_step m s = Some s' \<Longrightarrow> \<exists>es. s_sent s' = s_sent s @ es"
  by (cases m) (auto simp: sse_defs split: if_splits sum.splits sse_phase.splits option.splits)

lemma run_sent_extends: "sse_run ms s = Some s' \<Longrightarrow> \<exists>es. s_sent s' = s_sent s @ es"
proof (induction ms arbitrary: s)
  case (Cons m ms)
  then obtain s1 where "sse_step m s = Some s1" "sse_run ms s1 = Some s'" by (auto split: option.splits)
  then show ?case using sent_extends [of m s s1] Cons.IH [of s1] by auto
qed simp

lemma started_stream:
  assumes "s = sse_start d now row (Answer 200 row)"
  shows "stream_shape s" and "stream_log [row] s" and "s_sent s = [Data row]" and "s_last s = row" and "s_row s = row"
  unfolding assms by (simp_all add: sse_start_def Let_def stream_shape_def stream_log_def)

text \<open>C27: What a stream sends is a part of the row's history in its order, beginning with the view it opened
  on, without repeating a view; a final view is sent last and the stream has then returned; a
  stream that has ended, in whatever way, has closed its connection.\<close>

theorem stream_sends_the_history:
  assumes "sse_run ms (sse_start d now row (Answer 200 row)) = Some s"
  shows "\<exists>vs. views_of (s_sent s) = row # vs \<and> subseq (row # vs) (row # committed ms) \<and> distinct_adj (row # vs) \<and>
    (\<forall>v \<in> set (butlast (row # vs)). \<not> final_view v) \<and>
    (final_view (last (row # vs)) \<longrightarrow> s_phase s = Closed Returned) \<and> (is_closed (s_phase s) \<longrightarrow> \<not> s_open s)"
proof -
  note start = started_stream [where d = d and now = now and row = row, OF refl]
  have shape: "stream_shape s" and log: "stream_log ([row] @ committed ms) s"
    using stream_run [OF assms start(1,2)] by blast+
  obtain es where "s_sent s = Data row # es" using run_sent_extends [OF assms] start(3) by auto
  then have views: "views_of (s_sent s) = row # views_of es" by simp
  from log obtain vs where vs: "views_of (s_sent s) = vs @ [s_last s]" "\<forall>v \<in> set vs. \<not> final_view v"
    "distinct_adj (vs @ [s_last s])" "subseq (vs @ [s_last s]) ([row] @ committed ms)" by (rule stream_logE)
  have eq: "row # views_of es = vs @ [s_last s]" using views vs(1) by simp
  then have "butlast (row # views_of es) = vs" "last (row # views_of es) = s_last s" by simp_all
  then show ?thesis using views vs(2-4) eq shape unfolding stream_shape_def
    by (intro exI [of _ "views_of es"]) simp
qed

definition running_view :: job_view where
  "running_view = status_from_row ((inserted_row 7 5 sample_input 100)\<lparr> status := RUNNING \<rparr>)"

definition finished_view :: job_view where
  "finished_view = running_view\<lparr> v_status := ''completed'' \<rparr>"

lemma sample_views: "running_view \<noteq> finished_view" "\<not> final_view running_view" "final_view finished_view"
proof -
  have "v_status running_view = ''running''" "v_status finished_view = ''completed''"
    by (simp_all add: running_view_def finished_view_def status_from_row_def)
  then show "\<not> final_view running_view" "final_view finished_view" "running_view \<noteq> finished_view"
    by (auto simp: final_view_def TERMINAL_def)
qed

lemma sample_start:
  "sse_start 60 0 running_view (Answer 200 running_view) =
     \<lparr> s_row = running_view, s_listening = False, s_inflight = 0, s_slot = False, s_open = False, s_deadline = 60,
       s_phase = Connecting, s_last = running_view, s_sent = [Data running_view] \<rparr>"
  by (simp add: sse_start_def Let_def sample_views)

lemma stream_sends_the_history_witness:
  "\<exists>s. sse_run [Connected (Inr ()), Subscribed (Inr ()), Check 1, Commit finished_view, Deliver, Wake, ReadRow None]
       (sse_start 60 0 running_view (Answer 200 running_view)) = Some s \<and>
     views_of (s_sent s) = [running_view, finished_view] \<and> s_phase s = Closed Returned \<and> \<not> s_open s"
proof -
  obtain s where run: "sse_run [Connected (Inr ()), Subscribed (Inr ()), Check 1, Commit finished_view, Deliver, Wake, ReadRow None]
       (sse_start 60 0 running_view (Answer 200 running_view)) = Some s" and s: "s_sent s = [Data running_view, Data finished_view]"
    by (simp add: sample_start after_read_def Let_def send_def closing_def sample_views sample_views(1) [symmetric])
  have "last [running_view, finished_view] = finished_view" by simp
  then show ?thesis using stream_sends_the_history [OF run] run s sample_views(3) by auto
qed


text \<open>Once the row has been read in the loop, a waiting stream without a wake-up in sight has shown the row.\<close>

definition caught_up :: "sse \<Rightarrow> bool" where
  "caught_up s \<longleftrightarrow>
     s_phase s \<noteq> Connecting \<and> s_phase s \<noteq> Subscribing \<and>
     (s_phase s \<in> {Checking, Waiting} \<and> \<not> s_slot s \<and> s_inflight s = 0 \<longrightarrow> s_last s = s_row s)"

lemma after_read_caught_up: "caught_up (after_read woken (s_row s) s)"
  by (auto simp: caught_up_def after_read_def Let_def send_def closing_def)

lemma caught_up_step:
  assumes step: "sse_step m s = Some s'" and "stream_shape s" and "caught_up s"
  shows "caught_up s'"
proof (cases m)
  case (Commit v)
  then have s': "s' = s\<lparr> s_row := v, s_inflight := (if s_listening s then Suc (s_inflight s) else s_inflight s) \<rparr>"
    using step by simp
  have "s_phase s \<in> {Checking, Waiting} \<longrightarrow> s_listening s" using assms(2) by (simp add: stream_shape_def)
  then show ?thesis using assms(3) by (auto simp: caught_up_def s')
next
  case (ReadRow failure)
  then obtain woken where "s' = (case failure of Some e \<Rightarrow> closing (Raised e) s | None \<Rightarrow> after_read woken (s_row s) s)"
    using step by (auto split: sse_phase.splits)
  then show ?thesis using after_read_caught_up by (cases failure) (simp_all add: caught_up_def closing_def)
next
  case Deliver
  then have "s' = s\<lparr> s_inflight := s_inflight s - 1, s_slot := True \<rparr>" using step by (simp split: if_splits)
  then show ?thesis using assms(3) by (simp add: caught_up_def)
next
  case (Check now)
  then have "s_phase s = Checking" "s' = (if now < s_deadline s then s\<lparr> s_phase := Waiting \<rparr> else closing Returned s)"
    using step by (simp_all split: if_splits)
  then show ?thesis using assms(3) by (simp add: caught_up_def closing_def)
next
  case Wake
  then have "s' = s\<lparr> s_slot := False, s_phase := Reading True \<rparr>" using step by (simp split: if_splits)
  then show ?thesis by (simp add: caught_up_def)
next
  case Elapse
  then have "s' = s\<lparr> s_phase := Reading False \<rparr>" using step by (simp split: if_splits)
  then show ?thesis by (simp add: caught_up_def)
next
  case Hangup
  then have "s' = closing Disconnected s" using step by (auto split: sse_phase.splits)
  then show ?thesis by (simp add: caught_up_def closing_def)
qed (use step assms(3) in \<open>simp_all add: caught_up_def split: if_splits\<close>)

lemma caught_up_run:
  "sse_run ms s = Some s' \<Longrightarrow> stream_shape s \<Longrightarrow> caught_up s \<Longrightarrow> caught_up s'"
proof (induction ms arbitrary: s)
  case (Cons m ms)
  then obtain s1 where "sse_step m s = Some s1" "sse_run ms s1 = Some s'" by (auto split: option.splits)
  then show ?case using Cons.IH stream_shape_step caught_up_step Cons.prems(2,3) by blast
qed simp

text \<open>Once a stream has read the row in its loop, it never waits on a finished job: when it waits with no
  wake-up queued and no notification on its way, the view it sent last is the row's, and it is not
  final.\<close>

theorem stream_never_waits_on_a_finished_job:
  assumes "sse_run (ms @ ReadRow None # ns) (sse_start d now row first) = Some s"
    and "s_phase s = Waiting" and "\<not> s_slot s" and "s_inflight s = 0"
  shows "s_last s = s_row s \<and> \<not> final_view (s_row s)"
proof -
  have "stream_shape (sse_start d now row first) \<or> is_closed (s_phase (sse_start d now row first))"
    by (cases first) (simp_all add: sse_start_def Let_def stream_shape_def)
  moreover have "s_phase s' = s_phase s0" if "sse_run ks s0 = Some s'" "is_closed (s_phase s0)" for ks s0 s'
    using that
  proof (induction ks arbitrary: s0)
    case (Cons k ks)
    then obtain s1 where "sse_step k s0 = Some s1" "sse_run ks s1 = Some s'" by (auto split: option.splits)
    moreover have "s_phase s1 = s_phase s0"
      using \<open>sse_step k s0 = Some s1\<close> Cons.prems(2) by (cases k; cases "s_phase s0") (auto split: if_splits)
    ultimately show ?case using Cons by metis
  qed simp
  ultimately have shape: "stream_shape (sse_start d now row first)" using assms(1,2) by fastforce
  obtain s1 s2 where s1: "sse_run ms (sse_start d now row first) = Some s1" and s2: "sse_step (ReadRow None) s1 = Some s2"
    and rest: "sse_run ns s2 = Some s"
    using assms(1) by (auto simp: sse_run_append split: option.splits)
  have shape_run: "stream_shape s'" if "sse_run ks s0 = Some s'" "stream_shape s0" for ks s0 s'
    using that by (induction ks arbitrary: s0) (auto split: option.splits dest: stream_shape_step)
  have "stream_shape s2" using stream_shape_step [OF s2 shape_run [OF s1 shape]] .
  moreover have "caught_up s2" using s2 after_read_caught_up by (auto split: sse_phase.splits)
  ultimately have "caught_up s" "stream_shape s" using caught_up_run [OF rest] shape_run [OF rest] by blast+
  then have "s_last s = s_row s" "\<not> final_view (s_last s)"
    using assms(2-4) stream_shape_open [of s] by (simp_all add: caught_up_def)
  then show ?thesis by simp
qed

lemma stream_never_waits_on_a_finished_job_witness:
  "\<exists>s. sse_run ([Connected (Inr ()), Subscribed (Inr ()), Check 1, Elapse] @ ReadRow None # [Check 21])
       (sse_start 60 0 running_view (Answer 200 running_view)) = Some s \<and> s_phase s = Waiting \<and>
     s_last s = s_row s \<and> \<not> final_view (s_row s)"
proof -
  obtain s where run: "sse_run ([Connected (Inr ()), Subscribed (Inr ()), Check 1, Elapse] @ ReadRow None # [Check 21])
       (sse_start 60 0 running_view (Answer 200 running_view)) = Some s"
    and s: "s_phase s = Waiting" "\<not> s_slot s" "s_inflight s = 0"
    by (simp add: sample_start after_read_def send_def)
  show ?thesis using stream_never_waits_on_a_finished_job [OF run s] run s by blast
qed

text \<open>A job that finishes after the stream's first read and before it listens is not shown: the stream waits,
  nothing is on its way, and only the keepalive's timeout leads to the next read.\<close>

theorem finish_before_listening_waits_for_the_keepalive:
  "\<exists>s. sse_run [Commit finished_view, Connected (Inr ()), Subscribed (Inr ()), Check 1]
       (sse_start 60 0 running_view (Answer 200 running_view)) = Some s \<and>
     s_phase s = Waiting \<and> final_view (s_row s) \<and> s_sent s = [Data running_view] \<and>
     sse_step Wake s = None \<and> sse_step Deliver s = None \<and>
     (\<exists>s'. sse_run [Elapse, ReadRow None] s = Some s' \<and> s_sent s' = [Data running_view, Data finished_view])"
  by (simp add: sample_start sample_views sample_views(1) [symmetric] after_read_def Let_def send_def closing_def)

end
