(* ===== verification/Rounding.thy ===== *)
theory Rounding
  imports Complex_Main
begin

text \<open>
  Rounding as the numeric code meets it: \<open>rint\<close> is Python's \<open>round\<close> and numpy's \<open>rint\<close> (half
  to even), \<open>fl p\<close> rounds a real to the nearest binary number of \<open>p\<close> significant bits, ties
  to even. A value of numpy's \<open>float32\<close> or \<open>float64\<close> is a real of 24 or 53 bits; \<open>cast\<close> is what
  storing into an array of the type does. The exponent is unbounded: overflow to infinity
  and the subnormal range are outside the model.
\<close>

subsection \<open>To the nearest integer\<close>

definition rint :: "real \<Rightarrow> int" where
  "rint x = (let n = \<lfloor>x\<rfloor>; d = x - of_int n in
     if d < 1 / 2 then n else if d > 1 / 2 then n + 1 else if even n then n else n + 1)"

lemma rint_of_int [simp]: "rint (of_int n) = n"
  by (simp add: rint_def)

lemma rint_numeral [simp]: "rint 0 = 0" "rint 1 = 1" "rint (numeral k) = numeral k" "rint (- numeral k) = - numeral k"
  using rint_of_int [of 0] rint_of_int [of 1] rint_of_int [of "numeral k"] rint_of_int [of "- numeral k"]
  by simp_all

lemma rint_bounds: "\<lfloor>x\<rfloor> \<le> rint x" "rint x \<le> \<lfloor>x\<rfloor> + 1"
  by (simp_all add: rint_def Let_def)

lemma rint_near: "\<bar>of_int (rint x) - x\<bar> \<le> 1 / 2"
  unfolding rint_def Let_def by (simp add: abs_if) linarith

lemma rint_mono: "x \<le> y \<Longrightarrow> rint x \<le> rint y"
proof -
  assume le: "x \<le> y"
  show ?thesis
  proof (cases "\<lfloor>x\<rfloor> = \<lfloor>y\<rfloor>")
    case True
    with le show ?thesis by (simp add: rint_def Let_def)
  next
    case False
    then have "\<lfloor>x\<rfloor> + 1 \<le> \<lfloor>y\<rfloor>" using floor_mono [OF le] by linarith
    then show ?thesis using rint_bounds [of x] rint_bounds [of y] by linarith
  qed
qed

lemma rint_minus: "rint (- x) = - rint x"
proof (cases "x = of_int \<lfloor>x\<rfloor>")
  case True
  have "- x = of_int (- \<lfloor>x\<rfloor>)" using True by simp
  then show ?thesis using True by (metis rint_of_int)
next
  case False
  define n where "n = \<lfloor>x\<rfloor>"
  have "of_int n \<le> x" "x < of_int n + 1" by (simp_all add: n_def)
  then have n: "of_int n < x" "x < of_int n + 1" using False by (auto simp: n_def order.strict_iff_order)
  then have f: "\<lfloor>- x\<rfloor> = - n - 1" by (intro floor_unique) simp_all
  show ?thesis unfolding rint_def Let_def f n_def [symmetric] by (auto simp: field_simps)
qed

subsection \<open>To a number of \<open>p\<close> bits\<close>

definition magnitude :: "real \<Rightarrow> int" where
  "magnitude x = \<lfloor>log 2 \<bar>x\<bar>\<rfloor>"

definition spacing :: "nat \<Rightarrow> real \<Rightarrow> real" where
  "spacing p x = 2 powr of_int (magnitude x - int p + 1)"

definition fl :: "nat \<Rightarrow> real \<Rightarrow> real" where
  "fl p x = (if x = 0 then 0 else of_int (rint (x / spacing p x)) * spacing p x)"

definition representable :: "nat \<Rightarrow> real \<Rightarrow> bool" where
  "representable p x \<longleftrightarrow> (\<exists>m e :: int. \<bar>m\<bar> \<le> 2 ^ p \<and> x = of_int m * 2 powr of_int e)"

lemma spacing_pos [simp]: "0 < spacing p x"
  by (simp add: spacing_def)

lemma abs_spacing [simp]: "\<bar>spacing p x\<bar> = spacing p x"
  using spacing_pos [of p x] by linarith

lemma magnitude_bounds:
  assumes "x \<noteq> 0"
  shows "2 powr of_int (magnitude x) \<le> \<bar>x\<bar>" and "\<bar>x\<bar> < 2 powr of_int (magnitude x + 1)"
proof -
  have x: "\<bar>x\<bar> = 2 powr log 2 \<bar>x\<bar>" using assms by simp
  have "of_int (magnitude x) \<le> log 2 \<bar>x\<bar>" by (simp add: magnitude_def)
  then show "2 powr of_int (magnitude x) \<le> \<bar>x\<bar>" by (subst x) (rule powr_mono, simp_all)
  have "log 2 \<bar>x\<bar> < of_int (magnitude x + 1)" unfolding magnitude_def by linarith
  then show "\<bar>x\<bar> < 2 powr of_int (magnitude x + 1)" by (subst x) (rule powr_less_mono, simp_all)
qed

lemma magnitude_unique:
  assumes "2 powr of_int e \<le> \<bar>x\<bar>" and "\<bar>x\<bar> < 2 powr of_int (e + 1)"
  shows "magnitude x = e"
proof -
  have "0 < \<bar>x\<bar>" using assms(1) by (rule less_le_trans [rotated]) simp
  then have "of_int e \<le> log 2 \<bar>x\<bar>" "log 2 \<bar>x\<bar> < of_int (e + 1)"
    using assms by (simp_all only: le_log_iff log_less_iff)
  then show ?thesis unfolding magnitude_def by (intro floor_unique) simp_all
qed

lemma fl_0 [simp]: "fl p 0 = 0"
  by (simp add: fl_def)

lemma fl_minus: "fl p (- x) = - fl p x"
  by (simp add: fl_def spacing_def magnitude_def rint_minus)

lemma scaled_bound:
  assumes "x \<noteq> 0" and "0 < p"
  shows "2 ^ (p - 1) \<le> \<bar>x / spacing p x\<bar>" and "\<bar>x / spacing p x\<bar> < 2 ^ p"
proof -
  have "2 powr of_int (magnitude x) = 2 ^ (p - 1) * spacing p x"
    using assms(2) by (simp add: spacing_def powr_realpow [symmetric] powr_add [symmetric] of_nat_diff)
  then show "2 ^ (p - 1) \<le> \<bar>x / spacing p x\<bar>"
    using magnitude_bounds(1) [OF assms(1)] by (simp add: pos_le_divide_eq)
  have "2 powr of_int (magnitude x + 1) = 2 ^ p * spacing p x"
    by (simp add: spacing_def powr_realpow [symmetric] powr_add [symmetric])
  then show "\<bar>x / spacing p x\<bar> < 2 ^ p"
    using magnitude_bounds(2) [OF assms(1)] by (simp add: pos_divide_less_eq)
qed

lemma rint_scaled_bound:
  assumes "x \<noteq> 0" and "0 < p"
  shows "2 ^ (p - 1) \<le> \<bar>rint (x / spacing p x)\<bar>" and "\<bar>rint (x / spacing p x)\<bar> \<le> 2 ^ p"
proof -
  let ?y = "x / spacing p x"
  have abs: "\<bar>rint y\<bar> = rint \<bar>y\<bar>" for y
    using rint_mono [of 0 y] rint_mono [of y 0] rint_minus [of y] by (auto simp: abs_if)
  have "rint (of_int (2 ^ (p - 1))) \<le> rint \<bar>?y\<bar>" "rint \<bar>?y\<bar> \<le> rint (of_int (2 ^ p))"
    using scaled_bound [OF assms] by (intro rint_mono; simp)+
  then show "2 ^ (p - 1) \<le> \<bar>rint ?y\<bar>" and "\<bar>rint ?y\<bar> \<le> 2 ^ p"
    unfolding abs rint_of_int .
qed

lemma representable_fl [simp]: "0 < p \<Longrightarrow> representable p (fl p x)"
proof (cases "x = 0")
  case True
  show ?thesis using True by (auto simp: representable_def intro: exI [of _ 0])
next
  case False
  assume "0 < p"
  with False rint_scaled_bound(2) show ?thesis
    unfolding representable_def fl_def
    by (auto simp: spacing_def simp del: of_int_add of_int_diff of_int_of_nat_eq)
qed

lemma fl_representable:
  assumes "representable p x" and "0 < p"
  shows "fl p x = x"
proof (cases "x = 0")
  case False
  obtain m e where m: "\<bar>m\<bar> \<le> 2 ^ p" and x: "x = of_int m * 2 powr of_int e"
    using assms(1) by (auto simp: representable_def)
  have m0: "m \<noteq> 0" using False x by auto
  let ?k = "magnitude (of_int m)"
  have mm: "2 powr of_int ?k \<le> \<bar>real_of_int m\<bar>" "\<bar>real_of_int m\<bar> < 2 powr of_int (?k + 1)"
    using magnitude_bounds [of "of_int m"] m0 by auto
  have "magnitude x = ?k + e"
  proof (rule magnitude_unique)
    show "2 powr of_int (?k + e) \<le> \<bar>x\<bar>" "\<bar>x\<bar> < 2 powr of_int (?k + e + 1)"
      using mm by (simp_all add: x abs_mult powr_add)
  qed
  then have u: "spacing p x = 2 powr of_int (?k - int p + 1) * 2 powr of_int e"
    by (simp add: spacing_def powr_add [symmetric] algebra_simps)
  have "real_of_int m / 2 powr of_int (?k - int p + 1) \<in> \<int>"
  proof (cases "?k + 1 \<le> int p")
    case True
    define j where "j = nat (int p - ?k - 1)"
    have "?k - int p + 1 = - int j" using True by (simp add: j_def)
    then have "of_int m / 2 powr of_int (?k - int p + 1) = real_of_int (m * 2 ^ j)"
      by (simp add: powr_minus powr_realpow divide_inverse)
    then show ?thesis by (metis Ints_of_int)
  next
    case False
    then have "(2::real) powr of_int (int p) \<le> 2 powr of_int ?k" by (intro powr_mono) auto
    then have "2 ^ p \<le> \<bar>real_of_int m\<bar>" using mm(1) by (simp add: powr_realpow)
    then have "real_of_int (2 ^ p) \<le> of_int \<bar>m\<bar>" by simp
    then have "2 ^ p \<le> \<bar>m\<bar>" by (simp only: of_int_le_iff)
    then have eq: "\<bar>m\<bar> = 2 ^ p" using m by linarith
    have "2 powr real p \<le> \<bar>real_of_int m\<bar>" "\<bar>real_of_int m\<bar> < 2 powr real (p + 1)"
      using eq by (simp_all add: powr_realpow powr_add del: of_int_abs add: of_int_abs [symmetric])
    then have k: "?k = int p" by (intro magnitude_unique) (simp_all add: add.commute)
    have "even m" using eq assms(2) by (metis dvd_abs_iff dvd_power dvd_refl even_power)
    then obtain j where "m = 2 * j" ..
    then have "real_of_int m / 2 powr of_int (?k - int p + 1) = of_int j" unfolding k by simp
    then show ?thesis by (metis Ints_of_int)
  qed
  then obtain n where n: "of_int m / 2 powr of_int (?k - int p + 1) = real_of_int n" by (auto elim: Ints_cases)
  then have "real_of_int m = of_int n * 2 powr of_int (?k - int p + 1)" by (simp add: divide_eq_eq)
  then have "x = of_int n * 2 powr of_int (?k - int p + 1) * 2 powr of_int e" unfolding x by (rule arg_cong)
  then have xn: "x = of_int n * spacing p x" unfolding u mult.assoc .
  have "x / spacing p x = of_int n"
    using xn spacing_pos [of p x] by (metis less_irrefl nonzero_mult_div_cancel_right)
  then show ?thesis using False xn by (simp add: fl_def [of p x])
qed simp


lemma fl_nonneg: "0 \<le> x \<Longrightarrow> 0 \<le> fl p x"
  using rint_mono [of 0 "x / spacing p x"] by (simp add: fl_def less_imp_le)

lemma fl_mono_pos:
  assumes "0 < x" and "x \<le> y" and "0 < p"
  shows "fl p x \<le> fl p y"
proof (cases "magnitude x = magnitude y")
  case True
  then have "spacing p x = spacing p y" by (simp add: spacing_def)
  moreover have "rint (x / spacing p y) \<le> rint (y / spacing p y)"
    using assms(2) by (intro rint_mono divide_right_mono) (simp_all add: less_imp_le)
  ultimately show ?thesis using assms by (simp add: fl_def less_imp_le mult_right_mono)
next
  case False
  have "magnitude x \<le> magnitude y"
    using assms unfolding magnitude_def by (intro floor_mono) simp
  with False have lt: "magnitude x + 1 \<le> magnitude y" by simp
  have xy: "x \<noteq> 0" "y \<noteq> 0" using assms by auto
  have "fl p x \<le> 2 ^ p * spacing p x"
    using rint_scaled_bound(2) [OF xy(1) assms(3)] xy unfolding fl_def
    by (simp add: mult_right_mono less_imp_le abs_le_iff)
  also have "\<dots> = 2 powr of_int (magnitude x + 1)"
    by (simp add: spacing_def powr_realpow [symmetric] powr_add [symmetric])
  also have "\<dots> \<le> 2 powr of_int (magnitude y)" using lt by (intro powr_mono) auto
  also have "\<dots> = 2 ^ (p - 1) * spacing p y"
    using assms(3) by (simp add: spacing_def powr_realpow [symmetric] powr_add [symmetric])
  also have "\<dots> \<le> fl p y"
  proof -
    have "0 \<le> rint (y / spacing p y)" using rint_mono [of 0 "y / spacing p y"] assms by (simp add: less_imp_le)
    then have "2 ^ (p - 1) \<le> rint (y / spacing p y)"
      using rint_scaled_bound(1) [OF xy(2) assms(3)] by simp
    then have "real_of_int (2 ^ (p - 1)) \<le> of_int (rint (y / spacing p y))" by (rule of_int_le_iff [THEN iffD2])
    then show ?thesis using xy by (simp add: fl_def mult_right_mono less_imp_le)
  qed
  finally show ?thesis .
qed

lemma fl_mono:
  assumes "x \<le> y" and "0 < p"
  shows "fl p x \<le> fl p y"
proof -
  consider "0 < x" | "x \<le> 0" "0 \<le> y" | "y < 0" using assms(1) by linarith
  then show ?thesis
  proof cases
    case 1
    then show ?thesis using assms by (rule fl_mono_pos)
  next
    case 2
    then show ?thesis using fl_nonneg [of y p] fl_nonneg [of "- x" p] fl_minus [of p x] by linarith
  next
    case 3
    then have "fl p (- y) \<le> fl p (- x)" using assms by (intro fl_mono_pos) auto
    then show ?thesis by (simp add: fl_minus)
  qed
qed

lemma fl_idem [simp]: "0 < p \<Longrightarrow> fl p (fl p x) = fl p x"
  by (simp add: fl_representable)

lemma representable_scaled: "\<bar>m\<bar> \<le> 2 ^ p \<Longrightarrow> representable p (of_int m * 2 powr of_int e)"
  by (auto simp: representable_def)

lemma representable_of_int: "\<bar>m\<bar> \<le> 2 ^ p \<Longrightarrow> representable p (of_int m)"
  using representable_scaled [of m p 0] by simp

subsection \<open>The array types\<close>

datatype dtype = Float32 | Float64

fun precision :: "dtype \<Rightarrow> nat" where
  "precision Float32 = 24"
| "precision Float64 = 53"

definition cast :: "dtype \<Rightarrow> real \<Rightarrow> real" where
  "cast d x = fl (precision d) x"

abbreviation f32 :: "real \<Rightarrow> real" where "f32 \<equiv> cast Float32"
abbreviation f64 :: "real \<Rightarrow> real" where "f64 \<equiv> cast Float64"

lemma precision_pos [simp]: "0 < precision d"
  by (cases d) simp_all

text \<open>What the numeric code relies on, of any rounding.\<close>

locale rounding =
  fixes rnd :: "real \<Rightarrow> real"
  assumes mono: "x \<le> y \<Longrightarrow> rnd x \<le> rnd y"
    and idem: "rnd (rnd x) = rnd x"
    and zero: "rnd 0 = 0"
begin

definition stored :: "real \<Rightarrow> bool" where
  "stored x \<longleftrightarrow> rnd x = x"

lemma stored_rnd [simp]: "stored (rnd x)"
  by (simp add: stored_def idem)

lemma stored_zero [simp]: "stored 0"
  by (simp add: stored_def zero)

lemma nonneg: "0 \<le> x \<Longrightarrow> 0 \<le> rnd x"
  using mono [of 0 x] by (simp add: zero)

lemma nonpos: "x \<le> 0 \<Longrightarrow> rnd x \<le> 0"
  using mono [of x 0] by (simp add: zero)

text \<open>Rounding never crosses a stored value.\<close>

lemma stored_le: "stored s \<Longrightarrow> s \<le> x \<Longrightarrow> s \<le> rnd x"
  using mono [of s x] by (simp add: stored_def)

lemma le_stored: "stored s \<Longrightarrow> x \<le> s \<Longrightarrow> rnd x \<le> s"
  using mono [of x s] by (simp add: stored_def)

end

interpretation array_type: rounding "cast d" for d
  by unfold_locales (auto simp: cast_def fl_mono)

lemma cast_minus: "cast d (- x) = - cast d x"
  by (simp add: cast_def fl_minus)

lemma stored_of_int: "\<bar>m\<bar> \<le> 2 ^ 24 \<Longrightarrow> array_type.stored d (of_int m * 2 powr of_int e)"
  using representable_scaled [of m "precision d" e]
  by (cases d) (simp_all add: array_type.stored_def cast_def fl_representable)

end
