(* ===== verification/PyText.thy ===== *)
theory PyText
  imports Uuids Rounding
begin

text \<open>
  Numbers as text: the parts of Python's \<open>str\<close>, \<open>float\<close>, \<open>int\<close> and fixed-point formatting that the
  workspace files are written and read with (fault_plane.py, deform.py, tsunami.py, render/). ASCII
  text; the texts of infinities and NaN are not numbers here.
\<close>

subsection \<open>Words and lines\<close>

lemma dropWhile_shorter [termination_simp]: "length (dropWhile P xs) < Suc (length xs)"
  using length_dropWhile_le [of P xs] by simp

text \<open>\<open>text.split()\<close>\<close>

fun split_ws :: "string \<Rightarrow> string list" where
  "split_ws [] = []"
| "split_ws (c # cs) =
     (if is_space c then split_ws cs
      else (c # takeWhile (\<lambda>d. \<not> is_space d) cs) # split_ws (dropWhile (\<lambda>d. \<not> is_space d) cs))"

definition is_line_end :: "char \<Rightarrow> bool" where
  "is_line_end c = (of_char c \<in> {10, 11, 12, 13, 28, 29, 30 :: int})"

text \<open>\<open>text.splitlines()\<close>: a carriage return and a newline end one line together.\<close>

fun splitlines :: "string \<Rightarrow> string list" where
  "splitlines [] = []"
| "splitlines (c # cs) =
     (if is_line_end c
      then [] # splitlines (if c = CHR 0x0D \<and> take 1 cs = [CHR 0x0A] then drop 1 cs else cs)
      else (case splitlines cs of
              [] \<Rightarrow> [[c]]
            | l # ls \<Rightarrow> (c # l) # ls))"

subsection \<open>Decimal digits\<close>

definition digit_char :: "nat \<Rightarrow> char" where
  "digit_char d = char_of (48 + d)"

definition digit_val :: "char \<Rightarrow> nat option" where
  "digit_val c = (let n = (of_char c :: nat) in if 48 \<le> n \<and> n \<le> 57 then Some (n - 48) else None)"

text \<open>The last \<open>n\<close> decimal digits of \<open>v\<close>, and all of them.\<close>

fun dec_places :: "nat \<Rightarrow> nat \<Rightarrow> string" where
  "dec_places 0 v = []"
| "dec_places (Suc n) v = dec_places n (v div 10) @ [digit_char (v mod 10)]"

fun decimal :: "nat \<Rightarrow> string" where
  "decimal v = (if v < 10 then [digit_char v] else decimal (v div 10) @ [digit_char (v mod 10)])"

declare decimal.simps [simp del]

text \<open>Digits with single underscores between them, as \<open>int\<close> and \<open>float\<close> take them.\<close>

fun digits_val :: "bool \<Rightarrow> nat \<Rightarrow> string \<Rightarrow> nat option" where
  "digits_val after_digit acc [] = (if after_digit then Some acc else None)"
| "digits_val after_digit acc (c # cs) =
     (if c = CHR ''_'' then (if after_digit then digits_val False acc cs else None)
      else case digit_val c of None \<Rightarrow> None | Some d \<Rightarrow> digits_val True (10 * acc + d) cs)"

definition signed :: "string \<Rightarrow> bool \<times> string" where
  "signed t = (take 1 t = ''-'', if take 1 t \<in> {''-'', ''+''} then drop 1 t else t)"

text \<open>\<open>int(text)\<close>\<close>

definition py_int :: "string \<Rightarrow> int option" where
  "py_int text =
     (let (neg, body) = signed (strip_by is_space text) in
      map_option (\<lambda>v. if neg then - int v else int v) (digits_val False 0 body))"

text \<open>
  The decimal numeral \<open>float\<close> reads: digits, a point, digits, an exponent; one of the two groups of
  digits may be missing. The value is exact.
\<close>

definition group_val :: "string \<Rightarrow> nat option" where
  "group_val ds = (if ds = [] then Some 0 else digits_val False 0 ds)"

definition group_places :: "string \<Rightarrow> nat" where
  "group_places ds = length (filter (\<lambda>c. c \<noteq> CHR ''_'') ds)"

definition numeral_val :: "string \<Rightarrow> real option" where
  "numeral_val text =
     (let (neg, body) = signed (strip_by is_space text);
          mantissa = takeWhile (\<lambda>c. c \<notin> set ''eE'') body;
          tail = drop (length mantissa) body;
          (eneg, edigits) = signed (drop 1 tail);
          whole = takeWhile (\<lambda>c. c \<noteq> CHR ''.'') mantissa;
          frac = drop (Suc (length whole)) mantissa
      in case (group_val whole, group_val frac, if tail = [] then Some 0 else digits_val False 0 edigits) of
           (Some w, Some f, Some e) \<Rightarrow>
             if whole = [] \<and> frac = [] then None
             else let x = (real w + real f / 10 ^ group_places frac);
                      y = (if eneg then x / 10 ^ e else x * 10 ^ e)
                  in Some (if neg then - y else y)
         | _ \<Rightarrow> None)"

text \<open>\<open>float(text)\<close>\<close>

definition py_float :: "string \<Rightarrow> real option" where
  "py_float text = map_option f64 (numeral_val text)"

text \<open>\<open>int(x)\<close> of a float: towards zero.\<close>

definition trunc :: "real \<Rightarrow> int" where
  "trunc x = (if x < 0 then \<lceil>x\<rceil> else \<lfloor>x\<rfloor>)"

subsection \<open>Tables of numbers\<close>

fun all_some :: "'a option list \<Rightarrow> 'a list option" where
  "all_some [] = Some []"
| "all_some (None # xs) = None"
| "all_some (Some x # xs) = map_option ((#) x) (all_some xs)"

lemma all_some_length: "all_some xs = Some ys \<Longrightarrow> length ys = length xs"
proof (induction xs arbitrary: ys)
  case (Cons x xs)
  then show ?case by (cases x) auto
qed simp

text \<open>\<open>np.loadtxt(path, dtype=d)\<close>: blank lines and comments do not count.\<close>

definition read_number :: "dtype \<Rightarrow> string \<Rightarrow> real option" where
  "read_number d t = map_option (cast d) (py_float t)"

definition loadtxt :: "dtype \<Rightarrow> string \<Rightarrow> real list list option" where
  "loadtxt d text =
     (let rows = filter (\<lambda>ws. ws \<noteq> []) (map (split_ws \<circ> takeWhile (\<lambda>c. c \<noteq> CHR ''#'')) (splitlines text)) in
      case all_some (map (all_some \<circ> map (read_number d)) rows) of
        None \<Rightarrow> None
      | Some vs \<Rightarrow> if \<forall>v \<in> set vs. length v = length (hd vs) then Some vs else None)"

subsection \<open>Fixed-point formatting\<close>

text \<open>\<open>f"{x:w.df}"\<close> and \<open>"%w.df" % x\<close>.\<close>

definition fixed_body :: "nat \<Rightarrow> real \<Rightarrow> string" where
  "fixed_body d x =
     (let n = nat (rint (\<bar>x\<bar> * 10 ^ d)) in
      (if x < 0 then ''-'' else '''') @ decimal (n div 10 ^ d) @
      (if d = 0 then '''' else CHR ''.'' # dec_places d (n mod 10 ^ d)))"

definition pad_left :: "nat \<Rightarrow> string \<Rightarrow> string" where
  "pad_left w s = replicate (w - length s) CHR '' '' @ s"

definition fixed :: "nat \<Rightarrow> nat \<Rightarrow> real \<Rightarrow> string" where
  "fixed w d x = pad_left w (fixed_body d x)"

text \<open>The value a fixed-point text stands for.\<close>

definition fixed_val :: "nat \<Rightarrow> real \<Rightarrow> real" where
  "fixed_val d x = of_int (rint (x * 10 ^ d)) / 10 ^ d"

lemma fixed_val_near: "\<bar>fixed_val d x - x\<bar> \<le> 1 / (2 * 10 ^ d)"
proof -
  have "\<bar>of_int (rint (x * 10 ^ d)) - x * 10 ^ d\<bar> / 10 ^ d \<le> (1 / 2) / 10 ^ d"
    using rint_near by (intro divide_right_mono) simp_all
  moreover have "fixed_val d x - x = (of_int (rint (x * 10 ^ d)) - x * 10 ^ d) / 10 ^ d"
    by (simp add: fixed_val_def diff_divide_distrib)
  then have "\<bar>of_int (rint (x * 10 ^ d)) - x * 10 ^ d\<bar> / 10 ^ d = \<bar>fixed_val d x - x\<bar>"
    by (simp add: abs_divide)
  ultimately show ?thesis by simp
qed

subsection \<open>Splitting what was formatted\<close>

lemma split_ws_blanks: "split_ws (replicate n CHR '' '' @ s) = split_ws s"
  by (induction n) (simp_all add: is_space_def)

lemma split_ws_word:
  assumes "w \<noteq> []" and "\<forall>c \<in> set w. \<not> is_space c" and "s = [] \<or> is_space (hd s)"
  shows "split_ws (w @ s) = w # split_ws s"
proof -
  obtain c cs where w: "w = c # cs" using assms(1) by (cases w) auto
  have "takeWhile (\<lambda>d. \<not> is_space d) (cs @ s) = cs" "dropWhile (\<lambda>d. \<not> is_space d) (cs @ s) = s"
    using assms(2,3) unfolding w by (cases s; auto simp: takeWhile_append2 dropWhile_append2)+
  then show ?thesis using assms(2) by (simp add: w)
qed

subsection \<open>Reading back what was formatted\<close>


lemma digit_char_facts:
  assumes "d < 10"
  shows "digit_val (digit_char d) = Some d" and "\<not> is_space (digit_char d)"
    and "digit_char d \<notin> set ''-+._eE''"
proof -
  have "\<forall>d \<in> set [0..<10]. digit_val (digit_char d) = Some d \<and> \<not> is_space (digit_char d) \<and>
      digit_char d \<notin> set ''-+._eE''"
    by code_simp
  then have all: "digit_val (digit_char d) = Some d \<and> \<not> is_space (digit_char d) \<and> digit_char d \<notin> set ''-+._eE''"
    by (rule bspec) (use assms in simp)
  show "digit_val (digit_char d) = Some d" "\<not> is_space (digit_char d)" "digit_char d \<notin> set ''-+._eE''"
    using all by blast+
qed

definition all_digits :: "string \<Rightarrow> bool" where
  "all_digits s \<longleftrightarrow> (\<forall>c \<in> set s. \<exists>d < 10. c = digit_char d)"

lemma all_digits_simps [simp]:
  "all_digits []" "all_digits (s @ t) \<longleftrightarrow> all_digits s \<and> all_digits t"
  "v < 10 \<Longrightarrow> all_digits [digit_char v]"
  unfolding all_digits_def by auto

lemma all_digits_chars: "all_digits s \<Longrightarrow> c \<in> set s \<Longrightarrow> \<not> is_space c \<and> c \<notin> set ''-+._eE''"
proof -
  assume "all_digits s" and "c \<in> set s"
  then obtain d where "d < 10" "c = digit_char d" by (auto simp: all_digits_def)
  then show "\<not> is_space c \<and> c \<notin> set ''-+._eE''" using digit_char_facts(2,3) [of d] by metis
qed

lemma dec_places_digits [simp]: "all_digits (dec_places n v)" "length (dec_places n v) = n"
  by (induction n arbitrary: v) simp_all

lemma decimal_digits [simp]: "all_digits (decimal v)" "decimal v \<noteq> []"
proof (induction v rule: decimal.induct)
  case (1 v)
  { case 1 show ?case using "1.IH" by (subst decimal.simps) auto }
  { case 2 show ?case by (subst decimal.simps) simp }
qed

lemma digits_val_step:
  "d < 10 \<Longrightarrow> digits_val b acc (digit_char d # cs) = digits_val True (10 * acc + d) cs"
  using digit_char_facts [of d] by simp

lemma digits_val_append:
  assumes "all_digits s"
  shows "digits_val b acc (s @ t) = digits_val (b \<or> s \<noteq> []) (foldl (\<lambda>a c. 10 * a + the (digit_val c)) acc s) t"
  using assms
proof (induction s arbitrary: b acc)
  case (Cons c s)
  then obtain d where d: "d < 10" "c = digit_char d" by (auto simp: all_digits_def)
  have "all_digits s" using Cons.prems by (simp add: all_digits_def)
  then show ?case using Cons.IH digits_val_step [OF d(1)] digit_char_facts(1) [OF d(1)] by (simp add: d(2))
qed simp

lemma digits_val_dec_places:
  "digits_val b acc (dec_places n v) = (if b \<or> 0 < n then Some (acc * 10 ^ n + v mod 10 ^ n) else None)"
proof (induction n arbitrary: v)
  case (Suc n)
  have "v mod (10 * 10 ^ n) = 10 * (v div 10 mod 10 ^ n) + v mod 10"
    by (simp add: mod_mult2_eq)
  moreover have "foldl (\<lambda>a c. 10 * a + the (digit_val c)) acc (dec_places n v) = acc * 10 ^ n + v mod 10 ^ n" for v
  proof (induction n arbitrary: v)
    case (Suc n)
    then show ?case using digit_char_facts(1) [of "v mod 10"] by (simp add: mod_mult2_eq algebra_simps)
  qed simp
  ultimately show ?case
    using digit_char_facts [of "v mod 10"] by (simp add: digits_val_append algebra_simps)
qed simp

lemma digits_val_decimal: "digits_val b 0 (decimal v) = Some v"
proof (induction v arbitrary: b rule: decimal.induct)
  case (1 v)
  show ?case
  proof (cases "v < 10")
    case True
    then show ?thesis using digits_val_step [of v b 0 "[]"] by (simp add: decimal.simps)
  next
    case False
    have all: "digits_val b 0 (decimal u) = Some (foldl (\<lambda>a c. 10 * a + the (digit_val c)) 0 (decimal u))" for u
      using digits_val_append [of "decimal u" b 0 "[]"] by simp
    have "foldl (\<lambda>a c. 10 * a + the (digit_val c)) 0 (decimal (v div 10)) = v div 10"
      using 1 [OF False, of b] unfolding all by simp
    then have "foldl (\<lambda>a c. 10 * a + the (digit_val c)) 0 (decimal v) = v"
      using False digit_char_facts(1) [of "v mod 10"] by (subst decimal.simps) simp
    then show ?thesis using all by simp
  qed
qed


lemma strip_by_none: "\<forall>c \<in> set s. \<not> P c \<Longrightarrow> strip_by P s = s"
proof -
  assume none: "\<forall>c \<in> set s. \<not> P c"
  have keep: "dropWhile P t = t" if "\<forall>c \<in> set t. \<not> P c" for t using that by (cases t) auto
  show ?thesis using keep [OF none] keep [of "rev s"] none by (simp add: strip_by_def)
qed

lemma fixed_body_parts:
  assumes "0 < d"
  shows "fixed_body d x = (if x < 0 then ''-'' else '''') @
    decimal (nat (rint (\<bar>x\<bar> * 10 ^ d)) div 10 ^ d) @ CHR ''.'' # dec_places d (nat (rint (\<bar>x\<bar> * 10 ^ d)) mod 10 ^ d)"
  using assms by (simp add: fixed_body_def Let_def)

lemma sign_point_not_space [simp]: "\<not> is_space CHR ''-''" "\<not> is_space CHR ''.''"
  by (simp_all add: is_space_def)

lemma fixed_body_word: "fixed_body d x \<noteq> [] \<and> (\<forall>c \<in> set (fixed_body d x). \<not> is_space c)"
proof -
  have "\<not> is_space c" if "c \<in> set (decimal v)" for c v
    using all_digits_chars [OF decimal_digits(1) that] by (rule conjunct1)
  moreover have "\<not> is_space c" if "c \<in> set (dec_places n u)" for c n u
    using all_digits_chars [OF dec_places_digits(1) that] by (rule conjunct1)
  ultimately show ?thesis unfolding fixed_body_def Let_def by auto
qed

lemma fixed_val_abs:
  "fixed_val d x = (if x < 0 then - 1 else 1) * real (nat (rint (\<bar>x\<bar> * 10 ^ d))) / 10 ^ d"
proof -
  have "0 \<le> rint (\<bar>x\<bar> * 10 ^ d)" using rint_mono [of 0 "\<bar>x\<bar> * 10 ^ d"] by simp
  moreover have "rint (x * 10 ^ d) = - rint (\<bar>x\<bar> * 10 ^ d)" if "x < 0"
    using that rint_minus [of "x * 10 ^ d"] by simp
  ultimately show ?thesis by (auto simp: fixed_val_def)
qed

lemma numeral_val_unsigned:
  assumes "all_digits w" "all_digits f" "w \<noteq> []"
    and "digits_val False 0 w = Some m" "digits_val False 0 f = Some n" "f \<noteq> []"
    and sign: "s = [] \<or> s = ''-''"
  shows "numeral_val (s @ w @ CHR ''.'' # f) = Some ((if s = [] then 1 else - 1) * (real m + real n / 10 ^ length f))"
proof -
  let ?body = "w @ CHR ''.'' # f"
  have w: "\<forall>c \<in> set w. \<not> is_space c \<and> c \<notin> set ''-+._eE''" and f: "\<forall>c \<in> set f. \<not> is_space c \<and> c \<notin> set ''-+._eE''"
    using assms(1,2) all_digits_chars by blast+
  have "\<not> is_space c" if "c \<in> set w \<or> c \<in> set f" for c using that w f by blast
  then have "\<forall>c \<in> set (s @ ?body). \<not> is_space c" using sign by auto
  then have strip: "strip_by is_space (s @ ?body) = s @ ?body" by (rule strip_by_none)
  obtain c cs where wc: "w = c # cs" using assms(3) by (cases w) auto
  have c: "c \<noteq> CHR ''-'' \<and> c \<noteq> CHR ''+''" using bspec [OF w, of c] by (simp add: wc)
  have signed: "signed (s @ ?body) = (s \<noteq> [], ?body)" using sign c by (auto simp: signed_def wc)
  have "c \<notin> set ''eE''" if "c \<in> set ?body" for c using that w f by (cases "c = CHR ''.''") auto
  then have mantissa: "takeWhile (\<lambda>c. c \<notin> set ''eE'') ?body = ?body" using takeWhile_eq_all_conv by blast
  have "c \<noteq> CHR ''.''" if "c \<in> set w" for c using bspec [OF w that] by simp
  then have whole: "takeWhile (\<lambda>c. c \<noteq> CHR ''.'') ?body = w" by (simp add: takeWhile_append2)
  have "c \<noteq> CHR ''_''" if "c \<in> set f" for c using bspec [OF f that] by simp
  then have places: "group_places f = length f" unfolding group_places_def by (simp add: filter_id_conv)
  have tail: "drop (length ?body) ?body = []" and frac: "drop (Suc (length w)) ?body = f" by simp_all
  show ?thesis
    unfolding numeral_val_def Let_def strip signed prod.case mantissa whole tail frac
    using assms(3-6) places by (simp add: group_val_def signed_def)
qed

lemma nat_split: "real n = real (n div b) * real b + real (n mod b)"
  using arg_cong [OF div_mult_mod_eq [of n b, symmetric], of real] by (simp only: of_nat_add of_nat_mult)

lemma numeral_val_fixed:
  assumes "0 < d"
  shows "numeral_val (fixed_body d x) = Some (fixed_val d x)"
proof -
  define n where "n = nat (rint (\<bar>x\<bar> * 10 ^ d))"
  define s where "s = (if x < 0 then ''-'' else '''')"
  let ?W = "decimal (n div 10 ^ d)" and ?F = "dec_places d (n mod 10 ^ d)"
  have s: "s = [] \<or> s = ''-''" by (simp add: s_def)
  have body: "fixed_body d x = s @ ?W @ CHR ''.'' # ?F"
    using fixed_body_parts [OF assms] by (simp add: n_def s_def)
  have "length ?F \<noteq> 0" using assms by simp
  then have F: "?F \<noteq> []" by (simp only: length_0_conv not_False_eq_True)
  have val: "digits_val False 0 ?F = Some (n mod 10 ^ d)" using assms by (simp add: digits_val_dec_places)
  have "numeral_val (fixed_body d x) =
      Some ((if s = [] then 1 else - 1) * (real (n div 10 ^ d) + real (n mod 10 ^ d) / 10 ^ length ?F))"
    unfolding body
    by (rule numeral_val_unsigned [OF decimal_digits(1) dec_places_digits(1) decimal_digits(2) digits_val_decimal val F s])
  moreover have "real (n div 10 ^ d) + real (n mod 10 ^ d) / 10 ^ d = real n / 10 ^ d"
    using nat_split [of n "10 ^ d"] by (simp add: field_simps)
  moreover have "length ?F = d" by (rule dec_places_digits(2))
  ultimately show ?thesis unfolding fixed_val_abs n_def [symmetric] by (simp add: s_def)
qed

text \<open>The width a number needs.\<close>

lemma decimal_length: "v < 10 ^ k \<Longrightarrow> 0 < k \<Longrightarrow> length (decimal v) \<le> k"
proof (induction v arbitrary: k rule: decimal.induct)
  case (1 v)
  show ?case
  proof (cases "v < 10")
    case False
    obtain j where k: "k = Suc j" using "1.prems" by (cases k) auto
    have "0 < j" using False "1.prems"(1) unfolding k by (cases j) auto
    moreover have "v div 10 < 10 ^ j" using "1.prems"(1) unfolding k by (simp add: less_mult_imp_div_less mult.commute)
    ultimately have "length (decimal (v div 10)) \<le> j" using "1.IH" [OF False] by blast
    then show ?thesis using False k by (subst decimal.simps) simp
  qed (use 1 in \<open>simp add: decimal.simps\<close>)
qed

lemma fixed_body_length:
  assumes "0 < d" and "\<bar>x\<bar> * 10 ^ d \<le> of_int m" and "nat m < 10 ^ (k + d)" and "0 < k"
  shows "length (fixed_body d x) \<le> k + d + (if x < 0 then 2 else 1)"
proof -
  define n where "n = nat (rint (\<bar>x\<bar> * 10 ^ d))"
  have "rint (\<bar>x\<bar> * 10 ^ d) \<le> m" using rint_mono [OF assms(2)] by simp
  then have "n < 10 ^ (k + d)" unfolding n_def using assms(3) by linarith
  then have "n div 10 ^ d < 10 ^ k" by (simp add: less_mult_imp_div_less power_add)
  then have "length (decimal (n div 10 ^ d)) \<le> k" using assms(4) by (rule decimal_length)
  then show ?thesis unfolding fixed_body_parts [OF assms(1)] n_def [symmetric] by simp
qed

subsection \<open>Tables that were formatted\<close>

lemma splitlines_line:
  "\<forall>c \<in> set w. \<not> is_line_end c \<Longrightarrow> splitlines (w @ CHR 0x0A # rest) = w # splitlines rest"
proof (induction w)
  case Nil
  then show ?case by (simp add: is_line_end_def)
qed simp

lemma splitlines_lines:
  "\<forall>w \<in> set ws. \<forall>c \<in> set w. \<not> is_line_end c \<Longrightarrow> splitlines (concat (map (\<lambda>w. w @ [CHR 0x0A]) ws)) = ws"
  by (induction ws) (simp_all add: splitlines_line)

lemma line_end_space: "is_line_end c \<Longrightarrow> is_space c"
  by (auto simp: is_line_end_def is_space_def)

lemma all_some_map: "\<forall>x \<in> set xs. f x = Some (g x) \<Longrightarrow> all_some (map f xs) = Some (map g xs)"
  by (induction xs) simp_all

text \<open>Words that survive a table: no white space, no comment sign, less than the column's width.\<close>

definition table_word :: "nat \<Rightarrow> string \<Rightarrow> bool" where
  "table_word width w \<longleftrightarrow> w \<noteq> [] \<and> length w < width \<and> (\<forall>c \<in> set w. \<not> is_space c \<and> c \<noteq> CHR ''#'')"

definition table_row :: "(nat \<times> string) list \<Rightarrow> string" where
  "table_row ws = concat (map (\<lambda>(width, w). pad_left width w) ws)"

lemma table_row_chars:
  assumes "\<forall>(width, w) \<in> set ws. table_word width w" and "c \<in> set (table_row ws)"
  shows "c \<noteq> CHR ''#'' \<and> \<not> is_line_end c"
proof -
  obtain width w where w: "table_word width w" "c \<in> set (pad_left width w)"
    using assms by (auto simp: table_row_def)
  have blank: "CHR '' '' \<noteq> CHR ''#'' \<and> \<not> is_line_end CHR '' ''" by (simp add: is_line_end_def)
  from w(2) have "c = CHR '' '' \<or> c \<in> set w" by (auto simp: pad_left_def)
  then show ?thesis
  proof
    assume "c \<in> set w"
    then show ?thesis using w(1) line_end_space unfolding table_word_def by blast
  qed (use blank in simp)
qed

lemma table_row_hd:
  assumes "\<forall>(width, w) \<in> set ws. table_word width w" and "s = [] \<or> is_space (hd s)"
  shows "table_row ws @ s = [] \<or> is_space (hd (table_row ws @ s))"
proof (cases ws)
  case (Cons y ys)
  obtain n v where y: "y = (n, v)" by fastforce
  then have "0 < n - length v" using assms Cons by (simp add: table_word_def)
  then have "n - length v = Suc (n - length v - 1)" by linarith
  then have "pad_left n v = CHR '' '' # replicate (n - length v - 1) CHR '' '' @ v"
    unfolding pad_left_def by (metis append_Cons replicate_Suc)
  then show ?thesis by (simp add: table_row_def Cons y is_space_def)
qed (use assms(2) in \<open>simp add: table_row_def\<close>)

text \<open>Fields that all start with a blank come apart again.\<close>

lemma split_ws_table_row:
  assumes "\<forall>(width, w) \<in> set ws. table_word width w" and "s = [] \<or> is_space (hd s)"
  shows "split_ws (table_row ws @ s) = map snd ws @ split_ws s"
  using assms(1)
proof (induction ws)
  case Nil
  then show ?case by (simp add: table_row_def)
next
  case (Cons x ws)
  obtain width w where x: "x = (width, w)" by fastforce
  have ih: "split_ws (table_row ws @ s) = map snd ws @ split_ws s" using Cons by simp
  have "table_row ws @ s = [] \<or> is_space (hd (table_row ws @ s))"
    using Cons.prems assms(2) by (intro table_row_hd) simp_all
  then have "split_ws (w @ table_row ws @ s) = w # split_ws (table_row ws @ s)"
    using Cons.prems x by (intro split_ws_word) (auto simp: table_word_def)
  then show ?case using ih by (simp add: table_row_def x pad_left_def split_ws_blanks)
qed

lemma split_ws_table:
  assumes "\<forall>ws \<in> set rows. \<forall>(width, w) \<in> set ws. table_word width w"
  shows "split_ws (concat (map (\<lambda>ws. table_row ws @ [CHR 0x0A]) rows)) = concat (map (map snd) rows)"
  using assms
proof (induction rows)
  case (Cons ws rows)
  have "is_space CHR 0x0A" by (simp add: is_space_def)
  then show ?case using Cons split_ws_table_row [of ws "CHR 0x0A # concat (map (\<lambda>ws. table_row ws @ [CHR 0x0A]) rows)"]
    by simp
qed simp

lemma loadtxt_table:
  assumes "\<forall>ws \<in> set rows. ws \<noteq> [] \<and> length ws = n \<and> (\<forall>(width, w) \<in> set ws. table_word width w)"
    and "\<forall>ws \<in> set rows. \<forall>(width, w) \<in> set ws. read_number d w = Some (val w)"
  shows "loadtxt d (concat (map (\<lambda>ws. table_row ws @ [CHR 0x0A]) rows)) = Some (map (map (val \<circ> snd)) rows)"
proof -
  let ?words = "\<lambda>ws. split_ws (takeWhile (\<lambda>c. c \<noteq> CHR ''#'') (table_row ws))"
  have lines: "splitlines (concat (map (\<lambda>ws. table_row ws @ [CHR 0x0A]) rows)) = map table_row rows"
    using splitlines_lines [of "map table_row rows"] table_row_chars assms(1) by (fastforce simp: o_def)
  have "takeWhile (\<lambda>c. c \<noteq> CHR ''#'') (table_row ws) = table_row ws" if "ws \<in> set rows" for ws
    using table_row_chars assms(1) that by (intro takeWhile_eq_all_conv [THEN iffD2]) blast
  then have words: "?words ws = map snd ws" if "ws \<in> set rows" for ws
    using split_ws_table_row [of ws "[]"] assms(1) that by (metis append.right_neutral split_ws.simps(1))
  then have rows: "filter (\<lambda>ws. ws \<noteq> []) (map ?words rows) = map (map snd) rows"
    using assms(1) by (auto simp: filter_id_conv cong: map_cong)
  have "all_some (map (read_number d) (map snd ws)) = Some (map (val \<circ> snd) ws)" if "ws \<in> set rows" for ws
  proof -
    have "(read_number d \<circ> snd) x = Some ((val \<circ> snd) x)" if "x \<in> set ws" for x
      using bspec [OF bspec [OF assms(2) \<open>ws \<in> set rows\<close>] that] by (cases x) simp
    then have "\<forall>x \<in> set ws. (read_number d \<circ> snd) x = Some ((val \<circ> snd) x)" by blast
    then show ?thesis using all_some_map by (metis map_map)
  qed
  then have "all_some (map (\<lambda>ws. all_some (map (read_number d) (map snd ws))) rows) = Some (map (map (val \<circ> snd)) rows)"
    by (intro all_some_map) simp
  moreover have "length v = length (hd (map (map (val \<circ> snd)) rows))" if v: "v \<in> set (map (map (val \<circ> snd)) rows)" for v
  proof -
    from v have "rows \<noteq> []" by auto
    then have "hd rows \<in> set rows" by simp
    then show ?thesis using v assms(1) \<open>rows \<noteq> []\<close> by (auto simp: hd_map)
  qed
  ultimately show ?thesis
    using rows by (simp add: loadtxt_def lines o_def)
qed

lemma fixed_word:
  assumes "0 < d" and "\<bar>x\<bar> * 10 ^ d \<le> of_int m" and "nat m < 10 ^ (k + d)" and "0 < k"
    and "k + d + (if x < 0 then 2 else 1) < width"
  shows "table_word width (fixed_body d x)"
proof -
  have "c \<noteq> CHR ''#''" if "c \<in> set (fixed_body d x)" for c
  proof -
    have "digit_char e \<noteq> CHR ''#''" if "e < 10" for e
    proof -
      have "\<forall>e \<in> set [0..<10]. digit_char e \<noteq> CHR ''#''" by code_simp
      then show ?thesis using that by simp
    qed
    moreover have "\<exists>e < 10. b = digit_char e" if "b \<in> set (decimal u) \<or> b \<in> set (dec_places n u)" for b n u
      using that decimal_digits(1) [of u] dec_places_digits(1) [of n u] by (auto simp: all_digits_def)
    ultimately show ?thesis using that unfolding fixed_body_parts [OF assms(1)] by (fastforce split: if_splits)
  qed
  moreover have "length (fixed_body d x) < width" using fixed_body_length [OF assms(1-4)] assms(5) by linarith
  ultimately show ?thesis using fixed_body_word by (simp add: table_word_def)
qed

lemma read_number_fixed: "0 < d \<Longrightarrow> read_number t (fixed_body d x) = Some (cast t (f64 (fixed_val d x)))"
  by (simp add: read_number_def py_float_def numeral_val_fixed)

text \<open>Integers as \<open>str\<close> writes them.\<close>

definition int_text :: "int \<Rightarrow> string" where
  "int_text n = (if n < 0 then ''-'' else '''') @ decimal (nat \<bar>n\<bar>)"

lemma numeral_val_digits:
  assumes "all_digits w" "w \<noteq> []" "digits_val False 0 w = Some m" and sign: "s = [] \<or> s = ''-''"
  shows "numeral_val (s @ w) = Some ((if s = [] then 1 else - 1) * real m)"
proof -
  have w: "\<forall>c \<in> set w. \<not> is_space c \<and> c \<notin> set ''-+._eE''" using assms(1) all_digits_chars by blast
  then have "\<not> is_space c" if "c \<in> set w" for c using that by blast
  then have "\<forall>c \<in> set (s @ w). \<not> is_space c" using sign by auto
  then have strip: "strip_by is_space (s @ w) = s @ w" by (rule strip_by_none)
  obtain c cs where wc: "w = c # cs" using assms(2) by (cases w) auto
  have c: "c \<noteq> CHR ''-'' \<and> c \<noteq> CHR ''+''" using bspec [OF w, of c] by (simp add: wc)
  have signed: "signed (s @ w) = (s \<noteq> [], w)" using sign c by (auto simp: signed_def wc)
  have "c \<notin> set ''eE''" if "c \<in> set w" for c using bspec [OF w that] by simp
  then have mantissa: "takeWhile (\<lambda>c. c \<notin> set ''eE'') w = w" using takeWhile_eq_all_conv by blast
  have "c \<noteq> CHR ''.''" if "c \<in> set w" for c using bspec [OF w that] by simp
  then have whole: "takeWhile (\<lambda>c. c \<noteq> CHR ''.'') w = w" using takeWhile_eq_all_conv by blast
  have tail: "drop (length w) w = []" and frac: "drop (Suc (length w)) w = []" by simp_all
  show ?thesis
    unfolding numeral_val_def Let_def strip signed prod.case mantissa whole tail frac
    using assms(2,3) by (simp add: group_val_def signed_def group_places_def)
qed

lemma numeral_val_int: "numeral_val (int_text n) = Some (of_int n)"
proof (cases "n < 0")
  case True
  have "numeral_val (''-'' @ decimal (nat \<bar>n\<bar>)) = Some ((if ''-'' = [] then 1 else - 1) * real (nat \<bar>n\<bar>))"
    by (rule numeral_val_digits [OF decimal_digits digits_val_decimal]) simp
  then show ?thesis using True by (simp add: int_text_def)
next
  case False
  then show ?thesis
    using numeral_val_digits [OF decimal_digits digits_val_decimal, of "[]" "nat \<bar>n\<bar>"] by (simp add: int_text_def)
qed

lemma int_text_word: "int_text n \<noteq> [] \<and> (\<forall>c \<in> set (int_text n). \<not> is_space c)"
proof -
  have "\<not> is_space c" if "c \<in> set (decimal v)" for c v
    using all_digits_chars [OF decimal_digits(1) that] by (rule conjunct1)
  then show ?thesis by (auto simp: int_text_def)
qed

text \<open>
  \<open>repr\<close> of a float: the fewest significant digits that read back as it, positional for exponents
  -4 to 15.
\<close>

definition digits_of :: "real \<Rightarrow> nat \<Rightarrow> int \<times> nat" where
  "digits_of x n =
     (let e = \<lfloor>log 10 \<bar>x\<bar>\<rfloor>; d = nat (rint (\<bar>x\<bar> * 10 powr of_int (int n - 1 - e)))
      in if d = 10 ^ n then (e + 1, 10 ^ (n - 1)) else (e, d))"

definition shortest :: "real \<Rightarrow> nat" where
  "shortest x =
     (case filter (\<lambda>n. let (e, d) = digits_of x n in f64 (real d * 10 powr of_int (e - int n + 1)) = \<bar>x\<bar>) [1..<17] of
        [] \<Rightarrow> 17 | n # _ \<Rightarrow> n)"

definition py_repr :: "real \<Rightarrow> string" where
  "py_repr x =
     (if x = 0 then ''0.0''
      else let n = shortest x; (e, d) = digits_of x n; ds = dec_places n d; sign = (if x < 0 then ''-'' else '''') in
        if e < -4 \<or> 16 \<le> e
        then sign @ take 1 ds @ (if n = 1 then '''' else ''.'' @ drop 1 ds) @ (if e < 0 then ''e-'' else ''e+'') @
             (if \<bar>e\<bar> < 100 then dec_places 2 (nat \<bar>e\<bar>) else decimal (nat \<bar>e\<bar>))
        else if e < 0 then sign @ ''0.'' @ replicate (nat (- e) - 1) CHR ''0'' @ ds
        else if int n \<le> e + 1 then sign @ ds @ replicate (nat (e + 1) - n) CHR ''0'' @ ''.0''
        else sign @ take (nat (e + 1)) ds @ ''.'' @ drop (nat (e + 1)) ds)"

end
