(* ===== verification/Files.thy ===== *)
theory Files
  imports PyText Errors
begin

text \<open>
  The workspace: paths, what a file holds, and \<open>atomic_write\<close> (tsdhn/utils/file_utils.py). A
  file is text, or an archive of named numpy arrays as \<open>np.savez\<close> writes it (the tsunami
  checkpoint); an array is its shape, its type and the function of its index. A program that
  works on the files may raise, and it may be killed at any moment: \<open>Killed\<close> is an outcome of
  every operation, with whatever it had done by then.
\<close>

subsection \<open>Contents\<close>

type_synonym field = "nat \<Rightarrow> nat \<Rightarrow> real"

datatype entry =
    Scalar int
  | Grid nat nat dtype field
  | Vector "real list"
  | Table nat nat "real list list"

datatype content = Text string | Npz "string \<Rightarrow> entry option"

text \<open>\<open>path.read_text()\<close>; an archive is not text.\<close>

definition text_of :: "content option \<Rightarrow> exn + string" where
  "text_of c =
     (case c of
        None \<Rightarrow> Inl (FileNotFoundError ''file'')
      | Some (Npz _) \<Rightarrow> Inl (ValueError ''UnicodeDecodeError'')
      | Some (Text t) \<Rightarrow> Inr t)"

lemma text_of_Text [simp]: "text_of (Some (Text t)) = Inr t"
  by (simp add: text_of_def)

subsection \<open>Paths\<close>

type_synonym fs_path = "string list"
type_synonym workspace = "fs_path \<Rightarrow> content option"

fun split_on :: "char \<Rightarrow> string \<Rightarrow> string list" where
  "split_on c [] = [[]]"
| "split_on c (x # xs) =
     (if x = c then [] # split_on c xs
      else (case split_on c xs of [] \<Rightarrow> [[x]] | w # ws \<Rightarrow> (x # w) # ws))"

definition under :: "fs_path \<Rightarrow> string \<Rightarrow> fs_path" where
  "under dir rel = foldl (\<lambda>p c. if c = ''..'' then butlast p else p @ [c]) dir (split_on (CHR ''/'') rel)"

text \<open>\<open>path.with_name(f"{path.name}.tmp")\<close>: a sibling.\<close>

definition tmp_sibling :: "fs_path \<Rightarrow> fs_path" where
  "tmp_sibling p = butlast p @ [last p @ ''.tmp'']"

subsection \<open>Outcomes\<close>

datatype 'a ending = Ret "exn + 'a" | Killed

definition and_then ::
  "'a ending \<times> 's \<Rightarrow> ('a \<Rightarrow> 's \<Rightarrow> 'b ending \<times> 's) \<Rightarrow> 'b ending \<times> 's" where
  "and_then r f =
     (case r of (Ret (Inr a), s) \<Rightarrow> f a s | (Ret (Inl e), s) \<Rightarrow> (Ret (Inl e), s) | (Killed, s) \<Rightarrow> (Killed, s))"

subsection \<open>\<open>atomic_write\<close>\<close>

text \<open>
  \<open>body\<close> is the block under \<open>with\<close>, given the temporary path. \<open>cut\<close>: killed between the end of
  the block and the rename.
\<close>

definition atomic_write ::
  "fs_path \<Rightarrow> (fs_path \<Rightarrow> workspace \<Rightarrow> unit ending \<times> workspace) \<Rightarrow> bool \<Rightarrow> workspace \<Rightarrow> unit ending \<times> workspace" where
  "atomic_write p body killed fs =
     (let tmp = tmp_sibling p in
      case body tmp fs of
        (Killed, fs') \<Rightarrow> (Killed, fs')
      | (Ret (Inl e), fs') \<Rightarrow> (Ret (Inl e), fs'(tmp := None))
      | (Ret (Inr u), fs') \<Rightarrow>
          if killed then (Killed, fs') else (Ret (Inr u), fs'(p := fs' tmp, tmp := None)))"

subsection \<open>Sequencing\<close>

lemma and_then_simps [simp]:
  "and_then (Ret (Inr a), s) f = f a s" "and_then (Ret (Inl e), s) f = (Ret (Inl e), s)"
  "and_then (Killed, s) f = (Killed, s)"
  by (simp_all add: and_then_def)

lemma and_then_cases:
  assumes "and_then r f = (q, s')"
  obtains (stop) s where "r = (Killed, s)" "q = Killed" "s' = s"
  | (fail) e s where "r = (Ret (Inl e), s)" "q = Ret (Inl e)" "s' = s"
  | (go) a s where "r = (Ret (Inr a), s)" "f a s = (q, s')"
  using assms by (auto simp: and_then_def split: prod.splits ending.splits sum.splits)

text \<open>An invariant of the state passes through a sequence.\<close>

lemma and_then_inv:
  assumes "and_then r f = (q, s')" and "I (snd r)"
    and "\<And>a s q' s''. r = (Ret (Inr a), s) \<Longrightarrow> I s \<Longrightarrow> f a s = (q', s'') \<Longrightarrow> I s''"
  shows "I s'"
  using assms(1)
proof (cases rule: and_then_cases)
  case (go a s)
  then show ?thesis using assms(2,3) by simp
qed (use assms(2) in simp_all)

subsection \<open>Atomic writes\<close>

lemma tmp_sibling_neq: "p \<noteq> [] \<Longrightarrow> tmp_sibling p \<noteq> p"
proof
  assume p: "p \<noteq> []" and "tmp_sibling p = p"
  then have "last (butlast p @ [last p @ ''.tmp'']) = last p" by (simp add: tmp_sibling_def)
  then show False by simp
qed



end
