(* ===== verification/ModelStore.thy ===== *)
theory ModelStore
  imports Files "HOL-Library.Sublist"
begin

text \<open>
  The model's input files: where a process finds them (tsdhn/runtime.py) and how a dataset is installed
  (tsdhn/assets.py). A file system is a finite table from absolute paths to nodes, without links;
  the download, the digest, the unpacking of the archive and the parsing of its manifest are
  arguments.
\<close>

subsection \<open>File systems\<close>

datatype node = Dir | File string

type_synonym disk = "(fs_path \<times> node) list"

definition exists_at :: "disk \<Rightarrow> fs_path \<Rightarrow> bool" where "exists_at d p = (map_of d p \<noteq> None)"
definition is_dir :: "disk \<Rightarrow> fs_path \<Rightarrow> bool" where "is_dir d p = (map_of d p = Some Dir)"
definition is_file :: "disk \<Rightarrow> fs_path \<Rightarrow> bool" where "is_file d p = (\<exists>c. map_of d p = Some (File c))"

lemma is_file_code [code]: "is_file d p = (case map_of d p of Some (File c) \<Rightarrow> True | _ \<Rightarrow> False)"
  by (auto simp: is_file_def split: option.split node.split)

text \<open>\<open>rmtree\<close>, \<open>rename\<close> of a directory onto a free name, \<open>mkdir(parents=True, exist_ok=True)\<close>.\<close>

definition rmtree :: "fs_path \<Rightarrow> disk \<Rightarrow> disk" where
  "rmtree p d = filter (\<lambda>(q, n). \<not> prefix p q) d"

definition rename_dir :: "fs_path \<Rightarrow> fs_path \<Rightarrow> disk \<Rightarrow> disk" where
  "rename_dir src dst d = map (\<lambda>(q, n). (if prefix src q then dst @ drop (length src) q else q, n)) d"

definition mkdirs :: "fs_path \<Rightarrow> disk \<Rightarrow> disk" where
  "mkdirs p d = foldl (\<lambda>d q. if exists_at d q then d else (q, Dir) # d) d (prefixes p)"

text \<open>\<open>root / text\<close> as the system resolves it: an absolute text replaces the base, \<open>..\<close> goes up.\<close>

fun resolve_parts :: "fs_path \<Rightarrow> string list \<Rightarrow> fs_path" where
  "resolve_parts p [] = p"
| "resolve_parts p (s # ss) =
     (if s = '''' \<or> s = ''.'' then resolve_parts p ss
      else if s = ''..'' then resolve_parts (butlast p) ss
      else resolve_parts (p @ [s]) ss)"

definition join_path :: "fs_path \<Rightarrow> string \<Rightarrow> fs_path" where
  "join_path base text = resolve_parts (if take 1 text = ''/'' then [] else base) (split_on CHR ''/'' text)"

subsection \<open>Datasets\<close>

definition REQUIRED_MODEL_DIRS :: "string list" where
  "REQUIRED_MODEL_DIRS = [''bathy'', ''ttt_mundo'']"

definition REQUIRED_MODEL_FILES :: "string list" where
  "REQUIRED_MODEL_FILES =
     [''pacifico.mat'', ''maper1.mat'', ''mecfoc.dat'', ''tidal.dat'', ''bathy/grid_a.grd'', ''bathy/xa.dat'', ''bathy/ya.dat'',
      ''ttt_mundo/cortado.i2'']"

definition missing_model_entries :: "disk \<Rightarrow> fs_path \<Rightarrow> string list" where
  "missing_model_entries d p =
     map (\<lambda>n. n @ ''/'') (filter (\<lambda>n. \<not> is_dir d (join_path p n)) REQUIRED_MODEL_DIRS) @
     filter (\<lambda>n. \<not> is_file d (join_path p n)) REQUIRED_MODEL_FILES"

definition validate_model_dir :: "disk \<Rightarrow> fs_path \<Rightarrow> exn + fs_path" where
  "validate_model_dir d p =
     (if missing_model_entries d p = [] then Inr p
      else Inl (RuntimeError (''Invalid TSDHN model directory. Missing: '' @ concat (map (\<lambda>n. n @ '', '') (missing_model_entries d p)))))"

record model_dataset =
  ds_version :: string
  ds_path :: fs_path
  ds_managed :: bool

text \<open>\<open>TSDHN_DATA_HOME\<close>, \<open>XDG_DATA_HOME\<close>, the home directory: an empty variable counts as unset.\<close>

definition default_data_root :: "(string \<rightharpoonup> fs_path) \<Rightarrow> fs_path \<Rightarrow> fs_path" where
  "default_data_root env home =
     (case env ''TSDHN_DATA_HOME'' of
        Some p \<Rightarrow> p
      | None \<Rightarrow> (case env ''XDG_DATA_HOME'' of Some p \<Rightarrow> p @ [''tsdhn''] | None \<Rightarrow> home @ [''.local'', ''share'', ''tsdhn'']))"

definition dataset_dir :: "fs_path \<Rightarrow> string \<Rightarrow> fs_path" where
  "dataset_dir base version = join_path (base @ [''models'']) version"

definition resolve_installed :: "disk \<Rightarrow> fs_path \<Rightarrow> string \<Rightarrow> exn + model_dataset option" where
  "resolve_installed d base version =
     (let p = dataset_dir base version in
      if \<not> exists_at d p then Inr None
      else bind_ok (validate_model_dir d p) (\<lambda>p. Inr (Some \<lparr> ds_version = version, ds_path = p, ds_managed = True \<rparr>)))"

text \<open>\<open>status\<close>: whether a version is installed, and what is missing.\<close>

definition store_status :: "disk \<Rightarrow> fs_path \<Rightarrow> string \<Rightarrow> bool \<times> string list" where
  "store_status d base version =
     (let p = dataset_dir base version; missing = missing_model_entries d p in (exists_at d p \<and> missing = [], missing))"

text \<open>
  \<open>resolve_model_dir\<close>: an explicit directory, then \<open>TSDHN_MODEL_DIR\<close>, then the installed dataset of
  the version; the package's own version when none is given.
\<close>

definition resolve_model_dir ::
  "disk \<Rightarrow> fs_path \<Rightarrow> string \<Rightarrow> fs_path option \<Rightarrow> fs_path option \<Rightarrow> string option \<Rightarrow> exn + (fs_path \<times> string)" where
  "resolve_model_dir d base package explicit env requested =
     (let version = (case requested of None \<Rightarrow> package | Some v \<Rightarrow> if v = '''' then package else v) in
      case explicit of
        Some p \<Rightarrow> bind_ok (validate_model_dir d p) (\<lambda>p. Inr (p, version))
      | None \<Rightarrow>
          (case env of
             Some p \<Rightarrow> bind_ok (validate_model_dir d p) (\<lambda>p. Inr (p, version))
           | None \<Rightarrow>
               bind_ok (resolve_installed d base version) (\<lambda>found.
                 case found of
                   Some ds \<Rightarrow> Inr (ds_path ds, ds_version ds)
                 | None \<Rightarrow> Inl (RuntimeError ''TSDHN model assets are not installed.''))))"

subsection \<open>Installation\<close>

text \<open>
  \<open>fetch\<close> answers the archive for a URL; \<open>sha256\<close> its digest; \<open>unpack\<close> its entries, relative to the
  staging directory, or those written before it raised; \<open>manifest_root\<close> is \<open>model_root\<close> of a
  manifest's text, when it is an object with a text there, or the exception of \<open>json.loads\<close>.
\<close>

record source =
  fetch :: "string \<Rightarrow> exn + string"
  sha256 :: "string \<Rightarrow> string"
  unpack :: "string \<Rightarrow> disk \<times> exn option"
  manifest_root :: "string \<Rightarrow> exn + string option"

definition no_dataset :: exn where
  "no_dataset = RuntimeError ''Downloaded archive does not contain a valid TSDHN model dataset''"

definition child_dirs :: "disk \<Rightarrow> fs_path \<Rightarrow> fs_path list" where
  "child_dirs d p = remdups (filter (\<lambda>q. q \<noteq> [] \<and> butlast q = p \<and> is_dir d q) (map fst d))"

definition find_model_root :: "(string \<Rightarrow> exn + string option) \<Rightarrow> disk \<Rightarrow> fs_path \<Rightarrow> exn + fs_path" where
  "find_model_root parse d base =
     (if missing_model_entries d base = [] then Inr base
      else let candidates = child_dirs d base in
        if length candidates = 1 \<and> missing_model_entries d (hd candidates) = [] then Inr (hd candidates)
        else case map_of d (base @ [''manifest.json'']) of
          Some (File text) \<Rightarrow>
            bind_ok (parse text) (\<lambda>found.
              case found of
                None \<Rightarrow> Inl no_dataset
              | Some model_root \<Rightarrow>
                  if missing_model_entries d (join_path base model_root) = [] then Inr (join_path base model_root) else Inl no_dataset)
        | _ \<Rightarrow> Inl no_dataset)"

definition staging_dir :: "fs_path \<Rightarrow> fs_path" where
  "staging_dir target = butlast target @ [CHR ''.'' # last target @ ''.tmp'']"

definition unpacked_at :: "fs_path \<Rightarrow> disk \<Rightarrow> disk" where
  "unpacked_at staging entries = map (\<lambda>(q, n). (staging @ q, n)) entries"

text \<open>
  \<open>_extract_model_archive\<close>; \<open>rename_fault\<close> is the exception of the final rename, if it raises. A
  directory that is gone, or that holds the target, cannot be renamed onto it.
\<close>

definition extract_model_archive ::
  "source \<Rightarrow> exn option \<Rightarrow> string \<Rightarrow> fs_path \<Rightarrow> disk \<Rightarrow> (exn + unit) \<times> disk" where
  "extract_model_archive src rename_fault archive target d =
     (let staging = staging_dir target;
          d1 = mkdirs staging (rmtree staging d);
          (entries, fault) = unpack src archive;
          d2 = unpacked_at staging entries @ d1
      in case fault of
           Some e \<Rightarrow> (Inl e, d2)
         | None \<Rightarrow>
             (case find_model_root (manifest_root src) d2 staging of
                Inl e \<Rightarrow> (Inl e, d2)
              | Inr base \<Rightarrow>
                  let d3 = rmtree target d2 in
                  if rename_fault \<noteq> None then (Inl (the rename_fault), d3)
                  else if \<not> is_dir d3 base then (Inl (FileNotFoundError ''''), d3)
                  else if prefix base target then (Inl OSError, d3)
                  else (Inr (), rmtree staging (rename_dir base target d3))))"

definition release_asset_url :: "string \<Rightarrow> string \<Rightarrow> string" where
  "release_asset_url repository version =
     ''https://github.com/'' @ repository @ ''/releases/download/v'' @ version @ ''/tsdhn-model-v'' @ version @ ''.tar.gz''"

text \<open>
  \<open>urlparse(url).scheme == "https"\<close>: leading blanks and control characters are dropped, tabs and line
  ends removed, and the scheme is compared in lower case.
\<close>

definition lower :: "char \<Rightarrow> char" where
  "lower c = (let n = (of_char c :: nat) in if 65 \<le> n \<and> n \<le> 90 then char_of (n + 32) else c)"

definition clean_url :: "string \<Rightarrow> string" where
  "clean_url url = filter (\<lambda>c. c \<notin> {CHR 0x09, CHR 0x0A, CHR 0x0D}) (dropWhile (\<lambda>c. (of_char c :: nat) \<le> 32) url)"

definition https_url :: "string \<Rightarrow> bool" where
  "https_url url \<longleftrightarrow>
     (let u = clean_url url in CHR '':'' \<in> set u \<and> map lower (takeWhile (\<lambda>c. c \<noteq> CHR '':'') u) = ''https'')"

definition install ::
  "source \<Rightarrow> string \<Rightarrow> exn option \<Rightarrow> fs_path \<Rightarrow> string \<Rightarrow> string option \<Rightarrow> string option \<Rightarrow> bool \<Rightarrow> disk
   \<Rightarrow> (exn + model_dataset) \<times> disk" where
  "install src repository rename_fault base version url digest force d =
     (let target = dataset_dir base version;
          dataset = \<lparr> ds_version = version, ds_path = target, ds_managed = True \<rparr>;
          archive_url = (case url of None \<Rightarrow> release_asset_url repository version
            | Some u \<Rightarrow> if u = '''' then release_asset_url repository version else u)
      in if exists_at d target \<and> \<not> force then (map_sum id (\<lambda>_. dataset) (validate_model_dir d target), d)
         else let d0 = mkdirs (butlast target) (mkdirs base d) in
           if \<not> https_url archive_url then (Inl (ValueError ''Model downloads require an HTTPS URL''), d0)
           else case fetch src archive_url of
             Inl e \<Rightarrow> (Inl e, d0)
           | Inr archive \<Rightarrow>
               if digest \<noteq> None \<and> digest \<noteq> Some (sha256 src archive)
               then (Inl (RuntimeError ''Model archive checksum mismatch''), d0)
               else case extract_model_archive src rename_fault archive target d0 of
                 (Inl e, d1) \<Rightarrow> (Inl e, d1)
               | (Inr _, d1) \<Rightarrow> (map_sum id (\<lambda>_. dataset) (validate_model_dir d1 target), d1))"

end
