(* ===== verification/SettingsLaws.thy ===== *)
theory SettingsLaws
  imports Settings
begin

text \<open>
  Laws of the configuration: a runtime role's URL connects as that role to the same place, whatever
  bytes its name and password hold; the pools are large enough.
\<close>

subsection \<open>Quoting\<close>

definition hex_value :: "char \<Rightarrow> nat" where
  "hex_value c = (let n = (of_char c :: nat) in if n < 58 then n - 48 else n - 55)"

text \<open>What a client does with a quoted text, \<open>urllib.parse.unquote\<close> on well-formed escapes.\<close>

fun unquote :: "string \<Rightarrow> string" where
  "unquote [] = []"
| "unquote (c # a # b # cs) =
     (if c = CHR ''%'' then char_of (16 * hex_value a + hex_value b) # unquote cs else c # unquote (a # b # cs))"
| "unquote (c # cs) = c # unquote cs"

lemma unquote_plain: "c \<noteq> CHR ''%'' \<Longrightarrow> unquote (c # cs) = c # unquote cs"
  by (cases "c # cs" rule: unquote.cases) auto

lemma hex_value_digit: "n < 16 \<Longrightarrow> hex_value (hex_digit n) = n"
  by (auto simp: hex_value_def hex_digit_def Let_def)

lemma unquote_quote_char: "unquote (quote_char c @ cs) = c # unquote cs"
proof (cases "unreserved c")
  case True
  then have "c \<noteq> CHR ''%''" by (auto simp: unreserved_def)
  then show ?thesis using True by (simp add: quote_char_def unquote_plain)
next
  case False
  have "of_char c div 16 < (16 :: nat)" using nat_of_char_less_256 [of c] by linarith
  then have "char_of (16 * hex_value (hex_digit (of_char c div 16)) + hex_value (hex_digit (of_char c mod 16))) = c"
    by (simp add: hex_value_digit)
  then show ?thesis using False by (simp add: quote_char_def Let_def)
qed

lemma unquote_quote: "unquote (quote s) = s"
  by (induction s) (simp_all add: quote_def unquote_quote_char)

lemma quote_chars: "c \<in> set (quote s) \<Longrightarrow> unreserved c \<or> c = CHR ''%''"
proof -
  have hex: "unreserved (hex_digit n)" if "n < 16" for n
    using that by (auto simp: unreserved_def hex_digit_def Let_def)
  have "of_char c div 16 < (16 :: nat)" for c :: char using nat_of_char_less_256 [of c] by linarith
  then show "c \<in> set (quote s) \<Longrightarrow> unreserved c \<or> c = CHR ''%''"
    by (auto simp: quote_def quote_char_def Let_def hex split: if_splits)
qed

lemma quote_not_punctuation: "c \<in> set (quote s) \<Longrightarrow> c \<notin> set '':@/?#[]''"
  by (auto dest!: quote_chars simp: unreserved_def)

lemma quote_printable: "c \<in> set (quote s) \<Longrightarrow> (of_char c :: nat) > 32"
  by (auto dest!: quote_chars simp: unreserved_def Let_def)

subsection \<open>Splitting and joining\<close>

definition blank_free :: "string \<Rightarrow> bool" where
  "blank_free s \<longleftrightarrow> (\<forall>c \<in> set s. c \<notin> {CHR 0x09, CHR 0x0A, CHR 0x0D})"

lemma blank_free_simps [simp]:
  "blank_free []" "blank_free (c # s) \<longleftrightarrow> c \<notin> {CHR 0x09, CHR 0x0A, CHR 0x0D} \<and> blank_free s"
  "blank_free (s @ t) \<longleftrightarrow> blank_free s \<and> blank_free t"
  by (auto simp: blank_free_def)

definition brackets_ok :: "(string \<Rightarrow> bool) \<Rightarrow> string \<Rightarrow> bool" where
  "brackets_ok address_ok n \<longleftrightarrow>
     (CHR ''['' \<in> set n \<longleftrightarrow> CHR '']'' \<in> set n) \<and> (CHR ''['' \<in> set n \<longrightarrow> address_ok (after_last_at n))"

text \<open>What \<open>urlsplit\<close> can answer, apart from the first letter of the path.\<close>

definition scheme_ok :: "string \<Rightarrow> bool" where
  "scheme_ok s \<longleftrightarrow> s = '''' \<or> is_alpha (hd s) \<and> list_all scheme_char s \<and> map lower s = s"

definition parts_ok :: "url_parts \<Rightarrow> bool" where
  "parts_ok p \<longleftrightarrow> scheme_ok (u_scheme p) \<and> (\<forall>c \<in> set (u_netloc p). c \<notin> set ''/?#'') \<and>
     (\<forall>c \<in> set (u_path p). c \<notin> set ''?#'') \<and> CHR ''#'' \<notin> set (u_query p) \<and>
     blank_free (u_netloc p @ u_path p @ u_query p @ u_fragment p)"

lemma cut_at_hit: "sep \<notin> set a \<Longrightarrow> cut_at sep (a @ sep # b) = (a, b)"
  by (induction a) (auto simp: cut_at_def)

lemma cut_at_none: "sep \<notin> set a \<Longrightarrow> cut_at sep a = (a, '''')"
  by (induction a) (auto simp: cut_at_def)

lemma cut_at_join: "sep \<notin> set a \<Longrightarrow> cut_at sep (a @ (if b = '''' then '''' else sep # b)) = (a, b)"
  by (simp add: cut_at_hit cut_at_none)

lemma cut_at_set: "cut_at sep s = (a, b) \<Longrightarrow> sep \<notin> set a \<and> set a \<union> set b \<subseteq> set s"
  by (auto simp: cut_at_def dest: set_takeWhileD in_set_dropD set_dropWhileD)

lemma path_split_join:
  assumes "\<forall>c \<in> set path. c \<notin> set ''?#''" and "CHR ''#'' \<notin> set query"
  shows "path_split (path @ (if query = '''' then '''' else ''?'' @ query) @ (if fragment = '''' then '''' else ''#'' @ fragment))
    = (path, query, fragment)"
proof -
  let ?q = "path @ (if query = '''' then '''' else ''?'' @ query)"
  have "CHR ''#'' \<notin> set ?q" using assms by auto
  then have first: "cut_at CHR ''#'' (?q @ (if fragment = '''' then '''' else CHR ''#'' # fragment)) = (?q, fragment)"
    by (rule cut_at_join)
  have "CHR ''?'' \<notin> set path" using assms(1) by auto
  then have second: "cut_at CHR ''?'' (path @ (if query = '''' then '''' else CHR ''?'' # query)) = (path, query)"
    by (rule cut_at_join)
  show ?thesis
    using first second by (cases "query = ''''"; cases "fragment = ''''") (simp_all add: path_split_def)
qed

lemma path_split_ok:
  "path_split u = (path, query, fragment) \<Longrightarrow>
     (\<forall>c \<in> set path. c \<notin> set ''?#'') \<and> CHR ''#'' \<notin> set query \<and> set path \<union> set query \<union> set fragment \<subseteq> set u"
  by (auto simp: path_split_def split: prod.splits dest!: cut_at_set)

lemma scheme_char_facts:
  "is_alpha c \<Longrightarrow> (of_char c :: nat) > 32" "scheme_char c \<Longrightarrow> c \<noteq> CHR '':'' \<and> c \<notin> {CHR 0x09, CHR 0x0A, CHR 0x0D}"
  by (auto simp: is_alpha_def scheme_char_def Let_def)

lemma lower_facts: "is_alpha c \<Longrightarrow> is_alpha (lower c)" "scheme_char c \<Longrightarrow> scheme_char (lower c)" "lower (lower c) = lower c"
  by (auto simp: lower_def is_alpha_def scheme_char_def Let_def)

lemma scheme_split_ok: "scheme_split u = (s, r) \<Longrightarrow> scheme_ok s \<and> set r \<subseteq> set u"
  by (auto simp: scheme_split_def scheme_ok_def Let_def list_all_iff lower_facts hd_map split: if_splits dest: in_set_dropD)

lemma scheme_split_join:
  assumes "scheme_ok s"
  shows "scheme_split ((if s = '''' then '''' else s @ '':'') @ ''//'' @ r) = (s, ''//'' @ r)"
proof (cases "s = ''''")
  case True
  then show ?thesis by (simp add: scheme_split_def Let_def is_alpha_def)
next
  case False
  have "\<forall>c \<in> set s. c \<noteq> CHR '':''" using assms False by (auto simp: scheme_ok_def list_all_iff dest: scheme_char_facts(2))
  then have "takeWhile (\<lambda>c. c \<noteq> CHR '':'') (s @ CHR '':'' # ''//'' @ r) = s" by (simp add: takeWhile_append2)
  then show ?thesis using assms False by (simp add: scheme_split_def Let_def scheme_ok_def)
qed

lemma while_drop_subset:
  "set (takeWhile P (drop k u)) \<subseteq> set u" "set (dropWhile P (drop k u)) \<subseteq> set u" "\<forall>c \<in> set (takeWhile P u). P c"
  by (auto dest: set_takeWhileD set_dropWhileD in_set_dropD)

lemma urlsplit_ok:
  assumes "urlsplit address_ok url = Inr p"
  shows "parts_ok p" and "brackets_ok address_ok (u_netloc p)"
proof -
  obtain s u where su: "scheme_split (clean_url url) = (s, u)" by fastforce
  define n where "n = (if take 2 u = ''//'' then takeWhile (\<lambda>c. c \<notin> set ''/?#'') (drop 2 u) else '''')"
  define r where "r = (if take 2 u = ''//'' then dropWhile (\<lambda>c. c \<notin> set ''/?#'') (drop 2 u) else u)"
  obtain path query fragment where pqf: "path_split r = (path, query, fragment)" by (cases "path_split r") auto
  have p: "p = \<lparr> u_scheme = s, u_netloc = n, u_path = path, u_query = query, u_fragment = fragment \<rparr>"
    and brackets: "brackets_ok address_ok n"
    using assms unfolding urlsplit_def Let_def su prod.case n_def [symmetric] r_def [symmetric] pqf brackets_ok_def
    by (auto split: if_splits)
  from brackets show "brackets_ok address_ok (u_netloc p)" by (simp add: p)
  have "blank_free (clean_url url)" by (simp add: blank_free_def clean_url_def)
  moreover have "set u \<subseteq> set (clean_url url)" "scheme_ok s" using scheme_split_ok [OF su] by simp_all
  moreover have "set n \<subseteq> set u" "set r \<subseteq> set u" "\<forall>c \<in> set n. c \<notin> set ''/?#''"
    using while_drop_subset(1,2) [of _ 2 u] while_drop_subset(3) [of "\<lambda>c. c \<notin> set ''/?#''" "drop 2 u"]
    by (cases "take 2 u = ''//''"; simp only: n_def r_def if_True if_False list.set(1) empty_subsetI subset_refl ball_empty)+
  ultimately have "set n \<subseteq> set (clean_url url)" "set path \<union> set query \<union> set fragment \<subseteq> set (clean_url url)"
    and free: "blank_free (clean_url url)" and rest: "scheme_ok s" "\<forall>c \<in> set n. c \<notin> set ''/?#''"
    using path_split_ok [OF pqf] by (meson order_trans)+
  then have "blank_free (n @ path @ query @ fragment)" unfolding blank_free_def by (simp only: set_append) blast
  then show "parts_ok p" using rest path_split_ok [OF pqf] by (simp only: parts_ok_def p url_parts.select_convs) blast
qed

lemma clean_url_join:
  assumes "parts_ok p"
  shows "clean_url (urlunsplit p) = urlunsplit p"
proof -
  have scheme: "scheme_ok (u_scheme p)" and "blank_free (u_netloc p @ u_path p @ u_query p @ u_fragment p)"
    using assms by (simp_all only: parts_ok_def)
  moreover have "blank_free (u_scheme p)"
    using scheme scheme_char_facts(2) unfolding scheme_ok_def blank_free_def list_all_iff by (metis empty_iff set_empty)
  ultimately have free: "blank_free (urlunsplit p)" by (simp add: urlunsplit_def)
  from scheme have "32 < (of_char (hd (urlunsplit p)) :: nat) \<and> urlunsplit p \<noteq> ''''"
    by (cases "u_scheme p") (auto simp: scheme_ok_def urlunsplit_def intro: scheme_char_facts(1))
  then have "dropWhile (\<lambda>c. (of_char c :: nat) \<le> 32) (urlunsplit p) = urlunsplit p" by (cases "urlunsplit p") auto
  then show ?thesis using free by (simp add: clean_url_def blank_free_def filter_id_conv)
qed

lemma urlsplit_urlunsplit:
  assumes "parts_ok p" and "brackets_ok address_ok (u_netloc p)"
  shows "urlsplit address_ok (urlunsplit p) =
    Inr (p\<lparr> u_path := (if u_path p \<noteq> '''' \<and> take 1 (u_path p) \<noteq> ''/'' then ''/'' else '''') @ u_path p \<rparr>)"
proof -
  define path where "path = (if u_path p \<noteq> '''' \<and> take 1 (u_path p) \<noteq> ''/'' then ''/'' else '''') @ u_path p"
  define rest where "rest = path @ (if u_query p = '''' then '''' else ''?'' @ u_query p) @ (if u_fragment p = '''' then '''' else ''#'' @ u_fragment p)"
  have split: "scheme_split (clean_url (urlunsplit p)) = (u_scheme p, ''//'' @ u_netloc p @ rest)"
    using scheme_split_join [of "u_scheme p" "u_netloc p @ rest"] assms(1)
    unfolding clean_url_join [OF assms(1)] by (simp add: urlunsplit_def rest_def path_def parts_ok_def)
  have "rest = '''' \<or> hd rest \<in> set ''/?#''"
    by (cases "u_path p") (auto simp: rest_def path_def)
  moreover have "\<forall>c \<in> set (u_netloc p). c \<notin> set ''/?#''" using assms(1) by (simp add: parts_ok_def)
  ultimately have netloc: "takeWhile (\<lambda>c. c \<notin> set ''/?#'') (u_netloc p @ rest) = u_netloc p"
    "dropWhile (\<lambda>c. c \<notin> set ''/?#'') (u_netloc p @ rest) = rest"
    by (cases rest; force simp: takeWhile_append2 dropWhile_append2)+
  have "\<forall>c \<in> set path. c \<notin> set ''?#''" "CHR ''#'' \<notin> set (u_query p)" using assms(1) by (auto simp: parts_ok_def path_def)
  then have "path_split rest = (path, u_query p, u_fragment p)" unfolding rest_def by (rule path_split_join)
  then have "urlsplit address_ok (urlunsplit p) =
      Inr \<lparr> u_scheme = u_scheme p, u_netloc = u_netloc p, u_path = path, u_query = u_query p, u_fragment = u_fragment p \<rparr>"
    using assms(2) unfolding urlsplit_def Let_def split prod.case
    by (simp add: netloc [simplified] brackets_ok_def)
  then show ?thesis unfolding path_def [symmetric] by simp
qed

subsection \<open>The URL of a role\<close>

text \<open>Whom a client connects as: the part of the authority before the last \<open>@\<close>, cut at its first colon.\<close>

definition dsn_user :: "url_parts \<Rightarrow> string \<times> string" where
  "dsn_user p =
     (let (user, password) = cut_at CHR '':'' (rev (drop 1 (dropWhile (\<lambda>c. c \<noteq> CHR ''@'') (rev (u_netloc p)))))
      in (unquote user, unquote password))"

definition base_url :: "settings \<Rightarrow> string" where
  "base_url cfg = (if RUNTIME_DATABASE_URL cfg \<noteq> '''' then RUNTIME_DATABASE_URL cfg else DATABASE_URL cfg)"

lemma at_split:
  assumes "CHR ''@'' \<notin> set b"
  shows "after_last_at (a @ CHR ''@'' # b) = b" and "rev (drop 1 (dropWhile (\<lambda>c. c \<noteq> CHR ''@'') (rev (a @ CHR ''@'' # b)))) = a"
proof -
  have "CHR ''@'' \<notin> set (rev b)" using assms by simp
  from cut_at_hit [OF this, of "rev a"] show "after_last_at (a @ CHR ''@'' # b) = b"
    "rev (drop 1 (dropWhile (\<lambda>c. c \<noteq> CHR ''@'') (rev (a @ CHR ''@'' # b)))) = a"
    by (simp_all add: cut_at_def after_last_at_def)
qed

lemma after_last_at_subset: "CHR ''@'' \<notin> set (after_last_at s)" "set (after_last_at s) \<subseteq> set s"
  by (auto simp: after_last_at_def dest: set_takeWhileD)

lemma quoted_login:
  "c \<in> set (quote r @ '':'' @ quote w) \<Longrightarrow> c \<notin> set ''@/?#[]''" "blank_free (quote r @ '':'' @ quote w)" "CHR '':'' \<notin> set (quote r)"
proof -
  show "c \<in> set (quote r @ '':'' @ quote w) \<Longrightarrow> c \<notin> set ''@/?#[]''"
    using quote_not_punctuation [of c r] quote_not_punctuation [of c w] by (simp only: set_append Un_iff) auto
  have "blank_free (quote s)" for s using quote_printable [of _ s] by (force simp: blank_free_def)
  then show "blank_free (quote r @ '':'' @ quote w)" by simp
  show "CHR '':'' \<notin> set (quote r)" using quote_not_punctuation [of "CHR '':''" r] by (meson list.set_intros)
qed

lemma relogin_ok:
  fixes base :: url_parts and r w :: string
  assumes "parts_ok base" and "brackets_ok address_ok (u_netloc base)"
    and "CHR ''['' \<in> set (after_last_at (u_netloc base)) \<longleftrightarrow> CHR '']'' \<in> set (after_last_at (u_netloc base))"
  defines "n \<equiv> (quote r @ '':'' @ quote w) @ ''@'' @ after_last_at (u_netloc base)"
  shows "after_last_at n = after_last_at (u_netloc base)" and "parts_ok (base\<lparr> u_netloc := n \<rparr>)" and "brackets_ok address_ok n"
proof -
  let ?a = "after_last_at (u_netloc base)" and ?u = "quote r @ '':'' @ quote w"
  show after: "after_last_at n = ?a" using at_split(1) [OF after_last_at_subset(1), of ?u] by (simp add: n_def)
  have "c \<notin> set ''/?#''" if mem: "c \<in> set n" for c
  proof -
    consider "c \<in> set ?u" | "c = CHR ''@''" | "c \<in> set (u_netloc base)"
      using mem after_last_at_subset(2) [of "u_netloc base", THEN subsetD, of c] unfolding n_def by (auto simp del: append_assoc)
    then show ?thesis using quoted_login(1) [of c r w] assms(1) by cases (simp, simp, simp only: parts_ok_def, blast)
  qed
  moreover have "blank_free ?a" using assms(1) after_last_at_subset(2) [of "u_netloc base"] by (auto simp: parts_ok_def blank_free_def)
  ultimately show "parts_ok (base\<lparr> u_netloc := n \<rparr>)"
    using assms(1) quoted_login(2) [of r w] by (simp add: parts_ok_def n_def)
  have "c \<in> set n \<longleftrightarrow> c \<in> set ?a" if "c = CHR ''['' \<or> c = CHR '']''" for c
    using that quoted_login(1) [of c r w] unfolding n_def by auto
  moreover have "CHR ''['' \<in> set ?a \<Longrightarrow> CHR ''['' \<in> set (u_netloc base)" using after_last_at_subset(2) by blast
  ultimately show "brackets_ok address_ok n" using assms(2,3) after by (simp add: brackets_ok_def)
qed

text \<open>C31: The URL of a runtime role names that role and its password, whatever bytes they are made of, and
  otherwise what the configured URL names: the same hosts, database and options. The credentials of
  the configured URL are gone. Without a role or a password there is no URL.\<close>

theorem role_url_connects_as_the_role:
  assumes "urlsplit address_ok (base_url cfg) = Inr base"
    and "CHR ''['' \<in> set (after_last_at (u_netloc base)) \<longleftrightarrow> CHR '']'' \<in> set (after_last_at (u_netloc base))"
  shows "(role = '''' \<or> password = '''' \<longrightarrow> \<not> is_ok (role_database_url address_ok cfg role password)) \<and>
    (role \<noteq> '''' \<and> password \<noteq> '''' \<longrightarrow>
      (\<exists>url p. role_database_url address_ok cfg role password = Inr url \<and> urlsplit address_ok url = Inr p \<and>
        dsn_user p = (role, password) \<and> after_last_at (u_netloc p) = after_last_at (u_netloc base) \<and>
        u_scheme p = u_scheme base \<and> u_query p = u_query base \<and> u_fragment p = u_fragment base \<and>
        (take 1 (u_path base) = ''/'' \<longrightarrow> u_path p = u_path base)))"
proof -
  let ?a = "after_last_at (u_netloc base)" and ?u = "quote role @ '':'' @ quote password"
  let ?p = "base\<lparr> u_netloc := ?u @ ''@'' @ ?a \<rparr>"
  note ok = relogin_ok [OF urlsplit_ok [OF assms(1)] assms(2), of role password]
  have "rev (drop 1 (dropWhile (\<lambda>c. c \<noteq> CHR ''@'') (rev (u_netloc ?p)))) = ?u"
    using at_split(2) [OF after_last_at_subset(1), of ?u] by simp
  then have user: "dsn_user ?p = (role, password)"
    unfolding dsn_user_def using cut_at_hit [OF quoted_login(3), of role "quote password"] by (simp add: unquote_quote)
  have "urlsplit address_ok (urlunsplit ?p) =
    Inr (?p\<lparr> u_path := (if u_path ?p \<noteq> '''' \<and> take 1 (u_path ?p) \<noteq> ''/'' then ''/'' else '''') @ u_path ?p \<rparr>)"
    using urlsplit_urlunsplit [of ?p address_ok] ok by simp
  moreover have "role_database_url address_ok cfg role password = Inr (urlunsplit ?p)" if "role \<noteq> ''''" "password \<noteq> ''''"
    using that assms(1) by (simp add: role_database_url_def base_url_def)
  moreover have "\<not> is_ok (role_database_url address_ok cfg role password)" if "role = '''' \<or> password = ''''"
    using that by (auto simp: role_database_url_def)
  ultimately show ?thesis using user ok(1) by (auto simp: dsn_user_def)
qed

definition sample_settings :: settings where
  "sample_settings =
     \<lparr> DATABASE_URL = ''postgresql://owner:secret@db:5432/tsdhn'', RUNTIME_DATABASE_URL = '''', POOL_MIN_SIZE = 0, POOL_MAX_SIZE = 10,
       WORKER_CONCURRENCY = 1, WORKER_LEASE_SECONDS = 60, WORKER_ID = '''', WORKER_HEARTBEAT_FILE = None,
       PRODUCER = (''tsdhn_producer'', ''p''), WORKER = (''tsdhn_worker'', ''w''), PURGER = (''tsdhn_purger'', ''x''), S3_SECURE = False,
       OUTPUT_URL_TTL = 900, OUTPUT_RETENTION_DAYS = 90, RETENTION_ENABLED = True, SSE_MAX_DURATION = 1800, ALLOWED_ORIGINS = [],
       API_PORT = 8000, NUMBA_THREADS = None \<rparr>"

lemma role_url_connects_as_the_role_witness:
  "\<exists>url p. role_database_url (\<lambda>h. True) sample_settings ''web'' ''p@ss:/w?rd#'' = Inr url \<and>
     urlsplit (\<lambda>h. True) url = Inr p \<and> dsn_user p = (''web'', ''p@ss:/w?rd#'') \<and>
     after_last_at (u_netloc p) = ''db:5432'' \<and> u_path p = ''/tsdhn''"
proof -
  have base: "urlsplit (\<lambda>h. True) (base_url sample_settings) =
      Inr \<lparr> u_scheme = ''postgresql'', u_netloc = ''owner:secret@db:5432'', u_path = ''/tsdhn'', u_query = '''', u_fragment = '''' \<rparr>"
    and host: "after_last_at ''owner:secret@db:5432'' = ''db:5432''" by code_simp+
  from role_url_connects_as_the_role [OF base, of "''web''" "''p@ss:/w?rd#''"] host show ?thesis by auto
qed

subsection \<open>Pools\<close>

text \<open>The bounds a pool is opened with are in order, and the worker's can hold its listener with two
  connections for each job and four more.\<close>

theorem pools_are_large_enough:
  "(case worker_pool_size cfg of (lo, hi) \<Rightarrow>
      lo \<le> hi \<and> 2 * WORKER_CONCURRENCY cfg + 4 \<le> hi \<and> POOL_MAX_SIZE cfg \<le> hi \<and>
      (lo < POOL_MIN_SIZE cfg \<longrightarrow> lo = hi)) \<and>
   (case api_pool_size cfg of (lo, hi) \<Rightarrow> lo = POOL_MIN_SIZE cfg \<and> lo \<le> hi \<and> POOL_MAX_SIZE cfg \<le> hi)"
  by (auto simp: worker_pool_size_def api_pool_size_def Let_def)

end
