(* ===== verification/Startup.thy ===== *)
theory Startup
  imports SettingsLaws Maintenance
begin

text \<open>
  The life of a process: the pool of api/core/db.py, the queue handle of api/core/queue.py, the start
  and end of the worker (api/worker.py) and of the API (api/main.py). What the driver, the queue
  and the store answer is an argument; what a process does is the list of its events.
\<close>

subsection \<open>The pool and the queue handle\<close>

record db_state =
  db_pool :: "(string \<times> int \<times> int) option"
  db_dsn :: "string option"

definition runtime_dsn :: "(string \<Rightarrow> bool) \<Rightarrow> settings \<Rightarrow> string \<times> string \<Rightarrow> exn + string" where
  "runtime_dsn address_ok cfg login =
     (case role_database_url address_ok cfg (fst login) (snd login) of
        Inl (ValueError m) \<Rightarrow> Inl (RuntimeError m) | r \<Rightarrow> r)"

definition open_pool :: "exn + unit \<Rightarrow> int \<Rightarrow> int \<Rightarrow> string \<Rightarrow> db_state \<Rightarrow> (exn + string \<times> int \<times> int) \<times> db_state" where
  "open_pool created lo hi dsn s =
     (case db_pool s of
        Some p \<Rightarrow> (Inr p, s)
      | None \<Rightarrow>
          (case created of
             Inl e \<Rightarrow> (Inl e, s\<lparr> db_dsn := Some dsn \<rparr>)
           | Inr _ \<Rightarrow> (Inr (dsn, lo, hi), s\<lparr> db_pool := Some (dsn, lo, hi), db_dsn := Some dsn \<rparr>)))"

definition close_pool :: "exn + unit \<Rightarrow> db_state \<Rightarrow> (exn + unit) \<times> db_state" where
  "close_pool ended s =
     (case db_pool s of
        None \<Rightarrow> (Inr (), s\<lparr> db_dsn := None \<rparr>)
      | Some _ \<Rightarrow> (case ended of Inl e \<Rightarrow> (Inl e, s) | Inr _ \<Rightarrow> (Inr (), s\<lparr> db_pool := None, db_dsn := None \<rparr>)))"

definition get_pool :: "db_state \<Rightarrow> exn + string \<times> int \<times> int" where
  "get_pool s = (case db_pool s of None \<Rightarrow> Inl (RuntimeError ''database pool is not open; call db.open_pool() first'') | Some p \<Rightarrow> Inr p)"

text \<open>The DSN \<open>connect\<close> uses; what the attempt gives is \<open>connect\<close> of the exceptions' theory.\<close>

definition connect_dsn :: "db_state \<Rightarrow> exn + string" where
  "connect_dsn s = (case db_dsn s of None \<Rightarrow> Inl (RuntimeError ''database connection DSN is not configured'') | Some d \<Rightarrow> Inr d)"

type_synonym queue_handle = "(string \<times> string) option"

definition build_queue :: "string \<Rightarrow> string \<Rightarrow> (string \<times> string) \<times> queue_handle" where
  "build_queue name schema = ((name, schema), Some (name, schema))"

definition get_queue :: "queue_handle \<Rightarrow> exn + string \<times> string" where
  "get_queue q = (case q of None \<Rightarrow> Inl (RuntimeError ''simulation queue is not built; call build_queue() first'') | Some h \<Rightarrow> Inr h)"

subsection \<open>The worker's name\<close>

definition host_char :: "char \<Rightarrow> char" where
  "host_char c = (if is_alpha c \<or> c \<in> set ''0123456789_.-'' then c else CHR ''-'')"

definition worker_id :: "settings \<Rightarrow> string \<Rightarrow> nat \<Rightarrow> string" where
  "worker_id cfg hostname pid =
     (if WORKER_ID cfg \<noteq> '''' then WORKER_ID cfg
      else let host = map host_char hostname in
        take 128 (''tsdhn-worker-'' @ (if host = '''' then ''unknown'' else host) @ ''-'' @ decimal pid))"

subsection \<open>The run of a worker\<close>

datatype pass = Sweep | Reconcile | Purge | Expiry int | Heartbeat string

datatype event =
    PoolOpened string int int | WorkerBuilt | BucketReady | PassStarted pass | PurgePoolOpened string
  | WorkerRan | PassCancelled pass | PurgePoolClosed | PoolClosed

type_synonym life = "(exn + unit) \<times> event list"

definition act :: "exn + unit \<Rightarrow> event \<Rightarrow> life" where
  "act outcome e = (case outcome of Inl x \<Rightarrow> (Inl x, []) | Inr _ \<Rightarrow> (Inr (), [e]))"

definition andthen :: "life \<Rightarrow> life \<Rightarrow> life" where
  "andthen a b = (case fst a of Inl x \<Rightarrow> a | Inr _ \<Rightarrow> (fst b, snd a @ snd b))"

text \<open>\<open>try\<close> with \<open>finally\<close>: what the clean-up raises replaces what the body raised.\<close>

definition finally_do :: "life \<Rightarrow> life \<Rightarrow> life" where
  "finally_do body cleanup = ((case fst cleanup of Inl x \<Rightarrow> Inl x | Inr _ \<Rightarrow> fst body), snd body @ snd cleanup)"

record outcomes =
  o_open :: "exn + unit"
  o_worker :: "exn + unit"
  o_bucket :: "exn + unit"
  o_purge_open :: "exn + unit"
  o_run :: "exn + unit"
  o_purge_close :: "exn + unit"
  o_close :: "exn + unit"

definition retention_passes :: "settings \<Rightarrow> pass list" where
  "retention_passes cfg = Purge # (if 0 < OUTPUT_RETENTION_DAYS cfg then [Expiry (OUTPUT_RETENTION_DAYS cfg)] else [])"

definition heartbeat_pass :: "settings \<Rightarrow> pass list" where
  "heartbeat_pass cfg = (case WORKER_HEARTBEAT_FILE cfg of None \<Rightarrow> [] | Some f \<Rightarrow> [Heartbeat f])"

text \<open>The heartbeat is started last; then the worker serves, and every pass in \<open>maintenance\<close> is cancelled.\<close>

definition serve :: "settings \<Rightarrow> outcomes \<Rightarrow> pass list \<Rightarrow> life" where
  "serve cfg outs maintenance =
     andthen (Inr (), map PassStarted (heartbeat_pass cfg))
       (finally_do (o_run outs, [WorkerRan]) (Inr (), map PassCancelled (maintenance @ heartbeat_pass cfg)))"

definition with_retention :: "(string \<Rightarrow> bool) \<Rightarrow> settings \<Rightarrow> outcomes \<Rightarrow> life" where
  "with_retention address_ok cfg outs =
     (case runtime_dsn address_ok cfg (PURGER cfg) of
        Inl e \<Rightarrow> (Inl e, [])
      | Inr dsn \<Rightarrow>
          andthen (act (o_purge_open outs) (PurgePoolOpened dsn))
            (finally_do
               (andthen (Inr (), map PassStarted (retention_passes cfg)) (serve cfg outs ([Sweep, Reconcile] @ retention_passes cfg)))
               (o_purge_close outs, [PurgePoolClosed])))"

definition run_worker :: "(string \<Rightarrow> bool) \<Rightarrow> settings \<Rightarrow> outcomes \<Rightarrow> life" where
  "run_worker address_ok cfg outs =
     (case runtime_dsn address_ok cfg (WORKER cfg) of
        Inl e \<Rightarrow> (Inl e, [])
      | Inr dsn \<Rightarrow>
          andthen (act (o_open outs) (PoolOpened dsn (fst (worker_pool_size cfg)) (snd (worker_pool_size cfg))))
            (finally_do
               (andthen (act (o_worker outs) WorkerBuilt)
                 (andthen (act (o_bucket outs) BucketReady)
                   (andthen (Inr (), map PassStarted [Sweep, Reconcile])
                     (if RETENTION_ENABLED cfg then with_retention address_ok cfg outs else serve cfg outs [Sweep, Reconcile]))))
               (o_close outs, [PoolClosed])))"

subsection \<open>The API\<close>

text \<open>\<open>require_model_assets\<close>: only a \<open>RuntimeError\<close> becomes the exit of the process.\<close>

definition require_model_assets :: "exn + 'a \<Rightarrow> exn + unit" where
  "require_model_assets resolved =
     (case resolved of
        Inr _ \<Rightarrow> Inr ()
      | Inl (RuntimeError m) \<Rightarrow> Inl (OtherError ''SystemExit'')
      | Inl e \<Rightarrow> Inl e)"

text \<open>\<open>lifespan\<close>: \<open>calc\<close> is the outcome of loading the calculator, \<open>built\<close> of the queue and its registration.\<close>

definition lifespan ::
  "(string \<Rightarrow> bool) \<Rightarrow> settings \<Rightarrow> exn + unit \<Rightarrow> exn + unit \<Rightarrow> outcomes \<Rightarrow> life" where
  "lifespan address_ok cfg calc built outs =
     (case calc of
        Inl e \<Rightarrow> (Inl e, [])
      | Inr _ \<Rightarrow>
          (case runtime_dsn address_ok cfg (PRODUCER cfg) of
             Inl e \<Rightarrow> (Inl e, [])
           | Inr dsn \<Rightarrow>
               andthen (act (o_open outs) (PoolOpened dsn (fst (api_pool_size cfg)) (snd (api_pool_size cfg))))
                 (andthen (act built WorkerBuilt)
                   (finally_do (o_run outs, [WorkerRan]) (o_close outs, [PoolClosed])))))"

end
