(* ===== verification/StartupLaws.thy ===== *)
theory StartupLaws
  imports Startup
begin

text \<open>
  Laws of the processes: the pool's module state, what a worker has opened it closes, the passes it
  starts it ends; and the one path on which it does not.
\<close>

lemmas life_defs = andthen_def finally_do_def act_def serve_def with_retention_def run_worker_def

fun started :: "event list \<Rightarrow> pass list" where
  "started [] = []"
| "started (PassStarted p # es) = p # started es"
| "started (e # es) = started es"

lemma started_append [simp]: "started (es @ fs) = started es @ started fs"
  by (induction es rule: started.induct) auto

lemma started_map [simp]: "started (map PassStarted ps) = ps" "started (map PassCancelled ps) = []"
  by (induction ps) auto

definition maintenance_passes :: "settings \<Rightarrow> pass list" where
  "maintenance_passes cfg = [Sweep, Reconcile] @ (if RETENTION_ENABLED cfg then retention_passes cfg else []) @ heartbeat_pass cfg"

text \<open>What \<open>serve\<close> does when the worker has run.\<close>

lemma serve_events:
  "snd (serve cfg outs ps) = map PassStarted (heartbeat_pass cfg) @ WorkerRan # map PassCancelled (ps @ heartbeat_pass cfg)"
  by (simp add: life_defs)

lemma retention_events:
  "snd (with_retention address_ok cfg outs) =
     (case runtime_dsn address_ok cfg (PURGER cfg) of
        Inl e \<Rightarrow> []
      | Inr dsn \<Rightarrow> if \<not> is_ok (o_purge_open outs) then []
          else PurgePoolOpened dsn # map PassStarted (retention_passes cfg) @
            snd (serve cfg outs ([Sweep, Reconcile] @ retention_passes cfg)) @ [PurgePoolClosed])"
  by (cases "o_purge_open outs") (simp_all add: with_retention_def andthen_def act_def finally_do_def split: sum.split)

lemma worker_events:
  "snd (run_worker address_ok cfg outs) =
     (case runtime_dsn address_ok cfg (WORKER cfg) of
        Inl e \<Rightarrow> []
      | Inr dsn \<Rightarrow> if \<not> is_ok (o_open outs) then []
          else PoolOpened dsn (fst (worker_pool_size cfg)) (snd (worker_pool_size cfg)) #
            (if \<not> is_ok (o_worker outs) then []
             else WorkerBuilt # (if \<not> is_ok (o_bucket outs) then []
               else BucketReady # map PassStarted [Sweep, Reconcile] @
                 (if RETENTION_ENABLED cfg then snd (with_retention address_ok cfg outs) else snd (serve cfg outs [Sweep, Reconcile])))) @
            [PoolClosed])"
  by (cases "o_open outs"; cases "o_worker outs"; cases "o_bucket outs")
    (simp_all add: run_worker_def andthen_def act_def finally_do_def split: sum.split)

lemma not_in_passes [simp]:
  "PoolOpened d lo hi \<notin> PassStarted ` P" "PoolOpened d lo hi \<notin> PassCancelled ` P"
  "PurgePoolOpened d \<notin> PassStarted ` P" "PurgePoolOpened d \<notin> PassCancelled ` P"
  "WorkerRan \<notin> PassStarted ` P" "WorkerRan \<notin> PassCancelled ` P"
  by auto

text \<open>C32: Whatever fails, a worker that opened its pool closes it last, one that opened the retention pool
  closes it, each under the URL of its own role and never the owner's; and once the worker has
  served, every maintenance pass that was started is cancelled before a pool is closed. Which passes
  run follows the configuration.\<close>

theorem worker_cleans_up_after_itself:
  assumes "run_worker address_ok cfg outs = (r, es)"
  shows "(\<forall>dsn lo hi. PoolOpened dsn lo hi \<in> set es \<longrightarrow>
      runtime_dsn address_ok cfg (WORKER cfg) = Inr dsn \<and> (lo, hi) = worker_pool_size cfg \<and> last es = PoolClosed) \<and>
    (\<forall>dsn. PurgePoolOpened dsn \<in> set es \<longrightarrow>
      RETENTION_ENABLED cfg \<and> runtime_dsn address_ok cfg (PURGER cfg) = Inr dsn \<and> PurgePoolClosed \<in> set es) \<and>
    (WorkerRan \<in> set es \<longrightarrow> (\<exists>pre. es = pre @ WorkerRan # map PassCancelled (maintenance_passes cfg) @
       (if RETENTION_ENABLED cfg then [PurgePoolClosed] else []) @ [PoolClosed] \<and> started pre = maintenance_passes cfg))"
proof -
  have es: "es = snd (run_worker address_ok cfg outs)" using assms by simp
  have "\<exists>pre. es = pre @ WorkerRan # map PassCancelled (maintenance_passes cfg) @
       (if RETENTION_ENABLED cfg then [PurgePoolClosed] else []) @ [PoolClosed] \<and> started pre = maintenance_passes cfg"
    if ran: "WorkerRan \<in> set es"
  proof -
    let ?opening = "\<lambda>dsn. [PoolOpened dsn (fst (worker_pool_size cfg)) (snd (worker_pool_size cfg)), WorkerBuilt, BucketReady,
      PassStarted Sweep, PassStarted Reconcile]"
    from ran obtain dsn where "runtime_dsn address_ok cfg (WORKER cfg) = Inr dsn"
      by (cases "runtime_dsn address_ok cfg (WORKER cfg)") (simp_all add: es worker_events)
    with ran have run: "es = ?opening dsn @ (if RETENTION_ENABLED cfg then snd (with_retention address_ok cfg outs)
        else snd (serve cfg outs [Sweep, Reconcile])) @ [PoolClosed]"
      by (auto simp: es worker_events split: if_splits)
    show ?thesis
    proof (cases "RETENTION_ENABLED cfg")
      case True
      with ran run have ran': "WorkerRan \<in> set (snd (with_retention address_ok cfg outs))" by simp
      then obtain pdsn where "runtime_dsn address_ok cfg (PURGER cfg) = Inr pdsn"
        by (cases "runtime_dsn address_ok cfg (PURGER cfg)") (simp_all add: retention_events)
      with ran' have "snd (with_retention address_ok cfg outs) = PurgePoolOpened pdsn # map PassStarted (retention_passes cfg) @
          snd (serve cfg outs ([Sweep, Reconcile] @ retention_passes cfg)) @ [PurgePoolClosed]"
        by (simp add: retention_events split: if_splits)
      with run True show ?thesis
        by (intro exI [of _ "?opening dsn @ PurgePoolOpened pdsn # map PassStarted (retention_passes cfg @ heartbeat_pass cfg)"])
          (simp add: serve_events maintenance_passes_def)
    next
      case False
      with run show ?thesis
        by (intro exI [of _ "?opening dsn @ map PassStarted (heartbeat_pass cfg)"]) (simp add: serve_events maintenance_passes_def)
    qed
  qed
  moreover have "runtime_dsn address_ok cfg (WORKER cfg) = Inr dsn \<and> (lo, hi) = worker_pool_size cfg \<and> last es = PoolClosed"
    if "PoolOpened dsn lo hi \<in> set es" for dsn lo hi
    using that by (auto simp: es worker_events retention_events serve_events split: sum.splits if_splits)
  moreover have "RETENTION_ENABLED cfg \<and> runtime_dsn address_ok cfg (PURGER cfg) = Inr dsn \<and> PurgePoolClosed \<in> set es"
    if "PurgePoolOpened dsn \<in> set es" for dsn
    using that by (auto simp: es worker_events retention_events serve_events split: sum.splits if_splits)
  ultimately show ?thesis by blast
qed

definition smooth :: outcomes where
  "smooth = \<lparr> o_open = Inr (), o_worker = Inr (), o_bucket = Inr (), o_purge_open = Inr (), o_run = Inr (),
     o_purge_close = Inr (), o_close = Inr () \<rparr>"

lemma worker_cleans_up_after_itself_witness:
  "WorkerRan \<in> set (snd (run_worker (\<lambda>h. True) sample_settings smooth)) \<and>
   last (snd (run_worker (\<lambda>h. True) sample_settings smooth)) = PoolClosed"
proof -
  have ran: "WorkerRan \<in> set (snd (run_worker (\<lambda>h. True) sample_settings smooth))" by code_simp
  then obtain pre where "snd (run_worker (\<lambda>h. True) sample_settings smooth) = pre @ WorkerRan # map PassCancelled (maintenance_passes sample_settings) @
      (if RETENTION_ENABLED sample_settings then [PurgePoolClosed] else []) @ [PoolClosed]"
    using worker_cleans_up_after_itself [of "\<lambda>h. True" sample_settings smooth] by (metis prod.collapse)
  with ran show ?thesis by simp
qed

text \<open>Without the purger's credential a worker with retention stops with an error, but the two passes it
  has already started are not cancelled: they go on while its pool is closed under them.\<close>

theorem refused_purger_leaves_passes_running:
  assumes "RETENTION_ENABLED cfg" and "fst (PURGER cfg) = '''' \<or> snd (PURGER cfg) = ''''"
    and "is_ok (runtime_dsn address_ok cfg (WORKER cfg))" and "is_ok (o_open outs)" "is_ok (o_worker outs)" "is_ok (o_bucket outs)"
  shows "\<not> is_ok (fst (run_worker address_ok cfg outs)) \<and>
    started (snd (run_worker address_ok cfg outs)) = [Sweep, Reconcile] \<and>
    (\<forall>p. PassCancelled p \<notin> set (snd (run_worker address_ok cfg outs))) \<and>
    last (snd (run_worker address_ok cfg outs)) = PoolClosed"
proof -
  have "\<exists>e. runtime_dsn address_ok cfg (PURGER cfg) = Inl e"
    using assms(2) by (cases "fst (PURGER cfg) = ''''") (simp_all add: runtime_dsn_def role_database_url_def)
  then obtain e where refused: "runtime_dsn address_ok cfg (PURGER cfg) = Inl e" ..
  obtain dsn where dsn: "runtime_dsn address_ok cfg (WORKER cfg) = Inr dsn" using assms(3) by (auto simp: is_ok_def split: sum.splits)
  show ?thesis using assms(1,4-6) refused dsn
    by (cases "o_open outs"; cases "o_worker outs"; cases "o_bucket outs"; cases "o_close outs")
      (simp_all add: run_worker_def with_retention_def andthen_def act_def finally_do_def)
qed

lemma refused_purger_leaves_passes_running_witness:
  "started (snd (run_worker (\<lambda>h. True) (sample_settings\<lparr> PURGER := (''tsdhn_purger'', '''') \<rparr>) smooth)) = [Sweep, Reconcile]"
proof -
  have "is_ok (runtime_dsn (\<lambda>h. True) (sample_settings\<lparr> PURGER := (''tsdhn_purger'', '''') \<rparr>) (''tsdhn_worker'', ''w''))" by code_simp
  then show ?thesis
    using refused_purger_leaves_passes_running [of "sample_settings\<lparr> PURGER := (''tsdhn_purger'', '''') \<rparr>" "\<lambda>h. True" smooth]
    by (simp add: smooth_def sample_settings_def)
qed

end
