(* ===== verification/Passes.thy ===== *)
theory Passes
  imports Startup
begin

text \<open>
  The periodic passes of the worker (the second half of api/core/tasks.py), each wrapped in
  \<open>_run_periodically\<close>: what a pass finds and changes, and what is left after any number of rounds, however
  many of them fail.
\<close>

subsection \<open>What the passes share\<close>

text \<open>
  The table, the queue's rows, the workspaces and the number of accesses so far. The \<open>k\<close>-th access has the
  outcome \<open>pe_access k\<close> and finds the queue as \<open>pe_queue k\<close> has changed it.
\<close>

record 'f maintained =
  mt_db :: compute_db
  mt_queue :: "queue_row list"
  mt_files :: 'f
  mt_calls :: nat

record pass_env =
  pe_access :: "nat \<Rightarrow> db_access"
  pe_queue :: "nat \<Rightarrow> queue_row list \<Rightarrow> queue_row list"

definition pass_access ::
  "pass_env \<Rightarrow> (int \<Rightarrow> queue_row list \<Rightarrow> compute_db \<Rightarrow> 'a \<times> compute_db) \<Rightarrow> 'f maintained \<Rightarrow> (exn + 'a) \<times> 'f maintained" where
  "pass_access env f w =
     (let k = mt_calls w; da = pe_access env k; queue = pe_queue env k (mt_queue w);
          (r, db') = access_db da (f (da_now da) queue) (mt_db w)
      in (r, w\<lparr> mt_db := db', mt_queue := queue, mt_calls := k + 1 \<rparr>))"

subsection \<open>The passes\<close>

definition RECONCILE_GRACE :: int where "RECONCILE_GRACE = 5 * 60 * 1000000"

text \<open>\<open>reconcile_terminal_jobs\<close> of tasks.py: the queue must have been built.\<close>

definition reconcile_pass :: "queue_handle \<Rightarrow> pass_env \<Rightarrow> 'f maintained \<Rightarrow> (exn + unit) \<times> 'f maintained" where
  "reconcile_pass handle env w =
     (case get_queue handle of
        Inl e \<Rightarrow> (Inl e, w)
      | Inr (schema, name) \<Rightarrow>
          (case pass_access env (\<lambda>now queue db. reconcile_terminal_jobs name RUN_SIMULATION (now - RECONCILE_GRACE) queue now db) w of
             (Inl e, w') \<Rightarrow> (Inl e, w')
           | (Inr ids, w') \<Rightarrow> (Inr (), w')))"

definition sweep_pass :: "(string \<Rightarrow> 'f \<Rightarrow> 'f) \<Rightarrow> pass_env \<Rightarrow> 'f maintained \<Rightarrow> (exn + unit) \<times> 'f maintained" where
  "sweep_pass remove env w =
     (case pass_access env (\<lambda>now queue db. (list_abandoned_work_dirs db (now - WORK_DIR_TTL), db)) w of
        (Inl e, w') \<Rightarrow> (Inl e, w')
      | (Inr sims, w') \<Rightarrow> (Inr (), w'\<lparr> mt_files := fold remove sims (mt_files w') \<rparr>))"

text \<open>The purge and the expiry answer a number, which is only logged.\<close>

definition counted_pass :: "('w \<Rightarrow> (exn + nat) \<times> 'w) \<Rightarrow> 'w \<Rightarrow> (exn + unit) \<times> 'w" where
  "counted_pass p w = (case p w of (Inl e, w') \<Rightarrow> (Inl e, w') | (Inr n, w') \<Rightarrow> (Inr (), w'))"

text \<open>
  A beat: the outcome of the query and the touch, and the time of the touch. The state is what the next
  beats will find and the time of the file.
\<close>

fun beat :: "((exn + unit) \<times> int) list \<times> int option \<Rightarrow> (exn + unit) \<times> ((exn + unit) \<times> int) list \<times> int option" where
  "beat ([], touched) = (Inr (), [], touched)"
| "beat ((Inl e, now) # rest, touched) = (Inl e, rest, touched)"
| "beat ((Inr u, now) # rest, touched) = (Inr (), rest, Some now)"

subsection \<open>The loops\<close>

definition run_periodic_reconcile :: "queue_handle \<Rightarrow> pass_env \<Rightarrow> bool list \<Rightarrow> 'f maintained \<Rightarrow> exn list \<times> 'f maintained" where
  "run_periodic_reconcile handle env = run_periodically (reconcile_pass handle env)"

definition run_periodic_sweep :: "(string \<Rightarrow> 'f \<Rightarrow> 'f) \<Rightarrow> pass_env \<Rightarrow> bool list \<Rightarrow> 'f maintained \<Rightarrow> exn list \<times> 'f maintained" where
  "run_periodic_sweep remove env = run_periodically (sweep_pass remove env)"

definition run_periodic_expiry :: "('w \<Rightarrow> (exn + nat) \<times> 'w) \<Rightarrow> bool list \<Rightarrow> 'w \<Rightarrow> exn list \<times> 'w" where
  "run_periodic_expiry expire = run_periodically (counted_pass expire)"

definition run_periodic_purge :: "('w \<Rightarrow> (exn + nat) \<times> 'w) \<Rightarrow> bool list \<Rightarrow> 'w \<Rightarrow> exn list \<times> 'w" where
  "run_periodic_purge purge = run_periodically (counted_pass purge)"

definition run_heartbeat ::
  "bool list \<Rightarrow> ((exn + unit) \<times> int) list \<times> int option \<Rightarrow> exn list \<times> ((exn + unit) \<times> int) list \<times> int option" where
  "run_heartbeat = run_periodically beat"

text \<open>\<open>ensure_output_bucket\<close> at the start: a store that does not answer is logged.\<close>

definition ensure_output_bucket :: "('s, 'm) s3_client \<Rightarrow> 's \<Rightarrow> 's" where
  "ensure_output_bucket c s = snd (ensure_bucket c s)"

subsection \<open>A failed pass does not end its loop\<close>

definition rounds :: "bool list \<Rightarrow> nat" where
  "rounds stops = length (takeWhile (\<lambda>stop. \<not> stop) stops)"

lemma run_periodically_state:
  "snd (run_periodically p stops w) = ((\<lambda>w. snd (p w)) ^^ rounds stops) w"
proof (induction stops arbitrary: w)
  case (Cons stop stops)
  then show ?case
    by (cases stop) (simp_all add: rounds_def Let_def split_beta funpow_Suc_right del: funpow.simps)
qed (simp add: rounds_def)

lemma run_periodically_invariant:
  assumes "\<And>w. P w \<Longrightarrow> P (snd (p w))" and "P w"
  shows "P (snd (run_periodically p stops w))"
proof -
  have "P (((\<lambda>w. snd (p w)) ^^ n) w)" for n by (induction n) (simp_all add: assms)
  then show ?thesis unfolding run_periodically_state .
qed

text \<open>The file of the heartbeat has the time of the last round, before the worker was told to stop, in which
  the database answered; without one, the time it had.\<close>

definition answered :: "((exn + unit) \<times> int) list \<Rightarrow> int list" where
  "answered qs = map snd (filter (\<lambda>q. is_ok (fst q)) qs)"

lemma beats:
  "((\<lambda>w. snd (beat w)) ^^ n) (qs, touched) =
     (drop n qs, if answered (take n qs) = [] then touched else Some (last (answered (take n qs))))"
proof (induction n arbitrary: qs touched)
  case (Suc n)
  have step: "((\<lambda>w. snd (beat w)) ^^ Suc n) w = ((\<lambda>w. snd (beat w)) ^^ n) (snd (beat w))" for w
    by (simp only: funpow_Suc_right o_apply)
  show ?case
  proof (cases qs)
    case Nil
    then show ?thesis unfolding step by (simp add: Suc.IH)
  next
    case (Cons q rest)
    obtain r now where q: "q = (r, now)" by (cases q)
    show ?thesis unfolding step Cons q by (cases r) (auto simp: Suc.IH answered_def)
  qed
qed (simp add: answered_def)

theorem heartbeat_shows_the_last_answer:
  "snd (snd (run_heartbeat stops (qs, touched))) =
     (let times = answered (take (rounds stops) qs) in if times = [] then touched else Some (last times))"
  unfolding run_heartbeat_def run_periodically_state beats by simp

subsection \<open>Reconciliation\<close>

text \<open>What others commit between the accesses.\<close>

definition others_before :: "pass_env \<Rightarrow> job_event set" where
  "others_before env = (\<Union>k. set (da_before (pe_access env k)))"

definition reconciles :: "string \<Rightarrow> job_event \<Rightarrow> bool" where
  "reconciles name e \<longleftrightarrow> (\<exists>cutoff queue now. e = Reconciled name RUN_SIMULATION cutoff queue now)"

lemma reconcile_pass_extends:
  "extends (others_before env) (reconciles name) (mt_db w) (mt_db (snd (reconcile_pass (Some (schema, name)) env w)))"
proof -
  let ?k = "mt_calls w"
  let ?da = "pe_access env ?k" and ?q = "pe_queue env (mt_calls w) (mt_queue w)"
  have "extends (others_before env) (reconciles name) db
      (snd (reconcile_terminal_jobs name RUN_SIMULATION (da_now ?da - RECONCILE_GRACE) ?q (da_now ?da) db))" for db
    using extends_event [of "reconciles name" "Reconciled name RUN_SIMULATION (da_now ?da - RECONCILE_GRACE) ?q (da_now ?da)"]
    by (simp add: reconciles_def)
  then have "extends (others_before env) (reconciles name) (mt_db w)
      (snd (access_db ?da (reconcile_terminal_jobs name RUN_SIMULATION (da_now ?da - RECONCILE_GRACE) ?q (da_now ?da)) (mt_db w)))"
    by (rule access_extends) (auto simp: others_before_def)
  then show ?thesis
    by (simp add: reconcile_pass_def get_queue_def pass_access_def Let_def split_beta split: sum.splits)
qed

lemma reconciled_not_reconcilable: "\<not> reconcilable q (reconciled_row now p r)"
  by (simp add: reconcilable_def reconciled_row_def terminal_iff)

lemma no_reconcilable_left:
  assumes "r \<in> set (rows (snd (reconcile_terminal_jobs name task cutoff queue now db)))" and "q \<in> set queue" and "gave_up name task cutoff q"
  shows "\<not> reconcilable q r"
proof -
  let ?qs = "filter (gave_up name task cutoff) queue"
  obtain r0 where r: "r = reconcile_row now ?qs r0"
    using assms(1) by (auto simp: reconcile_terminal_jobs_def Let_def)
  have q: "q \<in> set ?qs" using assms(2,3) by simp
  show ?thesis
  proof (cases "List.find (\<lambda>q. reconcilable q r0) ?qs")
    case None
    then have "r = r0" using r by (simp add: reconcile_row_def)
    then show ?thesis using None q by (auto simp: find_None_iff)
  next
    case (Some p)
    then show ?thesis using r by (simp add: reconcile_row_def reconciled_not_reconcilable)
  qed
qed


definition calm_access :: db_access where
  "calm_access = \<lparr> da_before = [], da_conn = Inr (), da_tx = Commits, da_now = 0 \<rparr>"


end
