(* ===== verification/Stencil.thy ===== *)
theory Stencil
  imports Complex_Main
begin

text \<open>
  The neighbour stencil of the travel-time solver (tsdhn_ttt/_stencil.py): 256 cells around a
  node, the weight of each cell in the mean slowness along the segment to each of the 120
  neighbours, and the cells that block a segment without weighing in. The tables are the
  source's, entry by entry; a weight \<open>(c, n, d)\<close> is the source's \<open>(c, n / d)\<close>.
\<close>

subsection \<open>The tables\<close>

definition CELLS_neighbours :: "(int \<times> int) list" where
  "CELLS_neighbours =
    [
     (1, 0), (- 1, 0), (0, 1), (0, - 1), (1, 1), (- 1, - 1), (1, - 1), (- 1, 1), (2, 1),
     (- 2, - 1), (2, - 1), (- 2, 1), (1, 2), (- 1, - 2), (1, - 2), (- 1, 2), (3, 1), (- 3, - 1),
     (3, - 1), (- 3, 1), (1, 3), (- 1, - 3), (1, - 3), (- 1, 3), (3, 2), (- 3, - 2), (3, - 2),
     (- 3, 2), (2, 3), (- 2, - 3), (2, - 3), (- 2, 3), (4, 1), (- 4, - 1), (4, - 1), (- 4, 1),
     (1, 4), (- 1, - 4), (1, - 4), (- 1, 4), (4, 3), (- 4, - 3), (4, - 3), (- 4, 3), (3, 4),
     (- 3, - 4), (3, - 4), (- 3, 4), (5, 1), (- 5, - 1), (5, - 1), (- 5, 1), (1, 5), (- 1, - 5),
     (1, - 5), (- 1, 5), (5, 2), (- 5, - 2), (5, - 2), (- 5, 2), (2, 5), (- 2, - 5), (2, - 5),
     (- 2, 5), (5, 3), (- 5, - 3), (5, - 3), (- 5, 3), (3, 5), (- 3, - 5), (3, - 5), (- 3, 5),
     (6, 1), (- 6, - 1), (6, - 1), (- 6, 1), (1, 6), (- 1, - 6), (1, - 6), (- 1, 6), (5, 4),
     (- 5, - 4), (5, - 4), (- 5, 4), (4, 5), (- 4, - 5), (4, - 5), (- 4, 5), (7, 3), (- 7, - 3),
     (7, - 3), (- 7, 3), (3, 7), (- 3, - 7), (3, - 7), (- 3, 7), (8, 1), (- 8, - 1), (8, - 1),
     (- 8, 1), (1, 8), (- 1, - 8), (1, - 8), (- 1, 8), (7, 6), (- 7, - 6), (7, - 6), (- 7, 6),
     (6, 7), (- 6, - 7), (6, - 7), (- 6, 7), (13, 1), (- 13, - 1), (13, - 1), (- 13, 1), (1, 13),
     (- 1, - 13), (1, - 13), (- 1, 13)
    ]"

definition CELLS_between :: "(int \<times> int) list" where
  "CELLS_between =
    [
     (2, 0), (- 2, 0), (0, 2), (0, - 2), (2, 2), (- 2, - 2), (2, - 2), (- 2, 2), (3, 0), (- 3, 0),
     (0, 3), (0, - 3), (4, 0), (- 4, 0), (0, 4), (0, - 4), (3, 3), (- 3, - 3), (3, - 3), (- 3, 3),
     (4, 2), (- 4, - 2), (4, - 2), (- 4, 2), (2, 4), (- 2, - 4), (2, - 4), (- 2, 4), (5, 0),
     (- 5, 0), (0, 5), (0, - 5), (4, 4), (- 4, - 4), (4, - 4), (- 4, 4), (6, 0), (- 6, 0), (0, 6),
     (0, - 6), (6, 2), (- 6, - 2), (6, - 2), (- 6, 2), (2, 6), (- 2, - 6), (2, - 6), (- 2, 6),
     (6, 3), (- 6, - 3), (6, - 3), (- 6, 3), (3, 6), (- 3, - 6), (3, - 6), (- 3, 6), (7, 0),
     (- 7, 0), (0, 7), (0, - 7), (5, 5), (- 5, - 5), (5, - 5), (- 5, 5), (7, 1), (- 7, - 1),
     (7, - 1), (- 7, 1), (1, 7), (- 1, - 7), (1, - 7), (- 1, 7), (6, 5), (- 6, - 5), (6, - 5),
     (- 6, 5), (5, 6), (- 5, - 6), (5, - 6), (- 5, 6), (8, 0), (- 8, 0), (0, 8), (0, - 8), (6, 6),
     (- 6, - 6), (6, - 6), (- 6, 6), (9, 0), (- 9, 0), (0, 9), (0, - 9), (9, 1), (- 9, - 1),
     (9, - 1), (- 9, 1), (1, 9), (- 1, - 9), (1, - 9), (- 1, 9), (10, 0), (- 10, 0), (0, 10),
     (0, - 10), (10, 1), (- 10, - 1), (10, - 1), (- 10, 1), (1, 10), (- 1, - 10), (1, - 10),
     (- 1, 10), (11, 0), (- 11, 0), (0, 11), (0, - 11), (11, 1), (- 11, - 1), (11, - 1), (- 11, 1),
     (1, 11), (- 1, - 11), (1, - 11), (- 1, 11), (12, 0), (- 12, 0), (0, 12), (0, - 12), (12, 1),
     (- 12, - 1), (12, - 1), (- 12, 1), (1, 12), (- 1, - 12), (1, - 12), (- 1, 12)
    ]"

definition WEIGHTS_0_29 :: "(int \<times> int \<times> int) list list" where
  "WEIGHTS_0_29 =
    [
     [(0, 1, 1)],
     [(1, 1, 1)],
     [(2, 1, 1)],
     [(3, 1, 1)],
     [(4, 1, 1)],
     [(5, 1, 1)],
     [(6, 1, 1)],
     [(7, 1, 1)],
     [(0, 1, 1), (4, 1, 1), (8, 1, 1)],
     [(1, 1, 1), (5, 1, 1), (9, 1, 1)],
     [(0, 1, 1), (6, 1, 1), (10, 1, 1)],
     [(1, 1, 1), (7, 1, 1), (11, 1, 1)],
     [(2, 1, 1), (4, 1, 1), (12, 1, 1)],
     [(3, 1, 1), (5, 1, 1), (13, 1, 1)],
     [(3, 1, 1), (6, 1, 1), (14, 1, 1)],
     [(2, 1, 1), (7, 1, 1), (15, 1, 1)],
     [(0, 4, 3), (4, 2, 3), (8, 4, 3), (16, 1, 1), (120, 2, 3)],
     [(1, 4, 3), (5, 2, 3), (9, 4, 3), (17, 1, 1), (121, 2, 3)],
     [(0, 4, 3), (6, 2, 3), (10, 4, 3), (18, 1, 1), (120, 2, 3)],
     [(1, 4, 3), (7, 2, 3), (11, 4, 3), (19, 1, 1), (121, 2, 3)],
     [(2, 4, 3), (4, 2, 3), (12, 4, 3), (20, 1, 1), (122, 2, 3)],
     [(3, 4, 3), (5, 2, 3), (13, 4, 3), (21, 1, 1), (123, 2, 3)],
     [(3, 4, 3), (6, 2, 3), (14, 4, 3), (22, 1, 1), (123, 2, 3)],
     [(2, 4, 3), (7, 2, 3), (15, 4, 3), (23, 1, 1), (122, 2, 3)],
     [(0, 1, 2), (4, 3, 2), (8, 3, 2), (24, 1, 1), (124, 1, 2)],
     [(1, 1, 2), (5, 3, 2), (9, 3, 2), (25, 1, 1), (125, 1, 2)],
     [(0, 1, 2), (6, 3, 2), (10, 3, 2), (26, 1, 1), (126, 1, 2)],
     [(1, 1, 2), (7, 3, 2), (11, 3, 2), (27, 1, 1), (127, 1, 2)],
     [(2, 1, 2), (4, 3, 2), (12, 3, 2), (28, 1, 1), (124, 1, 2)],
     [(3, 1, 2), (5, 3, 2), (13, 3, 2), (29, 1, 1), (125, 1, 2)]
    ]"

definition WEIGHTS_30_45 :: "(int \<times> int \<times> int) list list" where
  "WEIGHTS_30_45 =
    [
     [(3, 1, 2), (6, 3, 2), (14, 3, 2), (30, 1, 1), (126, 1, 2)],
     [(2, 1, 2), (7, 3, 2), (15, 3, 2), (31, 1, 1), (127, 1, 2)],
     [(0, 3, 2), (4, 1, 2), (8, 1, 1), (16, 3, 2), (32, 1, 1), (120, 1, 1), (128, 1, 2)],
     [(1, 3, 2), (5, 1, 2), (9, 1, 1), (17, 3, 2), (33, 1, 1), (121, 1, 1), (129, 1, 2)],
     [(0, 3, 2), (6, 1, 2), (10, 1, 1), (18, 3, 2), (34, 1, 1), (120, 1, 1), (128, 1, 2)],
     [(1, 3, 2), (7, 1, 2), (11, 1, 1), (19, 3, 2), (35, 1, 1), (121, 1, 1), (129, 1, 2)],
     [(2, 3, 2), (4, 1, 2), (12, 1, 1), (20, 3, 2), (36, 1, 1), (122, 1, 1), (130, 1, 2)],
     [(3, 3, 2), (5, 1, 2), (13, 1, 1), (21, 3, 2), (37, 1, 1), (123, 1, 1), (131, 1, 2)],
     [(3, 3, 2), (6, 1, 2), (14, 1, 1), (22, 3, 2), (38, 1, 1), (123, 1, 1), (131, 1, 2)],
     [(2, 3, 2), (7, 1, 2), (15, 1, 1), (23, 3, 2), (39, 1, 1), (122, 1, 1), (130, 1, 2)],
     [(0, 1, 3), (4, 5, 3), (8, 1, 1), (24, 5, 3), (40, 1, 1), (124, 1, 1), (136, 1, 3)],
     [(1, 1, 3), (5, 5, 3), (9, 1, 1), (25, 5, 3), (41, 1, 1), (125, 1, 1), (137, 1, 3)],
     [(0, 1, 3), (6, 5, 3), (10, 1, 1), (26, 5, 3), (42, 1, 1), (126, 1, 1), (138, 1, 3)],
     [(1, 1, 3), (7, 5, 3), (11, 1, 1), (27, 5, 3), (43, 1, 1), (127, 1, 1), (139, 1, 3)],
     [(2, 1, 3), (4, 5, 3), (12, 1, 1), (28, 5, 3), (44, 1, 1), (124, 1, 1), (136, 1, 3)],
     [(3, 1, 3), (5, 5, 3), (13, 1, 1), (29, 5, 3), (45, 1, 1), (125, 1, 1), (137, 1, 3)]
    ]"

definition WEIGHTS_46_58 :: "(int \<times> int \<times> int) list list" where
  "WEIGHTS_46_58 =
    [
     [(3, 1, 3), (6, 5, 3), (14, 1, 1), (30, 5, 3), (46, 1, 1), (126, 1, 1), (138, 1, 3)],
     [(2, 1, 3), (7, 5, 3), (15, 1, 1), (31, 5, 3), (47, 1, 1), (127, 1, 1), (139, 1, 3)],
     [(0, 8, 5), (4, 2, 5), (8, 4, 5), (16, 6, 5), (32, 8, 5), (48, 1, 1), (120, 6, 5), (128, 
      4, 5), (132, 2, 5)],
     [(1, 8, 5), (5, 2, 5), (9, 4, 5), (17, 6, 5), (33, 8, 5), (49, 1, 1), (121, 6, 5), (129, 
      4, 5), (133, 2, 5)],
     [(0, 8, 5), (6, 2, 5), (10, 4, 5), (18, 6, 5), (34, 8, 5), (50, 1, 1), (120, 6, 5), (128, 
      4, 5), (132, 2, 5)],
     [(1, 8, 5), (7, 2, 5), (11, 4, 5), (19, 6, 5), (35, 8, 5), (51, 1, 1), (121, 6, 5), (129, 
      4, 5), (133, 2, 5)],
     [(2, 8, 5), (4, 2, 5), (12, 4, 5), (20, 6, 5), (36, 8, 5), (52, 1, 1), (122, 6, 5), (130, 
      4, 5), (134, 2, 5)],
     [(3, 8, 5), (5, 2, 5), (13, 4, 5), (21, 6, 5), (37, 8, 5), (53, 1, 1), (123, 6, 5), (131, 
      4, 5), (135, 2, 5)],
     [(3, 8, 5), (6, 2, 5), (14, 4, 5), (22, 6, 5), (38, 8, 5), (54, 1, 1), (123, 6, 5), (131, 
      4, 5), (135, 2, 5)],
     [(2, 8, 5), (7, 2, 5), (15, 4, 5), (23, 6, 5), (39, 8, 5), (55, 1, 1), (122, 6, 5), (130, 
      4, 5), (134, 2, 5)],
     [(0, 6, 5), (4, 4, 5), (8, 17, 10), (16, 17, 10), (24, 3, 10), (32, 4, 5), (56, 1, 1), 
      (120, 3, 10), (140, 6, 5)],
     [(1, 6, 5), (5, 4, 5), (9, 17, 10), (17, 17, 10), (25, 3, 10), (33, 4, 5), (57, 1, 1), 
      (121, 3, 10), (141, 6, 5)],
     [(0, 6, 5), (6, 4, 5), (10, 17, 10), (18, 17, 10), (26, 3, 10), (34, 4, 5), (58, 1, 1), 
      (120, 3, 10), (142, 6, 5)]
    ]"

definition WEIGHTS_59_71 :: "(int \<times> int \<times> int) list list" where
  "WEIGHTS_59_71 =
    [
     [(1, 6, 5), (7, 4, 5), (11, 17, 10), (19, 17, 10), (27, 3, 10), (35, 4, 5), (59, 1, 1), 
      (121, 3, 10), (143, 6, 5)],
     [(2, 6, 5), (4, 4, 5), (12, 17, 10), (20, 17, 10), (28, 3, 10), (36, 4, 5), (60, 1, 1), 
      (122, 3, 10), (144, 6, 5)],
     [(3, 6, 5), (5, 4, 5), (13, 17, 10), (21, 17, 10), (29, 3, 10), (37, 4, 5), (61, 1, 1), 
      (123, 3, 10), (145, 6, 5)],
     [(3, 6, 5), (6, 4, 5), (14, 17, 10), (22, 17, 10), (30, 3, 10), (38, 4, 5), (62, 1, 1), 
      (123, 3, 10), (146, 6, 5)],
     [(2, 6, 5), (7, 4, 5), (15, 17, 10), (23, 17, 10), (31, 3, 10), (39, 4, 5), (63, 1, 1), 
      (122, 3, 10), (147, 6, 5)],
     [(0, 2, 3), (4, 4, 3), (8, 26, 15), (16, 4, 15), (24, 26, 15), (40, 2, 3), (64, 1, 1), 
      (124, 4, 15), (140, 4, 3)],
     [(1, 2, 3), (5, 4, 3), (9, 26, 15), (17, 4, 15), (25, 26, 15), (41, 2, 3), (65, 1, 1), 
      (125, 4, 15), (141, 4, 3)],
     [(0, 2, 3), (6, 4, 3), (10, 26, 15), (18, 4, 15), (26, 26, 15), (42, 2, 3), (66, 1, 1), 
      (126, 4, 15), (142, 4, 3)],
     [(1, 2, 3), (7, 4, 3), (11, 26, 15), (19, 4, 15), (27, 26, 15), (43, 2, 3), (67, 1, 1), 
      (127, 4, 15), (143, 4, 3)],
     [(2, 2, 3), (4, 4, 3), (12, 26, 15), (20, 4, 15), (28, 26, 15), (44, 2, 3), (68, 1, 1), 
      (124, 4, 15), (144, 4, 3)],
     [(3, 2, 3), (5, 4, 3), (13, 26, 15), (21, 4, 15), (29, 26, 15), (45, 2, 3), (69, 1, 1), 
      (125, 4, 15), (145, 4, 3)],
     [(3, 2, 3), (6, 4, 3), (14, 26, 15), (22, 4, 15), (30, 26, 15), (46, 2, 3), (70, 1, 1), 
      (126, 4, 15), (146, 4, 3)],
     [(2, 2, 3), (7, 4, 3), (15, 26, 15), (23, 4, 15), (31, 26, 15), (47, 2, 3), (71, 1, 1), 
      (127, 4, 15), (147, 4, 3)]
    ]"

definition WEIGHTS_72_83 :: "(int \<times> int \<times> int) list list" where
  "WEIGHTS_72_83 =
    [
     [(0, 5, 3), (4, 1, 3), (8, 2, 3), (16, 1, 1), (32, 4, 3), (48, 5, 3), (72, 1, 1), (120, 
      4, 3), (128, 1, 1), (132, 2, 3), (148, 1, 3)],
     [(1, 5, 3), (5, 1, 3), (9, 2, 3), (17, 1, 1), (33, 4, 3), (49, 5, 3), (73, 1, 1), (121, 
      4, 3), (129, 1, 1), (133, 2, 3), (149, 1, 3)],
     [(0, 5, 3), (6, 1, 3), (10, 2, 3), (18, 1, 1), (34, 4, 3), (50, 5, 3), (74, 1, 1), (120, 
      4, 3), (128, 1, 1), (132, 2, 3), (148, 1, 3)],
     [(1, 5, 3), (7, 1, 3), (11, 2, 3), (19, 1, 1), (35, 4, 3), (51, 5, 3), (75, 1, 1), (121, 
      4, 3), (129, 1, 1), (133, 2, 3), (149, 1, 3)],
     [(2, 5, 3), (4, 1, 3), (12, 2, 3), (20, 1, 1), (36, 4, 3), (52, 5, 3), (76, 1, 1), (122, 
      4, 3), (130, 1, 1), (134, 2, 3), (150, 1, 3)],
     [(3, 5, 3), (5, 1, 3), (13, 2, 3), (21, 1, 1), (37, 4, 3), (53, 5, 3), (77, 1, 1), (123, 
      4, 3), (131, 1, 1), (135, 2, 3), (151, 1, 3)],
     [(3, 5, 3), (6, 1, 3), (14, 2, 3), (22, 1, 1), (38, 4, 3), (54, 5, 3), (78, 1, 1), (123, 
      4, 3), (131, 1, 1), (135, 2, 3), (151, 1, 3)],
     [(2, 5, 3), (7, 1, 3), (15, 2, 3), (23, 1, 1), (39, 4, 3), (55, 5, 3), (79, 1, 1), (122, 
      4, 3), (130, 1, 1), (134, 2, 3), (150, 1, 3)],
     [(0, 1, 4), (4, 7, 4), (8, 3, 4), (24, 5, 4), (40, 7, 4), (80, 1, 1), (124, 5, 4), (136, 
      3, 4), (152, 1, 4)],
     [(1, 1, 4), (5, 7, 4), (9, 3, 4), (25, 5, 4), (41, 7, 4), (81, 1, 1), (125, 5, 4), (137, 
      3, 4), (153, 1, 4)],
     [(0, 1, 4), (6, 7, 4), (10, 3, 4), (26, 5, 4), (42, 7, 4), (82, 1, 1), (126, 5, 4), (138, 
      3, 4), (154, 1, 4)],
     [(1, 1, 4), (7, 7, 4), (11, 3, 4), (27, 5, 4), (43, 7, 4), (83, 1, 1), (127, 5, 4), (139, 
      3, 4), (155, 1, 4)]
    ]"

definition WEIGHTS_84_93 :: "(int \<times> int \<times> int) list list" where
  "WEIGHTS_84_93 =
    [
     [(2, 1, 4), (4, 7, 4), (12, 3, 4), (28, 5, 4), (44, 7, 4), (84, 1, 1), (124, 5, 4), (136, 
      3, 4), (152, 1, 4)],
     [(3, 1, 4), (5, 7, 4), (13, 3, 4), (29, 5, 4), (45, 7, 4), (85, 1, 1), (125, 5, 4), (137, 
      3, 4), (153, 1, 4)],
     [(3, 1, 4), (6, 7, 4), (14, 3, 4), (30, 5, 4), (46, 7, 4), (86, 1, 1), (126, 5, 4), (138, 
      3, 4), (154, 1, 4)],
     [(2, 1, 4), (7, 7, 4), (15, 3, 4), (31, 5, 4), (47, 7, 4), (87, 1, 1), (127, 5, 4), (139, 
      3, 4), (155, 1, 4)],
     [(0, 8, 7), (4, 6, 7), (8, 38, 21), (16, 32, 21), (24, 10, 21), (32, 10, 21), (56, 38, 
      21), (64, 4, 21), (88, 1, 1), (120, 4, 21), (140, 32, 21), (160, 6, 7), (168, 8, 7)],
     [(1, 8, 7), (5, 6, 7), (9, 38, 21), (17, 32, 21), (25, 10, 21), (33, 10, 21), (57, 38, 
      21), (65, 4, 21), (89, 1, 1), (121, 4, 21), (141, 32, 21), (161, 6, 7), (169, 8, 7)],
     [(0, 8, 7), (6, 6, 7), (10, 38, 21), (18, 32, 21), (26, 10, 21), (34, 10, 21), (58, 38, 
      21), (66, 4, 21), (90, 1, 1), (120, 4, 21), (142, 32, 21), (162, 6, 7), (170, 8, 7)],
     [(1, 8, 7), (7, 6, 7), (11, 38, 21), (19, 32, 21), (27, 10, 21), (35, 10, 21), (59, 38, 
      21), (67, 4, 21), (91, 1, 1), (121, 4, 21), (143, 32, 21), (163, 6, 7), (171, 8, 7)],
     [(2, 8, 7), (4, 6, 7), (12, 38, 21), (20, 32, 21), (28, 10, 21), (36, 10, 21), (60, 38, 
      21), (68, 4, 21), (92, 1, 1), (122, 4, 21), (144, 32, 21), (164, 6, 7), (172, 8, 7)],
     [(3, 8, 7), (5, 6, 7), (13, 38, 21), (21, 32, 21), (29, 10, 21), (37, 10, 21), (61, 38, 
      21), (69, 4, 21), (93, 1, 1), (123, 4, 21), (145, 32, 21), (165, 6, 7), (173, 8, 7)]
    ]"

definition WEIGHTS_94_101 :: "(int \<times> int \<times> int) list list" where
  "WEIGHTS_94_101 =
    [
     [(3, 8, 7), (6, 6, 7), (14, 38, 21), (22, 32, 21), (30, 10, 21), (38, 10, 21), (62, 38, 
      21), (70, 4, 21), (94, 1, 1), (123, 4, 21), (146, 32, 21), (166, 6, 7), (174, 8, 7)],
     [(2, 8, 7), (7, 6, 7), (15, 38, 21), (23, 32, 21), (31, 10, 21), (39, 10, 21), (63, 38, 
      21), (71, 4, 21), (95, 1, 1), (122, 4, 21), (147, 32, 21), (167, 6, 7), (175, 8, 7)],
     [(0, 7, 4), (4, 1, 4), (8, 1, 2), (16, 3, 4), (32, 1, 1), (48, 5, 4), (72, 3, 2), (96, 1, 
      1), (120, 3, 2), (128, 5, 4), (132, 1, 1), (148, 3, 4), (156, 1, 2), (176, 1, 4), (184, 
      7, 4)],
     [(1, 7, 4), (5, 1, 4), (9, 1, 2), (17, 3, 4), (33, 1, 1), (49, 5, 4), (73, 3, 2), (97, 1, 
      1), (121, 3, 2), (129, 5, 4), (133, 1, 1), (149, 3, 4), (157, 1, 2), (177, 1, 4), (185, 
      7, 4)],
     [(0, 7, 4), (6, 1, 4), (10, 1, 2), (18, 3, 4), (34, 1, 1), (50, 5, 4), (74, 3, 2), (98, 
      1, 1), (120, 3, 2), (128, 5, 4), (132, 1, 1), (148, 3, 4), (156, 1, 2), (176, 1, 4), 
      (186, 7, 4)],
     [(1, 7, 4), (7, 1, 4), (11, 1, 2), (19, 3, 4), (35, 1, 1), (51, 5, 4), (75, 3, 2), (99, 
      1, 1), (121, 3, 2), (129, 5, 4), (133, 1, 1), (149, 3, 4), (157, 1, 2), (177, 1, 4), 
      (187, 7, 4)],
     [(2, 7, 4), (4, 1, 4), (12, 1, 2), (20, 3, 4), (36, 1, 1), (52, 5, 4), (76, 3, 2), (100, 
      1, 1), (122, 3, 2), (130, 5, 4), (134, 1, 1), (150, 3, 4), (158, 1, 2), (178, 1, 4), 
      (188, 7, 4)],
     [(3, 7, 4), (5, 1, 4), (13, 1, 2), (21, 3, 4), (37, 1, 1), (53, 5, 4), (77, 3, 2), (101, 
      1, 1), (123, 3, 2), (131, 5, 4), (135, 1, 1), (151, 3, 4), (159, 1, 2), (179, 1, 4), 
      (189, 7, 4)]
    ]"

definition WEIGHTS_102_110 :: "(int \<times> int \<times> int) list list" where
  "WEIGHTS_102_110 =
    [
     [(3, 7, 4), (6, 1, 4), (14, 1, 2), (22, 3, 4), (38, 1, 1), (54, 5, 4), (78, 3, 2), (102, 
      1, 1), (123, 3, 2), (131, 5, 4), (135, 1, 1), (151, 3, 4), (159, 1, 2), (179, 1, 4), 
      (190, 7, 4)],
     [(2, 7, 4), (7, 1, 4), (15, 1, 2), (23, 3, 4), (39, 1, 1), (55, 5, 4), (79, 3, 2), (103, 
      1, 1), (122, 3, 2), (130, 5, 4), (134, 1, 1), (150, 3, 4), (158, 1, 2), (178, 1, 4), 
      (191, 7, 4)],
     [(0, 1, 6), (4, 11, 6), (8, 1, 2), (24, 5, 6), (40, 7, 6), (80, 3, 2), (104, 1, 1), (124, 
      3, 2), (136, 7, 6), (152, 5, 6), (180, 1, 2), (192, 11, 6), (204, 1, 6)],
     [(1, 1, 6), (5, 11, 6), (9, 1, 2), (25, 5, 6), (41, 7, 6), (81, 3, 2), (105, 1, 1), (125, 
      3, 2), (137, 7, 6), (153, 5, 6), (181, 1, 2), (193, 11, 6), (205, 1, 6)],
     [(0, 1, 6), (6, 11, 6), (10, 1, 2), (26, 5, 6), (42, 7, 6), (82, 3, 2), (106, 1, 1), 
      (126, 3, 2), (138, 7, 6), (154, 5, 6), (182, 1, 2), (194, 11, 6), (206, 1, 6)],
     [(1, 1, 6), (7, 11, 6), (11, 1, 2), (27, 5, 6), (43, 7, 6), (83, 3, 2), (107, 1, 1), 
      (127, 3, 2), (139, 7, 6), (155, 5, 6), (183, 1, 2), (195, 11, 6), (207, 1, 6)],
     [(2, 1, 6), (4, 11, 6), (12, 1, 2), (28, 5, 6), (44, 7, 6), (84, 3, 2), (108, 1, 1), 
      (124, 3, 2), (136, 7, 6), (152, 5, 6), (180, 1, 2), (196, 11, 6), (204, 1, 6)],
     [(3, 1, 6), (5, 11, 6), (13, 1, 2), (29, 5, 6), (45, 7, 6), (85, 3, 2), (109, 1, 1), 
      (125, 3, 2), (137, 7, 6), (153, 5, 6), (181, 1, 2), (197, 11, 6), (205, 1, 6)],
     [(3, 1, 6), (6, 11, 6), (14, 1, 2), (30, 5, 6), (46, 7, 6), (86, 3, 2), (110, 1, 1), 
      (126, 3, 2), (138, 7, 6), (154, 5, 6), (182, 1, 2), (198, 11, 6), (206, 1, 6)]
    ]"

definition WEIGHTS_111_115 :: "(int \<times> int \<times> int) list list" where
  "WEIGHTS_111_115 =
    [
     [(2, 1, 6), (7, 11, 6), (15, 1, 2), (31, 5, 6), (47, 7, 6), (87, 3, 2), (111, 1, 1), 
      (127, 3, 2), (139, 7, 6), (155, 5, 6), (183, 1, 2), (199, 11, 6), (207, 1, 6)],
     [(0, 24, 13), (4, 2, 13), (8, 4, 13), (16, 6, 13), (32, 8, 13), (48, 10, 13), (72, 12, 
      13), (96, 16, 13), (112, 1, 1), (120, 22, 13), (128, 20, 13), (132, 18, 13), (148, 16, 
      13), (156, 14, 13), (176, 12, 13), (184, 14, 13), (200, 10, 13), (208, 8, 13), (212, 18, 
      13), (220, 6, 13), (224, 20, 13), (232, 4, 13), (236, 22, 13), (244, 2, 13), (248, 24, 
      13)],
     [(1, 24, 13), (5, 2, 13), (9, 4, 13), (17, 6, 13), (33, 8, 13), (49, 10, 13), (73, 12, 
      13), (97, 16, 13), (113, 1, 1), (121, 22, 13), (129, 20, 13), (133, 18, 13), (149, 16, 
      13), (157, 14, 13), (177, 12, 13), (185, 14, 13), (201, 10, 13), (209, 8, 13), (213, 18, 
      13), (221, 6, 13), (225, 20, 13), (233, 4, 13), (237, 22, 13), (245, 2, 13), (249, 24, 
      13)],
     [(0, 24, 13), (6, 2, 13), (10, 4, 13), (18, 6, 13), (34, 8, 13), (50, 10, 13), (74, 12, 
      13), (98, 16, 13), (114, 1, 1), (120, 22, 13), (128, 20, 13), (132, 18, 13), (148, 16, 
      13), (156, 14, 13), (176, 12, 13), (186, 14, 13), (200, 10, 13), (208, 8, 13), (214, 18, 
      13), (220, 6, 13), (226, 20, 13), (232, 4, 13), (238, 22, 13), (244, 2, 13), (250, 24, 
      13)],
     [(1, 24, 13), (7, 2, 13), (11, 4, 13), (19, 6, 13), (35, 8, 13), (51, 10, 13), (75, 12, 
      13), (99, 16, 13), (115, 1, 1), (121, 22, 13), (129, 20, 13), (133, 18, 13), (149, 16, 
      13), (157, 14, 13), (177, 12, 13), (187, 14, 13), (201, 10, 13), (209, 8, 13), (215, 18, 
      13), (221, 6, 13), (227, 20, 13), (233, 4, 13), (239, 22, 13), (245, 2, 13), (251, 24, 
      13)]
    ]"

definition WEIGHTS_116_119 :: "(int \<times> int \<times> int) list list" where
  "WEIGHTS_116_119 =
    [
     [(2, 24, 13), (4, 2, 13), (12, 4, 13), (20, 6, 13), (36, 8, 13), (52, 10, 13), (76, 12, 
      13), (100, 16, 13), (116, 1, 1), (122, 22, 13), (130, 20, 13), (134, 18, 13), (150, 16, 
      13), (158, 14, 13), (178, 12, 13), (188, 14, 13), (202, 10, 13), (210, 8, 13), (216, 18, 
      13), (222, 6, 13), (228, 20, 13), (234, 4, 13), (240, 22, 13), (246, 2, 13), (252, 24, 
      13)],
     [(3, 24, 13), (5, 2, 13), (13, 4, 13), (21, 6, 13), (37, 8, 13), (53, 10, 13), (77, 12, 
      13), (101, 16, 13), (117, 1, 1), (123, 22, 13), (131, 20, 13), (135, 18, 13), (151, 16, 
      13), (159, 14, 13), (179, 12, 13), (189, 14, 13), (203, 10, 13), (211, 8, 13), (217, 18, 
      13), (223, 6, 13), (229, 20, 13), (235, 4, 13), (241, 22, 13), (247, 2, 13), (253, 24, 
      13)],
     [(3, 24, 13), (6, 2, 13), (14, 4, 13), (22, 6, 13), (38, 8, 13), (54, 10, 13), (78, 12, 
      13), (102, 16, 13), (118, 1, 1), (123, 22, 13), (131, 20, 13), (135, 18, 13), (151, 16, 
      13), (159, 14, 13), (179, 12, 13), (190, 14, 13), (203, 10, 13), (211, 8, 13), (218, 18, 
      13), (223, 6, 13), (230, 20, 13), (235, 4, 13), (242, 22, 13), (247, 2, 13), (254, 24, 
      13)],
     [(2, 24, 13), (7, 2, 13), (15, 4, 13), (23, 6, 13), (39, 8, 13), (55, 10, 13), (79, 12, 
      13), (103, 16, 13), (119, 1, 1), (122, 22, 13), (130, 20, 13), (134, 18, 13), (150, 16, 
      13), (158, 14, 13), (178, 12, 13), (191, 14, 13), (202, 10, 13), (210, 8, 13), (219, 18, 
      13), (222, 6, 13), (231, 20, 13), (234, 4, 13), (243, 22, 13), (246, 2, 13), (255, 24, 
      13)]
    ]"

definition BLOCKERS :: "(int \<times> int) list" where
  "BLOCKERS = [(104, 16), (105, 17), (106, 18), (107, 19), (108, 20), (109, 21), (110, 22), (111, 23)]"

definition CELLS :: "(int \<times> int) list" where
  "CELLS = CELLS_neighbours @ CELLS_between"

definition WEIGHTS :: "(int \<times> int \<times> int) list list" where
  "WEIGHTS = WEIGHTS_0_29 @ WEIGHTS_30_45 @ WEIGHTS_46_58 @ WEIGHTS_59_71 @ WEIGHTS_72_83 @
    WEIGHTS_84_93 @ WEIGHTS_94_101 @ WEIGHTS_102_110 @ WEIGHTS_111_115 @ WEIGHTS_116_119"

text \<open>Indexing a table by a non-negative index below its length.\<close>

fun entry :: "'a list \<Rightarrow> int \<Rightarrow> 'a" where
  "entry (x # xs) i = (if i = 0 then x else entry xs (i - 1))"
| "entry [] i = undefined"

definition NEIGHBOURS :: int where
  "NEIGHBOURS = 120"

definition cell_at :: "int \<Rightarrow> int \<times> int" where
  "cell_at c = (if c < NEIGHBOURS then entry CELLS_neighbours c else entry CELLS_between (c - NEIGHBOURS))"

subsection \<open>What the weights mean\<close>

text \<open>
  The reference: along the segment from the node to \<open>(di, dj)\<close> slowness is interpolated
  linearly between nodes wherever the segment crosses a grid line, and the mean is taken by
  the trapezoid rule over the crossings, scaled by twice the length of the major axis. With
  \<open>a = |di|\<close>, \<open>b = |dj|\<close> a point of the segment is \<open>t\<close> of \<open>0 .. a * b\<close>, its coordinates
  \<open>t / b\<close> and \<open>t / a\<close>.
\<close>

definition segment_crossings :: "int \<Rightarrow> int \<Rightarrow> int list" where
  "segment_crossings a b = filter (\<lambda>t. t mod b = 0 \<or> t mod a = 0) [0..a * b]"

text \<open>The two nodes beside a crossing with their shares, over the denominator \<open>a\<^sup>2 b\<^sup>2\<close>.\<close>

definition crossing_shares :: "int \<Rightarrow> int \<Rightarrow> int \<Rightarrow> int \<Rightarrow> ((int \<times> int) \<times> int) list" where
  "crossing_shares a b t w =
     (if t mod b = 0
      then [((t div b, t div a), w * (a - t mod a) * b), ((t div b, t div a + 1), w * (t mod a) * b)]
      else [((t div b, t div a), w * (b - t mod b) * a), ((t div b + 1, t div a), w * (t mod b) * a)])"

fun interior_shares :: "int \<Rightarrow> int \<Rightarrow> int list \<Rightarrow> ((int \<times> int) \<times> int) list" where
  "interior_shares a b (p # t # n # ts) =
     crossing_shares a b t ((n - p) * max a b) @ interior_shares a b (t # n # ts)"
| "interior_shares a b _ = []"

definition segment_denominator :: "int \<times> int \<Rightarrow> int" where
  "segment_denominator d =
     (case d of (di, dj) \<Rightarrow> if di = 0 \<or> dj = 0 then 1 else di * di * dj * dj)"

definition segment_shares :: "int \<times> int \<Rightarrow> ((int \<times> int) \<times> int) list" where
  "segment_shares d =
     (case d of (di, dj) \<Rightarrow>
        if di = 0 \<or> dj = 0 then [(d, 1)]
        else map (\<lambda>((x, y), w). ((sgn di * x, sgn dj * y), w))
               (interior_shares \<bar>di\<bar> \<bar>dj\<bar> (segment_crossings \<bar>di\<bar> \<bar>dj\<bar>)) @
             [(d, segment_denominator d)])"

definition trapezoid_weight :: "int \<times> int \<Rightarrow> int \<times> int \<Rightarrow> real" where
  "trapezoid_weight d z =
     of_int (\<Sum>(z', w) \<leftarrow> segment_shares d. if z' = z then w else 0) / of_int (segment_denominator d)"

text \<open>The weight the tables give a cell of the patch in the segment to neighbour \<open>k\<close>.\<close>

definition row_cells :: "(int \<times> int \<times> int) list \<Rightarrow> ((int \<times> int) \<times> int \<times> int) list" where
  "row_cells row = map (\<lambda>(c, n, d). (cell_at c, n, d)) row"

definition table_weight :: "int \<Rightarrow> int \<times> int \<Rightarrow> real" where
  "table_weight k z =
     (\<Sum>(z', n, d) \<leftarrow> row_cells (entry WEIGHTS k). if z' = z then of_int n / of_int d else 0)"

subsection \<open>Checking the tables\<close>

definition share_of :: "((int \<times> int) \<times> int) list \<Rightarrow> int \<times> int \<Rightarrow> int" where
  "share_of shares z = (\<Sum>(z', w) \<leftarrow> shares. if z' = z then w else 0)"

definition row_agrees :: "int \<times> int \<Rightarrow> (int \<times> int \<times> int) list \<Rightarrow> bool" where
  "row_agrees d row =
     (let shares = segment_shares d; den = segment_denominator d; cells = row_cells row in
      den > 0 \<and> distinct (map fst cells) \<and>
      list_all (\<lambda>(z, n, e). e > 0 \<and> n * den = e * share_of shares z) cells \<and>
      list_all (\<lambda>(z, w). w = 0 \<or> z \<in> set (map fst cells)) shares)"

lemma agree_0: "list_all2 row_agrees (take 30 (drop 0 CELLS_neighbours)) WEIGHTS_0_29"
  by code_simp

lemma agree_30: "list_all2 row_agrees (take 16 (drop 30 CELLS_neighbours)) WEIGHTS_30_45"
  by code_simp

lemma agree_46: "list_all2 row_agrees (take 13 (drop 46 CELLS_neighbours)) WEIGHTS_46_58"
  by code_simp

lemma agree_59: "list_all2 row_agrees (take 13 (drop 59 CELLS_neighbours)) WEIGHTS_59_71"
  by code_simp

lemma agree_72: "list_all2 row_agrees (take 12 (drop 72 CELLS_neighbours)) WEIGHTS_72_83"
  by code_simp

lemma agree_84: "list_all2 row_agrees (take 10 (drop 84 CELLS_neighbours)) WEIGHTS_84_93"
  by code_simp

lemma agree_94: "list_all2 row_agrees (take 8 (drop 94 CELLS_neighbours)) WEIGHTS_94_101"
  by code_simp

lemma agree_102: "list_all2 row_agrees (take 9 (drop 102 CELLS_neighbours)) WEIGHTS_102_110"
  by code_simp

lemma agree_111: "list_all2 row_agrees (take 5 (drop 111 CELLS_neighbours)) WEIGHTS_111_115"
  by code_simp

lemma agree_116: "list_all2 row_agrees (take 4 (drop 116 CELLS_neighbours)) WEIGHTS_116_119"
  by code_simp

text \<open>The chunks together.\<close>

lemma list_all2_chunk:
  assumes "list_all2 P (take n (drop m xs)) us" and "list_all2 P (drop (m + n) xs) vs"
  shows "list_all2 P (drop m xs) (us @ vs)"
proof -
  have "take n (drop m xs) @ drop (m + n) xs = drop m xs"
    by (metis add.commute append_take_drop_id drop_drop)
  with list_all2_appendI [OF assms] show ?thesis by simp
qed

lemma length_CELLS: "length CELLS_neighbours = 120" "length CELLS_between = 136" "length WEIGHTS = 120"
  by (simp_all add: CELLS_neighbours_def CELLS_between_def WEIGHTS_def WEIGHTS_0_29_def WEIGHTS_30_45_def WEIGHTS_46_58_def WEIGHTS_59_71_def WEIGHTS_72_83_def WEIGHTS_84_93_def WEIGHTS_94_101_def WEIGHTS_102_110_def WEIGHTS_111_115_def WEIGHTS_116_119_def)

lemma all_rows_agree: "list_all2 row_agrees CELLS_neighbours WEIGHTS"
proof -
  have last: "list_all2 row_agrees (drop 116 CELLS_neighbours) WEIGHTS_116_119"
    using agree_116 length_CELLS(1) by simp
  have from111: "list_all2 row_agrees (drop 111 CELLS_neighbours) (WEIGHTS_111_115 @ WEIGHTS_116_119)"
    using list_all2_chunk [of row_agrees 5 111, OF agree_111] last by simp
  have from102: "list_all2 row_agrees (drop 102 CELLS_neighbours) (WEIGHTS_102_110 @ WEIGHTS_111_115 @ WEIGHTS_116_119)"
    using list_all2_chunk [of row_agrees 9 102, OF agree_102] from111 by simp
  have from94: "list_all2 row_agrees (drop 94 CELLS_neighbours) (WEIGHTS_94_101 @ WEIGHTS_102_110 @ WEIGHTS_111_115 @ WEIGHTS_116_119)"
    using list_all2_chunk [of row_agrees 8 94, OF agree_94] from102 by simp
  have from84: "list_all2 row_agrees (drop 84 CELLS_neighbours) (WEIGHTS_84_93 @ WEIGHTS_94_101 @ WEIGHTS_102_110 @ WEIGHTS_111_115 @ WEIGHTS_116_119)"
    using list_all2_chunk [of row_agrees 10 84, OF agree_84] from94 by simp
  have from72: "list_all2 row_agrees (drop 72 CELLS_neighbours) (WEIGHTS_72_83 @ WEIGHTS_84_93 @ WEIGHTS_94_101 @ WEIGHTS_102_110 @ WEIGHTS_111_115 @ WEIGHTS_116_119)"
    using list_all2_chunk [of row_agrees 12 72, OF agree_72] from84 by simp
  have from59: "list_all2 row_agrees (drop 59 CELLS_neighbours) (WEIGHTS_59_71 @ WEIGHTS_72_83 @ WEIGHTS_84_93 @ WEIGHTS_94_101 @ WEIGHTS_102_110 @ WEIGHTS_111_115 @ WEIGHTS_116_119)"
    using list_all2_chunk [of row_agrees 13 59, OF agree_59] from72 by simp
  have from46: "list_all2 row_agrees (drop 46 CELLS_neighbours) (WEIGHTS_46_58 @ WEIGHTS_59_71 @ WEIGHTS_72_83 @ WEIGHTS_84_93 @ WEIGHTS_94_101 @ WEIGHTS_102_110 @ WEIGHTS_111_115 @ WEIGHTS_116_119)"
    using list_all2_chunk [of row_agrees 13 46, OF agree_46] from59 by simp
  have from30: "list_all2 row_agrees (drop 30 CELLS_neighbours) (WEIGHTS_30_45 @ WEIGHTS_46_58 @ WEIGHTS_59_71 @ WEIGHTS_72_83 @ WEIGHTS_84_93 @ WEIGHTS_94_101 @ WEIGHTS_102_110 @ WEIGHTS_111_115 @ WEIGHTS_116_119)"
    using list_all2_chunk [of row_agrees 16 30, OF agree_30] from46 by simp
  have from0: "list_all2 row_agrees (drop 0 CELLS_neighbours) (WEIGHTS_0_29 @ WEIGHTS_30_45 @ WEIGHTS_46_58 @ WEIGHTS_59_71 @ WEIGHTS_72_83 @ WEIGHTS_84_93 @ WEIGHTS_94_101 @ WEIGHTS_102_110 @ WEIGHTS_111_115 @ WEIGHTS_116_119)"
    using list_all2_chunk [of row_agrees 30 0, OF agree_0] from30 by simp
  from from0 show ?thesis by (simp add: WEIGHTS_def)
qed

lemma cell_at_CELLS:
  assumes "0 \<le> c"
  shows "cell_at c = entry CELLS c"
proof -
  have "entry (xs @ ys) i = (if i < int (length xs) then entry xs i else entry ys (i - int (length xs)))"
    if "0 \<le> i" for xs ys :: "(int \<times> int) list" and i
    using that by (induction xs arbitrary: i) (auto simp: algebra_simps)
  from this [OF assms, of CELLS_neighbours CELLS_between] show ?thesis
    by (simp add: cell_at_def CELLS_def NEIGHBOURS_def length_CELLS)
qed

lemma list_all2_entry:
  assumes "list_all2 P xs ys" and "0 \<le> i" and "i < int (length xs)"
  shows "P (entry xs i) (entry ys i)"
  using assms by (induction xs ys arbitrary: i rule: list_all2_induct) auto

lemma sum_list_single:
  assumes "distinct (map fst xs)" and "(z, v) \<in> set xs"
  shows "(\<Sum>(z', w) \<leftarrow> xs. if z' = z then f w else (0::real)) = f v"
  using assms
proof (induction xs)
  case (Cons x xs)
  show ?case
  proof (cases "x = (z, v)")
    case True
    then have "(z, w) \<notin> set xs" for w using Cons.prems(1) by (auto simp: image_iff)
    then have "(\<Sum>(z', w) \<leftarrow> xs. if z' = z then f w else 0) = (\<Sum>x \<leftarrow> xs. 0)"
      by (intro arg_cong [of _ _ sum_list] map_cong) auto
    with True show ?thesis by simp
  next
    case False
    then have "(z, v) \<in> set xs" "fst x \<noteq> z" using Cons.prems by (auto simp: image_iff)
    with Cons show ?thesis by (simp add: case_prod_beta)
  qed
qed simp

lemma sum_list_absent:
  assumes "\<And>w. (z, w) \<in> set xs \<Longrightarrow> f w = 0"
  shows "(\<Sum>(z', w) \<leftarrow> xs. if z' = z then f w else 0) = (0 :: 'b :: comm_monoid_add)"
  using assms by (induction xs) auto

lemma row_agrees_weight:
  assumes "row_agrees d row"
  shows "(\<Sum>(z', n, e) \<leftarrow> row_cells row. if z' = z then of_int n / of_int e else 0) = trapezoid_weight d z"
proof -
  let ?cells = "row_cells row" and ?den = "segment_denominator d" and ?sh = "segment_shares d"
  have den: "?den > 0" and dist: "distinct (map fst ?cells)"
    and eq: "(y, n, e) \<in> set ?cells \<Longrightarrow> e > 0 \<and> n * ?den = e * share_of ?sh y"
    and rest: "(y, w) \<in> set ?sh \<Longrightarrow> w = 0 \<or> y \<in> fst ` set ?cells" for y n e w
    using assms by (auto simp: row_agrees_def Let_def list_all_iff)
  have form: "(\<Sum>(z', n, e) \<leftarrow> ?cells. if z' = z then of_int n / of_int e else (0::real))
      = (\<Sum>(z', w) \<leftarrow> ?cells. if z' = z then of_int (fst w) / of_int (snd w) else 0)"
    by (intro arg_cong [of _ _ sum_list] map_cong) auto
  have ref: "trapezoid_weight d z = of_int (share_of ?sh z) / of_int ?den"
    by (simp add: trapezoid_weight_def share_of_def)
  show ?thesis
  proof (cases "z \<in> fst ` set ?cells")
    case True
    then obtain n e where mem: "(z, (n, e)) \<in> set ?cells" by auto
    have "real_of_int n * real_of_int ?den = real_of_int e * real_of_int (share_of ?sh z)" and "e > 0"
      using eq [OF mem] by (simp_all flip: of_int_mult)
    then have "real_of_int n / real_of_int e = real_of_int (share_of ?sh z) / real_of_int ?den"
      using den by (simp add: field_simps)
    with sum_list_single [OF dist mem, of "\<lambda>w. of_int (fst w) / of_int (snd w)"] form ref show ?thesis by simp
  next
    case False
    then have "share_of ?sh z = 0"
      unfolding share_of_def using rest by (intro sum_list_absent) blast
    moreover have "(\<Sum>(z', w) \<leftarrow> ?cells. if z' = z then of_int (fst w) / of_int (snd w) else (0::real)) = 0"
      using False by (intro sum_list_absent) force
    ultimately show ?thesis using form ref by simp
  qed
qed

text \<open>C13: The weight tables of the solver are right. For each of the 120 directions and every
  grid cell, the weight the tables give the cell is the one of the trapezoid rule over the
  crossings of the segment with the grid lines, with slowness interpolated linearly between
  the two nodes beside each crossing.\<close>

theorem stencil_weights_are_the_trapezoid_rule:
  assumes "0 \<le> k" and "k < NEIGHBOURS"
  shows "table_weight k z = trapezoid_weight (cell_at k) z"
proof -
  have "row_agrees (entry CELLS_neighbours k) (entry WEIGHTS k)"
    using list_all2_entry [OF all_rows_agree assms(1)] assms(2) by (simp add: length_CELLS NEIGHBOURS_def)
  then have "row_agrees (cell_at k) (entry WEIGHTS k)" using assms by (simp add: cell_at_def)
  from row_agrees_weight [OF this] show ?thesis by (simp add: table_weight_def)
qed

subsection \<open>Consistency of the patch\<close>

text \<open>Cells of a row: indices into the patch, increasing, the last word on the neighbour itself.\<close>

definition row_consistent :: "int \<times> (int \<times> int \<times> int) list \<Rightarrow> bool" where
  "row_consistent kr =
     (case kr of (k, row) \<Rightarrow>
        list_all (\<lambda>(c, n, d). 0 \<le> c \<and> c < 256 \<and> 0 < n \<and> 0 < d) row \<and>
        sorted_wrt (<) (map fst row) \<and> (k, 1, 1) \<in> set row)"

lemma all_rows_consistent: "list_all row_consistent (zip [0..119] WEIGHTS)"
  by code_simp

definition within_reach :: "int \<Rightarrow> int \<times> int \<Rightarrow> bool" where
  "within_reach r d = (case d of (di, dj) \<Rightarrow> \<bar>di\<bar> \<le> r \<and> \<bar>dj\<bar> \<le> r \<and> (di, dj) \<noteq> (0, 0))"

lemma all_cells_within_reach: "list_all (within_reach 13) CELLS"
  by code_simp

lemma blockers_consistent: "list_all (\<lambda>(k, c). 0 \<le> k \<and> k < 120 \<and> 0 \<le> c \<and> c < 256) BLOCKERS"
  by code_simp

lemma stencil_weights_are_the_trapezoid_rule_witness:
  "table_weight 24 (1, 0) = trapezoid_weight (3, 2) (1, 0) \<and> trapezoid_weight (3, 2) (1, 0) = 1 / 2"
proof -
  have cell: "cell_at 24 = (3, 2)" and den: "segment_denominator (3, 2) = 36"
    and share: "(\<Sum>(z', w) \<leftarrow> segment_shares (3, 2). if z' = (1, 0) then w else 0) = 18"
    by code_simp+
  have "table_weight 24 (1, 0) = trapezoid_weight (cell_at 24) (1, 0)"
    by (rule stencil_weights_are_the_trapezoid_rule) (simp_all add: NEIGHBOURS_def)
  then show ?thesis by (simp add: cell trapezoid_weight_def share den)
qed

end
