(* ===== verification/IndexedHeap.thy ===== *)
theory IndexedHeap
  imports Prelude
begin

text \<open>
  The binary heap of the travel-time solver (\<open>_less\<close>, \<open>_sift_up\<close>, \<open>_sift_down\<close> of
  tsdhn_ttt/solver.py): \<open>heap\<close> holds node numbers, \<open>pos\<close> the place of each node in it, and the
  order is by key, then by the number under which the node was queued. An array is the
  function of its contents; that every index stays inside is a property of the solver's
  loop (theory \<open>TravelTimes\<close>).
\<close>

subsection \<open>The operations\<close>

definition heap_less :: "(nat \<Rightarrow> real) \<Rightarrow> (nat \<Rightarrow> nat) \<Rightarrow> nat \<Rightarrow> nat \<Rightarrow> bool" where
  "heap_less key seq a b = (key a < key b \<or> (key a = key b \<and> seq a < seq b))"

definition parent :: "nat \<Rightarrow> nat" where
  "parent i = (i - 1) div 2"

lemma parent_less: "0 < i \<Longrightarrow> parent i < i"
  by (auto simp: parent_def)

lemma parent_cases: "0 < j \<Longrightarrow> parent j = i \<longleftrightarrow> j = 2 * i + 1 \<or> j = 2 * i + 2"
  by (auto simp: parent_def)

text \<open>The loops carry the lifted \<open>node\<close>; it is put down where the loop ends.\<close>

function sift_up_loop ::
  "(nat \<Rightarrow> nat \<Rightarrow> bool) \<Rightarrow> nat \<Rightarrow> (nat \<Rightarrow> nat) \<Rightarrow> (nat \<Rightarrow> int) \<Rightarrow> nat \<Rightarrow> (nat \<Rightarrow> nat) \<times> (nat \<Rightarrow> int)" where
  "sift_up_loop before node heap pos i =
     (if i > 0 \<and> before node (heap (parent i))
      then sift_up_loop before node (heap(i := heap (parent i)))
             (pos(heap (parent i) := int i)) (parent i)
      else (heap(i := node), pos(node := int i)))"
  by auto
termination by (relation "measure (\<lambda>(_, _, _, _, i). i)") (auto simp: parent_less)

declare sift_up_loop.simps [simp del]

definition sift_up ::
  "(nat \<Rightarrow> nat \<Rightarrow> bool) \<Rightarrow> (nat \<Rightarrow> nat) \<times> (nat \<Rightarrow> int) \<Rightarrow> nat \<Rightarrow> (nat \<Rightarrow> nat) \<times> (nat \<Rightarrow> int)" where
  "sift_up before hp i = sift_up_loop before (fst hp i) (fst hp) (snd hp) i"

definition smaller_child :: "(nat \<Rightarrow> nat \<Rightarrow> bool) \<Rightarrow> (nat \<Rightarrow> nat) \<Rightarrow> nat \<Rightarrow> nat \<Rightarrow> nat" where
  "smaller_child before heap len i =
     (let child = 2 * i + 1 in
      if child + 1 < len \<and> before (heap (child + 1)) (heap child) then child + 1 else child)"

function sift_down_loop ::
  "(nat \<Rightarrow> nat \<Rightarrow> bool) \<Rightarrow> nat \<Rightarrow> (nat \<Rightarrow> nat) \<Rightarrow> (nat \<Rightarrow> int) \<Rightarrow> nat \<Rightarrow> nat \<Rightarrow> (nat \<Rightarrow> nat) \<times> (nat \<Rightarrow> int)" where
  "sift_down_loop before node heap pos len i =
     (if 2 * i + 1 < len \<and> before (heap (smaller_child before heap len i)) node
      then sift_down_loop before node
             (heap(i := heap (smaller_child before heap len i)))
             (pos(heap (smaller_child before heap len i) := int i)) len
             (smaller_child before heap len i)
      else (heap(i := node), pos(node := int i)))"
  by auto
termination
  by (relation "measure (\<lambda>(_, _, _, _, len, i). len - i)") (auto simp: smaller_child_def Let_def)

declare sift_down_loop.simps [simp del]

definition sift_down ::
  "(nat \<Rightarrow> nat \<Rightarrow> bool) \<Rightarrow> (nat \<Rightarrow> nat) \<times> (nat \<Rightarrow> int) \<Rightarrow> nat \<Rightarrow> nat \<Rightarrow> (nat \<Rightarrow> nat) \<times> (nat \<Rightarrow> int)" where
  "sift_down before hp len i = sift_down_loop before (fst hp i) (fst hp) (snd hp) len i"

subsection \<open>Heaps over any order\<close>

text \<open>\<open>placed\<close>: the first \<open>len\<close> places hold distinct nodes and \<open>pos\<close> is their inverse.\<close>

definition placed :: "(nat \<Rightarrow> nat) \<times> (nat \<Rightarrow> int) \<Rightarrow> nat \<Rightarrow> bool" where
  "placed hp len \<longleftrightarrow> (\<forall>i < len. snd hp (fst hp i) = int i)"

definition queued :: "(nat \<Rightarrow> nat) \<times> (nat \<Rightarrow> int) \<Rightarrow> nat \<Rightarrow> nat set" where
  "queued hp len = fst hp ` {..<len}"

lemma placed_inj: "placed hp len \<Longrightarrow> inj_on (fst hp) {..<len}"
  unfolding placed_def by (intro inj_onI) (metis lessThan_iff of_nat_eq_iff)

lemma finite_queued [simp]: "finite (queued hp len)"
  by (simp add: queued_def)

lemma card_queued: "placed hp len \<Longrightarrow> card (queued hp len) = len"
  unfolding queued_def by (simp add: card_image placed_inj)

definition exchange :: "nat \<Rightarrow> nat \<Rightarrow> nat \<Rightarrow> nat" where
  "exchange i k x = (if x = i then k else if x = k then i else x)"

lemma exchange_exchange [simp]: "exchange i k (exchange i k x) = x"
  by (simp add: exchange_def)

lemma inj_exchange: "inj (exchange i k)"
  by (rule inj_on_inverseI [of _ "exchange i k"]) simp

lemma exchange_image: "i < len \<Longrightarrow> k < len \<Longrightarrow> exchange i k ` {..<len} = {..<len}"
proof -
  assume "i < len" "k < len"
  then have sub: "exchange i k ` {..<len} \<subseteq> {..<len}" by (auto simp: exchange_def)
  show ?thesis
  proof
    show "{..<len} \<subseteq> exchange i k ` {..<len}"
    proof
      fix x assume "x \<in> {..<len}"
      then have "exchange i k x \<in> {..<len}" using sub by blast
      then show "x \<in> exchange i k ` {..<len}" by (intro image_eqI [of _ _ "exchange i k x"]) simp_all
    qed
  qed (rule sub)
qed

locale queue_order =
  fixes before :: "nat \<Rightarrow> nat \<Rightarrow> bool"
  assumes asym: "before a b \<Longrightarrow> \<not> before b a"
    and neg_trans: "\<not> before b a \<Longrightarrow> \<not> before c b \<Longrightarrow> \<not> before c a"
begin

text \<open>\<open>heap_order h len P\<close>: every place but those of \<open>P\<close> is not before its parent.\<close>

definition ordered_at :: "(nat \<Rightarrow> nat) \<Rightarrow> nat \<Rightarrow> bool" where
  "ordered_at h j \<longleftrightarrow> \<not> before (h j) (h (parent j))"

definition is_heap :: "(nat \<Rightarrow> nat) \<Rightarrow> nat \<Rightarrow> bool" where
  "is_heap h len \<longleftrightarrow> (\<forall>j < len. 0 < j \<longrightarrow> ordered_at h j)"

text \<open>A heap but for the order between place \<open>i\<close> and its parent.\<close>

definition up_at :: "(nat \<Rightarrow> nat) \<Rightarrow> nat \<Rightarrow> nat \<Rightarrow> bool" where
  "up_at h len i \<longleftrightarrow>
     (\<forall>j < len. 0 < j \<and> j \<noteq> i \<longrightarrow> ordered_at h j) \<and>
     (\<forall>j < len. 0 < j \<and> parent j = i \<and> 0 < i \<longrightarrow> \<not> before (h j) (h (parent i)))"

text \<open>A heap but for the order between place \<open>i\<close> and its children.\<close>

definition down_at :: "(nat \<Rightarrow> nat) \<Rightarrow> nat \<Rightarrow> nat \<Rightarrow> bool" where
  "down_at h len i \<longleftrightarrow>
     (\<forall>j < len. 0 < j \<and> parent j \<noteq> i \<longrightarrow> ordered_at h j) \<and>
     (\<forall>j < len. 0 < j \<and> parent j = i \<and> 0 < i \<longrightarrow> \<not> before (h j) (h (parent i)))"

lemma root_minimal:
  assumes "is_heap h len" and "j < len"
  shows "\<not> before (h j) (h 0)"
  using assms(2)
proof (induction j rule: less_induct)
  case (less j)
  show ?case
  proof (cases "j = 0")
    case True
    then show ?thesis using asym by blast
  next
    case False
    then have "\<not> before (h (parent j)) (h 0)" using less parent_less by simp
    moreover have "\<not> before (h j) (h (parent j))"
      using assms(1) less.prems False by (simp add: is_heap_def ordered_at_def)
    ultimately show ?thesis using neg_trans by blast
  qed
qed

text \<open>One turn of \<open>_sift_up\<close>, seen on the heap with the node put down, is a swap.\<close>

lemma up_at_swap:
  assumes "up_at h len i" and "i < len" and "0 < i" and "before (h i) (h (parent i))"
  shows "up_at (h(i := h (parent i), parent i := h i)) len (parent i)"
proof -
  let ?p = "parent i" and ?h = "h(i := h (parent i), parent i := h i)"
  have p: "?p \<noteq> i" "?p < len" using assms(2,3) parent_less [of i] by linarith+
  have "ordered_at ?h j" if j: "j < len" "0 < j" "j \<noteq> ?p" for j
  proof (cases "j = i")
    case True
    then show ?thesis using assms(4) asym p by (simp add: ordered_at_def)
  next
    case False
    have o: "\<not> before (h j) (h (parent j))"
      using assms(1) j False by (simp add: up_at_def ordered_at_def)
    show ?thesis
    proof (cases "parent j = i")
      case True
      then have "\<not> before (h j) (h ?p)" using assms(1,3) j by (simp add: up_at_def)
      with True False j p show ?thesis by (simp add: ordered_at_def)
    next
      case neq: False
      show ?thesis
      proof (cases "parent j = ?p")
        case True
        then have "\<not> before (h j) (h i)" using o assms(4) asym neg_trans by metis
        with True False neq j p show ?thesis by (simp add: ordered_at_def)
      next
        case other: False
        with o False neq j p show ?thesis by (simp add: ordered_at_def)
      qed
    qed
  qed
  moreover have "\<not> before (?h j) (?h (parent ?p))"
    if j: "j < len" "0 < j" "parent j = ?p" "0 < ?p" for j
  proof -
    have pp: "parent ?p \<noteq> ?p" "parent ?p \<noteq> i" using j(4) p parent_less [of ?p] parent_less [of i] assms(3) by auto
    have up: "\<not> before (h ?p) (h (parent ?p))"
      using assms(1) p j(4) by (simp add: up_at_def ordered_at_def)
    show ?thesis
    proof (cases "j = i")
      case True
      with up pp p show ?thesis by simp
    next
      case False
      then have "ordered_at h j" using assms(1) j by (simp add: up_at_def)
      then have "\<not> before (h j) (h ?p)" using j(3) by (simp add: ordered_at_def)
      then have "\<not> before (h j) (h (parent ?p))" using up neg_trans by blast
      moreover have "j \<noteq> ?p" using j(2,3) parent_less [of j] by simp
      ultimately show ?thesis using False pp by simp
    qed
  qed
  ultimately show ?thesis by (auto simp: up_at_def)
qed

lemma up_at_done:
  "up_at h len i \<Longrightarrow> i = 0 \<or> \<not> before (h i) (h (parent i)) \<Longrightarrow> is_heap h len"
  by (auto simp: up_at_def is_heap_def ordered_at_def)


text \<open>What a sift promises: the same nodes, placed, in heap order, nothing else touched.\<close>

definition sifted ::
  "(nat \<Rightarrow> nat) \<Rightarrow> (nat \<Rightarrow> int) \<Rightarrow> nat \<Rightarrow> (nat \<Rightarrow> nat) \<times> (nat \<Rightarrow> int) \<Rightarrow> bool" where
  "sifted h pos len hp \<longleftrightarrow>
     is_heap (fst hp) len \<and> placed hp len \<and> fst hp ` {..<len} = h ` {..<len} \<and>
     (\<forall>j. len \<le> j \<longrightarrow> fst hp j = h j) \<and> (\<forall>x. x \<notin> h ` {..<len} \<longrightarrow> snd hp x = pos x)"

text \<open>\<open>pos\<close> is right for every place but \<open>i\<close>, whose node is in the hand.\<close>

definition in_hand :: "(nat \<Rightarrow> nat) \<Rightarrow> (nat \<Rightarrow> int) \<Rightarrow> nat \<Rightarrow> nat \<Rightarrow> bool" where
  "in_hand h pos len i \<longleftrightarrow> i < len \<and> inj_on h {..<len} \<and> (\<forall>j < len. j \<noteq> i \<longrightarrow> pos (h j) = int j)"

lemma in_hand_move:
  assumes "in_hand (h(i := node)) pos len i" and "k < len" and "k \<noteq> i"
  shows "in_hand (h(i := h k, k := node)) (pos(h k := int i)) len k"
    and "h(i := h k, k := node) ` {..<len} = h(i := node) ` {..<len}"
proof -
  let ?H = "h(i := node)" and ?K = "h(i := h k, k := node)"
  have i: "i < len" and inj: "inj_on ?H {..<len}"
    and pos: "j < len \<Longrightarrow> j \<noteq> i \<Longrightarrow> pos (h j) = int j" for j
    using assms(1) by (auto simp: in_hand_def)
  have K: "?K = ?H \<circ> exchange i k" using assms(3) by (auto simp: exchange_def fun_eq_iff)
  note swap = exchange_image [OF i assms(2)]
  then show img: "?K ` {..<len} = ?H ` {..<len}" unfolding K image_comp [symmetric] by simp
  have "inj_on ?K {..<len}" unfolding K
    using inj swap by (intro comp_inj_on inj_on_subset [OF inj_exchange]) auto
  moreover have "(pos(h k := int i)) (?K j) = int j" if j: "j < len" "j \<noteq> k" for j
  proof (cases "j = i")
    case False
    then have "h j \<noteq> h k" using inj j assms(2,3) by (auto simp: inj_on_def)
    with False j pos show ?thesis by simp
  qed (use assms(3) in simp)
  ultimately show "in_hand ?K (pos(h k := int i)) len k" using assms(2) by (simp add: in_hand_def)
qed

lemma in_hand_done:
  assumes "in_hand (h(i := node)) pos len i"
  shows "placed (h(i := node), pos(node := int i)) len"
proof -
  have "h j \<noteq> node" if "j < len" "j \<noteq> i" for j
    using assms that by (fastforce simp: in_hand_def inj_on_def)
  with assms show ?thesis by (auto simp: placed_def in_hand_def)
qed

lemma sifted_move:
  assumes "sifted K (pos(x := a)) len hp" and "x \<in> H ` {..<len}"
    and "\<And>j. len \<le> j \<Longrightarrow> K j = H j" and "K ` {..<len} = H ` {..<len}"
  shows "sifted H pos len hp"
  using assms unfolding sifted_def by auto

lemma sift_up_loop_sifted:
  assumes "up_at (h(i := node)) len i" and "in_hand (h(i := node)) pos len i"
  shows "sifted (h(i := node)) pos len (sift_up_loop before node h pos i)"
  using assms
proof (induction i arbitrary: h pos rule: less_induct)
  case (less i)
  let ?H = "h(i := node)" and ?p = "parent i"
  have i: "i < len" using less.prems(2) by (simp add: in_hand_def)
  show ?case
  proof (cases "0 < i \<and> before node (h ?p)")
    case True
    then have p: "?p < len" "?p \<noteq> i" using i parent_less [of i] by linarith+
    let ?K = "h(i := h ?p, ?p := node)"
    have swap: "?K = ?H(i := ?H ?p, ?p := ?H i)" using p by auto
    have "0 < i" "before (?H i) (?H ?p)" using True p by auto
    then have up: "up_at ?K len ?p" unfolding swap by (rule up_at_swap [OF less.prems(1) i])
    note hand = in_hand_move [OF less.prems(2) p]
    have "sifted ?K (pos(h ?p := int i)) len
        (sift_up_loop before node (h(i := h ?p)) (pos(h ?p := int i)) ?p)"
      by (rule less.IH) (use parent_less True up hand(1) in \<open>auto simp del: fun_upd_apply\<close>)
    moreover have "h ?p \<in> ?H ` {..<len}" using p by (intro image_eqI [of _ _ ?p]) auto
    moreover have "?K j = ?H j" if "len \<le> j" for j using that i p by simp
    ultimately have "sifted ?H pos len
        (sift_up_loop before node (h(i := h ?p)) (pos(h ?p := int i)) ?p)"
      using hand(2) by (rule sifted_move)
    then show ?thesis using True by (subst sift_up_loop.simps) simp
  next
    case False
    have "is_heap ?H len"
    proof (rule up_at_done [OF less.prems(1)])
      show "i = 0 \<or> \<not> before (?H i) (?H ?p)" using False parent_less [of i] by auto
    qed
    moreover have "node \<in> ?H ` {..<len}" using i by (intro image_eqI [of _ _ i]) auto
    ultimately show ?thesis using False in_hand_done [OF less.prems(2)]
      by (subst sift_up_loop.simps) (auto simp: sifted_def)
  qed
qed


subsection \<open>Sifting down\<close>

lemma smaller_child_props:
  assumes "2 * i + 1 < len"
  shows "smaller_child before h len i < len" and "parent (smaller_child before h len i) = i"
    and "i < smaller_child before h len i"
    and "j < len \<Longrightarrow> 0 < j \<Longrightarrow> parent j = i \<Longrightarrow> \<not> before (h j) (h (smaller_child before h len i))"
proof -
  show "smaller_child before h len i < len" "parent (smaller_child before h len i) = i"
      "i < smaller_child before h len i"
    using assms by (auto simp: smaller_child_def Let_def parent_def)
  assume "j < len" "0 < j" "parent j = i"
  then have "j = 2 * i + 1 \<or> j = 2 * i + 2" by (simp add: parent_cases)
  then show "\<not> before (h j) (h (smaller_child before h len i))"
    using \<open>j < len\<close> asym by (auto simp: smaller_child_def Let_def)
qed

lemma down_at_swap:
  assumes "down_at h len i" and "c < len" and "parent c = i" and "i < c"
    and min: "\<And>j. j < len \<Longrightarrow> 0 < j \<Longrightarrow> parent j = i \<Longrightarrow> \<not> before (h j) (h c)"
    and "before (h c) (h i)"
  shows "down_at (h(i := h c, c := h i)) len c"
proof -
  let ?K = "h(i := h c, c := h i)"
  have c: "0 < c" "c \<noteq> i" using assms(4) by auto
  have "ordered_at ?K j" if j: "j < len" "0 < j" "parent j \<noteq> c" for j
  proof (cases "parent j = i")
    case True
    show ?thesis
    proof (cases "j = c")
      case True
      then show ?thesis using assms(3,6) c asym by (simp add: ordered_at_def)
    next
      case False
      have "j \<noteq> i" using True j(2) parent_less [of j] by auto
      with False True c min [OF j(1,2) True] show ?thesis by (simp add: ordered_at_def)
    qed
  next
    case False
    show ?thesis
    proof (cases "j = i")
      case True
      then have "\<not> before (h c) (h (parent i))"
        using assms(1-3) c j(2) by (simp add: down_at_def)
      moreover have "parent i \<noteq> i" "parent i \<noteq> c" using True j(2) parent_less [of i] assms(4) by auto
      ultimately show ?thesis using True c by (simp add: ordered_at_def)
    next
      case neq: False
      have "j \<noteq> c" using False assms(3) by auto
      moreover have "ordered_at h j" using assms(1) j(1,2) False by (simp add: down_at_def)
      ultimately show ?thesis using False neq j(3) by (simp add: ordered_at_def)
    qed
  qed
  moreover have "\<not> before (?K j) (?K (parent c))" if j: "j < len" "0 < j" "parent j = c" for j
  proof -
    have "ordered_at h j" using assms(1) j c by (simp add: down_at_def)
    moreover have "j \<noteq> c" "j \<noteq> i" using j parent_less [of j] assms(4) by auto
    ultimately show ?thesis using j(3) assms(3) c by (simp add: ordered_at_def)
  qed
  ultimately show ?thesis by (simp add: down_at_def)
qed

lemma down_at_done:
  assumes "down_at h len i"
    and "\<not> (2 * i + 1 < len \<and> before (h (smaller_child before h len i)) (h i))"
  shows "is_heap h len"
  unfolding is_heap_def
proof (intro allI impI)
  fix j assume j: "j < len" "0 < j"
  show "ordered_at h j"
  proof (cases "parent j = i")
    case True
    then have child: "2 * i + 1 < len" using j by (auto simp: parent_cases)
    have "\<not> before (h j) (h (smaller_child before h len i))"
      by (rule smaller_child_props(4) [OF child j True])
    moreover have "\<not> before (h (smaller_child before h len i)) (h i)" using assms(2) child by simp
    ultimately show ?thesis using True neg_trans by (auto simp: ordered_at_def)
  qed (use assms(1) j in \<open>simp add: down_at_def\<close>)
qed

text \<open>The node in the hand is not compared with itself: the children lie elsewhere.\<close>

lemma smaller_child_hand: "smaller_child before (h(i := node)) len i = smaller_child before h len i"
  by (simp add: smaller_child_def Let_def)

lemma sift_down_loop_sifted:
  assumes "down_at (h(i := node)) len i" and "in_hand (h(i := node)) pos len i"
  shows "sifted (h(i := node)) pos len (sift_down_loop before node h pos len i)"
  using assms
proof (induction "len - i" arbitrary: h pos i rule: less_induct)
  case less
  let ?H = "h(i := node)" and ?c = "smaller_child before h len i"
  have i: "i < len" using less.prems(2) by (simp add: in_hand_def)
  show ?case
  proof (cases "2 * i + 1 < len \<and> before (h ?c) node")
    case True
    note sc = smaller_child_props [where i = i and len = len and h = ?H, unfolded smaller_child_hand,
        OF conjunct1 [OF True]]
    have c: "?c < len" "?c \<noteq> i" "i < ?c" using sc(1,3) by auto
    let ?K = "h(i := h ?c, ?c := node)"
    have swap: "?K = ?H(i := ?H ?c, ?c := ?H i)" using c by auto
    have "before (?H ?c) (?H i)" using True c by simp
    then have down: "down_at ?K len ?c"
      unfolding swap using sc(4) by (intro down_at_swap [OF less.prems(1) sc(1,2,3)])
    note hand = in_hand_move [OF less.prems(2) c(1,2)]
    have "sifted ?K (pos(h ?c := int i)) len
        (sift_down_loop before node (h(i := h ?c)) (pos(h ?c := int i)) len ?c)"
      by (rule less.hyps) (use c i down hand(1) in \<open>auto simp del: fun_upd_apply\<close>)
    moreover have "h ?c \<in> ?H ` {..<len}" using c by (intro image_eqI [of _ _ ?c]) auto
    moreover have "?K j = ?H j" if "len \<le> j" for j using that i c by simp
    ultimately have "sifted ?H pos len
        (sift_down_loop before node (h(i := h ?c)) (pos(h ?c := int i)) len ?c)"
      using hand(2) by (rule sifted_move)
    then show ?thesis using True by (subst sift_down_loop.simps) simp
  next
    case False
    have "is_heap ?H len"
    proof (rule down_at_done [OF less.prems(1), unfolded smaller_child_hand])
      show "\<not> (2 * i + 1 < len \<and> before (?H ?c) (?H i))"
        using False smaller_child_props(3) [of i len h] by auto
    qed
    moreover have "node \<in> ?H ` {..<len}" using i by (intro image_eqI [of _ _ i]) auto
    ultimately show ?thesis using False in_hand_done [OF less.prems(2)]
      by (subst sift_down_loop.simps) (auto simp: sifted_def)
  qed
qed

end

subsection \<open>The solver's order\<close>

interpretation solver_order: queue_order "heap_less key seq" for key seq
proof
  show "heap_less key seq a b \<Longrightarrow> \<not> heap_less key seq b a" for a b
    by (auto simp: heap_less_def)
  show "\<not> heap_less key seq b a \<Longrightarrow> \<not> heap_less key seq c b \<Longrightarrow> \<not> heap_less key seq c a" for a b c
    by (auto simp: heap_less_def)
qed

subsection \<open>The queue\<close>

definition queue_ok :: "(nat \<Rightarrow> real) \<Rightarrow> (nat \<Rightarrow> nat) \<Rightarrow> (nat \<Rightarrow> nat) \<times> (nat \<Rightarrow> int) \<Rightarrow> nat \<Rightarrow> bool" where
  "queue_ok key seq hp len \<longleftrightarrow> solver_order.is_heap key seq (fst hp) len \<and> placed hp len"

lemma queue_ok_cong:
  assumes "queue_ok key seq hp len"
    and "\<And>x. x \<in> queued hp len \<Longrightarrow> key' x = key x \<and> seq' x = seq x"
  shows "queue_ok key' seq' hp len"
proof -
  have same: "key' (fst hp j) = key (fst hp j) \<and> seq' (fst hp j) = seq (fst hp j)" if "j < len" for j
    using assms(2) that by (auto simp: queued_def)
  have "solver_order.ordered_at key' seq' (fst hp) j" if "j < len" "0 < j" for j
  proof -
    have "parent j < len" using that parent_less [of j] by simp
    with that same assms(1) show ?thesis
      by (simp add: queue_ok_def solver_order.is_heap_def solver_order.ordered_at_def heap_less_def)
  qed
  with assms(1) show ?thesis by (simp add: queue_ok_def solver_order.is_heap_def)
qed

lemma queue_ok_empty: "queue_ok key seq hp 0"
  by (simp add: queue_ok_def solver_order.is_heap_def placed_def)

lemma queue_head:
  assumes "queue_ok key seq hp len" and "x \<in> queued hp len"
  shows "\<not> heap_less key seq x (fst hp 0)"
  using assms solver_order.root_minimal by (auto simp: queue_ok_def queued_def)

lemma queue_push:
  assumes "queue_ok key seq (heap, pos) len" and "n \<notin> queued (heap, pos) len"
    and hp: "hp = sift_up (heap_less (key(n := a)) (seq(n := s))) (heap(len := n), pos) len"
  shows "queue_ok (key(n := a)) (seq(n := s)) hp (Suc len)"
    and "queued hp (Suc len) = insert n (queued (heap, pos) len)"
proof -
  let ?key = "key(n := a)" and ?seq = "seq(n := s)" and ?h = "heap(len := n)"
  have old: "queue_ok ?key ?seq (heap, pos) len"
    by (rule queue_ok_cong [OF assms(1)]) (use assms(2) in auto)
  have neq: "heap j \<noteq> n" if "j < len" for j using assms(2) that by (auto simp: queued_def)
  have "solver_order.ordered_at ?key ?seq ?h j" if "j < Suc len" "0 < j" "j \<noteq> len" for j
  proof -
    have "parent j < len" using that parent_less [of j] by simp
    then have "solver_order.ordered_at ?key ?seq ?h j = solver_order.ordered_at ?key ?seq heap j"
      using that by (simp add: solver_order.ordered_at_def)
    then show ?thesis using old that by (simp add: queue_ok_def solver_order.is_heap_def)
  qed
  moreover have "parent j \<noteq> len" if "j < Suc len" "0 < j" for j using that parent_less [of j] by simp
  ultimately have up: "solver_order.up_at ?key ?seq (?h(len := n)) (Suc len) len"
    by (auto simp: solver_order.up_at_def)
  have placed: "pos (heap j) = int j" if "j < len" for j
    using assms(1) that by (simp add: queue_ok_def placed_def)
  have inj: "inj_on ?h {..<Suc len}"
  proof -
    have "inj_on heap {..<len}" using placed_inj [of "(heap, pos)"] assms(1) by (simp add: queue_ok_def)
    then have "inj_on ?h {..<len}" by (rule inj_on_fun_updI) (use neq in auto)
    then show ?thesis using neq by (auto simp: lessThan_Suc)
  qed
  with placed have "solver_order.in_hand (?h(len := n)) pos (Suc len) len"
    by (auto simp: solver_order.in_hand_def less_Suc_eq)
  from solver_order.sift_up_loop_sifted [OF up this]
  have sifted: "solver_order.sifted ?key ?seq ?h pos (Suc len) hp" by (simp add: hp sift_up_def)
  then show "queue_ok ?key ?seq hp (Suc len)" by (simp add: solver_order.sifted_def queue_ok_def)
  have "?h ` {..<Suc len} = insert n (heap ` {..<len})" by (auto simp: lessThan_Suc)
  with sifted show "queued hp (Suc len) = insert n (queued (heap, pos) len)"
    by (simp add: solver_order.sifted_def queued_def)
qed

lemma queue_decrease:
  assumes "queue_ok key seq (heap, pos) len" and "i < len" and "heap i = n" and "a < key n"
    and hp: "hp = sift_up (heap_less (key(n := a)) (seq(n := s))) (heap, pos) i"
  shows "queue_ok (key(n := a)) (seq(n := s)) hp len" and "queued hp len = queued (heap, pos) len"
proof -
  let ?key = "key(n := a)" and ?seq = "seq(n := s)"
  have inj: "inj_on heap {..<len}" using placed_inj [of "(heap, pos)"] assms(1) by (simp add: queue_ok_def)
  then have neq: "heap j \<noteq> n" if "j < len" "j \<noteq> i" for j
    using that assms(2,3) by (auto simp: inj_on_def)
  have old: "\<not> heap_less key seq (heap j) (heap (parent j))" if "j < len" "0 < j" for j
    using assms(1) that by (simp add: queue_ok_def solver_order.is_heap_def solver_order.ordered_at_def)
  have ord: "solver_order.ordered_at ?key ?seq heap j" if j: "j < len" "0 < j" "j \<noteq> i" for j
    using old [OF j(1,2)] neq [OF j(1,3)] neq [of "parent j"] parent_less [OF j(2)] j assms(3,4)
    by (cases "parent j = i") (auto simp: solver_order.ordered_at_def heap_less_def)
  have gap: "\<not> heap_less ?key ?seq (heap j) (heap (parent i))"
    if j: "j < len" "0 < j" "parent j = i" "0 < i" for j
  proof -
    have "\<not> heap_less key seq (heap j) (heap (parent i))"
      using solver_order.neg_trans [OF old [OF assms(2) j(4)]] old [OF j(1,2)] j(3) by blast
    moreover have "heap j \<noteq> n" "heap (parent i) \<noteq> n"
      using neq [of j] neq [of "parent i"] parent_less [OF j(2)] parent_less [OF j(4)] j assms(2) by auto
    ultimately show ?thesis by (simp add: heap_less_def)
  qed
  have same: "heap(i := n) = heap" using assms(3) by auto
  have up: "solver_order.up_at ?key ?seq (heap(i := n)) len i"
    using ord gap by (simp add: same solver_order.up_at_def)
  have "solver_order.in_hand (heap(i := n)) pos len i"
    using assms(1,2) inj by (simp add: same solver_order.in_hand_def queue_ok_def placed_def)
  from solver_order.sift_up_loop_sifted [OF up this]
  have sifted: "solver_order.sifted ?key ?seq heap pos len hp" by (simp add: hp sift_up_def same assms(3))
  then show "queue_ok ?key ?seq hp len" "queued hp len = queued (heap, pos) len"
    by (simp_all add: solver_order.sifted_def queue_ok_def queued_def)
qed

lemma queue_pop:
  assumes "queue_ok key seq (heap, pos) (Suc len)"
    and hp: "hp = (if len > 0
        then sift_down (heap_less key seq)
               (heap(0 := heap len), (pos(heap 0 := - 1))((heap(0 := heap len)) 0 := 0)) len 0
        else (heap, pos(heap 0 := - 1)))"
  shows "queue_ok key seq hp len" and "queued hp len = queued (heap, pos) (Suc len) - {heap 0}"
proof -
  let ?h = "heap(0 := heap len)" and ?pos = "(pos(heap 0 := - 1))(heap len := 0)"
  have placed: "pos (heap j) = int j" if "j \<le> len" for j
    using assms(1) that by (simp add: queue_ok_def placed_def)
  then have inj: "heap j = heap k \<longleftrightarrow> j = k" if "j \<le> len" "k \<le> len" for j k
    using that by (metis of_nat_eq_iff)
  have "queue_ok key seq hp len \<and> queued hp len = queued (heap, pos) (Suc len) - {heap 0}"
  proof (cases "len = 0")
    case True
    then show ?thesis by (simp add: queue_ok_empty queued_def lessThan_Suc)
  next
    case False
    have down: "solver_order.down_at key seq (?h(0 := heap len)) len 0"
      using assms(1) parent_less
      by (auto simp: solver_order.down_at_def queue_ok_def solver_order.is_heap_def solver_order.ordered_at_def)
    have hand: "solver_order.in_hand (?h(0 := heap len)) ?pos len 0"
      using False placed inj by (auto simp: solver_order.in_hand_def inj_on_def)
    from solver_order.sift_down_loop_sifted [OF down hand]
    have sifted: "solver_order.sifted key seq ?h ?pos len hp" using False by (simp add: hp sift_down_def)
    have "?h ` {..<len} = heap ` {..<Suc len} - {heap 0}"
    proof -
      have "{..<Suc len} = insert 0 (insert len ({..<len} - {0}))" using False by auto
      moreover have "?h ` {..<len} = insert (heap len) (heap ` ({..<len} - {0}))" using False by force
      ultimately show ?thesis using inj False by auto
    qed
    with sifted show ?thesis by (simp add: solver_order.sifted_def queue_ok_def queued_def)
  qed
  then show "queue_ok key seq hp len" "queued hp len = queued (heap, pos) (Suc len) - {heap 0}" by blast+
qed

end
