(* ===== verification/Solver.thy ===== *)
theory Solver
  imports Stencil IndexedHeap Rounding
begin

text \<open>
  The propagation kernel of the travel-time solver (tsdhn_ttt/solver.py: \<open>_csr\<close>, \<open>_offsets\<close>,
  \<open>_propagate\<close>). The arrays of the kernel are functions of their index in a record; numba
  checks no index, so the model does: a step that would read or write outside an array, put
  a node number that does not fit its 32-bit cell, or let a NaN into the queue, is \<open>None\<close>.
  Slowness is \<open>real option\<close>, \<open>None\<close> the NaN of land and padding. Arithmetic is rounded the
  way the code rounds it, in \<open>float64\<close> and, where a value is stored, to the type of the arrays.
\<close>

subsection \<open>Tables\<close>

definition PAD :: nat where "PAD = 13"

definition UNREACHED :: real where "UNREACHED = f32 (10 ^ 33)"
definition SETTLED :: real where "SETTLED = f32 (10 ^ 34)"
definition BLOCKED :: real where "BLOCKED = f32 (10 ^ 35)"

text \<open>Compressed rows: where each row starts, and all rows one after the other.\<close>

fun cumsum :: "nat \<Rightarrow> nat list \<Rightarrow> nat list" where
  "cumsum n [] = [n]"
| "cumsum n (x # xs) = n # cumsum (n + x) xs"

definition csr :: "'a list list \<Rightarrow> nat list \<times> 'a list" where
  "csr table = (cumsum 0 (map length table), concat table)"

definition csr_row :: "nat list \<times> 'a list \<Rightarrow> nat \<Rightarrow> 'a list" where
  "csr_row t k = map (\<lambda>q. snd t ! q) [fst t ! k ..< fst t ! (k + 1)]"

definition WEIGHT_TABLE :: "nat list \<times> (nat \<times> real) list" where
  "WEIGHT_TABLE = csr (map (map (\<lambda>(c, n, d). (nat c, f64 (of_int n / of_int d)))) WEIGHTS)"

definition block_cells :: "nat \<Rightarrow> (int \<times> int \<times> int) list \<Rightarrow> nat list" where
  "block_cells k row =
     map nat (sort (remdups (map fst row @ map snd (filter (\<lambda>(j, c). j = int k) BLOCKERS))))"

definition BLOCK_TABLE :: "nat list \<times> nat list" where
  "BLOCK_TABLE = csr (map (\<lambda>k. block_cells k (WEIGHTS ! k)) [0..<length WEIGHTS])"

definition offsets :: "nat \<Rightarrow> int list" where
  "offsets width = map (\<lambda>(i, j). - j * int width + i) CELLS"

subsection \<open>The state\<close>

text \<open>What the kernel only reads: type of the arrays, size of the grid and segment lengths.\<close>

record tt_grid =
  g_dtype :: dtype
  g_ny :: nat
  g_nx :: nat
  g_length :: "nat \<Rightarrow> nat \<Rightarrow> real"

definition width :: "tt_grid \<Rightarrow> nat" where
  "width g = g_nx g + 2 * PAD"

definition cells :: "tt_grid \<Rightarrow> nat" where
  "cells g = (g_ny g + 2 * PAD) * width g"

record tt_state =
  slow :: "nat \<Rightarrow> real option"
  key :: "nat \<Rightarrow> real"
  seq :: "nat \<Rightarrow> nat"
  heap :: "nat \<Rightarrow> nat"
  pos :: "nat \<Rightarrow> int"
  hsize :: nat
  counter :: nat

definition cell_index :: "tt_grid \<Rightarrow> int \<Rightarrow> nat option" where
  "cell_index g i = (if 0 \<le> i \<and> i < int (cells g) then Some (nat i) else None)"

definition is_open :: "real option \<Rightarrow> bool" where
  "is_open v = (case v of None \<Rightarrow> False | Some x \<Rightarrow> x < 0)"

subsection \<open>Queueing\<close>

text \<open>A new node at the end of the heap, and a node whose key became smaller.\<close>

definition enqueue_node :: "tt_grid \<Rightarrow> nat \<Rightarrow> real \<Rightarrow> tt_state \<Rightarrow> tt_state option" where
  "enqueue_node g n arrival st =
     (if hsize st < cells g \<and> n < cells g \<and> n < 2 ^ 31
      then let key' = (key st)(n := arrival); seq' = (seq st)(n := counter st);
               hp = sift_up (heap_less key' seq') ((heap st)(hsize st := n), pos st) (hsize st)
           in Some (st\<lparr> key := key', seq := seq', counter := counter st + 1,
                heap := fst hp, pos := snd hp, hsize := hsize st + 1 \<rparr>)
      else None)"

definition decrease_key :: "nat \<Rightarrow> real \<Rightarrow> tt_state \<Rightarrow> tt_state option" where
  "decrease_key n arrival st =
     (if 0 \<le> pos st n
      then let key' = (key st)(n := arrival); seq' = (seq st)(n := counter st);
               hp = sift_up (heap_less key' seq') (heap st, pos st) (nat (pos st n))
           in Some (st\<lparr> key := key', seq := seq', counter := counter st + 1,
                heap := fst hp, pos := snd hp \<rparr>)
      else None)"

text \<open>The loop over the seeds.\<close>

fun seed_all :: "tt_grid \<Rightarrow> (nat \<times> real) list \<Rightarrow> tt_state \<Rightarrow> tt_state option" where
  "seed_all g [] st = Some st"
| "seed_all g ((n, t) # seeds) st =
     Option.bind (enqueue_node g n (cast (g_dtype g) t) st) (seed_all g seeds)"

subsection \<open>Settling a node\<close>

text \<open>The head of the queue leaves it.\<close>

definition pop :: "tt_state \<Rightarrow> tt_state" where
  "pop st =
     (let ij = heap st 0; size' = hsize st - 1; pos1 = (pos st)(ij := - 1);
          heap1 = (heap st)(0 := heap st size');
          hp = (if size' > 0
                then sift_down (heap_less (key st) (seq st)) (heap1, pos1(heap1 0 := 0)) size' 0
                else (heap st, pos1))
      in st\<lparr> hsize := size', heap := fst hp, pos := snd hp \<rparr>)"

text \<open>\<open>mean\<close>: own slowness, then a weighted value per cell of the segment.\<close>

fun mean_along :: "real option list \<Rightarrow> (nat \<times> real) list \<Rightarrow> real option \<Rightarrow> real option" where
  "mean_along vals [] acc = acc"
| "mean_along vals ((c, w) # ws) acc =
     mean_along vals ws
       (case (acc, vals ! c) of (Some m, Some v) \<Rightarrow> Some (f64 (m + f64 (w * v))) | _ \<Rightarrow> None)"

definition segment_cost :: "tt_grid \<Rightarrow> nat \<Rightarrow> nat \<Rightarrow> real \<Rightarrow> real" where
  "segment_cost g row k mean = cast (g_dtype g) (f64 (g_length g row k * mean))"

definition relax ::
  "tt_grid \<Rightarrow> nat \<Rightarrow> real \<Rightarrow> real option \<Rightarrow> real option list \<Rightarrow> nat \<Rightarrow> tt_state \<Rightarrow> tt_state option" where
  "relax g ij t own vals k st =
     (case cell_index g (int ij + offsets (width g) ! k) of
        None \<Rightarrow> None
      | Some kk \<Rightarrow>
          if key st kk > UNREACHED then Some st
          else if \<not> list_all is_open vals \<and>
                  \<not> list_all (\<lambda>c. is_open (vals ! c)) (csr_row BLOCK_TABLE k) then Some st
          else if ij div width g < PAD \<or> g_ny g + PAD \<le> ij div width g then None
          else (case mean_along vals (csr_row WEIGHT_TABLE k) own of
                  None \<Rightarrow> None
                | Some mean \<Rightarrow>
                    let cost = segment_cost g (ij div width g - PAD) k mean;
                        arrival = cast (g_dtype g) (t - cost)
                    in if key st kk = UNREACHED then enqueue_node g kk arrival st
                       else if arrival < key st kk then decrease_key kk arrival st
                       else Some st))"

fun relax_all ::
  "tt_grid \<Rightarrow> nat \<Rightarrow> real \<Rightarrow> real option \<Rightarrow> real option list \<Rightarrow> nat list \<Rightarrow> tt_state \<Rightarrow> tt_state option" where
  "relax_all g ij t own vals [] st = Some st"
| "relax_all g ij t own vals (k # ks) st =
     Option.bind (relax g ij t own vals k st) (relax_all g ij t own vals ks)"

text \<open>\<open>value\<close> and \<open>open_cell\<close> of the patch around a node.\<close>

definition patch_values :: "tt_grid \<Rightarrow> tt_state \<Rightarrow> nat \<Rightarrow> real option list option" where
  "patch_values g st ij =
     those (map (\<lambda>off. map_option (slow st) (cell_index g (int ij + off))) (offsets (width g)))"

definition mark_settled :: "tt_grid \<Rightarrow> nat \<Rightarrow> real \<Rightarrow> tt_state \<Rightarrow> tt_state" where
  "mark_settled g ij t st =
     st\<lparr> key := (key st)(ij := SETTLED),
         slow := (slow st)(ij := Some (cast (g_dtype g) (f64 (f64 (1 / 3600) * t)))) \<rparr>"

definition settle :: "tt_grid \<Rightarrow> tt_state \<Rightarrow> tt_state option" where
  "settle g st =
     (let ij = heap st 0; t = key st ij; st1 = pop st in
      case patch_values g st1 ij of
        None \<Rightarrow> None
      | Some vals \<Rightarrow>
          relax_all g ij t (map_option f64 (slow st1 ij)) vals [0..<nat NEIGHBOURS]
            (mark_settled g ij t st1))"

text \<open>\<open>while size > 0\<close>; \<open>None\<close> is also a loop that does not end.\<close>

partial_function (option) settle_loop :: "tt_grid \<Rightarrow> tt_state \<Rightarrow> nat \<Rightarrow> (tt_state \<times> nat) option" where
  "settle_loop g st settled =
     (if hsize st > 0
      then (case settle g st of None \<Rightarrow> None | Some st' \<Rightarrow> settle_loop g st' (settled + 1))
      else Some (st, settled))"

text \<open>The arrays as \<open>_solve\<close> and \<open>_propagate\<close> set them up.\<close>

definition initial_state :: "tt_grid \<Rightarrow> (nat \<Rightarrow> real option) \<Rightarrow> tt_state" where
  "initial_state g sl =
     \<lparr> slow = sl, key = (\<lambda>n. cast (g_dtype g) (if sl n = None then BLOCKED else UNREACHED)),
       seq = (\<lambda>_. 0), heap = (\<lambda>_. 0), pos = (\<lambda>_. - 1), hsize = 0, counter = 1 \<rparr>"

definition propagate ::
  "tt_grid \<Rightarrow> (nat \<Rightarrow> real option) \<Rightarrow> (nat \<times> real) list \<Rightarrow> (tt_state \<times> nat) option" where
  "propagate g sl seeds =
     Option.bind (seed_all g seeds (initial_state g sl)) (\<lambda>st. settle_loop g st 0)"

end
