(* ===== verification/SolverTables.thy ===== *)
theory SolverTables
  imports Solver
begin

text \<open>
  What the propagation loop relies on in its tables and its padding: compressed rows read
  back as the rows, the patch of an inner node stays inside the padded grid, every cell that
  weighs in also blocks, and the cells of a segment link the node to the neighbour.
\<close>

subsection \<open>Compressed rows\<close>

lemma cumsum_nth: "k \<le> length xs \<Longrightarrow> cumsum n xs ! k = n + sum_list (take k xs)"
proof (induction xs arbitrary: n k)
  case (Cons x xs)
  then show ?case by (cases k) auto
qed simp

lemma concat_slice:
  assumes "k < length table" and "i < length (table ! k)"
  shows "concat table ! (sum_list (map length (take k table)) + i) = table ! k ! i"
  using assms
proof (induction table arbitrary: k)
  case (Cons xs table)
  show ?case
  proof (cases k)
    case (Suc j)
    then show ?thesis using Cons by (simp add: nth_append add.assoc)
  qed (use Cons in \<open>simp add: nth_append\<close>)
qed simp

lemma csr_row_csr:
  assumes "k < length table"
  shows "csr_row (csr table) k = table ! k"
proof (rule nth_equalityI)
  let ?s = "sum_list (map length (take k table))"
  have b: "fst (csr table) ! k = ?s" "fst (csr table) ! (k + 1) = ?s + length (table ! k)"
    using assms cumsum_nth [of k "map length table" 0] cumsum_nth [of "k + 1" "map length table" 0]
    by (simp_all add: csr_def take_map take_Suc_conv_app_nth)
  then show "length (csr_row (csr table) k) = length (table ! k)" by (simp add: csr_row_def)
  fix i assume "i < length (csr_row (csr table) k)"
  then have i: "i < length (table ! k)" using b by (simp add: csr_row_def)
  have "csr_row (csr table) k ! i = concat table ! (?s + i)" using b i by (simp add: csr_row_def csr_def)
  then show "csr_row (csr table) k ! i = table ! k ! i" using concat_slice [OF assms i] by simp
qed

subsection \<open>The tables of the solver\<close>

definition weight_row :: "nat \<Rightarrow> (nat \<times> real) list" where
  "weight_row k = map (\<lambda>(c, n, d). (nat c, f64 (of_int n / of_int d))) (WEIGHTS ! k)"

lemma weight_table_row: "k < 120 \<Longrightarrow> csr_row WEIGHT_TABLE k = weight_row k"
  by (simp add: WEIGHT_TABLE_def csr_row_csr length_CELLS weight_row_def)

lemma block_table_row: "k < 120 \<Longrightarrow> csr_row BLOCK_TABLE k = block_cells k (WEIGHTS ! k)"
  by (simp add: BLOCK_TABLE_def csr_row_csr length_CELLS)

lemma length_CELLS_all [simp]: "length CELLS = 256"
  by (simp add: CELLS_def length_CELLS)

lemma length_offsets [simp]: "length (offsets w) = 256"
  by (simp add: offsets_def)

lemma row_consistent_nth: "k < 120 \<Longrightarrow> row_consistent (int k, WEIGHTS ! k)"
proof -
  assume k: "k < 120"
  have "zip [0..119] WEIGHTS ! k = (int k, WEIGHTS ! k)"
    using k by (simp add: nth_zip length_CELLS)
  moreover have "k < length (zip [0..119] WEIGHTS)" using k by (simp add: length_CELLS)
  ultimately show ?thesis using all_rows_consistent by (metis list_all_length)
qed

lemma weight_row_bounds: "k < 120 \<Longrightarrow> (c, w) \<in> set (weight_row k) \<Longrightarrow> c < 256 \<and> 0 \<le> w"
  using row_consistent_nth [of k]
  by (auto simp: row_consistent_def weight_row_def list_all_iff intro!: array_type.nonneg)

lemma block_cells_iff:
  "c \<in> set (block_cells k row) \<longleftrightarrow>
     (\<exists>z \<in> fst ` set row \<union> {z. (int k, z) \<in> set BLOCKERS}. c = nat z)"
  by (force simp: block_cells_def image_iff)

lemma weights_block: "k < 120 \<Longrightarrow> (c, w) \<in> set (weight_row k) \<Longrightarrow> c \<in> set (block_cells k (WEIGHTS ! k))"
  by (force simp: block_cells_iff weight_row_def)

lemma block_cells_bounds: "k < 120 \<Longrightarrow> c \<in> set (block_cells k (WEIGHTS ! k)) \<Longrightarrow> c < 256"
  using row_consistent_nth [of k] blockers_consistent
  by (auto simp: block_cells_iff row_consistent_def list_all_iff)

text \<open>The last cell of a segment is the neighbour itself.\<close>

lemma neighbour_blocks: "k < 120 \<Longrightarrow> k \<in> set (block_cells k (WEIGHTS ! k))"
  using row_consistent_nth [of k] by (force simp: block_cells_iff row_consistent_def)

text \<open>The eight adjacent nodes: nothing lies between, so only the neighbour itself blocks.\<close>

lemma adjacent_rows: "list_all (\<lambda>k. map fst (WEIGHTS ! k) = [int k]) [0..<8]"
  by code_simp

lemma adjacent_blockers: "list_all (\<lambda>(k, c). 8 \<le> k) BLOCKERS"
  by code_simp

lemma adjacent_block_cells:
  assumes "k < 8"
  shows "block_cells k (WEIGHTS ! k) = [k]"
proof -
  have "map fst (WEIGHTS ! k) = [int k]" using adjacent_rows assms by (simp add: list_all_iff)
  moreover have "filter (\<lambda>(j, c). j = int k) BLOCKERS = []"
    using adjacent_blockers assms by (auto simp: filter_empty_conv list_all_iff)
  ultimately show ?thesis by (simp add: block_cells_def)
qed

definition near :: "int \<times> int \<Rightarrow> int \<times> int \<Rightarrow> bool" where
  "near a b \<longleftrightarrow> \<bar>fst a - fst b\<bar> \<le> 1 \<and> \<bar>snd a - snd b\<bar> \<le> 1 \<and> a \<noteq> b"

definition reach_of :: "int \<times> int \<Rightarrow> int" where
  "reach_of a = max \<bar>fst a\<bar> \<bar>snd a\<bar>"

lemma first_cells_adjacent:
  "list_all (\<lambda>d. list_ex (\<lambda>k. CELLS ! k = d) [0..<8]) [(1, 0), (- 1, 0), (0, 1), (0, - 1), (1, 1), (- 1, - 1), (1, - 1), (- 1, 1)]"
  by code_simp

lemma adjacent_cell:
  assumes "near (0, 0) d"
  shows "\<exists>k < 8. CELLS ! k = d"
proof -
  obtain di dj where d: "d = (di, dj)" by fastforce
  have "di \<in> {- 1, 0, 1}" "dj \<in> {- 1, 0, 1}" "(di, dj) \<noteq> (0, 0)"
    using assms by (auto simp: near_def d)
  then have "d \<in> set [(1, 0), (- 1, 0), (0, 1), (0, - 1), (1, 1), (- 1, - 1), (1, - 1), (- 1, 1)]"
    by (auto simp: d)
  with first_cells_adjacent show ?thesis by (auto simp: list_all_iff list_ex_iff)
qed

text \<open>Every cell of a segment has a cell of the segment, or the node, beside it and nearer.\<close>

definition row_linked :: "(int \<times> int \<times> int) list \<Rightarrow> bool" where
  "row_linked row =
     (let cs = (0, 0) # map (\<lambda>(c, _). cell_at c) row in
      list_all (\<lambda>a. a = (0, 0) \<or> list_ex (\<lambda>b. near b a \<and> reach_of b < reach_of a) cs) cs)"

lemma all_rows_linked: "list_all row_linked WEIGHTS"
  by code_simp

end
