(* ===== verification/SolverLaws.thy ===== *)
theory SolverLaws
  imports SolverTables
begin

text \<open>
  The laws of the propagation (\<open>_propagate\<close>): from well-formed arrays it ends, accesses nothing
  outside them, settles nodes in order of arrival and each once, and reaches exactly the water
  that is connected to the seeds.
\<close>

subsection \<open>Inner nodes and their patch\<close>

definition inner_node :: "tt_grid \<Rightarrow> nat \<Rightarrow> nat \<Rightarrow> nat" where
  "inner_node g row col = (row + PAD) * width g + (col + PAD)"

definition interior :: "tt_grid \<Rightarrow> nat set" where
  "interior g = {inner_node g row col |row col. row < g_ny g \<and> col < g_nx g}"

definition shifted :: "tt_grid \<Rightarrow> nat \<Rightarrow> int \<times> int \<Rightarrow> int" where
  "shifted g n d = int n + (- snd d * int (width g) + fst d)"

lemma offsets_nth: "c < 256 \<Longrightarrow> int n + offsets (width g) ! c = shifted g n (CELLS ! c)"
  by (simp add: offsets_def shifted_def case_prod_beta)

lemma interior_row: "n \<in> interior g \<Longrightarrow> PAD \<le> n div width g \<and> n div width g < g_ny g + PAD"
  by (auto simp: interior_def inner_node_def width_def)

lemma shifted_in_cells:
  assumes "n \<in> interior g" and "\<bar>fst d\<bar> \<le> 13" and "\<bar>snd d\<bar> \<le> 13"
  shows "0 \<le> shifted g n d" and "shifted g n d < int (cells g)"
proof -
  obtain row col where n: "n = inner_node g row col" and rc: "row < g_ny g" "col < g_nx g"
    using assms(1) by (auto simp: interior_def)
  obtain di dj where d: "d = (di, dj)" by fastforce
  have b: "\<bar>di\<bar> \<le> 13" "\<bar>dj\<bar> \<le> 13" using assms(2,3) by (auto simp: d)
  let ?w = "int (width g)"
  have s: "shifted g n d = (int row + 13 - dj) * ?w + (int col + 13 + di)"
    by (simp add: shifted_def n inner_node_def PAD_def d algebra_simps)
  have w: "?w = int (g_nx g) + 26" by (simp add: width_def PAD_def)
  have "0 \<le> (int row + 13 - dj) * ?w" using b rc by simp
  then show "0 \<le> shifted g n d" using b by (simp add: s)
  have "(int row + 13 - dj) * ?w \<le> (int (g_ny g) + 25) * ?w" using b rc by (intro mult_right_mono) auto
  moreover have "int col + 13 + di < ?w" using b rc w by simp
  ultimately have "shifted g n d < (int (g_ny g) + 25) * ?w + ?w" unfolding s by linarith
  also have "\<dots> = int (cells g)" by (simp add: cells_def PAD_def algebra_simps)
  finally show "shifted g n d < int (cells g)" .
qed

lemma CELLS_within_reach: "c < 256 \<Longrightarrow> \<bar>fst (CELLS ! c)\<bar> \<le> 13 \<and> \<bar>snd (CELLS ! c)\<bar> \<le> 13"
  using all_cells_within_reach by (cases "CELLS ! c") (auto simp: list_all_length within_reach_def)

lemma interior_cells: "n \<in> interior g \<Longrightarrow> n < cells g"
  using shifted_in_cells [of n g "(0, 0)"] by (simp add: shifted_def)


subsection \<open>The markers in \<open>key\<close>\<close>

definition MAX_COST :: real where
  "MAX_COST = 2 ^ 80"

lemma stored_power: "array_type.stored d (2 ^ k)"
  using stored_of_int [of 1 d "int k"] by (simp add: powr_realpow)

lemma f32_between: "2 ^ a \<le> x \<Longrightarrow> x \<le> 2 ^ b \<Longrightarrow> 2 ^ a \<le> f32 x \<and> f32 x \<le> 2 ^ b"
  using array_type.stored_le [of Float32 "2 ^ a" x] array_type.le_stored [of Float32 "2 ^ b" x] stored_power
  by blast

lemma marker_bounds:
  "2 ^ 109 \<le> UNREACHED" "UNREACHED \<le> 2 ^ 110" "2 ^ 112 \<le> SETTLED" "SETTLED \<le> 2 ^ 113" "2 ^ 116 \<le> BLOCKED"
  using f32_between [of 109 "10 ^ 33" 110] f32_between [of 112 "10 ^ 34" 113] f32_between [of 116 "10 ^ 35" 117]
  by (simp_all add: UNREACHED_def SETTLED_def BLOCKED_def)

lemma marker_order: "UNREACHED < SETTLED" "UNREACHED < BLOCKED" "SETTLED < BLOCKED" "0 < UNREACHED"
proof -
  have "(2::real) ^ 110 < 2 ^ 112" "(2::real) ^ 113 < 2 ^ 116" "(0::real) < 2 ^ 109" by simp_all
  with marker_bounds show "UNREACHED < SETTLED" "UNREACHED < BLOCKED" "SETTLED < BLOCKED" "0 < UNREACHED"
    by linarith+
qed

lemma stored_f32: "array_type.stored d (f32 x)"
proof (cases d)
  case Float64
  have "representable 24 (f32 x)" by (simp add: cast_def)
  then obtain m e where "\<bar>m\<bar> \<le> 2 ^ 24" "f32 x = of_int m * 2 powr of_int e"
    by (auto simp: representable_def)
  then show ?thesis using stored_of_int by metis
qed simp

lemma cast_markers [simp]: "cast d UNREACHED = UNREACHED" "cast d BLOCKED = BLOCKED" "cast d SETTLED = SETTLED"
  using stored_f32 by (simp_all add: UNREACHED_def BLOCKED_def SETTLED_def array_type.stored_def)

lemma stored_cost: "n \<le> 2 ^ 24 \<Longrightarrow> array_type.stored d (real n * MAX_COST)"
proof -
  assume "n \<le> 2 ^ 24"
  then have "\<bar>int n\<bar> \<le> 2 ^ 24" by simp
  from stored_of_int [OF this, of d 80] show ?thesis by (simp add: MAX_COST_def powr_realpow [symmetric])
qed

lemma cost_below_marker: "n \<le> 2 ^ 24 \<Longrightarrow> real n * MAX_COST < UNREACHED"
proof -
  assume "n \<le> 2 ^ 24"
  then have "real n \<le> 2 ^ 24" by (metis of_nat_le_iff of_nat_numeral of_nat_power)
  then have "real n * MAX_COST \<le> 2 ^ 24 * MAX_COST" by (rule mult_right_mono) (simp add: MAX_COST_def)
  also have "\<dots> < 2 ^ 109" by (simp add: MAX_COST_def)
  finally show ?thesis using marker_bounds(1) by linarith
qed

subsection \<open>Costs\<close>

text \<open>The segment cost over water as shallow as \<open>s\<close> everywhere: the worst one.\<close>

definition worst_mean :: "real \<Rightarrow> nat \<Rightarrow> real option" where
  "worst_mean s k = mean_along (replicate 256 (Some (- s))) (csr_row WEIGHT_TABLE k) (Some (f64 (- s)))"

definition costs_ok :: "tt_grid \<Rightarrow> real \<Rightarrow> bool" where
  "costs_ok g s \<longleftrightarrow>
     (\<forall>row < g_ny g. \<forall>k < 120. 0 \<le> g_length g row k \<and>
        (\<forall>m. worst_mean s k = Some m \<longrightarrow> - MAX_COST \<le> segment_cost g row k m))"

definition in_range :: "real \<Rightarrow> real option \<Rightarrow> bool" where
  "in_range s v = (case v of None \<Rightarrow> False | Some x \<Rightarrow> - s \<le> x \<and> x < 0)"

lemma mean_along_bounds:
  assumes "\<And>c w. (c, w) \<in> set ws \<Longrightarrow> c < 256 \<and> 0 \<le> w \<and> in_range s (vals ! c)"
    and "a \<le> b" and "b \<le> 0"
  shows "\<exists>m m'. mean_along (replicate 256 (Some (- s))) ws (Some a) = Some m \<and>
           mean_along vals ws (Some b) = Some m' \<and> m \<le> m' \<and> m' \<le> 0"
  using assms
proof (induction ws arbitrary: a b)
  case (Cons cw ws)
  obtain c w where cw: "cw = (c, w)" by fastforce
  then have c: "c < 256" "0 \<le> w" and "in_range s (vals ! c)" using Cons.prems(1) [of c w] by auto
  then obtain v where v: "vals ! c = Some v" "- s \<le> v" "v < 0" by (auto simp: in_range_def split: option.splits)
  have "w * - s \<le> w * v" using v c by (intro mult_left_mono)
  then have step: "a + f64 (w * - s) \<le> b + f64 (w * v)" using Cons.prems(2) by (intro add_mono array_type.mono)
  have "w * v \<le> 0" using v c by (simp add: mult_nonneg_nonpos)
  then have "b + f64 (w * v) \<le> 0" using Cons.prems(3) array_type.nonpos [of "w * v"] by (meson add_nonpos_nonpos)
  then have nonpos: "f64 (b + f64 (w * v)) \<le> 0" by (rule array_type.nonpos)
  show ?case
    using Cons.IH [OF Cons.prems(1) array_type.mono [OF step] nonpos] c v by (simp add: cw)
qed auto

lemma segment_cost_bounds:
  assumes "costs_ok g s" and "row < g_ny g" and "k < 120"
    and open_row: "\<forall>(c, w) \<in> set (weight_row k). in_range s (vals ! c)"
    and "- s \<le> v" and "v < 0"
  shows "\<exists>m. mean_along vals (csr_row WEIGHT_TABLE k) (Some (f64 v)) = Some m \<and>
             - MAX_COST \<le> segment_cost g row k m \<and> segment_cost g row k m \<le> 0"
proof -
  have "f64 (- s) \<le> f64 v" "f64 v \<le> 0"
    using assms(5,6) array_type.mono [of "- s" v] array_type.nonpos [of v] by auto
  moreover have "c < 256 \<and> 0 \<le> w \<and> in_range s (vals ! c)" if "(c, w) \<in> set (weight_row k)" for c w
    using weight_row_bounds [OF assms(3) that] open_row that by auto
  ultimately
  obtain m m' where w: "worst_mean s k = Some m"
    and m': "mean_along vals (csr_row WEIGHT_TABLE k) (Some (f64 v)) = Some m'" "m \<le> m'" "m' \<le> 0"
    using mean_along_bounds [of "weight_row k" s vals "f64 (- s)" "f64 v"]
    unfolding worst_mean_def weight_table_row [OF assms(3)] by blast
  have len: "0 \<le> g_length g row k" and low: "- MAX_COST \<le> segment_cost g row k m"
    using assms(1-3) w by (auto simp: costs_ok_def)
  have "segment_cost g row k m \<le> segment_cost g row k m'"
    using m' len unfolding segment_cost_def by (intro array_type.mono mult_left_mono)
  moreover have "segment_cost g row k m' \<le> 0"
    using m' len unfolding segment_cost_def by (intro array_type.nonpos) (simp add: mult_nonneg_nonpos)
  ultimately show ?thesis using m' low by auto
qed


subsection \<open>The invariant of the queue\<close>

definition water :: "(nat \<Rightarrow> real option) \<Rightarrow> nat set" where
  "water sl = {n. sl n \<noteq> None}"

text \<open>
  Well-formed input: water only at inner nodes, its slowness negative and at least \<open>- s\<close>, no
  segment costs more than \<open>MAX_COST\<close>, and the numbers of nodes fit their types.
\<close>

definition sea_ok :: "tt_grid \<Rightarrow> real \<Rightarrow> (nat \<Rightarrow> real option) \<Rightarrow> bool" where
  "sea_ok g s sl \<longleftrightarrow>
     water sl \<subseteq> interior g \<and> (\<forall>n v. sl n = Some v \<longrightarrow> - s \<le> v \<and> v < 0) \<and> costs_ok g s \<and>
     cells g \<le> 2 ^ 31 \<and> card (water sl) < 2 ^ 24"

lemma sea_water: "sea_ok g s sl \<Longrightarrow> n \<in> water sl \<Longrightarrow> n \<in> interior g \<and> n < cells g"
  using interior_cells by (auto simp: sea_ok_def)

lemma finite_water: "sea_ok g s sl \<Longrightarrow> finite (water sl)"
  by (rule finite_subset [of _ "{..<cells g}"]) (use sea_water in auto)

abbreviation waiting :: "tt_state \<Rightarrow> nat set" where
  "waiting st \<equiv> queued (heap st, pos st) (hsize st)"

definition time_bound :: "nat set \<Rightarrow> real" where
  "time_bound S = real (card S + 1) * MAX_COST"

text \<open>\<open>S\<close> is the set of settled nodes and \<open>t\<close> the time of the last one.\<close>

definition queue_inv ::
  "tt_grid \<Rightarrow> (nat \<Rightarrow> real option) \<Rightarrow> nat set \<Rightarrow> real \<Rightarrow> tt_state \<Rightarrow> bool" where
  "queue_inv g sl S t st \<longleftrightarrow>
     queue_ok (key st) (seq st) (heap st, pos st) (hsize st) \<and>
     S \<subseteq> water sl \<and> waiting st \<subseteq> water sl - S \<and>
     (\<forall>n \<in> waiting st. t \<le> key st n \<and> key st n \<le> time_bound S \<and>
        array_type.stored (g_dtype g) (key st n)) \<and>
     (\<forall>n. n \<notin> waiting st \<longrightarrow>
        key st n = (if n \<in> S then SETTLED else if n \<in> water sl then UNREACHED else BLOCKED))"

lemma settled_card:
  assumes "sea_ok g s sl" and "S \<subseteq> water sl"
  shows "card S + 1 \<le> 2 ^ 24"
  using card_mono [OF finite_water [OF assms(1)] assms(2)] assms(1) by (simp add: sea_ok_def)

lemma time_bound_below: "sea_ok g s sl \<Longrightarrow> S \<subseteq> water sl \<Longrightarrow> time_bound S < UNREACHED"
  unfolding time_bound_def by (intro cost_below_marker settled_card)

lemma time_bound_stored: "sea_ok g s sl \<Longrightarrow> S \<subseteq> water sl \<Longrightarrow> array_type.stored d (time_bound S)"
  unfolding time_bound_def by (intro stored_cost settled_card)

lemma waiting_key:
  assumes "sea_ok g s sl" and "queue_inv g sl S t st" and "n \<in> waiting st"
  shows "key st n < UNREACHED"
  using assms time_bound_below [OF assms(1), of S] by (fastforce simp: queue_inv_def)

lemma key_cases:
  assumes "sea_ok g s sl" and "queue_inv g sl S t st"
  shows "key st n \<le> UNREACHED \<longleftrightarrow> n \<in> water sl - S"
    and "key st n = UNREACHED \<longleftrightarrow> n \<in> water sl - S - waiting st"
  using waiting_key [OF assms, of n] assms(2) marker_order
  by (cases "n \<in> waiting st"; auto simp: queue_inv_def)+

lemma hsize_waiting: "queue_inv g sl S t st \<Longrightarrow> hsize st = card (waiting st)"
  by (simp add: queue_inv_def queue_ok_def card_queued)

lemma enqueue_node_ok:
  assumes sea: "sea_ok g s sl" and inv: "queue_inv g sl S t st"
    and n: "n \<in> water sl - S - waiting st" and a: "t \<le> a" "a \<le> time_bound S" "array_type.stored (g_dtype g) a"
  shows "\<exists>st'. enqueue_node g n a st = Some st' \<and> queue_inv g sl S t st' \<and> slow st' = slow st \<and>
           waiting st' = insert n (waiting st)"
proof -
  let ?key = "(key st)(n := a)" and ?seq = "(seq st)(n := counter st)"
  define hp where "hp = sift_up (heap_less ?key ?seq) ((heap st)(hsize st := n), pos st) (hsize st)"
  let ?st' = "st\<lparr> key := ?key, seq := ?seq, counter := counter st + 1,
     heap := fst hp, pos := snd hp, hsize := hsize st + 1 \<rparr>"
  have sub: "insert n (waiting st) \<subseteq> water sl" using inv n by (auto simp: queue_inv_def)
  have "card (insert n (waiting st)) \<le> card {..<cells g}"
    using sub sea_water [OF sea] by (intro card_mono) auto
  then have "hsize st < cells g" using n hsize_waiting [OF inv] by simp
  moreover have "n < cells g" "n < 2 ^ 31" using n sea_water [OF sea, of n] sea by (auto simp: sea_ok_def)
  ultimately have st': "enqueue_node g n a st = Some ?st'" by (simp add: enqueue_node_def hp_def Let_def)
  have push: "queue_ok ?key ?seq hp (Suc (hsize st))" "queued hp (Suc (hsize st)) = insert n (waiting st)"
    using queue_push [of "key st" "seq st" "heap st" "pos st" "hsize st" n hp a "counter st"] inv n hp_def
    by (auto simp: queue_inv_def)
  have "queue_inv g sl S t ?st'"
    using push inv n a by (auto simp: queue_inv_def)
  with st' push show ?thesis by auto
qed

lemma decrease_key_ok:
  assumes inv: "queue_inv g sl S t st" and n: "n \<in> waiting st"
    and a: "t \<le> a" "a < key st n" "array_type.stored (g_dtype g) a"
  shows "\<exists>st'. decrease_key n a st = Some st' \<and> queue_inv g sl S t st' \<and> slow st' = slow st \<and>
           waiting st' = waiting st"
proof -
  let ?key = "(key st)(n := a)" and ?seq = "(seq st)(n := counter st)"
  obtain i where i: "i < hsize st" "heap st i = n" using n by (auto simp: queued_def)
  have pos: "pos st n = int i" using inv i by (auto simp: queue_inv_def queue_ok_def placed_def)
  define hp where "hp = sift_up (heap_less ?key ?seq) (heap st, pos st) i"
  let ?st' = "st\<lparr> key := ?key, seq := ?seq, counter := counter st + 1, heap := fst hp, pos := snd hp \<rparr>"
  have st': "decrease_key n a st = Some ?st'" by (simp add: decrease_key_def hp_def Let_def pos)
  have dec: "queue_ok ?key ?seq hp (hsize st)" "queued hp (hsize st) = waiting st"
    using queue_decrease [of "key st" "seq st" "heap st" "pos st" "hsize st" i n a hp "counter st"] inv i a(2) hp_def
    by (auto simp: queue_inv_def)
  have "queue_inv g sl S t ?st'"
    using dec inv n a by (auto simp: queue_inv_def)
  with st' dec show ?thesis by auto
qed


subsection \<open>Relaxing the segments of a node\<close>

definition around :: "tt_grid \<Rightarrow> nat \<Rightarrow> nat \<Rightarrow> nat" where
  "around g ij c = nat (shifted g ij (CELLS ! c))"

lemma cell_index_around:
  assumes "ij \<in> interior g" and "c < 256"
  shows "cell_index g (int ij + offsets (width g) ! c) = Some (around g ij c)"
  using shifted_in_cells [OF assms(1), of "CELLS ! c"] CELLS_within_reach [OF assms(2)]
  by (simp add: cell_index_def offsets_nth [OF assms(2)] around_def)

text \<open>The patch around \<open>ij\<close> with the nodes of \<open>S\<close> settled: open cells are unsettled water.\<close>

definition patch_ok :: "tt_grid \<Rightarrow> (nat \<Rightarrow> real option) \<Rightarrow> nat set \<Rightarrow> nat \<Rightarrow> real option list \<Rightarrow> bool" where
  "patch_ok g sl S ij vals \<longleftrightarrow> length vals = 256 \<and>
     (\<forall>c < 256. (is_open (vals ! c) \<longleftrightarrow> around g ij c \<in> water sl - S) \<and>
        (is_open (vals ! c) \<longrightarrow> vals ! c = sl (around g ij c)))"

definition segment_open :: "tt_grid \<Rightarrow> (nat \<Rightarrow> real option) \<Rightarrow> nat set \<Rightarrow> nat \<Rightarrow> nat \<Rightarrow> bool" where
  "segment_open g sl S ij k \<longleftrightarrow> (\<forall>c \<in> set (block_cells k (WEIGHTS ! k)). around g ij c \<in> water sl - S)"

lemma open_in_range:
  assumes "sea_ok g s sl" and "patch_ok g sl S ij vals" and "c < 256" and "is_open (vals ! c)"
  shows "in_range s (vals ! c)"
  using assms by (auto simp: sea_ok_def patch_ok_def in_range_def is_open_def split: option.splits)

lemma segment_open_iff:
  assumes "patch_ok g sl S ij vals" and "k < 120"
  shows "segment_open g sl S ij k \<longleftrightarrow> list_all (\<lambda>c. is_open (vals ! c)) (csr_row BLOCK_TABLE k)"
  using assms block_cells_bounds [OF assms(2)]
  by (auto simp: segment_open_def block_table_row list_all_iff patch_ok_def)

lemma blocked_iff:
  assumes "patch_ok g sl S ij vals" and "k < 120"
  shows "\<not> list_all is_open vals \<and> \<not> list_all (\<lambda>c. is_open (vals ! c)) (csr_row BLOCK_TABLE k)
     \<longleftrightarrow> \<not> segment_open g sl S ij k"
  unfolding segment_open_iff [OF assms, symmetric]
  using assms block_cells_bounds [OF assms(2)]
  by (auto simp: segment_open_def patch_ok_def list_all_length)

definition relaxed ::
  "tt_grid \<Rightarrow> (nat \<Rightarrow> real option) \<Rightarrow> nat set \<Rightarrow> real \<Rightarrow> nat \<Rightarrow> nat set \<Rightarrow> tt_state \<Rightarrow> tt_state \<Rightarrow> bool" where
  "relaxed g sl S t ij ks st st' \<longleftrightarrow>
     queue_inv g sl S t st' \<and> slow st' = slow st \<and> waiting st \<subseteq> waiting st' \<and>
     (\<forall>n \<in> waiting st' - waiting st. \<exists>k \<in> ks. n = around g ij k \<and> segment_open g sl S ij k) \<and>
     (\<forall>k \<in> ks. segment_open g sl S ij k \<longrightarrow> around g ij k \<in> waiting st')"

text \<open>The arrival a clear segment offers is a number of the array, no earlier than the node it
  leaves and within the bound on all keys.\<close>

lemma segment_arrival:
  assumes sea: "sea_ok g s sl" and S: "S \<subseteq> water sl" and int: "ij \<in> interior g" and k: "k < 120"
    and patch: "patch_ok g sl S ij vals" and clear: "segment_open g sl S ij k"
    and v: "- s \<le> v" "v < 0"
    and t: "t \<le> real (card S) * MAX_COST" "array_type.stored (g_dtype g) t"
  obtains m where "mean_along vals (csr_row WEIGHT_TABLE k) (Some (f64 v)) = Some m"
    and "t \<le> cast (g_dtype g) (t - segment_cost g (ij div width g - PAD) k m)"
    and "cast (g_dtype g) (t - segment_cost g (ij div width g - PAD) k m) \<le> time_bound S"
proof -
  let ?row = "ij div width g - PAD"
  have "?row < g_ny g" using interior_row [OF int] by linarith
  have "in_range s (vals ! c)" if "(c, w) \<in> set (weight_row k)" for c w
    using weights_block [OF k that] weight_row_bounds [OF k that] clear patch open_in_range [OF sea patch]
    by (auto simp: segment_open_def patch_ok_def)
  then have "\<forall>(c, w) \<in> set (weight_row k). in_range s (vals ! c)" by auto
  from segment_cost_bounds [where row = ?row and g = g, OF _ \<open>?row < g_ny g\<close> k this v] sea
  obtain m where m: "mean_along vals (csr_row WEIGHT_TABLE k) (Some (f64 v)) = Some m"
    and c: "- MAX_COST \<le> segment_cost g ?row k m" "segment_cost g ?row k m \<le> 0"
    by (auto simp: sea_ok_def)
  show thesis
  proof (rule that [OF m])
    show "t \<le> cast (g_dtype g) (t - segment_cost g ?row k m)"
      using c t(2) by (intro array_type.stored_le) auto
    show "cast (g_dtype g) (t - segment_cost g ?row k m) \<le> time_bound S"
      using c t(1) time_bound_stored [OF sea S]
      by (intro array_type.le_stored) (auto simp: time_bound_def algebra_simps)
  qed
qed

text \<open>What one neighbour does to the queue once its segment is clear.\<close>

lemma relax_clear:
  assumes int: "ij \<in> interior g" and k: "k < 120" and patch: "patch_ok g sl S ij vals"
    and clear: "segment_open g sl S ij k" and near: "key st (around g ij k) \<le> UNREACHED"
    and m: "mean_along vals (csr_row WEIGHT_TABLE k) (Some (f64 v)) = Some m"
    and a: "a = cast (g_dtype g) (t - segment_cost g (ij div width g - PAD) k m)"
  shows "relax g ij t (Some (f64 v)) vals k st =
    (if key st (around g ij k) = UNREACHED then enqueue_node g (around g ij k) a st
     else if a < key st (around g ij k) then decrease_key (around g ij k) a st else Some st)"
proof -
  have cell: "cell_index g (int ij + offsets (width g) ! k) = Some (around g ij k)"
    using cell_index_around [OF int, of k] k by simp
  have near_enough: "\<not> UNREACHED < key st (around g ij k)" using near by simp
  have unblocked: "\<not> (\<not> list_all is_open vals \<and>
      \<not> list_all (\<lambda>c. is_open (vals ! c)) (csr_row BLOCK_TABLE k))"
    using blocked_iff [OF patch k] clear by blast
  have inside: "\<not> (ij div width g < PAD \<or> g_ny g + PAD \<le> ij div width g)"
    using interior_row [OF int] by linarith
  show ?thesis
    unfolding relax_def cell option.case if_not_P [OF near_enough] if_not_P [OF unblocked]
      if_not_P [OF inside] m a Let_def by (rule refl)
qed

lemma relax_ok:
  assumes sea: "sea_ok g s sl" and inv: "queue_inv g sl S t st" and ij: "ij \<in> S" and k: "k < 120"
    and patch: "patch_ok g sl S ij vals" and v: "- s \<le> v" "v < 0"
    and t: "t \<le> real (card S) * MAX_COST" "array_type.stored (g_dtype g) t"
  shows "\<exists>st'. relax g ij t (Some (f64 v)) vals k st = Some st' \<and> relaxed g sl S t ij {k} st st'"
proof -
  let ?kk = "around g ij k"
  have S: "S \<subseteq> water sl" using inv by (simp add: queue_inv_def)
  then have int: "ij \<in> interior g" using sea_water [OF sea] ij by auto
  have cell: "cell_index g (int ij + offsets (width g) ! k) = Some ?kk"
    using cell_index_around [OF int, of k] k by simp
  have self: "segment_open g sl S ij k \<Longrightarrow> ?kk \<in> water sl - S"
    using neighbour_blocks [OF k] by (auto simp: segment_open_def)
  consider "UNREACHED < key st ?kk" | "key st ?kk \<le> UNREACHED" "\<not> segment_open g sl S ij k"
    | "key st ?kk \<le> UNREACHED" "segment_open g sl S ij k" by fastforce
  then show ?thesis
  proof cases
    case 1
    then have "?kk \<notin> water sl - S" using key_cases(1) [OF sea inv, of ?kk] by (simp add: not_le)
    then have "\<not> segment_open g sl S ij k" using self by blast
    moreover have "relax g ij t (Some (f64 v)) vals k st = Some st" using 1 cell k by (simp add: relax_def)
    ultimately show ?thesis using inv by (auto simp: relaxed_def)
  next
    case 2
    then have "relax g ij t (Some (f64 v)) vals k st = Some st"
      using cell k blocked_iff [OF patch k] by (simp add: relax_def)
    then show ?thesis using inv 2 by (auto simp: relaxed_def)
  next
    case 3
    obtain m where m: "mean_along vals (csr_row WEIGHT_TABLE k) (Some (f64 v)) = Some m"
      and arr: "t \<le> cast (g_dtype g) (t - segment_cost g (ij div width g - PAD) k m)"
        "cast (g_dtype g) (t - segment_cost g (ij div width g - PAD) k m) \<le> time_bound S"
      by (rule segment_arrival [OF sea S int k patch 3(2) v t])
    define a where "a = cast (g_dtype g) (t - segment_cost g (ij div width g - PAD) k m)"
    have a: "t \<le> a" "a \<le> time_bound S" "array_type.stored (g_dtype g) a"
      using arr by (simp_all add: a_def)
    note step = relax_clear [OF int k patch 3(2,1) m a_def]
    have water: "?kk \<in> water sl - S" using self 3 by blast
    consider "?kk \<notin> waiting st" | "?kk \<in> waiting st" "a < key st ?kk" | "?kk \<in> waiting st" "\<not> a < key st ?kk" by blast
    then show ?thesis
    proof cases
      case 1
      then have fresh: "?kk \<in> water sl - S - waiting st" using water by blast
      with enqueue_node_ok [OF sea inv fresh a] key_cases(2) [OF sea inv, of ?kk] 3 step
      show ?thesis by (auto simp: relaxed_def)
    next
      case 2
      with decrease_key_ok [OF inv 2(1) a(1) 2(2) a(3)] waiting_key [OF sea inv 2(1)] step 3
      show ?thesis by (auto simp: relaxed_def)
    next
      case neither: 3
      with waiting_key [OF sea inv neither(1)] step inv 3 show ?thesis by (auto simp: relaxed_def)
    qed
  qed
qed

lemma relax_all_ok:
  assumes "sea_ok g s sl" and "queue_inv g sl S t st" and "ij \<in> S" and "set ks \<subseteq> {..<120}"
    and "patch_ok g sl S ij vals" and "- s \<le> v" "v < 0"
    and "t \<le> real (card S) * MAX_COST" "array_type.stored (g_dtype g) t"
  shows "\<exists>st'. relax_all g ij t (Some (f64 v)) vals ks st = Some st' \<and> relaxed g sl S t ij (set ks) st st'"
  using assms(2,4)
proof (induction ks arbitrary: st)
  case Nil
  then show ?case by (auto simp: relaxed_def)
next
  case (Cons k ks)
  then have "k < 120" by simp
  from relax_ok [OF assms(1) Cons.prems(1) assms(3) this assms(5-9)]
  obtain st1 where st1: "relax g ij t (Some (f64 v)) vals k st = Some st1" "relaxed g sl S t ij {k} st st1"
    by blast
  then obtain st2 where st2: "relax_all g ij t (Some (f64 v)) vals ks st1 = Some st2"
      "relaxed g sl S t ij (set ks) st1 st2"
    using Cons.IH [of st1] Cons.prems by (auto simp: relaxed_def)
  have "relaxed g sl S t ij (set (k # ks)) st st2"
    using st1(2) st2(2) unfolding relaxed_def by (simp add: ball_Un) blast
  with st1 st2 show ?case by auto
qed


subsection \<open>Connected water\<close>

definition adjacent :: "tt_grid \<Rightarrow> nat \<Rightarrow> nat \<Rightarrow> bool" where
  "adjacent g n n' \<longleftrightarrow> (\<exists>d. near (0, 0) d \<and> int n' = shifted g n d)"

text \<open>The water that hangs together with the seeds, by any of the eight neighbours of a node.\<close>

inductive_set sea_connected :: "tt_grid \<Rightarrow> (nat \<Rightarrow> real option) \<Rightarrow> nat set \<Rightarrow> nat set"
  for g sl seeds where
  seed: "n \<in> seeds \<Longrightarrow> n \<in> water sl \<Longrightarrow> n \<in> sea_connected g sl seeds"
| step: "n \<in> sea_connected g sl seeds \<Longrightarrow> adjacent g n n' \<Longrightarrow> n' \<in> water sl \<Longrightarrow>
    n' \<in> sea_connected g sl seeds"

lemma entry_nth: "0 \<le> i \<Longrightarrow> i < int (length xs) \<Longrightarrow> entry xs i = xs ! nat i"
  by (induction xs arbitrary: i) (auto simp: nat_diff_distrib nth_Cons')

lemma cell_at_nth: "0 \<le> c \<Longrightarrow> c < 256 \<Longrightarrow> cell_at c = CELLS ! nat c"
  by (simp add: cell_at_CELLS entry_nth)

lemma near_adjacent:
  assumes "near a b" and "0 \<le> shifted g n a" and "0 \<le> shifted g n b"
  shows "adjacent g (nat (shifted g n a)) (nat (shifted g n b))"
proof -
  have "near (0, 0) (fst b - fst a, snd b - snd a)" using assms(1) by (auto simp: near_def prod_eq_iff)
  moreover have "shifted g n b = shifted g (nat (shifted g n a)) (fst b - fst a, snd b - snd a)"
    using assms(2) by (simp add: shifted_def algebra_simps)
  ultimately show ?thesis using assms(3) by (auto simp: adjacent_def)
qed

lemma segment_connected:
  assumes ij: "ij \<in> interior g" "ij \<in> sea_connected g sl A" and k: "k < 120"
    and seg: "segment_open g sl S ij k"
  shows "around g ij k \<in> sea_connected g sl A"
proof -
  let ?row = "WEIGHTS ! k"
  let ?cs = "(0, 0) # map (\<lambda>(c, _). cell_at c) ?row"
  have row: "0 \<le> c \<and> c < 256" if "(c, n, d) \<in> set ?row" for c n d
    using row_consistent_nth [OF k] that by (auto simp: row_consistent_def list_all_iff)
  have cell: "a = (0, 0) \<or> (\<exists>c < 256. a = CELLS ! c \<and> around g ij c \<in> water sl)" if a: "a \<in> set ?cs" for a
  proof (cases "a = (0, 0)")
    case False
    then obtain x where "x \<in> set ?row" "a = cell_at (fst x)" using a by (auto simp: case_prod_beta)
    then obtain c n d where c: "(c, n, d) \<in> set ?row" "a = cell_at c" by (metis prod.collapse)
    then have "nat c \<in> set (block_cells k ?row)" by (force simp: block_cells_iff)
    with seg have "around g ij (nat c) \<in> water sl" by (auto simp: segment_open_def)
    then show ?thesis using c row [OF c(1)] cell_at_nth by (intro disjI2 exI [of _ "nat c"]) auto
  qed simp
  have nonneg: "0 \<le> shifted g ij a" if "a \<in> set ?cs" for a
    using cell [OF that] shifted_in_cells(1) [OF ij(1), of a] CELLS_within_reach by auto
  have "row_linked ?row" using all_rows_linked k by (simp add: list_all_length length_CELLS)
  then have linked: "a = (0, 0) \<or> (\<exists>b \<in> set ?cs. near b a \<and> reach_of b < reach_of a)" if "a \<in> set ?cs" for a
    using that unfolding row_linked_def Let_def list_all_iff list_ex_iff by blast
  have "nat (shifted g ij a) \<in> sea_connected g sl A" if "a \<in> set ?cs" for a
    using that
  proof (induction "nat (reach_of a)" arbitrary: a rule: less_induct)
    case less
    show ?case
    proof (cases "a = (0, 0)")
      case True
      then show ?thesis using ij(2) by (simp add: shifted_def)
    next
      case False
      then obtain b where b: "b \<in> set ?cs" "near b a" "reach_of b < reach_of a"
        using linked [OF less.prems] by blast
      have "0 \<le> reach_of b" by (simp add: reach_of_def)
      then have "nat (shifted g ij b) \<in> sea_connected g sl A" using less.hyps [of b] b by simp
      moreover have "nat (shifted g ij a) \<in> water sl"
        using cell [OF less.prems] False by (auto simp: around_def)
      ultimately show ?thesis
        using near_adjacent [OF b(2) nonneg [OF b(1)] nonneg [OF less.prems]]
        by (auto intro: sea_connected.step)
    qed
  qed
  moreover have "CELLS ! k \<in> set ?cs"
  proof -
    have "(int k, 1, 1) \<in> set ?row" using row_consistent_nth [OF k] by (simp add: row_consistent_def)
    then show ?thesis using cell_at_nth [of "int k"] k by force
  qed
  ultimately show ?thesis by (simp add: around_def)
qed

lemma adjacent_segment:
  assumes "ij \<in> interior g" and "adjacent g ij n'" and "n' \<in> water sl - S"
  shows "\<exists>k < 8. around g ij k = n' \<and> segment_open g sl S ij k"
proof -
  obtain d where d: "near (0, 0) d" "int n' = shifted g ij d" using assms(2) by (auto simp: adjacent_def)
  obtain k where k: "k < 8" "CELLS ! k = d" using adjacent_cell [OF d(1)] by blast
  then have "around g ij k = n'" by (simp add: around_def d(2) [symmetric])
  with k assms(3) adjacent_block_cells [OF k(1)] show ?thesis by (auto simp: segment_open_def)
qed


subsection \<open>Settling a node\<close>

definition tt_inv ::
  "tt_grid \<Rightarrow> (nat \<Rightarrow> real option) \<Rightarrow> nat set \<Rightarrow> nat set \<Rightarrow> real \<Rightarrow> tt_state \<Rightarrow> bool" where
  "tt_inv g sl A S t st \<longleftrightarrow>
     0 \<le> t \<and> queue_inv g sl S t st \<and>
     (\<forall>n. n \<notin> S \<longrightarrow> slow st n = sl n) \<and> (\<forall>n \<in> S. \<exists>v \<ge> 0. slow st n = Some v) \<and>
     A \<subseteq> waiting st \<union> S \<and> waiting st \<union> S \<subseteq> sea_connected g sl A \<and>
     (\<forall>n \<in> S. \<forall>n' \<in> water sl. adjacent g n n' \<longrightarrow> n' \<in> waiting st \<union> S)"

lemma those_map_Some: "(\<And>x. x \<in> set xs \<Longrightarrow> f x = Some (h x)) \<Longrightarrow> those (map f xs) = Some (map h xs)"
  by (induction xs) auto

lemma around_other:
  assumes "ij \<in> interior g" and "c < 256"
  shows "around g ij c \<noteq> ij"
proof
  assume eq: "around g ij c = ij"
  obtain di dj where d: "CELLS ! c = (di, dj)" by fastforce
  have b: "\<bar>di\<bar> \<le> 13" "(di, dj) \<noteq> (0, 0)"
    using all_cells_within_reach assms(2) d by (auto simp: list_all_length within_reach_def)
  have "0 \<le> shifted g ij (CELLS ! c)"
    using shifted_in_cells(1) [OF assms(1), of "CELLS ! c"] CELLS_within_reach [OF assms(2)] by simp
  then have e: "di = dj * int (width g)" using eq by (simp add: around_def shifted_def d)
  have w: "26 \<le> int (width g)" by (simp add: width_def PAD_def)
  show False
  proof (cases "dj = 0")
    case False
    then have "1 * int (width g) \<le> \<bar>dj\<bar> * int (width g)" by (intro mult_right_mono) auto
    moreover have "\<bar>di\<bar> = \<bar>dj\<bar> * int (width g)" by (simp add: e abs_mult)
    ultimately show False using b w by linarith
  qed (use e b in simp)
qed

lemma patch_values_ok:
  assumes inv: "tt_inv g sl A S t st" and ij: "ij \<in> interior g" and sl: "slow st1 = slow st"
    and sea: "sea_ok g s sl"
  shows "\<exists>vals. patch_values g st1 ij = Some vals \<and> patch_ok g sl (insert ij S) ij vals"
proof -
  let ?vals = "map (\<lambda>c. slow st (around g ij c)) [0..<256]"
  have offs: "offsets (width g) = map (\<lambda>c. offsets (width g) ! c) [0..<256]"
    by (rule nth_equalityI) simp_all
  have "patch_values g st1 ij = those (map (\<lambda>c. map_option (slow st) (cell_index g (int ij + offsets (width g) ! c))) [0..<256])"
    unfolding patch_values_def sl by (subst offs) (simp add: comp_def)
  also have "\<dots> = Some ?vals"
    by (rule those_map_Some) (simp add: cell_index_around [OF ij])
  finally have vals: "patch_values g st1 ij = Some ?vals" .
  have "is_open (slow st n) \<longleftrightarrow> n \<in> water sl - S" "is_open (slow st n) \<Longrightarrow> slow st n = sl n" for n
  proof -
    have "sl n = Some v \<Longrightarrow> v < 0" for v using sea by (simp add: sea_ok_def)
    then show "is_open (slow st n) \<longleftrightarrow> n \<in> water sl - S" "is_open (slow st n) \<Longrightarrow> slow st n = sl n"
      using inv by (cases "n \<in> S"; force simp: tt_inv_def is_open_def water_def split: option.splits)+
  qed
  then have "patch_ok g sl (insert ij S) ij ?vals" using around_other [OF ij] by (simp add: patch_ok_def)
  with vals show ?thesis by blast
qed

lemma pop_ok:
  assumes inv: "queue_inv g sl S t0 st" and sea: "sea_ok g s sl" and pos: "0 < hsize st"
    and ij: "ij = heap st 0" and t: "t = key st ij"
  shows "ij \<in> waiting st" and "t0 \<le> t" and "queue_inv g sl (insert ij S) t (mark_settled g ij t (pop st))"
    and "waiting (mark_settled g ij t (pop st)) = waiting st - {ij}"
    and "t \<le> real (card (insert ij S)) * MAX_COST" and "array_type.stored (g_dtype g) t"
proof -
  let ?st2 = "mark_settled g ij t (pop st)"
  show mem: "ij \<in> waiting st" using pos by (auto simp: ij queued_def)
  obtain len where len: "hsize st = Suc len" using pos by (cases "hsize st") auto
  have Q: "waiting st \<subseteq> water sl - S" "S \<subseteq> water sl" using inv by (auto simp: queue_inv_def)
  then have fin: "finite S" using finite_water [OF sea] finite_subset by blast
  have bounds: "t0 \<le> key st n \<and> key st n \<le> time_bound S \<and> array_type.stored (g_dtype g) (key st n)"
    if "n \<in> waiting st" for n using inv that by (auto simp: queue_inv_def)
  then show "t0 \<le> t" "array_type.stored (g_dtype g) t" using mem by (auto simp: t)
  have card: "card (insert ij S) = card S + 1" using mem Q fin by (auto simp: card_insert_if)
  then show "t \<le> real (card (insert ij S)) * MAX_COST" using bounds [OF mem] by (simp add: t time_bound_def)
  have more: "time_bound S \<le> time_bound (insert ij S)" by (simp add: time_bound_def card MAX_COST_def)
  have head: "t \<le> key st n" if "n \<in> waiting st" for n
    using queue_head [of "key st" "seq st" "(heap st, pos st)" "hsize st" n] inv that
    by (auto simp: queue_inv_def heap_less_def t ij)
  have popped: "queue_ok (key st) (seq st) (heap (pop st), pos (pop st)) (hsize (pop st))"
      "queued (heap (pop st), pos (pop st)) (hsize (pop st)) = waiting st - {ij}"
    using queue_pop [of "key st" "seq st" "heap st" "pos st" len "(heap (pop st), pos (pop st))"] inv len
    by (auto simp: queue_inv_def pop_def Let_def ij)
  have same: "key (pop st) = key st" "seq (pop st) = seq st" "slow (pop st) = slow st"
    by (simp_all add: pop_def Let_def)
  show wait: "waiting ?st2 = waiting st - {ij}" using popped(2) by (simp add: mark_settled_def)
  have "queue_ok (key ?st2) (seq ?st2) (heap ?st2, pos ?st2) (hsize ?st2)"
    by (rule queue_ok_cong [of "key st" "seq st"])
      (use popped same in \<open>auto simp: mark_settled_def\<close>)
  moreover have "\<forall>n \<in> waiting ?st2. t \<le> key ?st2 n \<and> key ?st2 n \<le> time_bound (insert ij S) \<and>
      array_type.stored (g_dtype g) (key ?st2 n)"
  proof
    fix n assume "n \<in> waiting ?st2"
    then have n: "n \<in> waiting st" "n \<noteq> ij" by (auto simp: wait)
    then show "t \<le> key ?st2 n \<and> key ?st2 n \<le> time_bound (insert ij S) \<and>
        array_type.stored (g_dtype g) (key ?st2 n)"
      using bounds [OF n(1)] head [OF n(1)] more by (simp add: same mark_settled_def)
  qed
  moreover have "\<forall>n. n \<notin> waiting ?st2 \<longrightarrow>
      key ?st2 n = (if n \<in> insert ij S then SETTLED else if n \<in> water sl then UNREACHED else BLOCKED)"
    using inv unfolding wait by (simp add: same mark_settled_def queue_inv_def)
  ultimately show "queue_inv g sl (insert ij S) t ?st2"
    using Q mem unfolding queue_inv_def wait by auto
qed

text \<open>Settling a node and queueing what its clear segments reach keeps the invariant of the sweep.\<close>

lemma tt_inv_settled:
  assumes inv: "tt_inv g sl A S t0 st" and int: "ij \<in> interior g"
    and ij: "ij \<in> waiting st" and t: "t0 \<le> t" and pop: "waiting st \<subseteq> insert ij (waiting st2)" "waiting st2 \<subseteq> waiting st"
    and rel: "relaxed g sl (insert ij S) t ij {0..<120} st2 st'"
    and slow: "slow st2 = (slow st)(ij := Some (cast (g_dtype g) (f64 (f64 (1 / 3600) * t))))"
  shows "tt_inv g sl A (insert ij S) t st'"
proof -
  let ?S = "insert ij S"
  have q: "queue_inv g sl ?S t st'" and same: "slow st' = slow st2"
    and grow: "waiting st2 \<subseteq> waiting st'"
    and added: "\<forall>n \<in> waiting st' - waiting st2. \<exists>k \<in> {0..<120}. n = around g ij k \<and> segment_open g sl ?S ij k"
    and every: "\<forall>k \<in> {0..<120}. segment_open g sl ?S ij k \<longrightarrow> around g ij k \<in> waiting st'"
    using rel unfolding relaxed_def by blast+
  have more: "waiting st \<subseteq> waiting st' \<union> ?S" using grow pop(1) by blast
  have t0: "0 \<le> t" using inv t by (simp add: tt_inv_def)
  have con: "waiting st \<union> S \<subseteq> sea_connected g sl A" using inv by (simp add: tt_inv_def)
  then have ijc: "ij \<in> sea_connected g sl A" using ij by blast
  have "waiting st' \<subseteq> sea_connected g sl A"
  proof
    fix n assume n: "n \<in> waiting st'"
    show "n \<in> sea_connected g sl A"
    proof (cases "n \<in> waiting st2")
      case True
      then show ?thesis using pop(2) con by blast
    next
      case False
      with added n obtain k where "k \<in> {0..<120}" "n = around g ij k" "segment_open g sl ?S ij k" by blast
      then show ?thesis using segment_connected [OF int ijc] by simp
    qed
  qed
  moreover have "n' \<in> waiting st' \<union> ?S"
    if n: "n \<in> ?S" and n': "n' \<in> water sl" "adjacent g n n'" for n n'
  proof (cases "n = ij \<and> n' \<notin> ?S")
    case True
    then obtain k where "k < 8" "around g ij k = n'" "segment_open g sl ?S ij k"
      using adjacent_segment [OF int _, of n' sl ?S] n' by auto
    then show ?thesis using every [rule_format, of k] by simp
  next
    case False
    then have "n' \<in> waiting st \<union> ?S" using inv n n' by (auto simp: tt_inv_def)
    then show ?thesis using more by blast
  qed
  moreover have "0 \<le> cast (g_dtype g) (f64 (f64 (1 / 3600) * t))"
    using t0 by (intro array_type.nonneg mult_nonneg_nonneg) simp_all
  ultimately show ?thesis
    using q same slow more con ijc inv t0 unfolding tt_inv_def by auto
qed

lemma settle_ok:
  assumes inv: "tt_inv g sl A S t0 st" and sea: "sea_ok g s sl" and pos: "0 < hsize st"
    and ij: "ij = heap st 0" and t: "t = key st ij"
  shows "\<exists>st'. settle g st = Some st' \<and> tt_inv g sl A (insert ij S) t st' \<and>
      slow st' = (slow st)(ij := Some (cast (g_dtype g) (f64 (f64 (1 / 3600) * t))))"
    and "ij \<in> water sl - S" and "t0 \<le> t"
proof -
  let ?S = "insert ij S" and ?st2 = "mark_settled g ij t (pop st)"
  have qinv: "queue_inv g sl S t0 st" using inv by (simp add: tt_inv_def)
  note pop = pop_ok [OF qinv sea pos ij t]
  show ijw: "ij \<in> water sl - S" using pop(1) qinv by (auto simp: queue_inv_def)
  show "t0 \<le> t" by (rule pop(2))
  have int: "ij \<in> interior g" using sea_water [OF sea] ijw by auto
  obtain vals where vals: "patch_values g (pop st) ij = Some vals" "patch_ok g sl ?S ij vals"
    using patch_values_ok [OF inv int _ sea, of "pop st"] by (auto simp: pop_def Let_def)
  obtain v where v: "sl ij = Some v" "- s \<le> v" "v < 0"
    using ijw sea by (auto simp: water_def sea_ok_def)
  have "slow (pop st) ij = Some v" using inv ijw v by (auto simp: tt_inv_def pop_def Let_def)
  then have own: "map_option f64 (slow (pop st) ij) = Some (f64 v)" by simp
  have "\<exists>st'. relax_all g ij t (Some (f64 v)) vals [0..<120] ?st2 = Some st' \<and>
      relaxed g sl ?S t ij (set [0..<120]) ?st2 st'"
    by (rule relax_all_ok [OF sea pop(3) insertI1 _ vals(2) v(2,3) pop(5,6)]) auto
  then obtain st' where st': "relax_all g ij t (Some (f64 v)) vals [0..<120] ?st2 = Some st'"
    and rel: "relaxed g sl ?S t ij {0..<120} ?st2 st'" by auto
  have "settle g st = Some st'"
    unfolding settle_def Let_def ij [symmetric] t [symmetric] vals(1) option.case own
    using st' by (simp add: NEIGHBOURS_def)
  moreover have "tt_inv g sl A ?S t st'"
    by (rule tt_inv_settled [OF inv int pop(1,2) _ _ rel])
       (use pop(4) in \<open>auto simp: mark_settled_def pop_def Let_def\<close>)
  moreover have "slow st' = (slow st)(ij := Some (cast (g_dtype g) (f64 (f64 (1 / 3600) * t))))"
    using rel by (simp add: relaxed_def mark_settled_def pop_def Let_def)
  ultimately show "\<exists>st'. settle g st = Some st' \<and> tt_inv g sl A ?S t st' \<and>
      slow st' = (slow st)(ij := Some (cast (g_dtype g) (f64 (f64 (1 / 3600) * t))))" by blast
qed

subsection \<open>Seeding and the loop\<close>

definition seeds_ok :: "(nat \<Rightarrow> real option) \<Rightarrow> (nat \<times> real) list \<Rightarrow> bool" where
  "seeds_ok sl seeds \<longleftrightarrow> distinct (map fst seeds) \<and>
     (\<forall>(n, t) \<in> set seeds. n \<in> water sl \<and> 0 \<le> t \<and> t \<le> MAX_COST)"

lemma seed_all_ok:
  assumes "sea_ok g s sl" and "queue_inv g sl {} 0 st" and "seeds_ok sl seeds"
    and "waiting st \<inter> fst ` set seeds = {}"
  shows "\<exists>st'. seed_all g seeds st = Some st' \<and> queue_inv g sl {} 0 st' \<and> slow st' = slow st \<and>
           waiting st' = waiting st \<union> fst ` set seeds"
  using assms(2-4)
proof (induction seeds arbitrary: st)
  case (Cons nt seeds)
  obtain n t where nt: "nt = (n, t)" by fastforce
  have n: "n \<in> water sl - {} - waiting st" and t: "0 \<le> t" "t \<le> MAX_COST" and rest: "seeds_ok sl seeds"
    and out: "n \<notin> fst ` set seeds" using Cons.prems(2,3) by (auto simp: seeds_ok_def nt)
  have "array_type.stored (g_dtype g) (time_bound {})" by (rule time_bound_stored [OF assms(1)]) simp
  then have a: "0 \<le> cast (g_dtype g) t" "cast (g_dtype g) t \<le> time_bound {}"
      "array_type.stored (g_dtype g) (cast (g_dtype g) t)"
    using t array_type.le_stored [of "g_dtype g" "time_bound {}" t]
    by (auto simp: time_bound_def intro: array_type.nonneg)
  obtain st1 where st1: "enqueue_node g n (cast (g_dtype g) t) st = Some st1" "queue_inv g sl {} 0 st1"
      "slow st1 = slow st" "waiting st1 = insert n (waiting st)"
    using enqueue_node_ok [OF assms(1) Cons.prems(1) n a] by blast
  have "waiting st1 \<inter> fst ` set seeds = {}" using Cons.prems(3) out st1(4) by (auto simp: nt)
  from Cons.IH [OF st1(2) rest this] st1 show ?case by (auto simp: nt)
qed simp

lemma queue_inv_initial: "queue_inv g sl {} 0 (initial_state g sl)"
  by (auto simp: queue_inv_def initial_state_def queue_ok_empty queued_def water_def)

lemma seeded_inv:
  assumes "sea_ok g s sl" and "seeds_ok sl seeds"
  shows "\<exists>st. seed_all g seeds (initial_state g sl) = Some st \<and> tt_inv g sl (fst ` set seeds) {} 0 st"
proof -
  have empty: "waiting (initial_state g sl) = {}" by (simp add: initial_state_def queued_def)
  have "slow (initial_state g sl) = sl" by (simp add: initial_state_def)
  moreover have "fst ` set seeds \<subseteq> sea_connected g sl (fst ` set seeds)"
    using assms(2) by (auto simp: seeds_ok_def intro!: sea_connected.seed)
  ultimately show ?thesis
    using seed_all_ok [OF assms(1) queue_inv_initial assms(2)] empty by (auto simp: tt_inv_def)
qed

lemma settled_all:
  assumes "tt_inv g sl A S t st" and "hsize st = 0"
  shows "S = sea_connected g sl A"
proof
  have empty: "waiting st = {}" using assms(2) by (simp add: queued_def)
  then show "S \<subseteq> sea_connected g sl A" using assms(1) by (simp add: tt_inv_def)
  show "sea_connected g sl A \<subseteq> S"
  proof
    fix n assume "n \<in> sea_connected g sl A"
    then show "n \<in> S"
      by induction (use assms(1) empty in \<open>auto simp: tt_inv_def\<close>)
  qed
qed

lemma settle_loop_ok:
  assumes "sea_ok g s sl" and "tt_inv g sl A S t st"
  shows "\<exists>st' t'. settle_loop g st (card S) = Some (st', card (sea_connected g sl A)) \<and>
           hsize st' = 0 \<and> tt_inv g sl A (sea_connected g sl A) t' st'"
  using assms(2)
proof (induction "card (water sl - S)" arbitrary: S t st rule: less_induct)
  case less
  show ?case
  proof (cases "hsize st = 0")
    case True
    with settled_all [OF less.prems True] less.prems show ?thesis
      by (subst settle_loop.simps) auto
  next
    case False
    then have pos: "0 < hsize st" by simp
    let ?ij = "heap st 0"
    obtain st' where st': "settle g st = Some st'" "tt_inv g sl A (insert ?ij S) (key st ?ij) st'"
      using settle_ok(1) [OF less.prems assms(1) pos refl refl] by blast
    have ij: "?ij \<in> water sl - S" by (rule settle_ok(2) [OF less.prems assms(1) pos refl refl])
    have fin: "finite (water sl)" by (rule finite_water [OF assms(1)])
    have sub: "S \<subseteq> water sl" using less.prems by (simp add: tt_inv_def queue_inv_def)
    have "water sl - insert ?ij S \<subset> water sl - S" using ij by blast
    then have "card (water sl - insert ?ij S) < card (water sl - S)"
      using fin by (intro psubset_card_mono) simp_all
    moreover have "card (insert ?ij S) = card S + 1"
      using ij finite_subset [OF sub fin] by (simp add: card_insert_if)
    ultimately show ?thesis
      using less.hyps [OF _ st'(2)] st'(1) pos by (subst settle_loop.simps) simp
  qed
qed


subsection \<open>Physical bounds\<close>

text \<open>
  A well-formed grid: water at inner nodes only, slowness between \<open>- 1024\<close> s/m (water a tenth
  of a micrometre deep) and 0, segment lengths up to \<open>2 ^ 20\<close> m, fewer than \<open>2 ^ 24\<close> water
  nodes and no more than \<open>2 ^ 31\<close> cells, so that every node number fits 32 bits.
\<close>

definition ocean_ok :: "tt_grid \<Rightarrow> (nat \<Rightarrow> real option) \<Rightarrow> bool" where
  "ocean_ok g sl \<longleftrightarrow>
     water sl \<subseteq> interior g \<and> (\<forall>n v. sl n = Some v \<longrightarrow> - 1024 \<le> v \<and> v < 0) \<and>
     (\<forall>row < g_ny g. \<forall>k < 120. 0 \<le> g_length g row k \<and> g_length g row k \<le> 2 ^ 20) \<and>
     cells g \<le> 2 ^ 31 \<and> card (water sl) < 2 ^ 24"

lemma small_weights: "list_all (\<lambda>row. length row \<le> 256 \<and> list_all (\<lambda>(c, n, d). n \<le> 2 * d) row) WEIGHTS"
  by code_simp

lemma weight_row_small:
  assumes "k < 120"
  shows "length (weight_row k) \<le> 256" and "(c, w) \<in> set (weight_row k) \<Longrightarrow> w \<le> 2"
proof -
  have row: "length (WEIGHTS ! k) \<le> 256" "(c, n, d) \<in> set (WEIGHTS ! k) \<Longrightarrow> n \<le> 2 * d" for c n d
  proof -
    have "WEIGHTS ! k \<in> set WEIGHTS" using assms by (simp add: length_CELLS)
    then show "length (WEIGHTS ! k) \<le> 256" "(c, n, d) \<in> set (WEIGHTS ! k) \<Longrightarrow> n \<le> 2 * d"
      using small_weights by (auto simp: list_all_iff)
  qed
  show "length (weight_row k) \<le> 256" using row(1) by (simp add: weight_row_def)
  assume "(c, w) \<in> set (weight_row k)"
  then obtain c' n d where e: "(c', n, d) \<in> set (WEIGHTS ! k)" "w = f64 (of_int n / of_int d)"
    by (auto simp: weight_row_def)
  have "0 < d" using row_consistent_nth [OF assms] e(1) by (auto simp: row_consistent_def list_all_iff)
  then have "real_of_int n / of_int d \<le> 2"
    using row(2) [OF e(1)] by (simp add: divide_le_eq)
  then show "w \<le> 2" unfolding e(2) using stored_power [of Float64 1] by (intro array_type.le_stored) simp_all
qed

lemma stored_small: "n \<le> 2 ^ 24 \<Longrightarrow> array_type.stored d (- (real n * 1024))"
  using stored_of_int [of "- int n" d 10] by (simp add: powr_numeral)

lemma worst_mean_bound:
  assumes "\<And>c w. (c, w) \<in> set ws \<Longrightarrow> c < 256 \<and> 0 \<le> w \<and> w \<le> 2"
    and "- (real n * 1024) \<le> a" and "n + 2 * length ws \<le> 2 ^ 24"
    and "mean_along (replicate 256 (Some (- 1024))) ws (Some a) = Some m"
  shows "- (real (n + 2 * length ws) * 1024) \<le> m"
  using assms
proof (induction ws arbitrary: a n)
  case (Cons cw ws)
  obtain c w where cw: "cw = (c, w)" by fastforce
  have w: "c < 256" "0 \<le> w" "w \<le> 2" using Cons.prems(1) [of c w] by (auto simp: cw)
  have "- (real 2 * 1024) \<le> f64 (w * - 1024)"
    using w by (intro array_type.stored_le stored_small) simp_all
  then have "- (real (n + 2) * 1024) \<le> f64 (a + f64 (w * - 1024))"
    using Cons.prems(2,3) by (intro array_type.stored_le stored_small) simp_all
  moreover have "mean_along (replicate 256 (Some (- 1024))) ws (Some (f64 (a + f64 (w * - 1024)))) = Some m"
    using Cons.prems(4) w by (simp add: cw)
  ultimately have "- (real (n + 2 + 2 * length ws) * 1024) \<le> m"
    using Cons.prems(1,3) by (intro Cons.IH) auto
  then show ?case by (simp add: algebra_simps)
qed simp

lemma ocean_sea: "ocean_ok g sl \<Longrightarrow> sea_ok g 1024 sl"
proof -
  assume ok: "ocean_ok g sl"
  have "- MAX_COST \<le> segment_cost g row k m"
    if rk: "row < g_ny g" "k < 120" and m: "worst_mean 1024 k = Some m" for row k m
  proof -
    have "- (real 1 * 1024) \<le> f64 (- 1024)" by (rule array_type.stored_le [OF stored_small]) simp_all
    then have "- (real (1 + 2 * length (weight_row k)) * 1024) \<le> m"
      using weight_row_small [OF rk(2)] weight_row_bounds [OF rk(2)] m
      unfolding worst_mean_def weight_table_row [OF rk(2)] by (intro worst_mean_bound) auto
    moreover have "real (1 + 2 * length (weight_row k)) * 1024 \<le> real 1024 * 1024"
      using weight_row_small(1) [OF rk(2)] by (intro mult_right_mono) auto
    ultimately have m20: "- (2 ^ 20) \<le> m" by simp
    have len: "0 \<le> g_length g row k" "g_length g row k \<le> 2 ^ 20" using ok rk by (auto simp: ocean_ok_def)
    have "2 ^ 20 * - (2 ^ 20) \<le> g_length g row k * - (2 ^ 20 :: real)" using len by simp
    also have "\<dots> \<le> g_length g row k * m" using len m20 by (intro mult_left_mono) auto
    finally have prod: "- MAX_COST \<le> g_length g row k * m" by (simp add: MAX_COST_def)
    have "array_type.stored d (- MAX_COST)" for d
      using stored_of_int [of "- 1" d 80] by (simp add: MAX_COST_def powr_numeral)
    then show ?thesis using prod unfolding segment_cost_def by (intro array_type.stored_le)
  qed
  with ok show ?thesis by (simp add: ocean_ok_def sea_ok_def costs_ok_def)
qed

subsection \<open>The properties\<close>

text \<open>C14: The propagation ends and reaches exactly the water connected to the seeds. On a
  well-formed grid no array is accessed outside its bounds and no NaN enters the queue; the
  nodes settled are the connected component of the seeds under the eight neighbours of a
  node, the count returned is its size, its cells hold arrival times, and the slowness of all
  other cells is as before.\<close>

theorem propagate_reaches_connected_sea:
  assumes "ocean_ok g sl" and "seeds_ok sl seeds"
  shows "\<exists>st. propagate g sl seeds = Some (st, card (sea_connected g sl (fst ` set seeds))) \<and>
           (\<forall>n. if n \<in> sea_connected g sl (fst ` set seeds)
                then \<exists>hours \<ge> 0. slow st n = Some hours else slow st n = sl n)"
proof -
  have sea: "sea_ok g 1024 sl" by (rule ocean_sea [OF assms(1)])
  obtain st0 where st0: "seed_all g seeds (initial_state g sl) = Some st0" "tt_inv g sl (fst ` set seeds) {} 0 st0"
    using seeded_inv [OF sea assms(2)] by blast
  from settle_loop_ok [OF sea st0(2)] st0(1) show ?thesis
    by (fastforce simp: propagate_def tt_inv_def)
qed

text \<open>The nodes settled so far with their times, from the seeded state on.\<close>

inductive settling :: "tt_grid \<Rightarrow> tt_state \<Rightarrow> (nat \<times> real) list \<Rightarrow> tt_state \<Rightarrow> bool" for g st0 where
  start: "settling g st0 [] st0"
| next_node: "settling g st0 hs st \<Longrightarrow> 0 < hsize st \<Longrightarrow> settle g st = Some st' \<Longrightarrow>
    settling g st0 (hs @ [(heap st 0, key st (heap st 0))]) st'"

lemma settling_inv:
  assumes "settling g st0 hs st" and "sea_ok g s sl" and "tt_inv g sl A {} 0 st0"
  shows "\<exists>t. tt_inv g sl A (fst ` set hs) t st \<and> (\<forall>(n, u) \<in> set hs. u \<le> t) \<and>
     sorted (map snd hs) \<and> distinct (map fst hs) \<and>
     (\<forall>(n, u) \<in> set hs. slow st n = Some (cast (g_dtype g) (f64 (f64 (1 / 3600) * u))))"
  using assms(1)
proof induction
  case start
  then show ?case using assms(3) by (intro exI [of _ 0]) simp
next
  case (next_node hs st st')
  then obtain t where inv: "tt_inv g sl A (fst ` set hs) t st" and low: "\<forall>(n, u) \<in> set hs. u \<le> t"
    and old: "sorted (map snd hs)" "distinct (map fst hs)"
      "\<forall>(n, u) \<in> set hs. slow st n = Some (cast (g_dtype g) (f64 (f64 (1 / 3600) * u)))" by blast
  let ?ij = "heap st 0"
  note ok = settle_ok [OF inv assms(2) next_node.hyps(2) refl refl]
  have "tt_inv g sl A (fst ` set (hs @ [(?ij, key st ?ij)])) (key st ?ij) st'"
    and slow: "slow st' = (slow st)(?ij := Some (cast (g_dtype g) (f64 (f64 (1 / 3600) * key st ?ij))))"
    using ok(1) next_node.hyps(3) by auto
  moreover have "?ij \<notin> fst ` set hs" and "\<forall>(n, u) \<in> set hs. u \<le> key st ?ij"
    using ok(2,3) low by fastforce+
  moreover have "\<forall>(n, u) \<in> set hs. slow st' n = Some (cast (g_dtype g) (f64 (f64 (1 / 3600) * u)))"
  proof (clarify)
    fix n u assume n: "(n, u) \<in> set hs"
    then have "n \<noteq> ?ij" using \<open>?ij \<notin> fst ` set hs\<close> by force
    then show "slow st' n = Some (cast (g_dtype g) (f64 (f64 (1 / 3600) * u)))"
      using old(3) n by (auto simp: slow)
  qed
  ultimately have "tt_inv g sl A (fst ` set (hs @ [(?ij, key st ?ij)])) (key st ?ij) st' \<and>
      (\<forall>(n, u) \<in> set (hs @ [(?ij, key st ?ij)]). u \<le> key st ?ij) \<and>
      sorted (map snd (hs @ [(?ij, key st ?ij)])) \<and> distinct (map fst (hs @ [(?ij, key st ?ij)])) \<and>
      (\<forall>(n, u) \<in> set (hs @ [(?ij, key st ?ij)]).
         slow st' n = Some (cast (g_dtype g) (f64 (f64 (1 / 3600) * u))))"
    using old(1,2) slow by (auto simp: sorted_append)
  then show ?case by blast
qed

text \<open>C15: Nodes are settled in order of arrival. At every moment of a propagation the nodes settled
  so far are all different, their arrival times never go back, and each one's cell holds its
  own time in hours, rounded the way the code rounds it.\<close>

theorem nodes_settle_in_order_of_arrival:
  assumes "ocean_ok g sl" and "seeds_ok sl seeds"
    and "seed_all g seeds (initial_state g sl) = Some st0" and "settling g st0 hs st"
  shows "sorted (map snd hs) \<and> distinct (map fst hs) \<and>
     (\<forall>(n, u) \<in> set hs. slow st n = Some (cast (g_dtype g) (f64 (f64 (1 / 3600) * u))))"
proof -
  have sea: "sea_ok g 1024 sl" by (rule ocean_sea [OF assms(1)])
  have "tt_inv g sl (fst ` set seeds) {} 0 st0" using seeded_inv [OF sea assms(2)] assms(3) by auto
  from settling_inv [OF assms(4) sea this] show ?thesis by blast
qed

subsection \<open>A small sea\<close>

definition pond :: tt_grid where
  "pond = \<lparr> g_dtype = Float32, g_ny = 1, g_nx = 2, g_length = (\<lambda>row k. 1000) \<rparr>"

definition pond_slowness :: "nat \<Rightarrow> real option" where
  "pond_slowness n = (if n = 377 \<or> n = 378 then Some (- 1 / 8) else None)"

lemma pond_ok: "ocean_ok pond pond_slowness" "seeds_ok pond_slowness [(377, 0)]"
proof -
  have water: "water pond_slowness = {377, 378}" by (auto simp: water_def pond_slowness_def)
  have "inner_node pond 0 0 = 377" "inner_node pond 0 1 = 378"
    by (simp_all add: inner_node_def pond_def width_def PAD_def)
  moreover have "g_ny pond = 1" "g_nx pond = 2" by (simp_all add: pond_def)
  ultimately have "377 \<in> interior pond" "378 \<in> interior pond" unfolding interior_def by force+
  then show "ocean_ok pond pond_slowness"
    by (auto simp: ocean_ok_def water pond_slowness_def cells_def width_def pond_def PAD_def)
  show "seeds_ok pond_slowness [(377, 0)]" by (simp add: seeds_ok_def water MAX_COST_def)
qed

lemma pond_connected: "sea_connected pond pond_slowness {377} = {377, 378}"
proof
  have "adjacent pond 377 378"
    unfolding adjacent_def by (rule exI [of _ "(1, 0)"]) (simp add: near_def shifted_def)
  moreover have "377 \<in> sea_connected pond pond_slowness {377}"
    by (rule sea_connected.seed) (simp_all add: water_def pond_slowness_def)
  ultimately show "{377, 378} \<subseteq> sea_connected pond pond_slowness {377}"
    by (auto intro: sea_connected.step simp: water_def pond_slowness_def)
  have "sea_connected pond pond_slowness {377} \<subseteq> water pond_slowness"
    by (auto elim: sea_connected.cases)
  then show "sea_connected pond pond_slowness {377} \<subseteq> {377, 378}"
    by (auto simp: water_def pond_slowness_def split: if_splits)
qed

lemma propagate_reaches_connected_sea_witness:
  "\<exists>st. propagate pond pond_slowness [(377, 0)] = Some (st, 2) \<and>
     (\<exists>hours \<ge> 0. slow st 378 = Some hours) \<and> slow st 0 = None"
proof -
  have two: "card {377, 378 :: nat} = 2" by simp
  obtain st where p: "propagate pond pond_slowness [(377, 0)] = Some (st, 2)"
    and st: "\<forall>n. if n \<in> {377, 378} then \<exists>hours \<ge> 0. slow st n = Some hours else slow st n = pond_slowness n"
    using propagate_reaches_connected_sea [OF pond_ok] pond_connected two by auto
  from st [rule_format, of 378] st [rule_format, of 0] p show ?thesis
    by (auto simp: pond_slowness_def)
qed

lemma nodes_settle_in_order_of_arrival_witness:
  "\<exists>st0 st1 st. seed_all pond [(377, 0)] (initial_state pond pond_slowness) = Some st0 \<and>
     settle pond st0 = Some st1 \<and> slow st1 (heap st0 0) = Some (cast Float32 (f64 (f64 (1 / 3600) * key st0 (heap st0 0))))"
proof -
  have sea: "sea_ok pond 1024 pond_slowness" by (rule ocean_sea [OF pond_ok(1)])
  obtain st0 where st0: "seed_all pond [(377, 0)] (initial_state pond pond_slowness) = Some st0"
      "tt_inv pond pond_slowness {377} {} 0 st0"
    using seeded_inv [OF sea pond_ok(2)] by auto
  have pos: "0 < hsize st0" using st0(2) by (auto simp: tt_inv_def queued_def)
  obtain st1 where st1: "settle pond st0 = Some st1"
    using settle_ok(1) [OF st0(2) sea pos refl refl] by blast
  have "settling pond st0 ([] @ [(heap st0 0, key st0 (heap st0 0))]) st1"
    by (rule settling.next_node [OF settling.start pos st1])
  from nodes_settle_in_order_of_arrival [OF pond_ok st0(1) this]
  show ?thesis using st0(1) st1 by (auto simp: pond_def)
qed

end
