(* ===== verification/TravelTimes.thy ===== *)
theory TravelTimes
  imports SolverLaws Errors
begin

text \<open>
  Around the kernel (tsdhn_ttt/solver.py, and \<open>Bathymetry\<close> of grid.py): the grid's geometry,
  slowness and segment lengths, the search for the source, the two ways to seed the wavefront,
  and \<open>travel_times\<close>. A numpy array is the function of its index, NaN is \<open>None\<close>; real
  arithmetic is exact here, rounding happens where \<open>round\<close>, \<open>rint\<close>, \<open>floor\<close> and \<open>ceil\<close> are
  called and where values are stored into the kernel's arrays.
\<close>

subsection \<open>The grid\<close>

record bathymetry =
  x_min :: real
  x_max :: real
  y_min :: real
  y_max :: real
  node_offset :: int
  ny :: nat
  nx :: nat
  depth :: "nat \<Rightarrow> nat \<Rightarrow> real option"

definition x_inc :: "bathymetry \<Rightarrow> real" where
  "x_inc b = (x_max b - x_min b) / (real (nx b) - (1 - of_int (node_offset b)))"

definition y_inc :: "bathymetry \<Rightarrow> real" where
  "y_inc b = (y_max b - y_min b) / (real (ny b) - (1 - of_int (node_offset b)))"

definition EARTH_RADIUS_M :: real where "EARTH_RADIUS_M = 6371007181 / 1000"
definition DEGREE :: real where "DEGREE = pi / 180"
definition M_PER_DEGREE :: real where "M_PER_DEGREE = 2 * pi * EARTH_RADIUS_M / 360"
definition SEED_CELLS :: real where "SEED_CELLS = 4"

definition half_offset :: "bathymetry \<Rightarrow> real" where
  "half_offset b = 1 / 2 * of_int (node_offset b)"

definition longitudes :: "bathymetry \<Rightarrow> int \<Rightarrow> real" where
  "longitudes b column =
     (if column = int (nx b) - 1 then x_max b - half_offset b * x_inc b
      else x_min b + (of_int column + half_offset b) * x_inc b)"

definition latitudes :: "bathymetry \<Rightarrow> int \<Rightarrow> real" where
  "latitudes b row =
     (if row = int (ny b) - 1 then y_min b + half_offset b * y_inc b
      else y_max b - (of_int row + half_offset b) * y_inc b)"

definition gravity :: "real \<Rightarrow> real" where
  "gravity lat = (let s = sin (lat * DEGREE) * sin (lat * DEGREE) in
     97803267715 / 10 ^ 10 * (1 + 52790414 / 10 ^ 10 * s + 232718 / 10 ^ 10 * s * s))"

subsection \<open>Slowness and segment lengths\<close>

definition wet :: "real option \<Rightarrow> bool" where
  "wet d = (case d of None \<Rightarrow> False | Some v \<Rightarrow> v < 0)"

definition cell_slowness :: "dtype \<Rightarrow> bathymetry \<Rightarrow> nat \<Rightarrow> nat \<Rightarrow> real option" where
  "cell_slowness d b row column =
     (case depth b row column of
        None \<Rightarrow> None
      | Some v \<Rightarrow> if v < 0 then Some (cast d (- 1 / sqrt (- v * gravity (latitudes b (int row))))) else None)"

text \<open>The padded array, flattened: \<open>_slowness(b, dtype).ravel()\<close>.\<close>

definition padded_slowness :: "dtype \<Rightarrow> bathymetry \<Rightarrow> nat \<Rightarrow> real option" where
  "padded_slowness d b n =
     (let w = nx b + 2 * PAD; row = n div w; column = n mod w in
      if PAD \<le> row \<and> row < ny b + PAD \<and> PAD \<le> column \<and> column < nx b + PAD
      then cell_slowness d b (row - PAD) (column - PAD) else None)"

definition major_axis :: "nat \<Rightarrow> real" where
  "major_axis k = of_int (max \<bar>fst (CELLS ! k)\<bar> \<bar>snd (CELLS ! k)\<bar>)"

definition client_lengths :: "bathymetry \<Rightarrow> nat \<Rightarrow> nat \<Rightarrow> real" where
  "client_lengths b row k =
     (let half_x = 1 / 2 * x_inc b * M_PER_DEGREE * cos (DEGREE * (y_max b - real row * y_inc b));
          half_y = 1 / 2 * y_inc b * M_PER_DEGREE;
          step_x = of_int \<bar>fst (CELLS ! k)\<bar> / major_axis k;
          step_y = of_int \<bar>snd (CELLS ! k)\<bar> / major_axis k
      in sqrt ((step_x * half_x)\<^sup>2 + (step_y * half_y)\<^sup>2))"

definition great_circle_degrees :: "real \<Rightarrow> real \<Rightarrow> real \<Rightarrow> real \<Rightarrow> real" where
  "great_circle_degrees lat1 lon1 lat2 lon2 =
     (let half_lat = sin (1 / 2 * DEGREE * (lat2 - lat1));
          half_lon = sin (1 / 2 * DEGREE * (lon2 - lon1));
          h = half_lat\<^sup>2 + cos (DEGREE * lat1) * cos (DEGREE * lat2) * half_lon\<^sup>2
      in 2 * arcsin (sqrt (min 1 (max 0 h))) / DEGREE)"

definition sphere_lengths :: "bathymetry \<Rightarrow> nat \<Rightarrow> nat \<Rightarrow> real" where
  "sphere_lengths b row k =
     (let lat_start = latitudes b (int row);
          lat_end = lat_start + of_int (snd (CELLS ! k)) * y_inc b;
          angle = great_circle_degrees lat_start 0 lat_end (of_int (fst (CELLS ! k)) * x_inc b)
      in M_PER_DEGREE * angle / (2 * major_axis k))"

subsection \<open>Locating the source\<close>

function wrap_down :: "real \<Rightarrow> real \<Rightarrow> real" where
  "wrap_down low lon = (if lon > low then wrap_down low (lon - 360) else lon)"
  by auto
termination
  by (relation "measure (\<lambda>(low, lon). nat \<lceil>(lon - low) / 360\<rceil>)") (auto simp: field_simps nat_less_iff ceiling_less_iff)

declare wrap_down.simps [simp del]

function wrap_up :: "real \<Rightarrow> real \<Rightarrow> real" where
  "wrap_up low lon = (if lon < low then wrap_up low (lon + 360) else lon)"
  by auto
termination
proof (relation "measure (\<lambda>(low, lon). nat \<lceil>(low - lon) / 360\<rceil>)")
  fix low lon :: real
  assume lt: "lon < low"
  have "(low - (lon + 360)) / 360 = (low - lon) / 360 - 1" by (simp add: field_simps)
  then have "\<lceil>(low - (lon + 360)) / 360\<rceil> = \<lceil>(low - lon) / 360 - 1\<rceil>" by (rule arg_cong)
  also have "\<dots> = \<lceil>(low - lon) / 360\<rceil> - 1" by (rule ceiling_diff_one)
  finally have "\<lceil>(low - (lon + 360)) / 360\<rceil> = \<lceil>(low - lon) / 360\<rceil> - 1" .
  moreover have "0 < \<lceil>(low - lon) / 360\<rceil>" using lt by simp
  ultimately show "((low, lon + 360), low, lon) \<in> measure (\<lambda>(low, lon). nat \<lceil>(low - lon) / 360\<rceil>)"
    by simp
qed simp

declare wrap_up.simps [simp del]

definition wrap_longitude :: "bathymetry \<Rightarrow> real \<Rightarrow> real" where
  "wrap_longitude b lon = wrap_up (x_min b) (wrap_down (x_min b) lon)"

definition check_epicenter :: "bathymetry \<Rightarrow> real \<Rightarrow> real \<Rightarrow> exn + real" where
  "check_epicenter b lon lat =
     (if lat < y_min b \<or> lat > y_max b then Inl (ValueError ''epicenter latitude is outside the grid'')
      else let wrapped = wrap_longitude b lon in
        if wrapped > x_max b then Inl (ValueError ''epicenter longitude is outside the grid'')
        else Inr wrapped)"

definition locate_source :: "bathymetry \<Rightarrow> real \<Rightarrow> real \<Rightarrow> exn + (int \<times> int)" where
  "locate_source b lon lat =
     bind_ok (check_epicenter b lon lat) (\<lambda>lon.
       let column = rint ((lon - x_min b) / x_inc b - half_offset b);
           row = int (ny b) - 1 - rint ((lat - y_min b) / y_inc b - half_offset b)
       in Inr (row, column))"

text \<open>Indexing an axis of length \<open>n\<close>: a negative index counts from the end.\<close>

definition axis_index :: "nat \<Rightarrow> int \<Rightarrow> nat option" where
  "axis_index n i =
     (if 0 \<le> i \<and> i < int n then Some (nat i)
      else if - int n \<le> i \<and> i < 0 then Some (nat (i + int n)) else None)"


subsection \<open>Seeding the wavefront\<close>

record tt_seeds =
  sd_seeds :: "(nat \<times> real) list"
  sd_lon :: real
  sd_lat :: real

text \<open>\<open>_seed_nearest_node\<close>. \<open>_latitudes\<close> and \<open>_longitudes\<close> are applied to the row and column
  as numbers, so a negative row is not wrapped here.\<close>

definition padded_index :: "bathymetry \<Rightarrow> int \<Rightarrow> int \<Rightarrow> int" where
  "padded_index b row column = (row + int PAD) * (int (nx b) + 2 * int PAD) + column + int PAD"

definition seed_nearest_node :: "bathymetry \<Rightarrow> (nat \<Rightarrow> nat \<Rightarrow> real option) \<Rightarrow> real \<Rightarrow> real \<Rightarrow> exn + tt_seeds" where
  "seed_nearest_node b inner lon lat =
     bind_ok (locate_source b lon lat) (\<lambda>(row, column).
       Inr \<lparr> sd_seeds = [(nat (padded_index b row column), 0)],
             sd_lon = longitudes b column, sd_lat = latitudes b row \<rparr>)"

text \<open>\<open>np.clip\<close> of an integer to the indices of an axis.\<close>

definition clip :: "int \<Rightarrow> int \<Rightarrow> int \<Rightarrow> nat" where
  "clip low high i = nat (min high (max low i))"

definition unit_clip :: "real \<Rightarrow> real" where
  "unit_clip x = min 1 (max 0 x)"

text \<open>
  \<open>_mean_slowness\<close>: the trapezoid rule over \<open>steps + 1\<close> points of the segment, slowness
  interpolated between the four nodes around each, or the nearest node's where one of them
  is land. \<open>inner\<close> is indexed from the north, \<open>south\<close> from the south.
\<close>

definition interpolated :: "bathymetry \<Rightarrow> (nat \<Rightarrow> nat \<Rightarrow> real option) \<Rightarrow> real \<Rightarrow> real \<Rightarrow> real option" where
  "interpolated b inner px py =
     (let column = clip 0 (int (nx b) - 2) \<lfloor>px\<rfloor>; south = clip 0 (int (ny b) - 2) \<lfloor>py\<rfloor>;
          fx = unit_clip (px - real column); fy = unit_clip (py - real south);
          corner = (\<lambda>dy dx. inner (ny b - 1 - south - dy) (column + dx))
      in case (corner 0 0, corner 0 1, corner 1 0, corner 1 1) of
           (Some c00, Some c01, Some c10, Some c11) \<Rightarrow>
             Some (c00 * (1 - fx) * (1 - fy) + c01 * fx * (1 - fy) + c10 * (1 - fx) * fy + c11 * fx * fy)
         | _ \<Rightarrow> inner (ny b - 1 - clip 0 (int (ny b) - 1) (rint py)) (clip 0 (int (nx b) - 1) (rint px)))"

definition mean_slowness ::
  "bathymetry \<Rightarrow> (nat \<Rightarrow> nat \<Rightarrow> real option) \<Rightarrow> real \<Rightarrow> real \<Rightarrow> real \<Rightarrow> real \<Rightarrow> real \<Rightarrow> real option" where
  "mean_slowness b inner x0 y0 x1 y1 len =
     (let steps = max 2 \<lceil>2 * len\<rceil>;
          px = (\<lambda>k. x0 + of_int k / of_int steps * (x1 - x0));
          py = (\<lambda>k. y0 + of_int k / of_int steps * (y1 - y0));
          nearest = (\<lambda>k. inner (ny b - 1 - clip 0 (int (ny b) - 1) (rint (py k)))
                           (clip 0 (int (nx b) - 1) (rint (px k))));
          value = (\<lambda>k. case interpolated b inner (px k) (py k) of Some v \<Rightarrow> v | None \<Rightarrow> 0)
      in if \<not> list_all (\<lambda>k. is_open (nearest k)) [0..steps] then None
         else Some (((\<Sum>k \<leftarrow> [0..steps]. value k) - 1 / 2 * (value 0 + value steps)) / of_int steps))"

text \<open>One candidate of \<open>_seed_around_epicenter\<close>: within four cells, on water, in sight.\<close>

definition candidate_seed ::
  "bathymetry \<Rightarrow> (nat \<Rightarrow> nat \<Rightarrow> real option) \<Rightarrow> real \<Rightarrow> real \<Rightarrow> real \<Rightarrow> real \<Rightarrow> int \<Rightarrow> int \<Rightarrow> (nat \<times> real) list" where
  "candidate_seed b inner lon lat x y south column =
     (let row = int (ny b) - 1 - south;
          cell_m = y_inc b * M_PER_DEGREE;
          metres = great_circle_degrees lat lon (latitudes b row) (longitudes b column) * M_PER_DEGREE
      in if metres > SEED_CELLS * cell_m \<or> \<not> is_open (inner (nat row) (nat column)) then []
         else (case mean_slowness b inner x y (of_int column) (of_int south) (metres / cell_m) of
                 None \<Rightarrow> []
               | Some mean \<Rightarrow> [(nat (padded_index b row column), - metres * mean)]))"

definition seed_around_epicenter ::
  "bathymetry \<Rightarrow> (nat \<Rightarrow> nat \<Rightarrow> real option) \<Rightarrow> real \<Rightarrow> real \<Rightarrow> exn + tt_seeds" where
  "seed_around_epicenter b inner lon0 lat =
     (let lon = wrap_longitude b lon0;
          x = (lon - x_min b) / x_inc b - half_offset b;
          y = (lat - y_min b) / y_inc b - half_offset b;
          reach_x = SEED_CELLS * y_inc b / (x_inc b * cos (lat * DEGREE));
          columns = [max 0 \<lceil>x - reach_x\<rceil> .. min (int (nx b) - 1) \<lfloor>x + reach_x\<rfloor>];
          souths = [max 0 \<lceil>y - SEED_CELLS\<rceil> .. min (int (ny b) - 1) \<lfloor>y + SEED_CELLS\<rfloor>]
      in Inr \<lparr> sd_seeds = concat (map (\<lambda>south.
                 concat (map (candidate_seed b inner lon lat x y south) columns)) souths),
               sd_lon = lon, sd_lat = lat \<rparr>)"

subsection \<open>The result\<close>

record travel_times_result =
  tt_hours :: "nat \<Rightarrow> nat \<Rightarrow> real option"
  tt_slope :: real
  tt_unreached :: int

definition BIAS_FACTOR :: real where
  "BIAS_FACTOR = (let angle = 2 * pi / of_int NEIGHBOURS in sqrt (sin angle / angle))"

text \<open>\<open>_source_slope\<close>: mean time gained per km in a window around the source.\<close>

definition source_slope ::
  "bathymetry \<Rightarrow> (nat \<Rightarrow> nat \<Rightarrow> real option) \<Rightarrow> int \<Rightarrow> int \<Rightarrow> real \<Rightarrow> real \<Rightarrow> real" where
  "source_slope b hours row column lon0 lat0 =
     (let radius = min (1 / 4) (2 * x_inc b);
          reach_x = \<lceil>radius / (x_inc b * cos (lat0 * DEGREE))\<rceil>;
          reach_y = \<lceil>radius / y_inc b\<rceil>;
          columns = [max 0 (column - reach_x) .. min (int (nx b) - 1) (column + reach_x)];
          rows = [max 0 (row - reach_y) .. min (int (ny b) - 1) (row + reach_y)];
          near_hours = concat (map (\<lambda>r. concat (map (\<lambda>c.
             let d = great_circle_degrees lat0 lon0 (latitudes b r) (longitudes b c)
             in case hours (nat r) (nat c) of
                  Some h \<Rightarrow> if d \<le> radius then [(d, h)] else []
                | None \<Rightarrow> []) columns)) rows);
          total = (\<Sum>(d, h) \<leftarrow> near_hours. d); gained = (\<Sum>(d, h) \<leftarrow> near_hours. \<bar>h\<bar>)
      in if total \<le> 0 then 0
         else 3600 * (gained / total) * (180 / pi / (1 / 1000 * EARTH_RADIUS_M)))"

definition kernel_grid :: "dtype \<Rightarrow> (nat \<Rightarrow> nat \<Rightarrow> real) \<Rightarrow> bathymetry \<Rightarrow> tt_grid" where
  "kernel_grid d lengths b = \<lparr> g_dtype = d, g_ny = ny b, g_nx = nx b, g_length = lengths \<rparr>"

text \<open>
  \<open>_solve\<close>. None is a propagation that does not end or leaves its arrays. \<open>hours\<close> reads the
  array the kernel overwrote: what is still negative was not reached.
\<close>

definition solved_hours :: "dtype \<Rightarrow> bathymetry \<Rightarrow> tt_state \<Rightarrow> nat \<Rightarrow> nat \<Rightarrow> real option" where
  "solved_hours d b st row column =
     (case slow st (nat (padded_index b (int row) (int column))) of
        None \<Rightarrow> None
      | Some v \<Rightarrow> if v < 0 then None else Some (cast d (v * cast d BIAS_FACTOR)))"

definition solve ::
  "dtype \<Rightarrow> (nat \<Rightarrow> nat \<Rightarrow> real) \<Rightarrow> (bathymetry \<Rightarrow> (nat \<Rightarrow> nat \<Rightarrow> real option) \<Rightarrow> real \<Rightarrow> real \<Rightarrow> exn + tt_seeds) \<Rightarrow>
   bathymetry \<Rightarrow> real \<Rightarrow> real \<Rightarrow> (exn + travel_times_result) option" where
  "solve d lengths seeder b lon lat =
     (case locate_source b lon lat of
        Inl e \<Rightarrow> Some (Inl e)
      | Inr (row, column) \<Rightarrow>
          (case (axis_index (ny b) row, axis_index (nx b) column) of
             (Some r, Some c) \<Rightarrow>
               if \<not> wet (depth b r c) then Some (Inl (ValueError ''epicenter lies on land''))
               else
                 (let sl = padded_slowness d b; g = kernel_grid d lengths b in
                  case seeder b (cell_slowness d b) lon lat of
                    Inl e \<Rightarrow> Some (Inl e)
                  | Inr sd \<Rightarrow>
                      map_option (\<lambda>(st, settled).
                        let hours = solved_hours d b st in
                        Inr \<lparr> tt_hours = hours,
                              tt_slope = source_slope b hours row column (sd_lon sd) (sd_lat sd),
                              tt_unreached = int (card (water sl)) - int settled \<rparr>)
                        (propagate g sl (sd_seeds sd)))
           | _ \<Rightarrow> Some (Inl (OtherError ''IndexError''))))"

definition travel_times ::
  "bathymetry \<Rightarrow> real \<Rightarrow> real \<Rightarrow> bool \<Rightarrow> (exn + travel_times_result) option" where
  "travel_times b lon lat client_compatible =
     (if \<bar>x_max b - x_min b - 360\<bar> < 1 / 10 ^ 8
      then Some (Inl (ValueError ''grids spanning 360 degrees of longitude are not supported''))
      else if client_compatible then solve Float32 (client_lengths b) seed_nearest_node b lon lat
      else solve Float64 (sphere_lengths b) seed_around_epicenter b lon lat)"

end
