(* ===== verification/TravelTimeLaws.thy ===== *)
theory TravelTimeLaws
  imports TravelTimes
begin

text \<open>
  Laws of \<open>travel_times\<close>: the wrapped longitude, the node nearest to the epicenter, and the
  whole of the client-compatible solver, which marks as unreached exactly the water that is
  not connected to the source. The last section shows a pixel-registered grid on which the
  source is looked up in the wrong row.
\<close>

subsection \<open>Longitudes\<close>

lemma wrap_down_spec:
  "\<exists>k :: nat. wrap_down low lon = lon - 360 * real k \<and> wrap_down low lon \<le> low \<and>
     (wrap_down low lon = lon \<or> low - 360 < wrap_down low lon)"
proof (induction low lon rule: wrap_down.induct)
  case (1 low lon)
  show ?case
  proof (cases "lon > low")
    case True
    with 1 obtain k :: nat where "wrap_down low (lon - 360) = lon - 360 - 360 * real k"
      "wrap_down low (lon - 360) \<le> low"
      "wrap_down low (lon - 360) = lon - 360 \<or> low - 360 < wrap_down low (lon - 360)" by blast
    with True show ?thesis
      by (subst (1 2 3 4) wrap_down.simps) (auto intro: exI [of _ "k + 1"] simp: algebra_simps)
  next
    case False
    then show ?thesis by (subst (1 2 3 4) wrap_down.simps) (auto intro: exI [of _ 0])
  qed
qed

lemma wrap_up_spec:
  "\<exists>k :: nat. wrap_up low lon = lon + 360 * real k \<and> low \<le> wrap_up low lon \<and>
     (wrap_up low lon = lon \<or> wrap_up low lon < low + 360)"
proof (induction low lon rule: wrap_up.induct)
  case (1 low lon)
  show ?case
  proof (cases "lon < low")
    case True
    with 1 obtain k :: nat where "wrap_up low (lon + 360) = lon + 360 + 360 * real k"
      "low \<le> wrap_up low (lon + 360)"
      "wrap_up low (lon + 360) = lon + 360 \<or> wrap_up low (lon + 360) < low + 360" by blast
    with True show ?thesis
      by (subst (1 2 3 4) wrap_up.simps) (auto intro: exI [of _ "k + 1"] simp: algebra_simps)
  next
    case False
    then show ?thesis by (subst (1 2 3 4) wrap_up.simps) (auto intro: exI [of _ 0])
  qed
qed

text \<open>\<open>_wrap_longitude\<close> returns, for every longitude, the one that differs from it by whole
  turns and lies in the 360 degrees that start at the western edge of the grid.\<close>

theorem wrapped_longitude_is_in_the_first_turn:
  "x_min b \<le> wrap_longitude b lon \<and> wrap_longitude b lon < x_min b + 360 \<and>
     (\<exists>k :: int. wrap_longitude b lon = lon + 360 * of_int k)"
proof -
  let ?d = "wrap_down (x_min b) lon"
  obtain j where j: "?d = lon - 360 * real j" "?d \<le> x_min b" using wrap_down_spec by blast
  obtain k where k: "wrap_longitude b lon = ?d + 360 * real k" "x_min b \<le> wrap_longitude b lon"
      "wrap_longitude b lon = ?d \<or> wrap_longitude b lon < x_min b + 360"
    unfolding wrap_longitude_def using wrap_up_spec by blast
  have "wrap_longitude b lon = lon + 360 * of_int (int k - int j)" using j k by (simp add: algebra_simps)
  with j(2) k(2,3) show ?thesis by (auto simp del: of_int_diff)
qed

subsection \<open>The node nearest to the epicenter\<close>

text \<open>A gridline-registered grid with at least two nodes each way.\<close>

definition gridline_ok :: "bathymetry \<Rightarrow> bool" where
  "gridline_ok b \<longleftrightarrow> node_offset b = 0 \<and> 2 \<le> nx b \<and> 2 \<le> ny b \<and> x_min b < x_max b \<and> y_min b < y_max b"

lemma gridline_inc:
  assumes "gridline_ok b"
  shows "0 < x_inc b" and "0 < y_inc b" and "half_offset b = 0"
    and "x_min b + (real (nx b) - 1) * x_inc b = x_max b"
    and "y_min b + (real (ny b) - 1) * y_inc b = y_max b"
  using assms by (auto simp: gridline_ok_def x_inc_def y_inc_def half_offset_def)

lemma gridline_longitude: "gridline_ok b \<Longrightarrow> longitudes b c = x_min b + of_int c * x_inc b"
  using gridline_inc [of b] by (auto simp: longitudes_def)

lemma gridline_latitude: "gridline_ok b \<Longrightarrow> latitudes b r = y_max b - of_int r * y_inc b"
proof -
  assume "gridline_ok b"
  note inc = gridline_inc [OF this]
  show ?thesis
  proof (cases "r = int (ny b) - 1")
    case True
    then have "y_min b + of_int r * y_inc b = y_max b" using inc(5) by simp
    with True inc(3) show ?thesis by (simp add: latitudes_def)
  qed (use inc(3) in \<open>simp add: latitudes_def\<close>)
qed

lemma nearest_index:
  assumes "0 < inc" and "low \<le> x" and "x \<le> low + (real n - 1) * inc"
  shows "0 \<le> rint ((x - low) / inc)" and "rint ((x - low) / inc) \<le> int n - 1"
    and "\<bar>x - (low + of_int (rint ((x - low) / inc)) * inc)\<bar> \<le> inc / 2"
proof -
  let ?y = "(x - low) / inc"
  have "0 \<le> ?y" using assms by simp
  from rint_mono [OF this] show "0 \<le> rint ?y" by simp
  have "x - low \<le> of_int (int n - 1) * inc" using assms(3) by simp
  then have "?y \<le> of_int (int n - 1)" by (simp only: pos_divide_le_eq [OF assms(1)])
  from rint_mono [OF this] show "rint ?y \<le> int n - 1" by (simp only: rint_of_int)
  have "x - (low + of_int (rint ?y) * inc) = inc * (?y - of_int (rint ?y))"
    using assms(1) by (simp add: field_simps)
  then have "\<bar>x - (low + of_int (rint ?y) * inc)\<bar> = inc * \<bar>of_int (rint ?y) - ?y\<bar>"
    using assms(1) by (simp add: abs_mult abs_minus_commute)
  also have "\<dots> \<le> inc * (1 / 2)" using assms(1) by (intro mult_left_mono rint_near) auto
  finally show "\<bar>x - (low + of_int (rint ?y) * inc)\<bar> \<le> inc / 2" by simp
qed

lemma located_source_node:
  assumes "gridline_ok b" and "locate_source b lon lat = Inr (row, column)"
  shows "0 \<le> row \<and> row < int (ny b) \<and> 0 \<le> column \<and> column < int (nx b) \<and>
     \<bar>wrap_longitude b lon - longitudes b column\<bar> \<le> x_inc b / 2 \<and> \<bar>lat - latitudes b row\<bar> \<le> y_inc b / 2"
proof -
  note inc = gridline_inc [OF assms(1)]
  let ?lon = "wrap_longitude b lon"
  have lat: "y_min b \<le> lat" "lat \<le> y_max b" and lon: "?lon \<le> x_max b"
    and column: "column = rint ((?lon - x_min b) / x_inc b)"
    and row: "row = int (ny b) - 1 - rint ((lat - y_min b) / y_inc b)"
    using assms(2) inc(3)
    by (auto simp: locate_source_def check_epicenter_def Let_def split: if_splits)
  have west: "x_min b \<le> ?lon" using wrap_up_spec unfolding wrap_longitude_def by blast
  note c = nearest_index [OF inc(1) west, of "nx b", unfolded inc(4), OF lon]
  note r = nearest_index [OF inc(2) lat(1), of "ny b", unfolded inc(5), OF lat(2)]
  have "latitudes b row = y_min b + of_int (rint ((lat - y_min b) / y_inc b)) * y_inc b"
    unfolding gridline_latitude [OF assms(1)] row using inc(5) by (simp add: algebra_simps)
  then show ?thesis
    using c r unfolding gridline_longitude [OF assms(1)] column row by simp
qed

text \<open>On a gridline-registered grid \<open>locate_source\<close> returns a node of the grid, and the
  epicenter, its longitude taken within the grid's turn, is no more than half a cell from it
  in each direction.\<close>

theorem located_source_is_the_nearest_node:
  assumes "gridline_ok b" and "locate_source b lon lat = Inr (row, column)"
  shows "0 \<le> row \<and> row < int (ny b) \<and> 0 \<le> column \<and> column < int (nx b) \<and>
     \<bar>wrap_longitude b lon - longitudes b column\<bar> \<le> x_inc b / 2 \<and> \<bar>lat - latitudes b row\<bar> \<le> y_inc b / 2"
  using assms by (rule located_source_node)

definition pacific :: bathymetry where
  "pacific = \<lparr> x_min = 200, x_max = 202, y_min = - 1, y_max = 1, node_offset = 0, ny = 3, nx = 3,
     depth = (\<lambda>row column. if row = 0 \<and> column = 0 then None else Some (- 4000)) \<rparr>"

lemma pacific_source: "locate_source pacific (- 159) 0 = Inr (1, 1)" "gridline_ok pacific"
proof -
  have "wrap_longitude pacific (- 159) = 201"
    unfolding wrap_longitude_def pacific_def by (simp add: wrap_down.simps wrap_up.simps)
  then show "locate_source pacific (- 159) 0 = Inr (1, 1)"
    by (simp add: locate_source_def check_epicenter_def Let_def x_inc_def y_inc_def half_offset_def pacific_def)
  show "gridline_ok pacific" by (simp add: gridline_ok_def pacific_def)
qed

lemma located_source_is_the_nearest_node_witness:
  "locate_source pacific (- 159) 0 = Inr (1, 1) \<and>
     \<bar>wrap_longitude pacific (- 159) - longitudes pacific 1\<bar> \<le> x_inc pacific / 2"
  using located_source_is_the_nearest_node [OF pacific_source(2,1)] pacific_source by simp


subsection \<open>The arrays handed to the kernel\<close>

lemma cast_neg: "x < 0 \<Longrightarrow> cast d x < 0"
proof -
  assume x: "x < 0"
  have "2 powr of_int (magnitude (- x)) \<le> \<bar>- x\<bar>" using x by (intro magnitude_bounds) simp
  then have "2 powr of_int (magnitude (- x)) \<le> cast d (- x)"
    using x stored_of_int [of 1 d "magnitude (- x)"] by (intro array_type.stored_le) simp_all
  then have "0 < cast d (- x)" by (rule less_le_trans [rotated]) simp
  then show ?thesis by (simp add: cast_minus)
qed

text \<open>
  Depths as a grid of 16-bit integers has them, cells no wider than nine degrees, and node
  numbers that fit.
\<close>

definition chart_ok :: "bathymetry \<Rightarrow> bool" where
  "chart_ok b \<longleftrightarrow> gridline_ok b \<and> x_inc b \<le> 9 \<and> y_inc b \<le> 9 \<and>
     (\<forall>row < ny b. \<forall>column < nx b. \<forall>v. depth b row column = Some v \<and> v < 0 \<longrightarrow> v \<le> - 1) \<and>
     (ny b + 26) * (nx b + 26) \<le> 2 ^ 31 \<and> ny b * nx b < 2 ^ 24"

lemma gravity_lower: "9 \<le> gravity lat"
proof -
  let ?s = "sin (lat * DEGREE) * sin (lat * DEGREE)"
  have s: "0 \<le> ?s" by (rule zero_le_square)
  have "0 \<le> 52790414 / 10 ^ 10 * ?s + 232718 / 10 ^ 10 * ?s * ?s"
    by (intro add_nonneg_nonneg mult_nonneg_nonneg s) simp_all
  then have "97803267715 / 10 ^ 10 * 1 \<le> 97803267715 / 10 ^ 10 * (1 + 52790414 / 10 ^ 10 * ?s + 232718 / 10 ^ 10 * ?s * ?s)"
    by (intro mult_left_mono) simp_all
  moreover have "(9 :: real) \<le> 97803267715 / 10 ^ 10 * 1" by simp
  ultimately show ?thesis unfolding gravity_def Let_def by (rule order_trans [rotated])
qed

lemma cell_slowness_range:
  assumes "chart_ok b" and "row < ny b" and "column < nx b" and "cell_slowness d b row column = Some v"
  shows "- 1024 \<le> v" and "v < 0"
proof -
  let ?g = "gravity (latitudes b (int row))"
  obtain z where z: "depth b row column = Some z" "z < 0" and v: "v = cast d (- 1 / sqrt (- z * ?g))"
    using assms(4) by (auto simp: cell_slowness_def split: option.splits if_splits)
  then have "z \<le> - 1" using assms(1-3) by (auto simp: chart_ok_def)
  then have "1 * 9 \<le> - z * ?g" using gravity_lower by (intro mult_mono) auto
  then have "sqrt 1 \<le> sqrt (- z * ?g)" by (intro real_sqrt_le_mono) simp
  then have s: "1 \<le> sqrt (- z * ?g)" by simp
  have "1 / sqrt (- z * ?g) \<le> 1 / 1" using s by (intro divide_left_mono) simp_all
  then have "- 1024 \<le> - 1 / sqrt (- z * ?g)" by simp
  then show "- 1024 \<le> v" unfolding v using stored_small [of 1 d] by (intro array_type.stored_le) simp_all
  have "- 1 / sqrt (- z * ?g) < 0" using s by simp
  then show "v < 0" unfolding v by (rule cast_neg)
qed

lemma padded_index_nat:
  "0 \<le> row \<Longrightarrow> 0 \<le> column \<Longrightarrow>
     nat (padded_index b row column) = inner_node (kernel_grid d lengths b) (nat row) (nat column)"
  by (auto simp: padded_index_def inner_node_def kernel_grid_def width_def nat_add_distrib nat_mult_distrib ac_simps)

lemma inner_node_div_mod:
  assumes "column < nx b"
  shows "inner_node (kernel_grid d lengths b) row column div (nx b + 2 * PAD) = row + PAD"
    and "inner_node (kernel_grid d lengths b) row column mod (nx b + 2 * PAD) = column + PAD"
  using assms by (simp_all add: inner_node_def kernel_grid_def width_def)

lemma padded_slowness_inner:
  assumes "row < ny b" and "column < nx b"
  shows "padded_slowness d b (inner_node (kernel_grid d' lengths b) row column) = cell_slowness d b row column"
  using assms by (simp add: padded_slowness_def Let_def inner_node_div_mod)

lemma padded_slowness_Some:
  assumes "padded_slowness d b n = Some v"
  shows "\<exists>row < ny b. \<exists>column < nx b. n = inner_node (kernel_grid d' lengths b) row column \<and>
           cell_slowness d b row column = Some v"
proof -
  let ?w = "nx b + 2 * PAD"
  have in_pad: "PAD \<le> n div ?w" "n div ?w < ny b + PAD" "PAD \<le> n mod ?w" "n mod ?w < nx b + PAD"
    and v: "cell_slowness d b (n div ?w - PAD) (n mod ?w - PAD) = Some v"
    using assms by (auto simp: padded_slowness_def Let_def split: if_splits)
  have "n = inner_node (kernel_grid d' lengths b) (n div ?w - PAD) (n mod ?w - PAD)"
  proof -
    have "n = n div ?w * ?w + n mod ?w" by (rule div_mult_mod_eq [symmetric])
    then show ?thesis using in_pad by (simp add: inner_node_def kernel_grid_def width_def del: div_mult_mod_eq)
  qed
  moreover have "n div ?w - PAD < ny b" "n mod ?w - PAD < nx b" using in_pad by linarith+
  ultimately show ?thesis using v by blast
qed

lemma client_lengths_range:
  assumes "chart_ok b"
  shows "0 \<le> client_lengths b row k" and "client_lengths b row k \<le> 2 ^ 20"
proof -
  let ?hx = "1 / 2 * x_inc b * M_PER_DEGREE * cos (DEGREE * (y_max b - real row * y_inc b))"
  let ?hy = "1 / 2 * y_inc b * M_PER_DEGREE"
  let ?sx = "of_int \<bar>fst (CELLS ! k)\<bar> / major_axis k" and ?sy = "of_int \<bar>snd (CELLS ! k)\<bar> / major_axis k"
  have inc: "0 < x_inc b" "x_inc b \<le> 9" "0 < y_inc b" "y_inc b \<le> 9"
    using assms gridline_inc [of b] by (auto simp: chart_ok_def)
  have m: "0 \<le> M_PER_DEGREE" "M_PER_DEGREE \<le> 142000"
  proof -
    show "0 \<le> M_PER_DEGREE" by (simp add: M_PER_DEGREE_def EARTH_RADIUS_M_def)
    have "pi * (6371007181 / 180000) \<le> 4 * (6371007181 / 180000)"
      using pi_less_4 by (intro mult_right_mono) simp_all
    then show "M_PER_DEGREE \<le> 142000" by (simp add: M_PER_DEGREE_def EARTH_RADIUS_M_def)
  qed
  have half: "0 \<le> 1 / 2 * i * M_PER_DEGREE \<and> 1 / 2 * i * M_PER_DEGREE \<le> 640000"
    if "0 < i" "i \<le> 9" for i
    using mult_mono [of "1 / 2 * i" "9 / 2" M_PER_DEGREE 142000] m that by simp
  have hx: "\<bar>?hx\<bar> \<le> 640000"
  proof -
    have "\<bar>?hx\<bar> \<le> 640000 * 1" unfolding abs_mult [of "1 / 2 * x_inc b * M_PER_DEGREE"]
      using half [OF inc(1,2)] by (intro mult_mono) auto
    then show ?thesis by simp
  qed
  have hy: "\<bar>?hy\<bar> \<le> 640000" using half [OF inc(3,4)] by simp
  have "\<bar>fst (CELLS ! k)\<bar> \<le> max \<bar>fst (CELLS ! k)\<bar> \<bar>snd (CELLS ! k)\<bar>"
    "\<bar>snd (CELLS ! k)\<bar> \<le> max \<bar>fst (CELLS ! k)\<bar> \<bar>snd (CELLS ! k)\<bar>" by simp_all
  then have s: "0 \<le> ?sx" "?sx \<le> 1" "0 \<le> ?sy" "?sy \<le> 1"
    unfolding major_axis_def by (auto simp: divide_le_eq_1 simp del: of_int_max)
  have sq: "(s * h)\<^sup>2 \<le> 640000\<^sup>2" if "0 \<le> s" "s \<le> 1" "\<bar>h\<bar> \<le> 640000" for s h :: real
  proof -
    have "\<bar>s * h\<bar> \<le> 1 * 640000" unfolding abs_mult using that by (intro mult_mono) auto
    then show ?thesis using power_mono [of "\<bar>s * h\<bar>" 640000 2] by simp
  qed
  show "0 \<le> client_lengths b row k" by (simp add: client_lengths_def Let_def)
  have "sqrt ((?sx * ?hx)\<^sup>2 + (?sy * ?hy)\<^sup>2) \<le> sqrt ((2 ^ 20)\<^sup>2)"
    using sq [OF s(1,2) hx] sq [OF s(3,4) hy] by (intro real_sqrt_le_mono) simp
  also have "\<dots> = 2 ^ 20" by simp
  finally show "client_lengths b row k \<le> 2 ^ 20" unfolding client_lengths_def Let_def .
qed

lemma chart_ocean:
  assumes "chart_ok b"
  shows "ocean_ok (kernel_grid Float32 (client_lengths b) b) (padded_slowness d b)"
proof -
  let ?g = "kernel_grid Float32 (client_lengths b) b" and ?sl = "padded_slowness d b"
  have sub: "water ?sl \<subseteq> (\<lambda>(row, column). inner_node ?g row column) ` ({..<ny b} \<times> {..<nx b})"
    using padded_slowness_Some [of d b _ _ Float32 "client_lengths b"] by (fastforce simp: water_def)
  have "card (water ?sl) \<le> card ({..<ny b} \<times> {..<nx b})"
    using sub by (intro surj_card_le) auto
  then have "card (water ?sl) < 2 ^ 24" using assms by (simp add: chart_ok_def card_cartesian_product)
  moreover have "water ?sl \<subseteq> interior ?g"
  proof
    fix n assume "n \<in> water ?sl"
    then obtain row column where "n = inner_node ?g row column" "row < ny b" "column < nx b"
      using sub by auto
    then show "n \<in> interior ?g" unfolding interior_def by (auto simp: kernel_grid_def)
  qed
  moreover have "- 1024 \<le> v \<and> v < 0" if "?sl n = Some v" for n v
    using padded_slowness_Some [OF that] cell_slowness_range [OF assms] by blast
  ultimately show ?thesis
    using assms client_lengths_range [OF assms]
    by (simp add: ocean_ok_def cells_def width_def kernel_grid_def PAD_def chart_ok_def)
qed


subsection \<open>The client-compatible solver\<close>

lemma solve_nearest_node:
  assumes chart: "chart_ok b" and src: "locate_source b lon lat = Inr (row, column)"
    and wet: "wet (depth b (nat row) (nat column))"
  defines "g \<equiv> kernel_grid Float32 (client_lengths b) b" and "sl \<equiv> padded_slowness Float32 b"
  defines "C \<equiv> sea_connected g sl {inner_node g (nat row) (nat column)}"
  shows "\<exists>st hours slope. solve Float32 (client_lengths b) seed_nearest_node b lon lat
      = Some (Inr \<lparr> tt_hours = hours, tt_slope = slope, tt_unreached = int (card (water sl)) - int (card C) \<rparr>) \<and>
     hours = solved_hours Float32 b st \<and>
     (\<forall>n. if n \<in> C then \<exists>v \<ge> 0. slow st n = Some v else slow st n = sl n)"
proof -
  have grid: "gridline_ok b" using chart by (simp add: chart_ok_def)
  have in_grid: "0 \<le> row" "row < int (ny b)" "0 \<le> column" "column < int (nx b)"
    using located_source_node [OF grid src] by blast+
  let ?n = "inner_node g (nat row) (nat column)"
  have n: "nat (padded_index b row column) = ?n"
    unfolding g_def by (rule padded_index_nat [OF in_grid(1,3)])
  obtain v where v: "depth b (nat row) (nat column) = Some v" "v < 0"
    using wet by (auto simp: wet_def split: option.splits)
  have "sl ?n = cell_slowness Float32 b (nat row) (nat column)"
    unfolding sl_def g_def using in_grid by (intro padded_slowness_inner) auto
  then have "?n \<in> water sl" using v by (simp add: water_def cell_slowness_def)
  then have seeds: "seeds_ok sl [(?n, 0)]" by (simp add: seeds_ok_def MAX_COST_def)
  have ocean: "ocean_ok g sl" unfolding g_def sl_def by (rule chart_ocean [OF chart])
  have sea: "sea_ok g 1024 sl" by (rule ocean_sea [OF ocean])
  obtain st0 where st0: "seed_all g [(?n, 0)] (initial_state g sl) = Some st0" "tt_inv g sl {?n} {} 0 st0"
    using seeded_inv [OF sea seeds] by auto
  from settle_loop_ok [OF sea st0(2)] st0(1)
  obtain st t where p: "propagate g sl [(?n, 0)] = Some (st, card C)" and inv: "tt_inv g sl {?n} C t st"
    by (auto simp: propagate_def C_def simp del: seed_all.simps)
  have slow: "\<forall>m. if m \<in> C then \<exists>v \<ge> 0. slow st m = Some v else slow st m = sl m"
    using inv by (simp add: tt_inv_def)
  have seed: "seed_nearest_node b (cell_slowness Float32 b) lon lat
      = Inr \<lparr> sd_seeds = [(?n, 0)], sd_lon = longitudes b column, sd_lat = latitudes b row \<rparr>"
    using src by (simp add: seed_nearest_node_def n)
  have axes: "axis_index (ny b) row = Some (nat row)" "axis_index (nx b) column = Some (nat column)"
    using in_grid by (simp_all add: axis_index_def)
  have "solve Float32 (client_lengths b) seed_nearest_node b lon lat
    = Some (Inr \<lparr> tt_hours = solved_hours Float32 b st,
        tt_slope = source_slope b (solved_hours Float32 b st) row column (longitudes b column) (latitudes b row),
        tt_unreached = int (card (water sl)) - int (card C) \<rparr>)"
    using p wet unfolding solve_def src sum.case prod.case axes option.case g_def [symmetric] sl_def [symmetric]
    by (simp add: seed [folded sl_def] Let_def)
  with slow show ?thesis by blast
qed

text \<open>C16: On a gridline-registered chart the client-compatible solver always returns when the
  epicenter's nearest node is water, and it marks with a time exactly the nodes whose water is
  connected to that node; \<open>unreached\<close> counts the water nodes that are not.\<close>

theorem client_travel_times_reach_the_connected_water:
  assumes "chart_ok b" and "\<not> \<bar>x_max b - x_min b - 360\<bar> < 1 / 10 ^ 8"
    and "locate_source b lon lat = Inr (row, column)" and "wet (depth b (nat row) (nat column))"
    and "g = kernel_grid Float32 (client_lengths b) b" and "sl = padded_slowness Float32 b"
    and "reached = sea_connected g sl {inner_node g (nat row) (nat column)}"
  shows "\<exists>r. travel_times b lon lat True = Some (Inr r) \<and>
     (\<forall>i < ny b. \<forall>j < nx b. tt_hours r i j \<noteq> None \<longleftrightarrow> inner_node g i j \<in> reached) \<and>
     tt_unreached r = int (card (water sl - reached))"
proof -
  obtain st hours slope where r: "travel_times b lon lat True
      = Some (Inr \<lparr> tt_hours = hours, tt_slope = slope, tt_unreached = int (card (water sl)) - int (card reached) \<rparr>)"
    and hours: "hours = solved_hours Float32 b st"
    and slow: "\<forall>n. if n \<in> reached then \<exists>v \<ge> 0. slow st n = Some v else slow st n = sl n"
    using solve_nearest_node [OF assms(1,3,4)] assms(2) unfolding assms(5-7) travel_times_def by auto
  have ocean: "ocean_ok g sl" unfolding assms(5,6) by (rule chart_ocean [OF assms(1)])
  have sub: "reached \<subseteq> water sl" unfolding assms(7) by (auto elim: sea_connected.cases)
  have "hours i j \<noteq> None \<longleftrightarrow> inner_node g i j \<in> reached" if "i < ny b" "j < nx b" for i j
  proof -
    have "nat (padded_index b (int i) (int j)) = inner_node g i j"
      using padded_index_nat [of "int i" "int j" b Float32 "client_lengths b"] by (simp add: assms(5))
    moreover have "sl (inner_node g i j) = Some v \<Longrightarrow> v < 0" for v using ocean by (simp add: ocean_ok_def)
    ultimately show ?thesis
      using slow [rule_format, of "inner_node g i j"]
      by (cases "inner_node g i j \<in> reached") (auto simp: hours solved_hours_def split: option.splits)
  qed
  moreover have "int (card (water sl)) - int (card reached) = int (card (water sl - reached))"
    using sub finite_water [OF ocean_sea [OF ocean]]
    by (simp add: card_Diff_subset finite_subset of_nat_diff card_mono)
  ultimately show ?thesis using r by simp
qed

lemma pacific_chart: "chart_ok pacific"
  using pacific_source(2) by (simp add: chart_ok_def x_inc_def y_inc_def pacific_def)

lemma client_travel_times_reach_the_connected_water_witness:
  "\<exists>r. travel_times pacific (- 159) 0 True = Some (Inr r) \<and> tt_hours r 1 1 \<noteq> None"
proof -
  let ?g = "kernel_grid Float32 (client_lengths pacific) pacific" and ?sl = "padded_slowness Float32 pacific"
  have wet: "wet (depth pacific (nat 1) (nat 1))" by (simp add: wet_def pacific_def)
  have turn: "\<not> \<bar>x_max pacific - x_min pacific - 360\<bar> < 1 / 10 ^ 8" by (simp add: pacific_def)
  have "?sl (inner_node ?g 1 1) = cell_slowness Float32 pacific 1 1"
    by (rule padded_slowness_inner) (simp_all add: pacific_def)
  then have "inner_node ?g 1 1 \<in> sea_connected ?g ?sl {inner_node ?g (nat 1) (nat 1)}"
    by (intro sea_connected.seed) (auto simp: water_def cell_slowness_def pacific_def)
  with client_travel_times_reach_the_connected_water
    [OF pacific_chart turn pacific_source(1) wet refl refl refl]
  show ?thesis by (auto simp: pacific_def)
qed

subsection \<open>Pixel registration\<close>

text \<open>Two rows of two cells; the northern row is sea, the southern row is land.\<close>

definition pixel_chart :: bathymetry where
  "pixel_chart = \<lparr> x_min = 0, x_max = 2, y_min = 0, y_max = 2, node_offset = 1, ny = 2, nx = 2,
     depth = (\<lambda>row column. if row = 0 then Some (- 4000) else None) \<rparr>"

text \<open>On a pixel-registered grid with an even number of rows an epicenter on the northern
  edge, which the latitude check admits, is located in row -1; the lookup of its depth then
  counts from the end and reads the southernmost row, so that a source over open water is
  refused as lying on land. On the eastern edge the column is past the end.\<close>

theorem pixel_registered_edge_is_located_outside:
  "locate_source pixel_chart 1 2 = Inr (- 1, 0) \<and> wet (depth pixel_chart 0 0) \<and>
   latitudes pixel_chart 0 = 3 / 2 \<and>
   travel_times pixel_chart 1 2 True = Some (Inl (ValueError ''epicenter lies on land'')) \<and>
   locate_source pixel_chart 2 2 = Inr (- 1, 2) \<and>
   travel_times pixel_chart 2 2 True = Some (Inl (OtherError ''IndexError''))"
proof -
  have w1: "wrap_longitude pixel_chart 1 = 1" and w2: "wrap_longitude pixel_chart 2 = 2"
    unfolding wrap_longitude_def pixel_chart_def by (simp_all add: wrap_down.simps wrap_up.simps)
  have half: "rint (1 / 2) = 0" "rint (3 / 2) = 2" by (simp_all add: rint_def Let_def floor_eq_iff)
  have l1: "locate_source pixel_chart 1 2 = Inr (- 1, 0)" and l2: "locate_source pixel_chart 2 2 = Inr (- 1, 2)"
    by (simp_all add: locate_source_def check_epicenter_def w1 w2 Let_def)
      (simp_all add: pixel_chart_def x_inc_def y_inc_def half_offset_def half)
  have chart: "ny pixel_chart = 2" "nx pixel_chart = 2" "depth pixel_chart 0 0 = Some (- 4000)"
      "depth pixel_chart (Suc 0) 0 = None" "x_max pixel_chart = 2" "x_min pixel_chart = 0"
    by (simp_all add: pixel_chart_def)
  have axes: "axis_index 2 (- 1) = Some 1" "axis_index 2 0 = Some 0" "axis_index 2 2 = None"
    by (simp_all add: axis_index_def)
  have "latitudes pixel_chart 0 = 3 / 2"
    by (simp add: pixel_chart_def latitudes_def y_inc_def half_offset_def)
  then show ?thesis
    by (simp add: travel_times_def solve_def l1 l2 chart axes wet_def)
qed

end
