(* ===== verification/GridFile.thy ===== *)
theory GridFile
  imports TravelTimes PyText
begin

text \<open>
  The binary grids of the travel-time solver (tsdhn_ttt/grid.py): GMT's native header of 892 bytes, the
  16-bit bathymetry it reads and the float32 travel times it writes. A byte is a number below 256,
  little-endian integers and IEEE 754 numbers are written out; NaN is \<open>None\<close>.
\<close>

type_synonym bytes = "nat list"

subsection \<open>Fields\<close>

fun le_bytes :: "nat \<Rightarrow> nat \<Rightarrow> bytes" where
  "le_bytes 0 v = []"
| "le_bytes (Suc n) v = v mod 256 # le_bytes n (v div 256)"

fun le_value :: "bytes \<Rightarrow> nat" where
  "le_value [] = 0"
| "le_value (b # bs) = b + 256 * le_value bs"

text \<open>\<open>struct\<close>'s \<open>i\<close>, which refuses numbers that do not fit, and numpy's \<open>i2\<close>.\<close>

definition pack_int :: "int \<Rightarrow> exn + bytes" where
  "pack_int x = (if - (2 ^ 31) \<le> x \<and> x < 2 ^ 31 then Inr (le_bytes 4 (nat (x mod 2 ^ 32))) else Inl (OtherError ''struct.error''))"

definition signed_value :: "nat \<Rightarrow> nat \<Rightarrow> int" where
  "signed_value w v = (if v < 2 ^ (w - 1) then int v else int v - 2 ^ w)"

definition unpack_int :: "bytes \<Rightarrow> int" where
  "unpack_int bs = signed_value 32 (le_value bs)"

definition unpack_short :: "bytes \<Rightarrow> int" where
  "unpack_short bs = signed_value 16 (le_value bs)"

text \<open>
  A binary format of precision \<open>p\<close> with \<open>w\<close> bits of exponent. A digit carried out of the fraction
  lands in the exponent, which is the rounding the format asks for.
\<close>

definition bias :: "nat \<Rightarrow> int" where "bias w = 2 ^ (w - 1) - 1"

definition float_bits :: "nat \<Rightarrow> nat \<Rightarrow> real option \<Rightarrow> nat" where
  "float_bits p w x =
     (case x of
        None \<Rightarrow> (2 ^ w - 1) * 2 ^ (p - 1) + 2 ^ (p - 2)
      | Some x \<Rightarrow>
          (if x < 0 then 2 ^ (w + (p - 1)) else 0) +
          (if x = 0 then 0
           else if magnitude x < 1 - bias w then nat (rint (\<bar>x\<bar> / 2 powr of_int (2 - bias w - int p)))
           else if bias w < magnitude x then (2 ^ w - 1) * 2 ^ (p - 1)
           else nat (magnitude x + bias w) * 2 ^ (p - 1) + (nat (rint (\<bar>x\<bar> / spacing p x)) - 2 ^ (p - 1))))"

text \<open>Infinities are not numbers of the model either.\<close>

definition float_value :: "nat \<Rightarrow> nat \<Rightarrow> nat \<Rightarrow> real option" where
  "float_value p w v =
     (let f = v mod 2 ^ (p - 1); e = v div 2 ^ (p - 1) mod 2 ^ w; s = (if v div 2 ^ (w + (p - 1)) = 0 then 1 else - 1)
      in if e = 2 ^ w - 1 then None
         else if e = 0 then Some (s * real f * 2 powr of_int (2 - bias w - int p))
         else Some (s * real (2 ^ (p - 1) + f) * 2 powr of_int (int e - bias w - int p + 1)))"

definition pack_double :: "real \<Rightarrow> bytes" where "pack_double x = le_bytes 8 (float_bits 53 11 (Some x))"
definition unpack_double :: "bytes \<Rightarrow> real option" where "unpack_double bs = float_value 53 11 (le_value bs)"
definition float32_bytes :: "real option \<Rightarrow> bytes" where "float32_bytes x = le_bytes 4 (float_bits 24 8 x)"
definition float32_at :: "bytes \<Rightarrow> real option" where "float32_at bs = float_value 24 8 (le_value bs)"

subsection \<open>The header\<close>

definition TEXT_WIDTHS :: "nat list" where "TEXT_WIDTHS = [80, 80, 80, 80, 320, 160]"
definition FIXED_SIZE :: nat where "FIXED_SIZE = 3 * 4 + 10 * 8"
definition HEADER_SIZE :: nat where "HEADER_SIZE = FIXED_SIZE + sum_list TEXT_WIDTHS"

definition slice :: "nat \<Rightarrow> nat \<Rightarrow> bytes \<Rightarrow> bytes" where
  "slice start n bs = take n (drop start bs)"

definition header_int :: "bytes \<Rightarrow> nat \<Rightarrow> int" where
  "header_int bs k = unpack_int (slice (4 * k) 4 bs)"

definition header_double :: "bytes \<Rightarrow> nat \<Rightarrow> real option" where
  "header_double bs k = unpack_double (slice (12 + 8 * k) 8 bs)"

definition SHORT_NAN :: "int set" where "SHORT_NAN = {- 32768, 32767}"

text \<open>
  \<open>read_bathymetry\<close> on the bytes of the file. Edges that are infinite or NaN are outside the model and
  shown as an error of their own.
\<close>

definition read_bathymetry :: "bytes \<Rightarrow> exn + bathymetry" where
  "read_bathymetry bs =
     (if length bs < HEADER_SIZE then Inl (ValueError ''file is shorter than a GMT grid header'')
      else let columns = header_int bs 0; rows = header_int bs 1; found = (length bs - HEADER_SIZE) div 2 in
        if columns < 0 \<or> rows < 0 \<or> int found < columns * rows then Inl (ValueError ''unexpected number of values'')
        else case (header_double bs 0, header_double bs 1, header_double bs 2, header_double bs 3) of
          (Some a, Some b, Some c, Some d) \<Rightarrow>
            Inr \<lparr> x_min = a, x_max = b, y_min = c, y_max = d, node_offset = header_int bs 2, ny = nat rows, nx = nat columns,
                  depth = (\<lambda>i j. let v = unpack_short (slice (HEADER_SIZE + 2 * (i * nat columns + j)) 2 bs)
                             in if v \<in> SHORT_NAN then None else Some (of_int v)) \<rparr>
        | _ \<Rightarrow> Inl (OtherError ''edge is not a finite number''))"

subsection \<open>Writing\<close>

text \<open>\<open>f"{x:g}"\<close>: six significant digits without trailing zeros.\<close>

definition strip_zeros :: "string \<Rightarrow> string" where
  "strip_zeros s = rev (dropWhile (\<lambda>c. c = CHR ''0'') (rev s))"

definition with_point :: "string \<Rightarrow> string \<Rightarrow> string" where
  "with_point a b = (let f = strip_zeros b in if f = '''' then a else a @ ''.'' @ f)"

definition general_text :: "real \<Rightarrow> string" where
  "general_text x =
     (if x = 0 then ''0''
      else let e = \<lfloor>log 10 \<bar>x\<bar>\<rfloor>; n = nat (rint (\<bar>x\<bar> * 10 powr of_int (5 - e)));
               (n, e) = (if n = 10 ^ 6 then (10 ^ 5, e + 1) else (n, e)); ds = dec_places 6 n
        in (if x < 0 then ''-'' else '''') @
           (if 0 \<le> e \<and> e < 6 then with_point (take (nat e + 1) ds) (drop (nat e + 1) ds)
            else if - 4 \<le> e \<and> e < 0 then with_point ''0'' (replicate (nat (- e) - 1) CHR ''0'' @ ds)
            else with_point (take 1 ds) (drop 1 ds) @ (if e < 0 then ''e-'' else ''e+'') @
              (if \<bar>e\<bar> < 100 then dec_places 2 (nat \<bar>e\<bar>) else decimal (nat \<bar>e\<bar>))))"

definition header_texts :: "real \<Rightarrow> real \<Rightarrow> real \<Rightarrow> string list" where
  "header_texts lon lat slope =
     [''longitude [degrees_east]'', ''latitude [degrees_north]'', ''hour'', ''Tsunami travel times'', ''Grid was saved by tsdhn_ttt'',
      general_text lon @ '' '' @ general_text lat @ '' 0 0 0 0 0 0 '' @ general_text slope @ '' [x, y, M, D, Y, hh, mm, ss, rate (s/km)]'']"

text \<open>\<open>text.encode("ascii").ljust(width, b"0")\<close> with zero bytes: a longer text is not cut.\<close>

definition text_field :: "nat \<Rightarrow> string \<Rightarrow> bytes" where
  "text_field n s = map of_char s @ replicate (n - length s) 0"

definition FLOAT32_MAX :: real where "FLOAT32_MAX = (2 - 1 / 2 ^ 23) * 2 ^ 127"

definition hour_values :: "bathymetry \<Rightarrow> (nat \<Rightarrow> nat \<Rightarrow> real option) \<Rightarrow> real list" where
  "hour_values b hours = List.map_filter id (concat (map (\<lambda>i. map (hours i) [0..<nx b]) [0..<ny b]))"

definition z_range :: "real list \<Rightarrow> real \<times> real" where
  "z_range hs = (if hs = [] then (FLOAT32_MAX, - FLOAT32_MAX) else (Min (set hs), Max (set hs)))"

definition hours_bytes :: "bathymetry \<Rightarrow> (nat \<Rightarrow> nat \<Rightarrow> real option) \<Rightarrow> bytes" where
  "hours_bytes b hours = concat (map (\<lambda>k. float32_bytes (hours (k div nx b) (k mod nx b))) [0..<ny b * nx b])"

definition write_travel_times :: "bathymetry \<Rightarrow> (nat \<Rightarrow> nat \<Rightarrow> real option) \<Rightarrow> real \<Rightarrow> real \<Rightarrow> real \<Rightarrow> exn + bytes" where
  "write_travel_times b hours lon lat slope =
     (if int (nx b) = 1 - node_offset b \<or> int (ny b) = 1 - node_offset b then Inl (OtherError ''ZeroDivisionError'')
      else let (z_min, z_max) = z_range (hour_values b hours) in
      bind_ok (pack_int (int (nx b))) (\<lambda>a. bind_ok (pack_int (int (ny b))) (\<lambda>c. bind_ok (pack_int (node_offset b)) (\<lambda>n.
        Inr (a @ c @ n @
             concat (map pack_double [x_min b, x_max b, y_min b, y_max b, z_min, z_max, x_inc b, y_inc b, 1, 0]) @
             concat (map2 text_field TEXT_WIDTHS (header_texts lon lat slope)) @ hours_bytes b hours)))))"

end
