(* ===== verification/GridFileLaws.thy ===== *)
theory GridFileLaws
  imports GridFile
begin

text \<open>
  Laws of the binary grids: integers and numbers survive their encoding, the written file has the
  layout its reader expects, and a 16-bit grid is read cell by cell.
\<close>

subsection \<open>Integers\<close>

lemma le_bytes_length [simp]: "length (le_bytes n v) = n"
  by (induction n arbitrary: v) simp_all

lemma le_value_bytes: "le_value (le_bytes n v) = v mod 256 ^ n"
proof (induction n arbitrary: v)
  case (Suc n)
  then show ?case by (simp add: mod_mult2_eq [of v 256 "256 ^ n"])
qed simp

lemma signed_value_mod:
  assumes "- (2 ^ (w - 1)) \<le> x" and "x < 2 ^ (w - 1)" and "0 < w"
  shows "signed_value w (nat (x mod 2 ^ w)) = x"
proof (cases "0 \<le> x")
  case True
  have "x < 2 ^ w" using assms(2) by (rule order_less_le_trans) (simp add: power_increasing)
  then show ?thesis using True assms(2) by (simp add: signed_value_def nat_less_iff)
next
  case False
  obtain k where w: "w = Suc k" using assms(3) by (cases w) auto
  have "x mod 2 ^ w = (x + 2 ^ w) mod 2 ^ w" by simp
  also have "\<dots> = x + 2 ^ w" using False assms(1) w by (intro mod_pos_pos_trivial) simp_all
  finally have "x mod 2 ^ w = x + 2 ^ w" .
  moreover have "\<not> nat (x + 2 ^ w) < 2 ^ (w - 1)" using assms(1) w by (simp add: nat_less_iff)
  moreover have "0 \<le> x + 2 ^ w" using assms(1) w by (simp add: power_increasing) (smt (verit) zero_le_power)
  ultimately show ?thesis using assms(1) w by (simp add: signed_value_def)
qed

lemma unpack_pack_int: "pack_int x = Inr bs \<Longrightarrow> length bs = 4 \<and> unpack_int bs = x"
proof -
  assume packed: "pack_int x = Inr bs"
  then have bs: "bs = le_bytes 4 (nat (x mod 2 ^ 32))" and range: "- (2 ^ (32 - 1)) \<le> x" "x < 2 ^ (32 - 1)"
    unfolding pack_int_def by (simp_all split: if_splits)
  have "nat (x mod 2 ^ 32) < 256 ^ 4" by (simp add: nat_less_iff)
  then have "le_value bs = nat (x mod 2 ^ 32)" by (simp add: bs le_value_bytes)
  then show ?thesis using signed_value_mod [OF range] by (simp only: unpack_int_def bs le_bytes_length)
qed

subsection \<open>Floating-point numbers\<close>

text \<open>The numbers a format stores with all its digits: zero and the normal numbers.\<close>

definition storable :: "nat \<Rightarrow> nat \<Rightarrow> real \<Rightarrow> bool" where
  "storable p w x \<longleftrightarrow> x = 0 \<or> fl p x = x \<and> 1 - bias w \<le> magnitude x \<and> magnitude x \<le> bias w"

lemma mantissa:
  assumes "fl p x = x" and "x \<noteq> 0" and "0 < p"
  shows "\<exists>m. 2 ^ (p - 1) \<le> m \<and> m < 2 ^ p \<and> nat (rint (\<bar>x\<bar> / spacing p x)) = m \<and> \<bar>x\<bar> = real m * spacing p x"
proof -
  define r where "r = rint (x / spacing p x)"
  have pos: "0 < spacing p x" by (rule spacing_pos)
  have "of_int r * spacing p x = x" using assms(1,2) by (simp add: fl_def r_def)
  then have q: "x / spacing p x = of_int r" using pos by (metis nonzero_mult_div_cancel_right less_irrefl)
  have bounds: "2 ^ (p - 1) \<le> \<bar>of_int r :: real\<bar>" "\<bar>of_int r :: real\<bar> < 2 ^ p"
    using scaled_bound [OF assms(2,3)] unfolding q by simp_all
  have "\<bar>x\<bar> / spacing p x = \<bar>x / spacing p x\<bar>" using pos by simp
  then have div: "\<bar>x\<bar> / spacing p x = of_int \<bar>r\<bar>" unfolding q by simp
  have "real (2 ^ (p - 1)) \<le> real (nat \<bar>r\<bar>)" "real (nat \<bar>r\<bar>) < real (2 ^ p)" using bounds by simp_all
  then have "2 ^ (p - 1) \<le> nat \<bar>r\<bar>" "nat \<bar>r\<bar> < 2 ^ p" by (simp_all only: of_nat_le_iff of_nat_less_iff)
  moreover have "nat (rint (\<bar>x\<bar> / spacing p x)) = nat \<bar>r\<bar>" unfolding div rint_of_int ..
  moreover have "\<bar>x\<bar> = real (nat \<bar>r\<bar>) * spacing p x" using div pos by (simp add: nonzero_divide_eq_eq)
  ultimately show ?thesis by blast
qed

lemma bias_facts: "2 \<le> w \<Longrightarrow> 1 \<le> bias w" "2 \<le> w \<Longrightarrow> 2 * bias w = 2 ^ w - 2"
proof -
  assume "2 \<le> w"
  then obtain k where w: "w = Suc (Suc k)" by (metis add_2_eq_Suc le_Suc_ex)
  have "(1 :: int) \<le> 2 ^ k" by simp
  then have "(1 :: int) < 2 * 2 ^ k" by linarith
  then show "1 \<le> bias w" "2 * bias w = 2 ^ w - 2" by (simp_all add: bias_def w)
qed

lemma packed_fields:
  fixes s e f n k :: nat
  assumes "f < k" and "e < n"
  shows "(s * (n * k) + (e * k + f)) mod k = f" and "(s * (n * k) + (e * k + f)) div k mod n = e"
    and "(s * (n * k) + (e * k + f)) div (n * k) = s" and "e * k + f < n * k"
proof -
  have sum: "s * (n * k) + (e * k + f) = f + (s * n + e) * k" by (simp add: algebra_simps)
  show "(s * (n * k) + (e * k + f)) mod k = f" using assms(1) unfolding sum by simp
  show "(s * (n * k) + (e * k + f)) div k mod n = e" using assms unfolding sum by simp
  have "e * k + f < Suc e * k" using assms(1) by simp
  also have "\<dots> \<le> n * k" using assms(2) by (intro mult_right_mono) simp_all
  finally show "e * k + f < n * k" .
  then show "(s * (n * k) + (e * k + f)) div (n * k) = s"
    by (metis add.right_neutral div_less div_mult_self3 not_less_zero)
qed

lemma float_value_bits:
  assumes "storable p w x" and "2 \<le> p" and "2 \<le> w"
  shows "float_value p w (float_bits p w (Some x)) = Some x \<and> float_bits p w (Some x) < 2 ^ (w + p)"
proof (cases "x = 0")
  case True
  have "(0 :: nat) < 2 ^ w - 1" using one_less_power [of "2 :: nat" w] assms(3) by simp
  then show ?thesis using True by (simp add: float_bits_def float_value_def Let_def)
next
  case False
  let ?k = "2 ^ (p - 1) :: nat"
  have x: "fl p x = x" "1 - bias w \<le> magnitude x" "magnitude x \<le> bias w" using assms(1) False by (simp_all add: storable_def)
  obtain m where m: "?k \<le> m" "m < 2 ^ p" "nat (rint (\<bar>x\<bar> / spacing p x)) = m" "\<bar>x\<bar> = real m * spacing p x"
    using mantissa [OF x(1) False order_less_le_trans [OF pos2 assms(2)]] by blast
  define e where "e = nat (magnitude x + bias w)"
  define s :: nat where "s = (if x < 0 then 1 else 0)"
  have e: "int e = magnitude x + bias w" "1 \<le> e" "e < 2 ^ w - 1"
  proof -
    show int_e: "int e = magnitude x + bias w" using x(2) by (simp add: e_def)
    then show "1 \<le> e" using x(2) by linarith
    have "int e < 2 ^ w - 1" using int_e x(3) bias_facts(2) [OF assms(3)] by linarith
    then have "int (e + 1) < int (2 ^ w)" by simp
    then have "e + 1 < 2 ^ w" by (simp only: of_nat_less_iff)
    then show "e < 2 ^ w - 1" by linarith
  qed
  have two: "2 ^ p = 2 * ?k" using assms(2) by (cases p) simp_all
  then have f: "m - ?k < ?k" using m(2) by linarith
  have bits: "float_bits p w (Some x) = s * 2 ^ (w + (p - 1)) + (e * ?k + (m - ?k))"
    using False x(2,3) by (simp add: float_bits_def m(3) e_def s_def)
  have n: "2 ^ (w + (p - 1)) = 2 ^ w * ?k" by (simp add: power_add)
  have "e < 2 ^ w" using e(3) by linarith
  note fields = packed_fields [OF f this, folded n]
  have "float_value p w (float_bits p w (Some x)) =
      Some ((if s = 0 then 1 else - 1) * real (?k + (m - ?k)) * 2 powr of_int (int e - bias w - int p + 1))"
    using e(2,3) by (simp add: float_value_def bits fields(1-3) [simplified One_nat_def] Let_def)
  moreover have "2 powr of_int (int e - bias w - int p + 1) = spacing p x" using e(1) by (simp add: spacing_def)
  ultimately have "float_value p w (float_bits p w (Some x)) = Some x" using m(1,4) by (auto simp: s_def)
  moreover have "s * 2 ^ (w + (p - 1)) \<le> 2 ^ (w + (p - 1))" by (simp add: s_def)
  then have "float_bits p w (Some x) < 2 * 2 ^ (w + (p - 1))" using fields(4) unfolding bits by linarith
  then have "float_bits p w (Some x) < 2 ^ (w + p)" using assms(2) by (cases p) simp_all
  ultimately show ?thesis by blast
qed

lemma unpack_pack_double: "storable 53 11 x \<Longrightarrow> unpack_double (pack_double x) = Some x"
  using float_value_bits [of 53 11 x] by (simp add: unpack_double_def pack_double_def le_value_bytes)

lemma float32_at_bytes: "(\<And>x. h = Some x \<Longrightarrow> storable 24 8 x) \<Longrightarrow> float32_at (float32_bytes h) = h"
proof (cases h)
  case None
  then show ?thesis by (simp add: float32_at_def float32_bytes_def le_value_bytes float_bits_def float_value_def Let_def)
next
  case (Some x)
  assume "\<And>x. h = Some x \<Longrightarrow> storable 24 8 x"
  then show ?thesis using float_value_bits [of 24 8 x] Some by (simp add: float32_at_def float32_bytes_def le_value_bytes)
qed

subsection \<open>Pieces of a file\<close>

lemma concat_pieces_length: "\<forall>x \<in> set xs. length x = n \<Longrightarrow> length (concat xs) = n * length xs"
  by (induction xs) simp_all

lemma slice_piece:
  assumes "\<forall>x \<in> set xs. length x = n" and "k < length xs"
  shows "slice (n * k) n (concat xs @ rest) = xs ! k"
  using assms
proof (induction xs arbitrary: k)
  case (Cons x xs)
  show ?case
  proof (cases k)
    case 0
    then show ?thesis using Cons.prems by (simp add: slice_def)
  next
    case (Suc i)
    then show ?thesis using Cons.IH [of i] Cons.prems by (simp add: slice_def add.commute)
  qed
qed simp

lemma slice_append: "length a = m \<Longrightarrow> slice (m + i) n (a @ b) = slice i n b"
  by (simp add: slice_def add.commute)

lemma text_field_length: "length s \<le> n \<Longrightarrow> length (text_field n s) = n"
  by (simp add: text_field_def)

lemma row_major: "r < (m :: nat) \<Longrightarrow> c < n \<Longrightarrow> r * n + c < m * n"
proof -
  assume "r < m" "c < n"
  then have "r * n + c < Suc r * n" by simp
  also have "\<dots> \<le> m * n" using \<open>r < m\<close> by (intro mult_right_mono) simp_all
  finally show ?thesis .
qed

subsection \<open>The written file\<close>

text \<open>The numbers of the header, in the order of GMT's native format.\<close>

definition header_numbers :: "bathymetry \<Rightarrow> (nat \<Rightarrow> nat \<Rightarrow> real option) \<Rightarrow> real list" where
  "header_numbers b hours =
     [x_min b, x_max b, y_min b, y_max b, fst (z_range (hour_values b hours)), snd (z_range (hour_values b hours)),
      x_inc b, y_inc b, 1, 0]"

lemma header_layout:
  assumes "length a = 12" and "storable 53 11 (ds ! k)" and "k < length ds"
  shows "header_double (a @ concat (map pack_double ds) @ rest) k = Some (ds ! k)"
proof -
  have "slice (8 * k) 8 (concat (map pack_double ds) @ rest) = pack_double (ds ! k)"
    using slice_piece [of "map pack_double ds" 8 k rest] assms(3) by (simp add: pack_double_def)
  then show ?thesis
    using assms unpack_pack_double [of "ds ! k"] by (simp add: header_double_def slice_append)
qed

lemma header_ints:
  assumes "pack_int x = Inr a" "pack_int y = Inr b" "pack_int z = Inr c"
  shows "header_int (a @ b @ c @ rest) 0 = x" "header_int (a @ b @ c @ rest) 1 = y" "header_int (a @ b @ c @ rest) 2 = z"
    and "length (a @ b @ c) = 12"
  using assms [THEN unpack_pack_int] by (simp_all add: header_int_def slice_def)

lemma text_block_length:
  assumes "list_all2 (\<lambda>n s. length s \<le> n) ns ss"
  shows "length (concat (map2 text_field ns ss)) = sum_list ns"
  using assms by (induction rule: list_all2_induct) (simp_all add: text_field_length)

lemma header_texts_fit:
  assumes "length (header_texts lon lat slope ! 5) \<le> 160"
  shows "list_all2 (\<lambda>n s. length s \<le> n) TEXT_WIDTHS (header_texts lon lat slope)"
  using assms by (simp add: TEXT_WIDTHS_def header_texts_def)

lemma written_cell:
  assumes "r < ny b" and "c < nx b" and "\<And>x. hours r c = Some x \<Longrightarrow> storable 24 8 x"
  shows "float32_at (slice (4 * (r * nx b + c)) 4 (hours_bytes b hours)) = hours r c"
proof -
  have bound: "r * nx b + c < ny b * nx b" using row_major [OF assms(1,2)] .
  have "slice (4 * (r * nx b + c)) 4 (hours_bytes b hours) = float32_bytes (hours r c)"
    using slice_piece [of "map (\<lambda>k. float32_bytes (hours (k div nx b) (k mod nx b))) [0..<ny b * nx b]" 4 "r * nx b + c" "[]"]
      bound assms(2) by (simp add: hours_bytes_def float32_bytes_def)
  then show ?thesis using float32_at_bytes [of "hours r c"] assms(3) by simp
qed


definition sample_grid :: bathymetry where
  "sample_grid = \<lparr> x_min = 0, x_max = 2, y_min = 0, y_max = 1, node_offset = 1, ny = 1, nx = 2,
     depth = (\<lambda>i j. if j = 0 then Some (- 100) else None) \<rparr>"

definition sample_hours :: "nat \<Rightarrow> nat \<Rightarrow> real option" where
  "sample_hours = (\<lambda>i j. if j = 0 then Some 1 else None)"

lemma sample_header: "header_numbers sample_grid sample_hours = [0, 2, 0, 1, 1, 1, 1, 1, 1, 0]"
  by (simp add: header_numbers_def sample_grid_def sample_hours_def z_range_def hour_values_def x_inc_def y_inc_def
      List.map_filter_def upt_rec)

lemma storable_small: "2 \<le> p \<Longrightarrow> 3 \<le> w \<Longrightarrow> storable p w 0 \<and> storable p w 1 \<and> storable p w 2"
proof -
  assume p: "2 \<le> p" and w: "3 \<le> w"
  have one: "(1 :: int) \<le> 2 ^ p" by simp
  have two: "(2 :: int) \<le> 2 ^ p" using power_increasing [of 1 p "2 :: int"] p by simp
  have "representable p 1" unfolding representable_def using one by (intro exI [of _ 1] exI [of _ 0]) simp
  moreover have "representable p 2" unfolding representable_def using two by (intro exI [of _ 2] exI [of _ 0]) simp
  moreover have "1 \<le> bias w" using w by (intro bias_facts) simp
  moreover have "magnitude 1 = 0" "magnitude 2 = 1" by (simp_all add: magnitude_def)
  ultimately show ?thesis using p by (simp add: storable_def fl_representable)
qed


subsection \<open>The bathymetry that is read\<close>

text \<open>GMT's native 16-bit grid: the dimensions, ten numbers, 800 bytes of text, the cells row by row.\<close>

definition short_grid :: "int \<Rightarrow> nat \<Rightarrow> nat \<Rightarrow> real list \<Rightarrow> bytes \<Rightarrow> (nat \<Rightarrow> nat \<Rightarrow> int) \<Rightarrow> bytes" where
  "short_grid offset m n ds texts vs =
     le_bytes 4 (nat (int n mod 2 ^ 32)) @ le_bytes 4 (nat (int m mod 2 ^ 32)) @ le_bytes 4 (nat (offset mod 2 ^ 32)) @
     concat (map pack_double ds) @ texts @
     concat (map (\<lambda>k. le_bytes 2 (nat (vs (k div n) (k mod n) mod 2 ^ 16))) [0..<m * n])"

lemma short_cell:
  assumes "- (2 ^ 15) \<le> v" and "v < 2 ^ 15"
  shows "unpack_short (le_bytes 2 (nat (v mod 2 ^ 16))) = v"
proof -
  have "nat (v mod 2 ^ 16) < 256 ^ 2" by (simp add: nat_less_iff)
  then show ?thesis using signed_value_mod [of 16 v] assms by (simp add: unpack_short_def le_value_bytes)
qed

lemma short_grid_cell:
  assumes "i < m" and "j < n" and "- (2 ^ 15) \<le> vs i j \<and> vs i j < 2 ^ 15"
  shows "unpack_short (slice (2 * (i * n + j)) 2
     (concat (map (\<lambda>k. le_bytes 2 (nat (vs (k div n) (k mod n) mod 2 ^ 16))) [0..<m * n]))) = vs i j"
  using slice_piece [of "map (\<lambda>k. le_bytes 2 (nat (vs (k div n) (k mod n) mod 2 ^ 16))) [0..<m * n]" 2 "i * n + j" "[]"]
    row_major [OF assms(1,2)] assms short_cell [of "vs i j"] by simp

text \<open>
  C0: A 16-bit grid is read cell by cell: the dimensions, the registration and the four edges come from
  the header, the reader ignores the other numbers and the text, the first row of the file is row 0, and
  the two values GMT writes for NaN are the cells without a depth.
\<close>

theorem bathymetry_is_read_cell_by_cell:
  assumes "int m < 2 ^ 31" and "int n < 2 ^ 31" and "- (2 ^ 31) \<le> offset \<and> offset < 2 ^ 31"
    and "length ds = 10" and "\<forall>k < 4. storable 53 11 (ds ! k)" and "length texts = 800"
    and "\<forall>i < m. \<forall>j < n. - (2 ^ 15) \<le> vs i j \<and> vs i j < 2 ^ 15"
  shows "\<exists>b. read_bathymetry (short_grid offset m n ds texts vs) = Inr b \<and> ny b = m \<and> nx b = n \<and> node_offset b = offset \<and>
     [x_min b, x_max b, y_min b, y_max b] = take 4 ds \<and>
     (\<forall>i < m. \<forall>j < n. depth b i j = (if vs i j \<in> {- 32768, 32767} then None else Some (of_int (vs i j))))"
proof -
  let ?bs = "short_grid offset m n ds texts vs"
  have ints: "pack_int (int n) = Inr (le_bytes 4 (nat (int n mod 2 ^ 32)))" "pack_int (int m) = Inr (le_bytes 4 (nat (int m mod 2 ^ 32)))"
      "pack_int offset = Inr (le_bytes 4 (nat (offset mod 2 ^ 32)))"
    using assms(1-3) by (simp_all only: pack_int_def) simp_all
  note dims = header_ints [OF ints]
  define head where "head = le_bytes 4 (nat (int n mod 2 ^ 32)) @ le_bytes 4 (nat (int m mod 2 ^ 32)) @ le_bytes 4 (nat (offset mod 2 ^ 32))"
  define cells where "cells = concat (map (\<lambda>k. le_bytes 2 (nat (vs (k div n) (k mod n) mod 2 ^ 16))) [0..<m * n])"
  have bs: "?bs = head @ concat (map pack_double ds) @ texts @ cells" by (simp add: short_grid_def head_def cells_def)
  have counts: "header_int ?bs 0 = int n" "header_int ?bs 1 = int m" "header_int ?bs 2 = offset"
    unfolding short_grid_def by (rule dims)+
  have edges: "header_double ?bs k = Some (ds ! k)" if "k < 4" for k
    using header_layout [of head ds k] that assms(4,5) unfolding bs by (simp add: head_def)
  have start: "length (head @ concat (map pack_double ds) @ texts) = HEADER_SIZE"
    using concat_pieces_length [of "map pack_double ds" 8] assms(4,6)
    by (simp add: head_def pack_double_def HEADER_SIZE_def FIXED_SIZE_def TEXT_WIDTHS_def)
  then have size: "length ?bs = HEADER_SIZE + 2 * (m * n)"
    using concat_pieces_length [of "map (\<lambda>k. le_bytes 2 (nat (vs (k div n) (k mod n) mod 2 ^ 16))) [0..<m * n]" 2]
    by (simp add: bs cells_def)
  have cell: "unpack_short (slice (HEADER_SIZE + 2 * (i * n + j)) 2 ?bs) = vs i j" if "i < m" "j < n" for i j
    using short_grid_cell [of i m j n vs, folded cells_def] slice_append [OF start, of "2 * (i * n + j)" 2 cells] that assms(7)
    by (simp add: bs)
  have "take 4 ds = [ds ! 0, ds ! 1, ds ! 2, ds ! 3]"
    using assms(4) by (simp add: numeral_eq_Suc take_Suc_conv_app_nth)
  then show ?thesis
    using size cell by (simp add: read_bathymetry_def Let_def counts counts(2) [unfolded One_nat_def] edges SHORT_NAN_def mult.commute)
qed

definition sample_cells :: "nat \<Rightarrow> nat \<Rightarrow> int" where
  "sample_cells = (\<lambda>i j. if j = 0 then - 4000 else 32767)"

lemma bathymetry_is_read_cell_by_cell_witness:
  "\<exists>b. read_bathymetry (short_grid 1 1 2 [0, 2, 0, 1, 0, 0, 1, 1, 1, 0] (replicate 800 0) sample_cells) = Inr b \<and>
     depth b 0 0 = Some (- 4000) \<and> depth b 0 1 = None"
proof -
  have edges: "\<forall>k < 4. storable 53 11 ([0, 2, 0, 1, 0, 0, 1, 1, 1, 0] ! k)"
    using storable_small [of 53 11] by (simp add: numeral_eq_Suc All_less_Suc)
  have cells: "\<forall>i < 1. \<forall>j < 2. - (2 ^ 15) \<le> sample_cells i j \<and> sample_cells i j < 2 ^ 15"
    by (simp add: sample_cells_def)
  obtain b where b: "read_bathymetry (short_grid 1 1 2 [0, 2, 0, 1, 0, 0, 1, 1, 1, 0] (replicate 800 0) sample_cells) = Inr b"
    and depths: "\<forall>i < 1. \<forall>j < 2. depth b i j = (if sample_cells i j \<in> {- 32768, 32767} then None else Some (of_int (sample_cells i j)))"
    using bathymetry_is_read_cell_by_cell [OF _ _ _ _ edges _ cells, of 1 "replicate 800 0"] by fastforce
  then show ?thesis using depths [rule_format, of 0 0] depths [rule_format, of 0 1] by (simp add: sample_cells_def)
qed

end
