(* ===== verification/Pipeline.thy ===== *)
theory Pipeline
  imports Files
begin

text \<open>
  The simulation pipeline (tsdhn/engine.py, pipeline/, utils/processing.py, utils/file_utils.py,
  external.py, render/copy.py): steps, completion markers and the loop that a resumed run
  enters again. A marker that is not text counts as none.
\<close>

subsection \<open>Steps\<close>

record step =
  st_name :: string
  st_outputs :: "string list"
  st_executables :: "string list"
  st_dir :: "string option"

definition step_directory :: "step \<Rightarrow> fs_path" where
  "step_directory s = (case st_dir s of None \<Rightarrow> [] | Some d \<Rightarrow> [d])"

definition output_paths :: "step \<Rightarrow> fs_path list" where
  "output_paths s = map (under (step_directory s)) (st_outputs s)"

definition PIPELINE_VERSION :: nat where
  "PIPELINE_VERSION = 1"

definition marker_path :: "step \<Rightarrow> fs_path" where
  "marker_path s = step_directory s @ [''.'' @ st_name s @ ''.complete'']"

fun join_comma :: "string list \<Rightarrow> string" where
  "join_comma [] = []"
| "join_comma [x] = x"
| "join_comma (x # xs) = x @ '','' @ join_comma xs"

text \<open>\<open>sha\<close> is \<open>hashlib.sha256(...).hexdigest()\<close>; \<open>''1''\<close> is the version.\<close>

definition fingerprint :: "(string \<Rightarrow> string) \<Rightarrow> step \<Rightarrow> string" where
  "fingerprint sha s = take 16 (sha (''1'' @ '':'' @ st_name s @ '':'' @ join_comma (st_outputs s)))"

definition missing_outputs :: "step \<Rightarrow> workspace \<Rightarrow> fs_path list" where
  "missing_outputs s fs = filter (\<lambda>p. fs p = None) (output_paths s)"

definition validate_outputs :: "step \<Rightarrow> workspace \<Rightarrow> exn + unit" where
  "validate_outputs s fs =
     (if missing_outputs s fs \<noteq> [] then Inl (FileNotFoundError (''Step did not produce: '' @ st_name s)) else Inr ())"

definition is_step_complete :: "(string \<Rightarrow> string) \<Rightarrow> step \<Rightarrow> workspace \<Rightarrow> bool" where
  "is_step_complete sha s fs =
     (case text_of (fs (marker_path s)) of
        Inl _ \<Rightarrow> False
      | Inr text \<Rightarrow> strip_by is_space text = fingerprint sha s \<and> is_ok (validate_outputs s fs))"

text \<open>
  What one attempt lets a step do: \<open>se_run\<close> is \<open>step.run\<close>, \<open>se_partial\<close> is what a write of the
  marker killed on its way leaves in the temporary file, \<open>se_cut\<close> a kill before the rename.
\<close>

record step_env =
  se_run :: "workspace \<Rightarrow> unit ending \<times> workspace"
  se_partial :: "content option"
  se_cut :: bool

definition write_marker :: "(string \<Rightarrow> string) \<Rightarrow> step \<Rightarrow> step_env \<Rightarrow> workspace \<Rightarrow> unit ending \<times> workspace" where
  "write_marker sha s env =
     atomic_write (marker_path s)
       (\<lambda>tmp fs. case se_partial env of
            Some part \<Rightarrow> (Killed, fs(tmp \<mapsto> part))
          | None \<Rightarrow> (Ret (Inr ()), fs(tmp \<mapsto> Text (fingerprint sha s))))
       (se_cut env)"

definition process_step :: "(string \<Rightarrow> string) \<Rightarrow> step \<Rightarrow> step_env \<Rightarrow> workspace \<Rightarrow> unit ending \<times> workspace" where
  "process_step sha s env fs =
     and_then (se_run env fs) (\<lambda>_ fs1.
       case validate_outputs s fs1 of
         Inl e \<Rightarrow> (Ret (Inl e), fs1)
       | Inr _ \<Rightarrow> write_marker sha s env fs1)"

subsection \<open>The loop\<close>

text \<open>\<open>progress m\<close> is what the callback does with message \<open>m\<close>: it may raise, or never return.\<close>

fun run_steps ::
  "(string \<Rightarrow> string) \<Rightarrow> bool \<Rightarrow> (string \<Rightarrow> unit ending) \<Rightarrow> (string \<Rightarrow> step_env) \<Rightarrow> step list \<Rightarrow> workspace
   \<Rightarrow> unit ending \<times> workspace" where
  "run_steps sha resume progress env [] fs = (Ret (Inr ()), fs)"
| "run_steps sha resume progress env (s # ss) fs =
     (if resume \<and> is_step_complete sha s fs
      then and_then (progress (''Skipping completed step '' @ st_name s), fs)
             (\<lambda>_. run_steps sha resume progress env ss)
      else and_then (progress (''Processing '' @ st_name s), fs) (\<lambda>_ fs1.
             and_then (process_step sha s (env (st_name s)) fs1)
               (\<lambda>_. run_steps sha resume progress env ss)))"

subsection \<open>Executables\<close>

text \<open>\<open>which\<close> is \<open>shutil.which\<close>; the first name without a path raises.\<close>

definition ensure_executables :: "(string \<Rightarrow> string option) \<Rightarrow> string list \<Rightarrow> exn + unit" where
  "ensure_executables which names =
     (case filter (\<lambda>n. which n = None) (remdups names) of
        [] \<Rightarrow> Inr ()
      | _ \<Rightarrow> Inl (RuntimeError ''Required executable not found on PATH''))"

subsection \<open>The workspace\<close>

definition WORKSPACE_INPUTS :: "string list" where
  "WORKSPACE_INPUTS = [''mecfoc.dat'', ''tidal.dat'', ''bathy/grid_a.grd'', ''bathy/xa.dat'', ''bathy/ya.dat'',
     ''ttt_mundo/cortado.i2'']"

text \<open>
  A link to a file of the model directory reads as that file. Where links cannot be made the file
  is copied; \<open>torn\<close> gives the paths at whose copy the process is killed, with what is there then.
\<close>

fun link_inputs :: "workspace \<Rightarrow> workspace \<Rightarrow> string list \<Rightarrow> workspace \<Rightarrow> unit ending \<times> workspace" where
  "link_inputs model torn [] fs = (Ret (Inr ()), fs)"
| "link_inputs model torn (n # ns) fs =
     (case model (under [] n) of
        None \<Rightarrow> (Ret (Inl (FileNotFoundError ''Required model input missing'')), fs)
      | Some c \<Rightarrow>
          if fs (under [] n) \<noteq> None then link_inputs model torn ns fs
          else (case torn (under [] n) of
                  Some part \<Rightarrow> (Killed, fs(under [] n \<mapsto> part))
                | None \<Rightarrow> link_inputs model torn ns (fs(under [] n \<mapsto> c))))"

definition prepare_simulation_workspace ::
  "workspace \<Rightarrow> workspace \<Rightarrow> bool \<Rightarrow> workspace \<Rightarrow> unit ending \<times> workspace" where
  "prepare_simulation_workspace model torn resume fs =
     link_inputs model torn WORKSPACE_INPUTS (if resume then fs else (\<lambda>_. None))"

subsection \<open>The registry\<close>

definition PROCESSING_PIPELINE :: "step list" where
  "PROCESSING_PIPELINE =
    [\<lparr> st_name = ''fault_plane'', st_outputs = [''pfalla.inp'', ''xyo.dat'', ''meca.dat''],
       st_executables = [], st_dir = None \<rparr>,
     \<lparr> st_name = ''deform'', st_outputs = [''deform_a.grd''], st_executables = [], st_dir = None \<rparr>,
     \<lparr> st_name = ''tsunami'', st_outputs = [''zfolder/green.dat'', ''zfolder/zmax_a.grd''],
       st_executables = [], st_dir = None \<rparr>,
     \<lparr> st_name = ''maxola'', st_outputs = [''maxola.pdf''], st_executables = [''gmt''], st_dir = None \<rparr>,
     \<lparr> st_name = ''ttt_max'', st_outputs = [''zfolder/green_rev.dat'', ''ttt_max.dat'', ''mareograma.svg''],
       st_executables = [], st_dir = None \<rparr>]"

definition TTT_MUNDO_PIPELINE :: "step list" where
  "TTT_MUNDO_PIPELINE =
    [\<lparr> st_name = ''ttt_inverso'', st_outputs = [''ttt.b''], st_executables = [''gmt'', ''ttt_client''],
       st_dir = Some ''ttt_mundo'' \<rparr>,
     \<lparr> st_name = ''point_ttt'', st_outputs = [''ttt.pdf''], st_executables = [''gmt''], st_dir = Some ''ttt_mundo'' \<rparr>,
     \<lparr> st_name = ''copy_ttt_pdf'', st_outputs = [''../ttt.pdf''], st_executables = [],
       st_dir = Some ''ttt_mundo'' \<rparr>]"

definition DEFAULT_PIPELINE :: "step list" where
  "DEFAULT_PIPELINE = PROCESSING_PIPELINE @ TTT_MUNDO_PIPELINE"

text \<open>\<open>copy_ttt_pdf\<close>: the last step copies between two directories of the workspace; killed, it
  leaves part of the copy.\<close>

definition copy_ttt_pdf :: "content option \<Rightarrow> workspace \<Rightarrow> unit ending \<times> workspace" where
  "copy_ttt_pdf partial_copy fs =
     (case (fs [''ttt_mundo'', ''ttt.pdf''], partial_copy) of
        (None, _) \<Rightarrow> (Ret (Inl (FileNotFoundError ''ttt.pdf'')), fs)
      | (Some _, Some part) \<Rightarrow> (Killed, fs([''ttt.pdf''] \<mapsto> part))
      | (Some c, None) \<Rightarrow> (Ret (Inr ()), fs([''ttt.pdf''] \<mapsto> c)))"

subsection \<open>The engine\<close>

text \<open>
  What one attempt of \<open>SimulationEngine.run\<close> depends on: the model files, \<open>which\<close>, the calls of
  the calculator, the steps and the callback. The first call of the calculator writes hypo.dat, in
  place: when it raises or is killed, \<open>ee_hypo_left\<close> says what is in the file, from what was.
\<close>

record engine_env =
  ee_model :: workspace
  ee_torn :: workspace
  ee_which :: "string \<Rightarrow> string option"
  ee_resolve :: "unit ending"
  ee_calculate :: "unit ending"
  ee_hypo :: string
  ee_hypo_left :: "content option \<Rightarrow> content option"
  ee_travel_times :: "unit ending"
  ee_steps :: "string \<Rightarrow> step_env"
  ee_progress :: "string \<Rightarrow> unit ending"
  ee_write :: "workspace \<Rightarrow> unit ending \<times> workspace"

definition HYPO_DAT :: fs_path where
  "HYPO_DAT = [''hypo.dat'']"

definition engine_run ::
  "(string \<Rightarrow> string) \<Rightarrow> step list \<Rightarrow> bool \<Rightarrow> engine_env \<Rightarrow> workspace \<Rightarrow> unit ending \<times> workspace" where
  "engine_run sha steps resume env fs =
     and_then (ee_resolve env, fs) (\<lambda>_ fs.
     and_then (prepare_simulation_workspace (ee_model env) (ee_torn env) resume fs) (\<lambda>_ fs.
     and_then (ee_progress env ''Running earthquake calculations'', fs) (\<lambda>_ fs.
     and_then (ee_calculate env, fs(HYPO_DAT := (if ee_calculate env = Ret (Inr ()) then Some (Text (ee_hypo env))
                                                 else ee_hypo_left env (fs HYPO_DAT)))) (\<lambda>_ fs.
     and_then (ee_progress env ''Earthquake calculations complete'', fs) (\<lambda>_ fs.
     and_then (ee_progress env ''Calculating tsunami travel times'', fs) (\<lambda>_ fs.
     and_then (ee_travel_times env, fs) (\<lambda>_ fs.
     and_then (ee_progress env ''Tsunami calculations complete'', fs) (\<lambda>_ fs.
     and_then (Ret (ensure_executables (ee_which env) (concat (map st_executables steps))), fs) (\<lambda>_ fs.
     and_then (run_steps sha resume (ee_progress env) (ee_steps env) steps fs) (\<lambda>_ fs.
     and_then (ee_write env fs) (\<lambda>_ fs.
       (ee_progress env ''Simulation completed successfully'', fs))))))))))))"

definition output_list :: "workspace \<Rightarrow> (string \<times> string \<times> string) list" where
  "output_list fs =
     [(''input'', ''input.json'', ''application/json''), (''runtime'', ''runtime.json'', ''application/json''),
      (''calculation'', ''calculation.json'', ''application/json''),
      (''travel_times_json'', ''travel_times.json'', ''application/json''),
      (''travel_times_csv'', ''travel_times.csv'', ''text/csv'')] @
     filter (\<lambda>(name, file, kind). fs [file] \<noteq> None)
       [(''max_height_map'', ''maxola.pdf'', ''application/pdf''),
        (''arrival_time_map'', ''ttt.pdf'', ''application/pdf''),
        (''mareogram'', ''mareograma.svg'', ''image/svg+xml'')]"

end
