(* ===== verification/Tsunami.thy ===== *)
theory Tsunami
  imports Pipeline
begin

text \<open>
  The tsunami step (tsdhn/tsunami.py): the linear shallow-water solver on the staggered grid,
  its gauges and maximum heights, the checkpoint it writes every 2000 steps and \<open>run_tsunami\<close>.
  Every float32 operation of the kernels is rounded as the code rounds it (\<open>f32\<close>, exponents
  unbounded, infinities and NaN outside the model); the cells of a parallel pass are written
  independently, so a pass is a function of the arrays it reads. \<open>libm\<close> is numpy's float32
  cosine and arctangent.
\<close>

subsection \<open>Constants\<close>

definition IA :: nat where "IA = 2461"
definition JA :: nat where "JA = 2056"
definition KE :: nat where "KE = 33602"
definition KD :: nat where "KD = 20"
definition NG :: nat where "NG = 17"
definition CHECKPOINT_INTERVAL :: nat where "CHECKPOINT_INTERVAL = 2000"

definition DELTA :: real where "DELTA = f32 (f32 240 / f32 3600)"
definition DT :: real where "DT = 3"
definition RT :: real where "RT = f32 6370000"
definition BLATA :: real where "BLATA = f32 (- 76006 / 1000)"
definition GG :: real where "GG = f32 (980665 / 100000)"
definition FLUSH :: real where "FLUSH = f32 (1 / 100000)"

record libm =
  np_cos :: "real \<Rightarrow> real"
  np_arctan :: "real \<Rightarrow> real"

definition PI32 :: "libm \<Rightarrow> real" where
  "PI32 m = f32 (4 * np_arctan m 1)"

definition DA :: "libm \<Rightarrow> real" where
  "DA m = f32 (f32 (PI32 m * DELTA) / 180)"

subsection \<open>Reading the inputs\<close>

definition value_error :: "'a option \<Rightarrow> exn + 'a" where
  "value_error r = (case r of None \<Rightarrow> Inl (ValueError ''could not convert'') | Some x \<Rightarrow> Inr x)"

definition read_xyo_dat :: "string \<Rightarrow> exn + (int \<times> int \<times> int \<times> int)" where
  "read_xyo_dat text =
     (case map (map_option trunc \<circ> py_float) (split_ws text) of
        [Some ids, Some ide, Some jds, Some jde] \<Rightarrow> Inr (ids, ide, jds, jde)
      | _ \<Rightarrow> Inl (ValueError ''xyo.dat''))"

definition tidal_lines :: "string \<Rightarrow> string list" where
  "tidal_lines text = filter (\<lambda>l. strip_by is_space l \<noteq> []) (splitlines text)"

definition read_gauge :: "string \<Rightarrow> (int \<times> int) option" where
  "read_gauge line =
     (case take 3 (split_ws line) of
        [name, i, j] \<Rightarrow> (case (py_int i, py_int j) of (Some a, Some b) \<Rightarrow> Some (a, b) | _ \<Rightarrow> None)
      | _ \<Rightarrow> None)"

text \<open>\<open>junk\<close> is what \<open>np.empty\<close> leaves in the entries no line fills.\<close>

definition read_tidal_dat :: "(nat \<Rightarrow> int \<times> int) \<Rightarrow> string \<Rightarrow> exn + (int \<times> int) list" where
  "read_tidal_dat junk text =
     bind_ok (value_error (all_some (map read_gauge (take NG (tidal_lines text)))))
       (\<lambda>gs. Inr (gs @ map junk [length gs..<NG]))"

definition floor_depth :: "real \<Rightarrow> real" where
  "floor_depth d = (if 0 < d \<and> d < 10 then 10 else d)"

definition from_rows :: "real list list \<Rightarrow> field" where
  "from_rows vs i j = (if i < length vs \<and> j < length (vs ! i) then vs ! i ! j else 0)"

definition read_grid_a :: "string \<Rightarrow> exn + field" where
  "read_grid_a text =
     bind_ok (value_error (loadtxt Float32 text)) (\<lambda>vs.
       if length vs \<noteq> IA \<or> length (hd vs) \<noteq> JA then Inl (ValueError ''Unexpected grid_a.grd shape'')
       else Inr (\<lambda>i j. floor_depth (from_rows vs i j)))"

definition read_deform_a :: "string \<Rightarrow> int \<Rightarrow> int \<Rightarrow> int \<Rightarrow> int \<Rightarrow> exn + (int \<times> int \<times> field)" where
  "read_deform_a text ids ide jds jde =
     bind_ok (value_error (all_some (map (read_number Float32) (split_ws text)))) (\<lambda>vs.
       let rows = ide - ids + 1; cols = jde - jds + 1 in
       if int (length vs) \<noteq> rows * cols then Inl (ValueError ''Unexpected deform_a.grd size'')
       else if rows < 0 \<or> cols < 0 then Inl (ValueError ''cannot reshape'')
       else Inr (rows, cols, \<lambda>i j. if int i < rows \<and> int j < cols then vs ! (i * nat cols + j) else 0))"

subsection \<open>Depths and factors\<close>

definition hmn_m :: "field \<Rightarrow> field" where
  "hmn_m h i j = (if i < IA - 1 then f32 (1 / 2 * f32 (h i j + h (Suc i) j)) else h i j)"

definition hmn_n :: "field \<Rightarrow> field" where
  "hmn_n h i j = (if j < JA - 1 then f32 (1 / 2 * f32 (h i j + h i (Suc j))) else h i j)"

text \<open>Latitudes advance by repeated float32 addition.\<close>

primrec walk :: "libm \<Rightarrow> real \<Rightarrow> nat \<Rightarrow> real" where
  "walk m r 0 = r"
| "walk m r (Suc j) = f32 (walk m r j + DA m)"

definition RZ0 :: "libm \<Rightarrow> real" where
  "RZ0 m = f32 (f32 (BLATA * PI32 m) / 180)"

definition RN0 :: "libm \<Rightarrow> real" where
  "RN0 m = f32 (RZ0 m + f32 (DA m / 2))"

definition prelim_rx :: "libm \<Rightarrow> nat \<Rightarrow> real" where
  "prelim_rx m j = f32 (DT / f32 (f32 (RT * np_cos m (walk m (RZ0 m) j)) * DA m))"

definition prelim_cj :: "libm \<Rightarrow> nat \<Rightarrow> real" where
  "prelim_cj m j = np_cos m (walk m (RN0 m) j)"

definition prelim_xx :: "libm \<Rightarrow> field \<Rightarrow> field" where
  "prelim_xx m h i j = f32 (f32 (prelim_rx m j * GG) * hmn_m h i j)"

definition prelim_yy :: "libm \<Rightarrow> field \<Rightarrow> field" where
  "prelim_yy m h i j = f32 (f32 (f32 (DT * GG) * hmn_n h i j) / f32 (RT * DA m))"

subsection \<open>The kernels\<close>

text \<open>The kernels take their shape from \<open>h\<close>: \<open>ia\<close> by \<open>ja\<close>.\<close>

definition flush :: "real \<Rightarrow> real" where
  "flush z = (if \<bar>z\<bar> < FLUSH then 0 else z)"

definition mass_cell :: "(nat \<Rightarrow> real) \<Rightarrow> (nat \<Rightarrow> real) \<Rightarrow> field \<Rightarrow> field \<Rightarrow> field \<Rightarrow> field \<Rightarrow> nat \<Rightarrow> nat \<Rightarrow> real" where
  "mass_cell rx cj z1 m1 n1 h i j =
     (if h i j > 0
      then flush (f32 (f32 (z1 i j - f32 (rx j * f32 (m1 i j - m1 (i - 1) j))) -
             f32 (rx j * f32 (f32 (n1 i j * cj j) - f32 (n1 i (j - 1) * cj (j - 1))))))
      else 0)"

definition mass ::
  "nat \<Rightarrow> nat \<Rightarrow> field \<Rightarrow> field \<Rightarrow> field \<Rightarrow> field \<Rightarrow> field \<Rightarrow> (nat \<Rightarrow> real) \<Rightarrow> (nat \<Rightarrow> real) \<Rightarrow> field" where
  "mass ia ja z1 z2 m1 n1 h rx cj =
     (\<lambda>i j. if 1 \<le> i \<and> i < ia \<and> 1 \<le> j \<and> j < ja then mass_cell rx cj z1 m1 n1 h i j else z2 i j)"

text \<open>
  The elevation radiated at an edge cell of depth \<open>d\<close>: \<open>u1\<close>, \<open>u2\<close> the discharges along the edge,
  \<open>edge\<close> the one across it. A zero depth divides by zero.
\<close>

definition radiated :: "real \<Rightarrow> real \<Rightarrow> real \<Rightarrow> real \<Rightarrow> real" where
  "radiated d u1 u2 edge =
     (let cc = f32 (sqrt (f32 (GG * d))); uu = f32 (1 / 2 * \<bar>f32 (u1 + u2)\<bar>)
      in f32 (f32 (sqrt (f32 (f32 (uu * uu) + f32 (edge * edge)))) / cc))"

text \<open>One pass writes the cells of \<open>cells\<close> that are not dry; \<open>val\<close> gives the elevations.\<close>

definition edge_pass ::
  "(nat \<times> nat) list \<Rightarrow> field \<Rightarrow> (nat \<Rightarrow> nat \<Rightarrow> real) \<Rightarrow> exn + field \<Rightarrow> exn + field" where
  "edge_pass cells h val z =
     bind_ok z (\<lambda>z2.
       if \<exists>(i, j) \<in> set cells. h i j = 0 then Inl (OtherError ''ZeroDivisionError'')
       else Inr (\<lambda>i j. if (i, j) \<in> set cells \<and> \<not> h i j < 0 then val i j else z2 i j))"

definition south_value :: "field \<Rightarrow> field \<Rightarrow> field \<Rightarrow> nat \<Rightarrow> nat \<Rightarrow> real" where
  "south_value m n h i j =
     (let edge = n i j; zz = radiated (h i j) (m i j) (m (i - 1) j) edge in if edge > 0 then - zz else zz)"

definition north_value :: "field \<Rightarrow> field \<Rightarrow> field \<Rightarrow> nat \<Rightarrow> nat \<Rightarrow> real" where
  "north_value m n h i j =
     (let edge = n i (j - 1); zz = radiated (h i j) (m i j) (m (i - 1) j) edge in if edge < 0 then - zz else zz)"

definition west_value :: "field \<Rightarrow> field \<Rightarrow> field \<Rightarrow> nat \<Rightarrow> nat \<Rightarrow> real" where
  "west_value m n h i j =
     (let edge = m i j; zz = radiated (h i j) (n i j) (n i (j - 1)) edge in if edge > 0 then - zz else zz)"

definition east_value :: "field \<Rightarrow> field \<Rightarrow> field \<Rightarrow> nat \<Rightarrow> nat \<Rightarrow> real" where
  "east_value m n h i j =
     (let edge = m (i - 1) j; zz = radiated (h i j) (n i j) (n i (j - 1)) edge in if edge < 0 then - zz else zz)"

definition bout :: "nat \<Rightarrow> nat \<Rightarrow> field \<Rightarrow> field \<Rightarrow> field \<Rightarrow> field \<Rightarrow> exn + field" where
  "bout ia ja z2 m n h =
     edge_pass (map (\<lambda>j. (ia - 1, j)) [1..<ja - 1]) h (east_value m n h)
     (edge_pass (map (\<lambda>j. (1, j)) [1..<ja - 1]) h (west_value m n h)
     (edge_pass (map (\<lambda>i. (i, ja - 1)) [1..<ia - 1]) h (north_value m n h)
     (edge_pass (map (\<lambda>i. (i, 1)) [1..<ia - 1]) h (south_value m n h) (Inr z2))))"

definition momentum_m :: "nat \<Rightarrow> nat \<Rightarrow> field \<Rightarrow> field \<Rightarrow> field \<Rightarrow> field \<Rightarrow> field \<Rightarrow> field" where
  "momentum_m ia ja z2 m1 m2 h xx =
     (\<lambda>i j. if 1 \<le> i \<and> i < ia - 1 \<and> 1 \<le> j \<and> j < ja
        then (if h i j > 0 \<and> h (Suc i) j > 0
              then flush (f32 (m1 i j - f32 (xx i j * f32 (z2 (Suc i) j - z2 i j)))) else 0)
        else m2 i j)"

definition momentum_n :: "nat \<Rightarrow> nat \<Rightarrow> field \<Rightarrow> field \<Rightarrow> field \<Rightarrow> field \<Rightarrow> field \<Rightarrow> field" where
  "momentum_n ia ja z2 n1 n2 h yy =
     (\<lambda>i j. if 1 \<le> i \<and> i < ia \<and> 1 \<le> j \<and> j < ja - 1
        then (if h i j > 0 \<and> h i (Suc j) > 0
              then flush (f32 (n1 i j - f32 (yy i j * f32 (z2 i (Suc j) - z2 i j)))) else 0)
        else n2 i j)"


subsection \<open>One step\<close>

text \<open>What stays fixed during a run.\<close>

record sea =
  s_h :: field
  s_rx :: "nat \<Rightarrow> real"
  s_cj :: "nat \<Rightarrow> real"
  s_xx :: field
  s_yy :: field
  s_gauges :: "(int \<times> int) list"

text \<open>The time levels, the maximum grid and the gauge rows.\<close>

record levels =
  z1 :: field
  z2 :: field
  m1 :: field
  m2 :: field
  n1 :: field
  n2 :: field
  zmxa :: field
  gauge_rows :: "(real \<times> real list) list"

text \<open>An index of a numpy axis of length \<open>n\<close>: negative ones count from the end.\<close>

definition axis_index :: "nat \<Rightarrow> int \<Rightarrow> nat option" where
  "axis_index n x = (if - int n \<le> x \<and> x < int n then Some (nat (x mod int n)) else None)"

definition pick :: "field \<Rightarrow> int \<times> int \<Rightarrow> real option" where
  "pick z g =
     (case (axis_index IA (fst g), axis_index JA (snd g)) of (Some i, Some j) \<Rightarrow> Some (z i j) | _ \<Rightarrow> None)"

definition sample_gauges :: "(int \<times> int) list \<Rightarrow> field \<Rightarrow> exn + real list" where
  "sample_gauges gauges z =
     (case all_some (map (pick z) gauges) of None \<Rightarrow> Inl (OtherError ''IndexError'') | Some v \<Rightarrow> Inr v)"

text \<open>Step \<open>k\<close> of \<open>run_tsunami\<close>'s loop, the buffers swapped at its end.\<close>

definition tsunami_step :: "sea \<Rightarrow> nat \<Rightarrow> levels \<Rightarrow> exn + levels" where
  "tsunami_step s k l =
     (let kk = k - 1; z0 = mass IA JA (z1 l) (z2 l) (m1 l) (n1 l) (s_h s) (s_rx s) (s_cj s) in
      bind_ok (bout IA JA z0 (m1 l) (n1 l) (s_h s)) (\<lambda>z.
        let m = momentum_m IA JA z (m1 l) (m2 l) (s_h s) (s_xx s);
            n = momentum_n IA JA z (n1 l) (n2 l) (s_h s) (s_yy s);
            l' = \<lparr> z1 = z, z2 = z1 l, m1 = m, m2 = m1 l, n1 = n, n2 = n1 l, zmxa = zmxa l, gauge_rows = gauge_rows l \<rparr>
        in if kk mod KD = 0
           then bind_ok (sample_gauges (s_gauges s) z) (\<lambda>v.
                  Inr (l'\<lparr> zmxa := (\<lambda>i j. max (zmxa l i j) (z i j)),
                        gauge_rows := gauge_rows l @ [(f64 (real kk * DT / 60), v)] \<rparr>))
           else Inr l'))"

text \<open>The first \<open>k\<close> steps from \<open>l\<close>.\<close>

fun tsunami_steps :: "sea \<Rightarrow> nat \<Rightarrow> levels \<Rightarrow> exn + levels" where
  "tsunami_steps s 0 l = Inr l"
| "tsunami_steps s (Suc k) l = bind_ok (tsunami_steps s k l) (tsunami_step s (Suc k))"

subsection \<open>Checkpoints\<close>

definition level_fields :: "(string \<times> (levels \<Rightarrow> field)) list" where
  "level_fields = [(''z1'', z1), (''z2'', z2), (''m1'', m1), (''m2'', m2), (''n1'', n1), (''n2'', n2), (''zmxa'', zmxa)]"

definition checkpoint_entries :: "nat \<Rightarrow> levels \<Rightarrow> (string \<times> entry) list" where
  "checkpoint_entries k l =
     [(''pipeline_version'', Scalar (int PIPELINE_VERSION)), (''k'', Scalar (int k))] @
     map (\<lambda>(name, f). (name, Grid IA JA Float32 (f l))) level_fields @
     [(''gauge_minutes'', Vector (map fst (gauge_rows l))),
      (''gauge_values'',
         Table (length (gauge_rows l)) (if gauge_rows l = [] then 0 else length (snd (hd (gauge_rows l))))
           (map snd (gauge_rows l)))]"

definition checkpoint_content :: "nat \<Rightarrow> levels \<Rightarrow> content" where
  "checkpoint_content k l = Npz (map_of (checkpoint_entries k l))"

definition checkpoint_grid :: "(string \<Rightarrow> entry option) \<Rightarrow> string \<Rightarrow> field option" where
  "checkpoint_grid data name =
     (case data name of Some (Grid ia ja d f) \<Rightarrow> if ia = IA \<and> ja = JA \<and> d = Float32 then Some f else None | _ \<Rightarrow> None)"

definition checkpoint_scalar :: "(string \<Rightarrow> entry option) \<Rightarrow> string \<Rightarrow> int option" where
  "checkpoint_scalar data name = (case data name of Some (Scalar v) \<Rightarrow> Some v | _ \<Rightarrow> None)"

definition checkpoint_gauges :: "nat \<Rightarrow> (string \<Rightarrow> entry option) \<Rightarrow> (real \<times> real list) list option" where
  "checkpoint_gauges n_gauges data =
     (case (data ''gauge_minutes'', data ''gauge_values'') of
        (Some (Vector ts), Some (Table rows cols vs)) \<Rightarrow>
          if (rows \<noteq> 0 \<and> cols \<noteq> n_gauges) \<or> length ts \<noteq> length vs then None else Some (zip ts vs)
      | _ \<Rightarrow> None)"

text \<open>\<open>_read_checkpoint\<close>: whatever is wrong with the file, the run starts from step 0.\<close>

definition read_checkpoint :: "nat \<Rightarrow> content option \<Rightarrow> (nat \<times> levels) option" where
  "read_checkpoint n_gauges file =
     (case file of
        Some (Npz data) \<Rightarrow>
          (case (checkpoint_scalar data ''pipeline_version'', checkpoint_scalar data ''k'',
                 all_some (map (\<lambda>(name, f). checkpoint_grid data name) level_fields), checkpoint_gauges n_gauges data) of
             (Some version, Some k, Some [a, b, c, d, e, f, g], Some rows) \<Rightarrow>
               if version \<noteq> int PIPELINE_VERSION \<or> k < 0 \<or> int KE < k then None
               else Some (nat k, \<lparr> z1 = a, z2 = b, m1 = c, m2 = d, n1 = e, n2 = f, zmxa = g, gauge_rows = rows \<rparr>)
           | _ \<Rightarrow> None)
      | _ \<Rightarrow> None)"

subsection \<open>The run\<close>

definition XYO_DAT :: fs_path where "XYO_DAT = [''xyo.dat'']"
definition TIDAL_DAT :: fs_path where "TIDAL_DAT = [''tidal.dat'']"
definition GRID_A :: fs_path where "GRID_A = [''bathy'', ''grid_a.grd'']"
definition DEFORM_A :: fs_path where "DEFORM_A = [''deform_a.grd'']"
definition CHECKPOINT :: fs_path where "CHECKPOINT = [''zfolder'', ''_checkpoint.npz'']"
definition GREEN_DAT :: fs_path where "GREEN_DAT = [''zfolder'', ''green.dat'']"
definition ZMAX_A :: fs_path where "ZMAX_A = [''zfolder'', ''zmax_a.grd'']"

text \<open>Where an attempt may raise or be killed besides the errors of the code itself.\<close>

datatype moment =
    Reading | Stepping nat | Saving nat | Renaming nat | Writing_green | Renaming_green
  | Writing_zmax | Renaming_zmax | Unlinking

record tsunami_env =
  te_libm :: libm
  te_junk :: "nat \<Rightarrow> int \<times> int"
  te_event :: "moment \<Rightarrow> unit ending"
  te_partial :: "moment \<Rightarrow> content"

text \<open>A write under \<open>atomic_write\<close>: the block may end early with part of the file written.\<close>

definition write_file ::
  "tsunami_env \<Rightarrow> moment \<Rightarrow> moment \<Rightarrow> fs_path \<Rightarrow> content \<Rightarrow> workspace \<Rightarrow> unit ending \<times> workspace" where
  "write_file env body rename p c =
     atomic_write p
       (\<lambda>tmp fs. case te_event env body of
            Ret (Inr _) \<Rightarrow> (Ret (Inr ()), fs(tmp \<mapsto> c))
          | e \<Rightarrow> (e, fs(tmp \<mapsto> te_partial env body)))
       (te_event env rename = Killed)"

definition green_text :: "(real \<times> real list) list \<Rightarrow> string" where
  "green_text rows = concat (map (\<lambda>(t, vs). fixed 7 1 t @ concat (map (fixed 7 3) vs) @ [CHR 0x0A]) rows)"

definition zmax_text :: "field \<Rightarrow> string" where
  "zmax_text z = concat (map (\<lambda>i. concat (map (\<lambda>j. fixed 8 3 (z i j)) [0..<JA]) @ [CHR 0x0A]) [0..<IA])"

text \<open>\<open>a[lo:hi]\<close> on an axis of length \<open>n\<close>.\<close>

definition slice_bound :: "nat \<Rightarrow> int \<Rightarrow> int" where
  "slice_bound n x = (if x < 0 then max 0 (x + int n) else min x (int n))"

definition slice_length :: "nat \<Rightarrow> int \<Rightarrow> int \<Rightarrow> int" where
  "slice_length n lo hi = max 0 (slice_bound n hi - slice_bound n lo)"

text \<open>\<open>z1[ids - 1 : ide, jds - 1 : jde] = values\<close>; axes of length 1 are broadcast.\<close>

definition place_window :: "int \<Rightarrow> int \<Rightarrow> int \<Rightarrow> int \<Rightarrow> int \<times> int \<times> field \<Rightarrow> exn + field" where
  "place_window ids ide jds jde values =
     (let (rows, cols, v) = values;
          i0 = slice_bound IA (ids - 1); li = slice_length IA (ids - 1) ide;
          j0 = slice_bound JA (jds - 1); lj = slice_length JA (jds - 1) jde
      in if (rows = li \<or> rows = 1) \<and> (cols = lj \<or> cols = 1)
         then Inr (\<lambda>i j. if i0 \<le> int i \<and> int i < i0 + li \<and> j0 \<le> int j \<and> int j < j0 + lj
                then v (if rows = 1 then 0 else nat (int i - i0)) (if cols = 1 then 0 else nat (int j - j0)) else 0)
         else Inl (ValueError ''could not broadcast''))"

text \<open>The inputs read on every attempt: the window, and what stays fixed.\<close>

definition read_inputs :: "tsunami_env \<Rightarrow> workspace \<Rightarrow> exn + ((int \<times> int \<times> int \<times> int) \<times> sea)" where
  "read_inputs env fs =
     bind_ok (bind_ok (text_of (fs XYO_DAT)) read_xyo_dat) (\<lambda>window.
     bind_ok (bind_ok (text_of (fs TIDAL_DAT)) (read_tidal_dat (te_junk env))) (\<lambda>gauges.
     bind_ok (bind_ok (text_of (fs GRID_A)) read_grid_a) (\<lambda>h.
       Inr (window, \<lparr> s_h = h, s_rx = prelim_rx (te_libm env), s_cj = prelim_cj (te_libm env),
                      s_xx = prelim_xx (te_libm env) h, s_yy = prelim_yy (te_libm env) h,
                      s_gauges = map (\<lambda>(i, j). (i - 1, j - 1)) gauges \<rparr>))))"

definition zeros :: field where "zeros i j = 0"

definition initial_levels :: "int \<times> int \<times> int \<times> int \<Rightarrow> workspace \<Rightarrow> exn + levels" where
  "initial_levels window fs =
     (case window of (ids, ide, jds, jde) \<Rightarrow>
        bind_ok (bind_ok (text_of (fs DEFORM_A)) (\<lambda>t. read_deform_a t ids ide jds jde)) (\<lambda>values.
        bind_ok (place_window ids ide jds jde values) (\<lambda>z.
          Inr \<lparr> z1 = z, z2 = zeros, m1 = zeros, m2 = zeros, n1 = zeros, n2 = zeros, zmxa = zeros, gauge_rows = [] \<rparr>)))"

text \<open>\<open>n\<close> more steps after step \<open>k\<close>.\<close>

primrec tsunami_loop ::
  "tsunami_env \<Rightarrow> sea \<Rightarrow> nat \<Rightarrow> nat \<Rightarrow> levels \<Rightarrow> workspace \<Rightarrow> levels ending \<times> workspace" where
  "tsunami_loop env s 0 k l fs = (Ret (Inr l), fs)"
| "tsunami_loop env s (Suc n) k l fs =
     and_then (te_event env (Stepping (Suc k)), fs) (\<lambda>_ fs.
     and_then (Ret (tsunami_step s (Suc k) l), fs) (\<lambda>l' fs.
     and_then (if Suc k mod CHECKPOINT_INTERVAL = 0
               then write_file env (Saving (Suc k)) (Renaming (Suc k)) CHECKPOINT (checkpoint_content (Suc k) l') fs
               else (Ret (Inr ()), fs)) (\<lambda>_ fs.
       tsunami_loop env s n (Suc k) l' fs)))"

definition run_tsunami :: "tsunami_env \<Rightarrow> workspace \<Rightarrow> unit ending \<times> workspace" where
  "run_tsunami env fs =
     and_then (te_event env Reading, fs) (\<lambda>_ fs.
     and_then (Ret (read_inputs env fs), fs) (\<lambda>(window, s) fs.
     and_then (Ret (case read_checkpoint (length (s_gauges s)) (fs CHECKPOINT) of
                      Some start \<Rightarrow> Inr start
                    | None \<Rightarrow> bind_ok (initial_levels window fs) (\<lambda>l. Inr (0, l))), fs) (\<lambda>(k, l) fs.
     and_then (tsunami_loop env s (KE - k) k l fs) (\<lambda>l fs.
     and_then (write_file env Writing_green Renaming_green GREEN_DAT (Text (green_text (gauge_rows l))) fs) (\<lambda>_ fs.
     and_then (write_file env Writing_zmax Renaming_zmax ZMAX_A (Text (zmax_text (zmxa l))) fs) (\<lambda>_ fs.
     and_then (te_event env Unlinking, fs) (\<lambda>_ fs.
       (Ret (Inr ()), fs(CHECKPOINT := None)))))))))"

end
