(* ===== verification/PipelineLaws.thy ===== *)
theory PipelineLaws
  imports Pipeline
begin

text \<open>
  Laws of the pipeline: a run that returns leaves in every output of every step what an undisturbed run would
  have written, however many attempts before it raised or were killed.
\<close>

subsection \<open>The contract of the steps\<close>

text \<open>
  What the steps are expected to do, as the pipeline uses them: \<open>c_owned s\<close> are the files step
  \<open>s\<close> may leave behind besides its outputs (checkpoints, temporary files), \<open>c_reads s\<close> the files
  its outputs depend on, \<open>c_safe s R O\<close> that it can start from owned files \<open>O\<close> (a checkpoint) when
  the files it reads are \<open>R\<close>, \<open>c_produce s\<close> the outputs as a function of those.
\<close>

record contract =
  c_owned :: "step \<Rightarrow> fs_path set"
  c_reads :: "step \<Rightarrow> fs_path set"
  c_safe :: "step \<Rightarrow> workspace \<Rightarrow> workspace \<Rightarrow> bool"
  c_produce :: "step \<Rightarrow> workspace \<Rightarrow> fs_path \<Rightarrow> content"

definition writes :: "contract \<Rightarrow> step \<Rightarrow> fs_path set" where
  "writes c s = c_owned c s \<union> set (output_paths s)"

text \<open>A run of a step, even one that raises or is killed, stays in its files and leaves its owned
  files fit for another attempt; a normal end leaves an output as the contract says or not at all.\<close>

definition honest :: "contract \<Rightarrow> step \<Rightarrow> (workspace \<Rightarrow> unit ending \<times> workspace) \<Rightarrow> bool" where
  "honest c s run \<longleftrightarrow>
     (\<forall>fs r fs'. c_safe c s (fs |` c_reads c s) (fs |` c_owned c s) \<longrightarrow> run fs = (r, fs') \<longrightarrow>
        (\<forall>p. p \<notin> writes c s \<longrightarrow> fs' p = fs p) \<and>
        c_safe c s (fs |` c_reads c s) (fs' |` c_owned c s) \<and>
        (r = Ret (Inr ()) \<longrightarrow>
           (\<forall>p \<in> set (output_paths s). fs' p = None \<or> fs' p = Some (c_produce c s (fs |` c_reads c s) p))))"

definition marker_files :: "step \<Rightarrow> fs_path set" where
  "marker_files s = {marker_path s, tmp_sibling (marker_path s)}"

text \<open>Steps keep out of each other's files; a step reads outputs of earlier steps only.\<close>

fun separate :: "contract \<Rightarrow> fs_path set \<Rightarrow> step list \<Rightarrow> bool" where
  "separate c taken [] \<longleftrightarrow> True"
| "separate c taken (s # ss) \<longleftrightarrow>
     (writes c s \<union> marker_files s) \<inter> taken = {} \<and> writes c s \<inter> marker_files s = {} \<and>
     c_reads c s \<inter> writes c s = {} \<and>
     (\<forall>t \<in> set ss. c_reads c s \<inter> (writes c t \<union> marker_files t) = {} \<and> c_reads c t \<inter> (c_owned c s \<union> marker_files s) = {}) \<and>
     c_reads c s \<inter> marker_files s = {} \<and>
     separate c (taken \<union> writes c s \<union> marker_files s) ss"

fun ideal :: "contract \<Rightarrow> step list \<Rightarrow> workspace \<Rightarrow> workspace" where
  "ideal c [] fs = fs"
| "ideal c (s # ss) fs =
     ideal c ss (\<lambda>p. if p \<in> set (output_paths s) then Some (c_produce c s (fs |` c_reads c s) p) else fs p)"

lemma ideal_other: "(\<forall>s \<in> set ss. p \<notin> set (output_paths s)) \<Longrightarrow> ideal c ss fs p = fs p"
  by (induction ss arbitrary: fs) auto

lemma separate_disjoint:
  assumes "separate c taken ss" and "s \<in> set ss"
  shows "(writes c s \<union> marker_files s) \<inter> taken = {}"
  using assms by (induction ss arbitrary: taken) auto

text \<open>The ideal contents satisfy the steps' contracts.\<close>

lemma ideal_produce:
  assumes "separate c taken ss" and "s \<in> set ss" and "p \<in> set (output_paths s)"
  shows "ideal c ss fs p = Some (c_produce c s (ideal c ss fs |` c_reads c s) p)"
  using assms
proof (induction ss arbitrary: taken fs)
  case (Cons u ss)
  let ?fs = "\<lambda>p. if p \<in> set (output_paths u) then Some (c_produce c u (fs |` c_reads c u) p) else fs p"
  have rest: "separate c (taken \<union> writes c u \<union> marker_files u) ss" using Cons.prems(1) by simp
  show ?case
  proof (cases "s \<in> set ss")
    case True
    then show ?thesis using Cons.IH [OF rest True Cons.prems(3)] by simp
  next
    case False
    then have s: "s = u" using Cons.prems(2) by simp
    have later: "writes c t \<inter> writes c u = {}" if "t \<in> set ss" for t
      using separate_disjoint [OF rest that] by auto
    have "ideal c ss ?fs p = ?fs p"
      using later Cons.prems(3) unfolding s by (intro ideal_other) (auto simp: writes_def)
    moreover have "ideal c ss ?fs q = fs q" if "q \<in> c_reads c u" for q
    proof -
      have "ideal c ss ?fs q = ?fs q"
        using Cons.prems(1) that by (intro ideal_other) (auto simp: writes_def)
      then show ?thesis using Cons.prems(1) that by (auto simp: writes_def)
    qed
    then have "ideal c ss ?fs |` c_reads c u = fs |` c_reads c u" by (auto simp: restrict_map_def fun_eq_iff)
    ultimately show ?thesis using Cons.prems(3) by (simp add: s)
  qed
qed simp


subsection \<open>The loop\<close>

definition marked :: "(string \<Rightarrow> string) \<Rightarrow> step \<Rightarrow> workspace \<Rightarrow> bool" where
  "marked sha s fs \<longleftrightarrow> (\<exists>text. fs (marker_path s) = Some (Text text) \<and> strip_by is_space text = fingerprint sha s)"

text \<open>The outputs of \<open>s\<close> are as in \<open>E\<close>, the ideal contents.\<close>

definition good_outputs :: "workspace \<Rightarrow> step \<Rightarrow> workspace \<Rightarrow> bool" where
  "good_outputs E s fs \<longleftrightarrow> (\<forall>p \<in> set (output_paths s). fs p = E p)"

text \<open>Steps that all differ and keep out of each other's files, in any order.\<close>

definition apart :: "contract \<Rightarrow> step list \<Rightarrow> bool" where
  "apart c ss \<longleftrightarrow> distinct ss \<and>
     (\<forall>s \<in> set ss. writes c s \<inter> marker_files s = {} \<and> marker_path s \<noteq> [] \<and>
        (\<forall>t \<in> set ss. s \<noteq> t \<longrightarrow> (writes c s \<union> marker_files s) \<inter> (writes c t \<union> marker_files t) = {}))"

text \<open>The files written once all steps are done.\<close>

definition RESULT_FILES :: "fs_path list" where
  "RESULT_FILES = [[''input.json''], [''calculation.json''], [''travel_times.json''], [''travel_times.csv''],
     [''runtime.json'']]"

definition settled_files :: "contract \<Rightarrow> step list \<Rightarrow> fs_path set" where
  "settled_files c ss = - ((\<Union>s \<in> set ss. writes c s \<union> marker_files s) \<union> set RESULT_FILES)"

text \<open>\<open>E\<close> is a solution of the contracts over the untouched files of \<open>fs\<close>.\<close>

definition solves :: "contract \<Rightarrow> step list \<Rightarrow> workspace \<Rightarrow> bool" where
  "solves c ss E \<longleftrightarrow>
     (\<forall>s \<in> set ss. \<forall>p \<in> set (output_paths s). E p = Some (c_produce c s (E |` c_reads c s) p))"

definition loop_inv ::
  "(string \<Rightarrow> string) \<Rightarrow> contract \<Rightarrow> step list \<Rightarrow> workspace \<Rightarrow> workspace \<Rightarrow> bool" where
  "loop_inv sha c ss E fs \<longleftrightarrow>
     (\<forall>p \<in> settled_files c ss. fs p = E p) \<and> (\<forall>s \<in> set ss. marked sha s fs \<longrightarrow> good_outputs E s fs) \<and>
     (\<forall>s \<in> set ss. c_safe c s (E |` c_reads c s) (fs |` c_owned c s))"

lemma write_marker_effect:
  assumes "write_marker sha s env fs = (r, fs')" and "marker_path s \<noteq> []"
  shows "\<forall>p. p \<notin> marker_files s \<longrightarrow> fs' p = fs p"
    and "fs' (marker_path s) = fs (marker_path s) \<or>
      (r = Ret (Inr ()) \<and> fs' (marker_path s) = Some (Text (fingerprint sha s)))"
  using assms tmp_sibling_neq [OF assms(2)]
  by (auto simp: write_marker_def atomic_write_def marker_files_def Let_def split: option.splits if_splits)

lemma marked_cong: "fs' (marker_path s) = fs (marker_path s) \<Longrightarrow> marked sha s fs' = marked sha s fs"
  by (simp add: marked_def)

text \<open>What the loop knows of a step depends on the step's own files only.\<close>

lemma step_files_cong:
  assumes "\<forall>p \<in> writes c s \<union> marker_files s. fs' p = fs p"
  shows "marked sha s fs' = marked sha s fs" and "good_outputs E s fs' = good_outputs E s fs"
    and "fs' |` c_owned c s = fs |` c_owned c s"
  using assms by (auto simp: marked_def good_outputs_def marker_files_def writes_def restrict_map_def fun_eq_iff)

lemma complete_iff: "is_step_complete sha s fs \<longleftrightarrow> marked sha s fs \<and> missing_outputs s fs = []"
  by (auto simp: is_step_complete_def marked_def validate_outputs_def text_of_def split: option.splits content.splits)

lemma marked_complete:
  assumes "loop_inv sha c ss E fs" and "solves c ss E" and "s \<in> set ss" and "marked sha s fs"
  shows "is_step_complete sha s fs"
proof -
  have "fs p \<noteq> None" if "p \<in> set (output_paths s)" for p
    using assms that by (auto simp: loop_inv_def solves_def good_outputs_def)
  then show ?thesis using assms(4) by (auto simp: complete_iff missing_outputs_def filter_empty_conv)
qed

text \<open>One step of the loop, on a workspace where the step is not marked.\<close>

text \<open>What processing one step leaves behind, however it ends.\<close>

lemma process_step_effect:
  assumes inv: "loop_inv sha c ss E fs" and apart: "apart c ss" and sol: "solves c ss E"
    and s: "s \<in> set ss" and honest: "honest c s (se_run env)" and unmarked: "\<not> marked sha s fs"
    and reads: "\<forall>p \<in> c_reads c s. fs p = E p"
    and run: "process_step sha s env fs = (r, fs')"
  shows "(\<forall>p. p \<notin> writes c s \<union> marker_files s \<longrightarrow> fs' p = fs p) \<and>
    c_safe c s (E |` c_reads c s) (fs' |` c_owned c s) \<and>
    (marked sha s fs' \<longrightarrow> good_outputs E s fs') \<and> (r = Ret (Inr ()) \<longrightarrow> good_outputs E s fs')"
proof -
  have sep: "writes c s \<inter> marker_files s = {}" "marker_path s \<noteq> []"
    using apart s by (auto simp: apart_def)
  obtain q fs1 where q: "se_run env fs = (q, fs1)" by fastforce
  have same: "fs |` c_reads c s = E |` c_reads c s" using reads by (auto simp: restrict_map_def fun_eq_iff)
  have safe: "c_safe c s (fs |` c_reads c s) (fs |` c_owned c s)" using inv s same by (simp add: loop_inv_def)
  note ok = honest [unfolded honest_def, rule_format, OF safe q]
  have frame1: "p \<notin> writes c s \<Longrightarrow> fs1 p = fs p" for p using ok by blast
  have safe1: "c_safe c s (E |` c_reads c s) (fs1 |` c_owned c s)" using ok same by simp
  have out1: "fs1 p = None \<or> fs1 p = E p" if "q = Ret (Inr ())" "p \<in> set (output_paths s)" for p
    using ok that sol s unfolding solves_def by (metis same)
  have "(\<forall>p. p \<notin> writes c s \<union> marker_files s \<longrightarrow> fs' p = fs p) \<and> fs' |` c_owned c s = fs1 |` c_owned c s \<and>
      (marked sha s fs' \<longrightarrow> good_outputs E s fs') \<and> (r = Ret (Inr ()) \<longrightarrow> good_outputs E s fs')"
  proof (cases "q = Ret (Inr ()) \<and> missing_outputs s fs1 = []")
    case True
    then have wm: "write_marker sha s env fs1 = (r, fs')"
      using run q by (simp add: process_step_def validate_outputs_def)
    note eff = write_marker_effect [OF wm sep(2)]
    from True have "missing_outputs s fs1 = []" by (rule conjunct2)
    then have made: "\<forall>p \<in> set (output_paths s). fs1 p \<noteq> None"
      unfolding missing_outputs_def filter_empty_conv by blast
    have "fs' p = E p" if p: "p \<in> set (output_paths s)" for p
    proof -
      have "fs1 p = E p" using out1 [OF conjunct1 [OF True] p] made p by blast
      moreover have "p \<notin> marker_files s" using sep(1) p by (auto simp: writes_def)
      ultimately show ?thesis using eff(1) by simp
    qed
    moreover have "fs' |` c_owned c s = fs1 |` c_owned c s"
      using eff(1) sep(1) by (auto simp: restrict_map_def fun_eq_iff writes_def)
    ultimately show ?thesis using eff(1) frame1 by (auto simp: good_outputs_def)
  next
    case False
    then have e: "fs' = fs1" "r \<noteq> Ret (Inr ())"
      using run q by (auto simp: process_step_def validate_outputs_def and_then_def split: ending.splits sum.splits if_splits)
    have "marker_path s \<notin> writes c s" using sep(1) by (auto simp: marker_files_def)
    then have "\<not> marked sha s fs'" using unmarked frame1 e(1) marked_cong by blast
    then show ?thesis using frame1 e by auto
  qed
  then show ?thesis using safe1 by simp
qed

lemma process_step_inv:
  assumes inv: "loop_inv sha c ss E fs" and apart: "apart c ss" and sol: "solves c ss E"
    and s: "s \<in> set ss" and honest: "honest c s (se_run env)" and unmarked: "\<not> marked sha s fs"
    and reads: "\<forall>p \<in> c_reads c s. fs p = E p"
    and run: "process_step sha s env fs = (r, fs')"
  shows "loop_inv sha c ss E fs'" and "r = Ret (Inr ()) \<Longrightarrow> good_outputs E s fs'"
    and "\<forall>p. p \<notin> writes c s \<union> marker_files s \<longrightarrow> fs' p = fs p"
proof -
  have others: "t \<in> set ss \<Longrightarrow> t \<noteq> s \<Longrightarrow> (writes c s \<union> marker_files s) \<inter> (writes c t \<union> marker_files t) = {}" for t
    using apart s by (auto simp: apart_def)
  note effect = process_step_effect [OF assms]
  then have frame: "\<forall>p. p \<notin> writes c s \<union> marker_files s \<longrightarrow> fs' p = fs p"
    and own: "marked sha s fs' \<Longrightarrow> good_outputs E s fs'" "r = Ret (Inr ()) \<Longrightarrow> good_outputs E s fs'"
    and safe: "c_safe c s (E |` c_reads c s) (fs' |` c_owned c s)"
    by blast+
  show "\<forall>p. p \<notin> writes c s \<union> marker_files s \<longrightarrow> fs' p = fs p" by (rule frame)
  show "r = Ret (Inr ()) \<Longrightarrow> good_outputs E s fs'" by (rule own(2))
  have "(marked sha t fs' \<longrightarrow> good_outputs E t fs') \<and> c_safe c t (E |` c_reads c t) (fs' |` c_owned c t)"
    if t: "t \<in> set ss" for t
  proof (cases "t = s")
    case False
    have "fs' p = fs p" if "p \<in> writes c t \<union> marker_files t" for p
      using frame others [OF t False] that by blast
    then have "\<forall>p \<in> writes c t \<union> marker_files t. fs' p = fs p" by blast
    then show ?thesis using inv t step_files_cong [of c t fs' fs] by (simp add: loop_inv_def)
  qed (use own(1) safe in simp)
  moreover have "fs' p = E p" if "p \<in> settled_files c ss" for p
    using frame inv s that by (auto simp: settled_files_def loop_inv_def)
  ultimately show "loop_inv sha c ss E fs'" by (simp add: loop_inv_def)
qed

lemma run_steps_inv:
  assumes "apart c (pre @ post)" and "solves c (pre @ post) E" and "loop_inv sha c (pre @ post) E fs"
    and "\<forall>s \<in> set pre. good_outputs E s fs"
    and "\<forall>us s vs. pre @ post = us @ s # vs \<longrightarrow>
           c_reads c s \<subseteq> settled_files c (pre @ post) \<union> (\<Union>t \<in> set us. set (output_paths t))"
    and "\<forall>s \<in> set post. honest c s (se_run (env (st_name s)))"
    and "resume \<or> (\<forall>s \<in> set post. \<not> marked sha s fs)"
    and "run_steps sha resume progress env post fs = (r, fs')"
  shows "loop_inv sha c (pre @ post) E fs' \<and>
    (r = Ret (Inr ()) \<longrightarrow> (\<forall>s \<in> set (pre @ post). good_outputs E s fs'))"
  using assms
proof (induction post arbitrary: pre fs)
  case Nil
  then show ?case by simp
next
  case (Cons s post)
  let ?ss = "pre @ s # post"
  have all: "(pre @ [s]) @ post = ?ss" by simp
  have reads: "\<forall>p \<in> c_reads c s. fs p = E p"
    using Cons.prems(3,4) Cons.prems(5) [rule_format, of pre s post]
    by (auto simp: loop_inv_def good_outputs_def)
  show ?case
  proof (cases "resume \<and> is_step_complete sha s fs")
    case True
    then have good: "good_outputs E s fs" using Cons.prems(3) by (simp add: loop_inv_def complete_iff)
    from Cons.prems(8) True
    have "and_then (progress (''Skipping completed step '' @ st_name s), fs)
        (\<lambda>_. run_steps sha resume progress env post) = (r, fs')" by simp
    then show ?thesis
    proof (cases rule: and_then_cases)
      case (go a fs1)
      then have "run_steps sha resume progress env post fs = (r, fs')" by simp
      then show ?thesis
        using Cons.IH [of "pre @ [s]" fs] Cons.prems good True unfolding all by simp
    qed (use Cons.prems(3) in simp_all)
  next
    case False
    have unmarked: "\<not> marked sha s fs"
    proof
      assume m: "marked sha s fs"
      then have "is_step_complete sha s fs" using marked_complete [OF Cons.prems(3,2)] by simp
      with False m Cons.prems(7) show False by simp
    qed
    from Cons.prems(8) False
    have "and_then (progress (''Processing '' @ st_name s), fs) (\<lambda>_ fs1.
        and_then (process_step sha s (env (st_name s)) fs1) (\<lambda>_. run_steps sha resume progress env post)) = (r, fs')"
      by simp
    then show ?thesis
    proof (cases rule: and_then_cases)
      case (go a fs0)
      obtain q fs1 where q: "process_step sha s (env (st_name s)) fs = (q, fs1)" by fastforce
      have honest: "honest c s (se_run (env (st_name s)))" using Cons.prems(6) by simp
      note step = process_step_inv [OF Cons.prems(3,1,2) _ honest unmarked reads q]
      from go q have "and_then (q, fs1) (\<lambda>_. run_steps sha resume progress env post) = (r, fs')" by simp
      then show ?thesis
      proof (cases rule: and_then_cases)
        case (go b fs2)
        then have rest: "run_steps sha resume progress env post fs1 = (r, fs')" and q_ok: "q = Ret (Inr ())" by auto
        have sep: "(writes c s \<union> marker_files s) \<inter> (writes c t \<union> marker_files t) = {}"
          if "t \<in> set (pre @ post)" for t
          using Cons.prems(1) that by (auto simp: apart_def)
        have "good_outputs E t fs1" if "t \<in> set pre" for t
          using Cons.prems(4) step(3) sep [of t] that by (fastforce simp: good_outputs_def writes_def)
        then have "\<forall>t \<in> set (pre @ [s]). good_outputs E t fs1" using step(2) q_ok by simp
        moreover have "marked sha t fs1 = marked sha t fs" if "t \<in> set post" for t
          using step(3) sep [of t] that by (intro marked_cong) (auto simp: marker_files_def)
        then have "resume \<or> (\<forall>t \<in> set post. \<not> marked sha t fs1)" using Cons.prems(7) by auto
        ultimately show ?thesis
          using Cons.IH [of "pre @ [s]" fs1] Cons.prems step(1) rest unfolding all by simp
      qed (use step(1) in simp_all)
    qed (use Cons.prems(3) in simp_all)
  qed
qed


subsection \<open>Attempts\<close>

definition workspace_inputs :: "fs_path set" where
  "workspace_inputs = set (map (under []) WORKSPACE_INPUTS)"

text \<open>The workspace before the first step: the linked inputs and hypo.dat.\<close>

definition base_files :: "workspace \<Rightarrow> string \<Rightarrow> workspace" where
  "base_files model hypo = (\<lambda>p. if p \<in> workspace_inputs then model p else if p = HYPO_DAT then Some (Text hypo) else None)"

text \<open>What any attempt at the job satisfies: it has the job's model files, linked, and the job's hypo.dat,
  its steps keep their contracts, and the results are written to the result files only.\<close>

definition attempt_ok ::
  "contract \<Rightarrow> step list \<Rightarrow> workspace \<Rightarrow> string \<Rightarrow> engine_env \<Rightarrow> bool" where
  "attempt_ok c ss model hypo env \<longleftrightarrow>
     ee_model env = model \<and> ee_torn env = Map.empty \<and> ee_hypo env = hypo \<and>
     (\<forall>s \<in> set ss. honest c s (se_run (ee_steps env (st_name s)))) \<and>
     (\<forall>fs r fs'. ee_write env fs = (r, fs') \<longrightarrow> (\<forall>p. p \<notin> set RESULT_FILES \<longrightarrow> fs' p = fs p))"

text \<open>The workspace after any number of attempts, each of which may have raised, been killed or
  returned, resuming or not.\<close>

inductive worked_on ::
  "(string \<Rightarrow> string) \<Rightarrow> contract \<Rightarrow> step list \<Rightarrow> workspace \<Rightarrow> string \<Rightarrow> workspace \<Rightarrow> bool"
  for sha c ss model hypo where
  new: "worked_on sha c ss model hypo (\<lambda>_. None)"
| attempt: "worked_on sha c ss model hypo fs \<Longrightarrow> attempt_ok c ss model hypo env \<Longrightarrow>
    engine_run sha ss resume env fs = (r, fs') \<Longrightarrow> worked_on sha c ss model hypo fs'"

definition between ::
  "(string \<Rightarrow> string) \<Rightarrow> contract \<Rightarrow> step list \<Rightarrow> workspace \<Rightarrow> string \<Rightarrow> workspace \<Rightarrow> bool" where
  "between sha c ss model hypo fs \<longleftrightarrow>
     (let B = base_files model hypo; E = ideal c ss B in
      (\<forall>p \<in> settled_files c ss. p \<noteq> HYPO_DAT \<longrightarrow> fs p = None \<or> fs p = B p) \<and>
      (\<forall>s \<in> set ss. marked sha s fs \<longrightarrow> good_outputs E s fs) \<and>
      (\<forall>s \<in> set ss. c_safe c s (E |` c_reads c s) (fs |` c_owned c s)))"

text \<open>The steps as the theorem needs them: they keep out of each other's files and of the files
  the engine writes, read settled files and earlier outputs, and can start from nothing.\<close>

definition well_planned :: "contract \<Rightarrow> step list \<Rightarrow> bool" where
  "well_planned c ss \<longleftrightarrow>
     separate c (workspace_inputs \<union> {HYPO_DAT} \<union> set RESULT_FILES) ss \<and> distinct ss \<and>
     (\<forall>s \<in> set ss. c_reads c s \<inter> set RESULT_FILES = {})"

text \<open>Every step can start with none of its owned files there.\<close>

definition startable :: "contract \<Rightarrow> step list \<Rightarrow> workspace \<Rightarrow> bool" where
  "startable c ss B \<longleftrightarrow> (\<forall>s \<in> set ss. c_safe c s (ideal c ss B |` c_reads c s) Map.empty)"

lemma separate_apart:
  "separate c taken ss \<Longrightarrow> distinct ss \<Longrightarrow> apart c ss"
proof (induction ss arbitrary: taken)
  case (Cons s ss)
  have sep: "separate c (taken \<union> writes c s \<union> marker_files s) ss" using Cons.prems by simp
  have "(writes c t \<union> marker_files t) \<inter> (taken \<union> writes c s \<union> marker_files s) = {}" if "t \<in> set ss" for t
    by (rule separate_disjoint [OF sep that])
  moreover have "marker_path s \<noteq> []" by (simp add: marker_path_def)
  ultimately show ?case using Cons.IH [OF sep] Cons.prems by (auto simp: apart_def)
qed (simp add: apart_def)

lemma separate_reads:
  assumes "separate c taken (us @ s # vs)"
  shows "c_reads c s \<inter> (\<Union>t \<in> set (us @ s # vs). writes c t \<union> marker_files t)
    \<subseteq> (\<Union>t \<in> set us. set (output_paths t))"
  using assms
proof (induction us arbitrary: taken)
  case (Cons u us)
  have "separate c (taken \<union> writes c u \<union> marker_files u) (us @ s # vs)" using Cons.prems by simp
  note later = Cons.IH [OF this]
  have "c_reads c s \<inter> (c_owned c u \<union> marker_files u) = {}" using Cons.prems by simp
  then have "c_reads c s \<inter> (writes c u \<union> marker_files u) \<subseteq> set (output_paths u)"
    unfolding writes_def by blast
  with later show ?case by (simp add: Int_Un_distrib) blast
next
  case Nil
  have "c_reads c s \<inter> (writes c s \<union> marker_files s) = {}" using Nil by (simp add: Int_Un_distrib)
  moreover have "c_reads c s \<inter> (writes c t \<union> marker_files t) = {}" if "t \<in> set vs" for t
    using Nil that by simp
  ultimately show ?case by (simp add: Int_Un_distrib Int_UN_distrib)
qed

lemma well_planned_apart: "well_planned c ss \<Longrightarrow> apart c ss"
  by (auto simp: well_planned_def intro: separate_apart)

lemma well_planned_reads:
  assumes "well_planned c (us @ s # vs)"
  shows "c_reads c s \<subseteq> settled_files c (us @ s # vs) \<union> (\<Union>t \<in> set us. set (output_paths t))"
proof
  fix p assume p: "p \<in> c_reads c s"
  have "p \<notin> set RESULT_FILES" using assms p by (auto simp: well_planned_def)
  moreover have "c_reads c s \<inter> (\<Union>t \<in> set (us @ s # vs). writes c t \<union> marker_files t)
      \<subseteq> (\<Union>t \<in> set us. set (output_paths t))"
    using assms unfolding well_planned_def by (intro separate_reads) auto
  ultimately show "p \<in> settled_files c (us @ s # vs) \<union> (\<Union>t \<in> set us. set (output_paths t))"
    using p unfolding settled_files_def by blast
qed

lemma ideal_settled: "p \<in> settled_files c ss \<Longrightarrow> ideal c ss B p = B p"
  by (rule ideal_other) (auto simp: settled_files_def writes_def)

lemma ideal_solves: "well_planned c ss \<Longrightarrow> solves c ss (ideal c ss B)"
  unfolding solves_def well_planned_def using ideal_produce by blast


lemma link_inputs_effect:
  assumes "link_inputs model Map.empty ns fs = (r, fs')"
  shows "(\<forall>p. fs' p = fs p \<or> (p \<in> set (map (under []) ns) \<and> fs p = None \<and> fs' p = model p)) \<and>
    (r = Ret (Inr ()) \<longrightarrow> (\<forall>p \<in> set (map (under []) ns). fs' p \<noteq> None))"
  using assms
proof (induction ns arbitrary: fs)
  case (Cons n ns)
  show ?case
  proof (cases "model (under [] n)")
    case (Some content)
    let ?fs = "if fs (under [] n) = None then fs(under [] n \<mapsto> content) else fs"
    have "link_inputs model Map.empty ns ?fs = (r, fs')" using Cons.prems Some by (auto split: if_splits)
    note ih = Cons.IH [OF this]
    have one: "?fs p = fs p \<or> (p = under [] n \<and> fs p = None \<and> ?fs p = model p)" for p using Some by simp
    have "fs' p = fs p \<or> (p \<in> set (map (under []) (n # ns)) \<and> fs p = None \<and> fs' p = model p)" for p
    proof (cases "fs' p = ?fs p")
      case True
      then show ?thesis using one [of p] by auto
    next
      case False
      then have "p \<in> set (map (under []) ns)" "?fs p = None" "fs' p = model p" using ih by blast+
      then show ?thesis using one [of p] Some by auto
    qed
    moreover have "fs' (under [] n) \<noteq> None"
    proof (cases "fs' (under [] n) = ?fs (under [] n)")
      case True
      then show ?thesis by simp
    next
      case False
      then show ?thesis using ih Some by auto
    qed
    ultimately show ?thesis using ih by simp
  qed (use Cons.prems in auto)
qed simp

lemma engine_run_stages:
  assumes "engine_run sha ss resume env fs = (r, fs')"
  obtains (early) "fs' = fs" "r \<noteq> Ret (Inr ())"
  | (linking) q where "prepare_simulation_workspace (ee_model env) (ee_torn env) resume fs = (q, fs')" "r \<noteq> Ret (Inr ())"
  | (base) fs1 c where "prepare_simulation_workspace (ee_model env) (ee_torn env) resume fs = (Ret (Inr ()), fs1)"
      "fs' = fs1(HYPO_DAT := c)" "r \<noteq> Ret (Inr ())"
  | (steps) fs1 q where "prepare_simulation_workspace (ee_model env) (ee_torn env) resume fs = (Ret (Inr ()), fs1)"
      "run_steps sha resume (ee_progress env) (ee_steps env) ss (fs1(HYPO_DAT \<mapsto> Text (ee_hypo env))) = (q, fs')"
      "r \<noteq> Ret (Inr ())"
  | (written) fs1 fs2 q where "prepare_simulation_workspace (ee_model env) (ee_torn env) resume fs = (Ret (Inr ()), fs1)"
      "run_steps sha resume (ee_progress env) (ee_steps env) ss (fs1(HYPO_DAT \<mapsto> Text (ee_hypo env))) = (Ret (Inr ()), fs2)"
      "ee_write env fs2 = (q, fs')"
  using assms unfolding engine_run_def by (elim and_then_cases) (auto simp del: fun_upd_apply)


text \<open>Preparing makes the settled files those of the base, hypo.dat apart.\<close>

lemma prepare_between:
  assumes plan: "well_planned c ss" and start: "startable c ss (base_files model hypo)"
    and btw: "between sha c ss model hypo fs"
    and run: "prepare_simulation_workspace model Map.empty resume fs = (r, fs')"
  shows "between sha c ss model hypo fs'"
    and "r = Ret (Inr ()) \<Longrightarrow> loop_inv sha c ss (ideal c ss (base_files model hypo)) (fs'(HYPO_DAT \<mapsto> Text hypo))"
    and "\<not> resume \<Longrightarrow> s \<in> set ss \<Longrightarrow> \<not> marked sha s (fs'(HYPO_DAT \<mapsto> Text hypo))"
proof -
  let ?E = "ideal c ss (base_files model hypo)" and ?fs = "if resume then fs else (\<lambda>_. None)"
  have eff: "\<And>p. fs' p = ?fs p \<or> (p \<in> workspace_inputs \<and> ?fs p = None \<and> fs' p = model p)"
    and made: "r = Ret (Inr ()) \<Longrightarrow> \<forall>p \<in> workspace_inputs. fs' p \<noteq> None"
    using link_inputs_effect [OF run [unfolded prepare_simulation_workspace_def]]
    unfolding workspace_inputs_def by blast+
  have apart: "s \<in> set ss \<Longrightarrow> (writes c s \<union> marker_files s) \<inter> (workspace_inputs \<union> {HYPO_DAT} \<union> set RESULT_FILES) = {}" for s
    using plan separate_disjoint unfolding well_planned_def by blast
  have same: "\<forall>p \<in> writes c s \<union> marker_files s. fs' p = ?fs p" if "s \<in> set ss" for s
    using eff apart [OF that] by blast
  have safe: "c_safe c s (?E |` c_reads c s) (?fs |` c_owned c s)" if "s \<in> set ss" for s
  proof (cases resume)
    case True
    then show ?thesis using btw that by (simp add: between_def Let_def)
  next
    case False
    then have "?fs |` c_owned c s = Map.empty" by (auto simp: restrict_map_def)
    then show ?thesis using start that by (simp add: startable_def)
  qed
  note files = step_files_cong [OF same]
  have good: "marked sha s ?fs \<longrightarrow> good_outputs ?E s ?fs" if "s \<in> set ss" for s
    using btw that by (auto simp: between_def Let_def marked_def)
  have settled: "fs' p = None \<or> fs' p = base_files model hypo p" if "p \<in> settled_files c ss" "p \<noteq> HYPO_DAT" for p
    using eff [of p] btw that by (auto simp: between_def Let_def base_files_def split: if_splits)
  then show btw': "between sha c ss model hypo fs'"
    using safe files good by (simp add: between_def Let_def)
  have "\<forall>p \<in> writes c s \<union> marker_files s. (fs'(HYPO_DAT \<mapsto> Text hypo)) p = fs' p" if "s \<in> set ss" for s
    using apart [OF that] by auto
  note hypo = step_files_cong [OF this]
  show "\<not> marked sha s (fs'(HYPO_DAT \<mapsto> Text hypo))" if "\<not> resume" "s \<in> set ss"
    using hypo(1) [of s sha] files(1) [of s sha] that by (simp add: marked_def del: fun_upd_apply)
  show "loop_inv sha c ss ?E (fs'(HYPO_DAT \<mapsto> Text hypo))" if ok: "r = Ret (Inr ())"
  proof -
    have "(fs'(HYPO_DAT \<mapsto> Text hypo)) p = ?E p" if p: "p \<in> settled_files c ss" for p
    proof (cases "p \<in> workspace_inputs")
      case True
      then have "p \<noteq> HYPO_DAT" by (auto simp: workspace_inputs_def WORKSPACE_INPUTS_def under_def HYPO_DAT_def)
      moreover from this have "fs' p = base_files model hypo p" using settled [OF p] made [OF ok] True by blast
      ultimately show ?thesis using ideal_settled [OF p] by simp
    next
      case False
      then have "fs' p = None \<or> p = HYPO_DAT" using settled [OF p] by (auto simp: base_files_def)
      then show ?thesis using ideal_settled [OF p] False by (auto simp: base_files_def)
    qed
    then show ?thesis using hypo files good safe by (simp add: loop_inv_def del: fun_upd_apply)
  qed
qed

lemma loop_inv_between:
  assumes "loop_inv sha c ss (ideal c ss (base_files model hypo)) fs"
  shows "between sha c ss model hypo fs"
  using assms ideal_settled by (auto simp: loop_inv_def between_def Let_def)

lemma between_cong:
  assumes "between sha c ss model hypo fs" and "\<forall>p. p \<notin> set RESULT_FILES \<longrightarrow> fs' p = fs p"
    and "well_planned c ss"
  shows "between sha c ss model hypo fs'"
    and "s \<in> set ss \<Longrightarrow> good_outputs E s fs' = good_outputs E s fs"
proof -
  have "(writes c s \<union> marker_files s) \<inter> set RESULT_FILES = {}" if "s \<in> set ss" for s
    using assms(3) separate_disjoint that unfolding well_planned_def by blast
  then have "\<forall>p \<in> writes c s \<union> marker_files s. fs' p = fs p" if "s \<in> set ss" for s
    using assms(2) that by blast
  note eqs = step_files_cong [OF this]
  show "between sha c ss model hypo fs'"
    using assms(1,2) eqs by (simp add: between_def Let_def settled_files_def)
  show "s \<in> set ss \<Longrightarrow> good_outputs E s fs' = good_outputs E s fs" by (rule eqs(2))
qed


lemma between_hypo:
  assumes "between sha c ss model hypo fs" and "well_planned c ss"
  shows "between sha c ss model hypo (fs(HYPO_DAT := x))"
proof -
  have "HYPO_DAT \<notin> writes c s \<union> marker_files s" if "s \<in> set ss" for s
    using assms(2) separate_disjoint that unfolding well_planned_def by blast
  moreover define fs' where "fs' = fs(HYPO_DAT := x)"
  ultimately have "\<forall>p \<in> writes c s \<union> marker_files s. fs' p = fs p" if "s \<in> set ss" for s
    using that by auto
  note eqs = step_files_cong [OF this]
  have "p \<noteq> HYPO_DAT \<Longrightarrow> fs' p = fs p" for p by (simp add: fs'_def)
  then have "between sha c ss model hypo fs'" using assms(1) eqs by (simp add: between_def Let_def)
  then show ?thesis by (simp only: fs'_def)
qed

lemma attempt_keeps_between:
  assumes plan: "well_planned c ss" and start: "startable c ss (base_files model hypo)"
    and btw: "between sha c ss model hypo fs"
    and env: "attempt_ok c ss model hypo env" and run: "engine_run sha ss resume env fs = (r, fs')"
  shows "between sha c ss model hypo fs' \<and>
    (r = Ret (Inr ()) \<longrightarrow> (\<forall>s \<in> set ss. good_outputs (ideal c ss (base_files model hypo)) s fs'))"
proof -
  let ?E = "ideal c ss (base_files model hypo)"
  have model: "ee_model env = model" "ee_hypo env = hypo" "ee_torn env = Map.empty" using env by (simp_all add: attempt_ok_def)
  have loop: "loop_inv sha c ss ?E fs2 \<and> (q = Ret (Inr ()) \<longrightarrow> (\<forall>s \<in> set ss. good_outputs ?E s fs2))"
    if prep: "prepare_simulation_workspace (ee_model env) (ee_torn env) resume fs = (Ret (Inr ()), fs1)"
    and steps: "run_steps sha resume (ee_progress env) (ee_steps env) ss (fs1(HYPO_DAT \<mapsto> Text (ee_hypo env))) = (q, fs2)"
    for fs1 fs2 q
  proof -
    note ready = prepare_between [OF plan start btw prep [unfolded model]]
    have "c_reads c s \<subseteq> settled_files c ss \<union> (\<Union>t \<in> set us. set (output_paths t))" if "ss = us @ s # vs" for us s vs
      using well_planned_reads plan that by blast
    moreover have "resume \<or> (\<forall>s \<in> set ss. \<not> marked sha s (fs1(HYPO_DAT \<mapsto> Text hypo)))"
      using ready(3) by blast
    ultimately show ?thesis
      using run_steps_inv [of c "[]" ss ?E sha "fs1(HYPO_DAT \<mapsto> Text hypo)" "ee_steps env" resume "ee_progress env" q fs2]
        well_planned_apart [OF plan] ideal_solves [OF plan] ready(2) env steps model
      by (simp add: attempt_ok_def del: fun_upd_apply)
  qed
  from run show ?thesis
  proof (cases rule: engine_run_stages)
    case early
    then show ?thesis using btw by simp
  next
    case (linking q)
    then show ?thesis using prepare_between(1) [OF plan start btw] model by simp
  next
    case (base fs1 x)
    then show ?thesis using between_hypo [OF prepare_between(1) [OF plan start btw] plan] model by simp
  next
    case (steps fs1 q)
    then show ?thesis using loop loop_inv_between by blast
  next
    case (written fs1 fs2 q)
    then have "between sha c ss model hypo fs2" "\<forall>s \<in> set ss. good_outputs ?E s fs2"
      using loop loop_inv_between by blast+
    moreover have "\<forall>p. p \<notin> set RESULT_FILES \<longrightarrow> fs' p = fs2 p" using env written(3) by (simp add: attempt_ok_def)
    ultimately show ?thesis using between_cong [OF _ _ plan] by blast
  qed
qed

lemma worked_on_between:
  assumes "worked_on sha c ss model hypo fs" and "well_planned c ss" and "startable c ss (base_files model hypo)"
  shows "between sha c ss model hypo fs"
  using assms
proof induction
  case new
  have "(\<lambda>_. None) |` A = Map.empty" for A :: "fs_path set" by (auto simp: restrict_map_def)
  then show ?case using new by (simp add: between_def Let_def marked_def startable_def)
next
  case (attempt fs env resume r fs')
  then show ?case using attempt_keeps_between by blast
qed


subsection \<open>Undisturbed attempts return\<close>

text \<open>A step that, started on the ideal inputs, returns with all its outputs there.\<close>

definition productive :: "contract \<Rightarrow> workspace \<Rightarrow> step \<Rightarrow> step_env \<Rightarrow> bool" where
  "productive c E s env \<longleftrightarrow> se_partial env = None \<and> \<not> se_cut env \<and>
     (\<forall>fs. c_safe c s (fs |` c_reads c s) (fs |` c_owned c s) \<longrightarrow> (\<forall>p \<in> c_reads c s. fs p = E p) \<longrightarrow>
        (\<exists>fs'. se_run env fs = (Ret (Inr ()), fs') \<and> missing_outputs s fs' = []))"

lemma process_step_returns:
  assumes "productive c E s env" and "loop_inv sha c ss E fs" and "s \<in> set ss" and "\<forall>p \<in> c_reads c s. fs p = E p"
  shows "\<exists>fs'. process_step sha s env fs = (Ret (Inr ()), fs')"
proof -
  have "fs |` c_reads c s = E |` c_reads c s" using assms(4) by (auto simp: restrict_map_def fun_eq_iff)
  then have "c_safe c s (fs |` c_reads c s) (fs |` c_owned c s)" using assms(2,3) by (simp add: loop_inv_def)
  then obtain fs1 where "se_run env fs = (Ret (Inr ()), fs1)" "missing_outputs s fs1 = []"
    using assms(1,4) by (auto simp: productive_def)
  then show ?thesis
    using assms(1) by (simp add: process_step_def validate_outputs_def write_marker_def atomic_write_def productive_def)
qed

lemma run_steps_returns:
  assumes "apart c (pre @ post)" and "solves c (pre @ post) E" and "loop_inv sha c (pre @ post) E fs"
    and "\<forall>s \<in> set pre. good_outputs E s fs"
    and "\<forall>us s vs. pre @ post = us @ s # vs \<longrightarrow>
           c_reads c s \<subseteq> settled_files c (pre @ post) \<union> (\<Union>t \<in> set us. set (output_paths t))"
    and "\<forall>s \<in> set post. honest c s (se_run (env (st_name s))) \<and> productive c E s (env (st_name s))"
    and "resume \<or> (\<forall>s \<in> set post. \<not> marked sha s fs)"
    and "progress = (\<lambda>_. Ret (Inr ()))"
  shows "\<exists>fs'. run_steps sha resume progress env post fs = (Ret (Inr ()), fs')"
  using assms
proof (induction post arbitrary: pre fs)
  case (Cons s post)
  let ?ss = "pre @ s # post"
  have all: "(pre @ [s]) @ post = ?ss" by simp
  have reads: "\<forall>p \<in> c_reads c s. fs p = E p"
    using Cons.prems(3,4) Cons.prems(5) [rule_format, of pre s post]
    by (auto simp: loop_inv_def good_outputs_def)
  show ?case
  proof (cases "resume \<and> is_step_complete sha s fs")
    case True
    then have "good_outputs E s fs" using Cons.prems(3) by (simp add: loop_inv_def complete_iff)
    then have "\<exists>fs'. run_steps sha resume progress env post fs = (Ret (Inr ()), fs')"
      using Cons.IH [of "pre @ [s]" fs] Cons.prems True unfolding all by simp
    then show ?thesis using True Cons.prems(8) by simp
  next
    case False
    have unmarked: "\<not> marked sha s fs"
      using marked_complete [OF Cons.prems(3,2), of s] False Cons.prems(7) by auto
    have honest: "honest c s (se_run (env (st_name s)))" and prod: "productive c E s (env (st_name s))"
      using Cons.prems(6) by simp_all
    obtain fs1 where q: "process_step sha s (env (st_name s)) fs = (Ret (Inr ()), fs1)"
      using process_step_returns [OF prod Cons.prems(3) _ reads] by auto
    note step = process_step_inv [OF Cons.prems(3,1,2) _ honest unmarked reads q]
    have sep: "(writes c s \<union> marker_files s) \<inter> (writes c t \<union> marker_files t) = {}" if "t \<in> set (pre @ post)" for t
      using Cons.prems(1) that by (auto simp: apart_def)
    then have same: "\<forall>p \<in> writes c t \<union> marker_files t. fs1 p = fs p" if "t \<in> set (pre @ post)" for t
      using step(3) that by fastforce
    have "\<forall>t \<in> set (pre @ [s]). good_outputs E t fs1"
      using Cons.prems(4) step(2) step_files_cong(2) [OF same] by auto
    moreover have "resume \<or> (\<forall>t \<in> set post. \<not> marked sha t fs1)"
      using Cons.prems(7) step_files_cong(1) [OF same] by auto
    ultimately have "\<exists>fs'. run_steps sha resume progress env post fs1 = (Ret (Inr ()), fs')"
      using Cons.IH [of "pre @ [s]" fs1] Cons.prems step(1) unfolding all by simp
    then show ?thesis using False Cons.prems(8) q by auto
  qed
qed simp

text \<open>An attempt nothing disturbs: every file of the model is there, every executable is found, and
  every call returns.\<close>

definition undisturbed ::
  "contract \<Rightarrow> step list \<Rightarrow> workspace \<Rightarrow> engine_env \<Rightarrow> bool" where
  "undisturbed c ss E env \<longleftrightarrow>
     ee_resolve env = Ret (Inr ()) \<and> ee_calculate env = Ret (Inr ()) \<and> ee_travel_times env = Ret (Inr ()) \<and>
     ee_progress env = (\<lambda>_. Ret (Inr ())) \<and> (\<forall>p \<in> workspace_inputs. ee_model env p \<noteq> None) \<and>
     is_ok (ensure_executables (ee_which env) (concat (map st_executables ss))) \<and>
     (\<forall>fs. fst (ee_write env fs) = Ret (Inr ())) \<and>
     (\<forall>s \<in> set ss. productive c E s (ee_steps env (st_name s)))"

lemma link_inputs_returns:
  "\<forall>n \<in> set ns. model (under [] n) \<noteq> None \<Longrightarrow> \<exists>fs'. link_inputs model Map.empty ns fs = (Ret (Inr ()), fs')"
  by (induction ns arbitrary: fs) auto

lemma undisturbed_attempt_returns:
  assumes plan: "well_planned c ss" and start: "startable c ss (base_files model hypo)"
    and btw: "between sha c ss model hypo fs" and env: "attempt_ok c ss model hypo env"
    and calm: "undisturbed c ss (ideal c ss (base_files model hypo)) env"
  shows "\<exists>fs'. engine_run sha ss resume env fs = (Ret (Inr ()), fs')"
proof -
  let ?E = "ideal c ss (base_files model hypo)"
  have model: "ee_model env = model" "ee_hypo env = hypo" "ee_torn env = Map.empty" using env by (simp_all add: attempt_ok_def)
  obtain fs1 where prep: "prepare_simulation_workspace model Map.empty resume fs = (Ret (Inr ()), fs1)"
    using link_inputs_returns [of WORKSPACE_INPUTS model] calm model
    by (fastforce simp: prepare_simulation_workspace_def undisturbed_def workspace_inputs_def)
  note ready = prepare_between [OF plan start btw prep]
  have "c_reads c s \<subseteq> settled_files c ss \<union> (\<Union>t \<in> set us. set (output_paths t))" if "ss = us @ s # vs" for us s vs
    using well_planned_reads plan that by blast
  moreover have "resume \<or> (\<forall>s \<in> set ss. \<not> marked sha s (fs1(HYPO_DAT \<mapsto> Text hypo)))" using ready(3) by blast
  ultimately obtain fs2 where steps: "run_steps sha resume (ee_progress env) (ee_steps env) ss (fs1(HYPO_DAT \<mapsto> Text hypo)) =
      (Ret (Inr ()), fs2)"
    using run_steps_returns [of c "[]" ss ?E sha "fs1(HYPO_DAT \<mapsto> Text hypo)" "ee_steps env" resume "ee_progress env"]
      well_planned_apart [OF plan] ideal_solves [OF plan] ready(2) env calm
    by (auto simp: attempt_ok_def undisturbed_def simp del: fun_upd_apply)
  obtain fs3 where out: "ee_write env fs2 = (Ret (Inr ()), fs3)"
    using calm unfolding undisturbed_def by (metis prod.collapse)
  obtain u where "ensure_executables (ee_which env) (concat (map st_executables ss)) = Inr u"
    using calm by (cases "ensure_executables (ee_which env) (concat (map st_executables ss))") (auto simp: undisturbed_def)
  then show ?thesis
    using calm out steps prep by (simp add: engine_run_def undisturbed_def model del: fun_upd_apply)
qed


text \<open>Where inputs are copied because links cannot be made, an attempt killed during the copy leaves a torn
  input that the resumed attempt takes for the whole file.\<close>

theorem torn_input_is_kept_on_resume:
  "\<exists>model torn part fs1 fs2. prepare_simulation_workspace model torn False Map.empty = (Killed, fs1) \<and>
     prepare_simulation_workspace model Map.empty True fs1 = (Ret (Inr ()), fs2) \<and>
     model [''tidal.dat''] = Some (Text ''whole'') \<and> fs2 [''tidal.dat''] = Some (Text part) \<and> part \<noteq> ''whole''"
proof (intro exI conjI)
  let ?model = "\<lambda>_. Some (Text ''whole'')" and ?torn = "[[''tidal.dat''] \<mapsto> Text ''wh'']"
  have inputs: "map (under []) WORKSPACE_INPUTS = [[''mecfoc.dat''], [''tidal.dat''], [''bathy'', ''grid_a.grd''],
      [''bathy'', ''xa.dat''], [''bathy'', ''ya.dat''], [''ttt_mundo'', ''cortado.i2'']]"
    by code_simp
  show "prepare_simulation_workspace ?model ?torn False Map.empty =
      (Killed, [[''mecfoc.dat''] \<mapsto> Text ''whole'', [''tidal.dat''] \<mapsto> Text ''wh''])"
    using inputs by (simp add: prepare_simulation_workspace_def WORKSPACE_INPUTS_def)
  show "prepare_simulation_workspace ?model Map.empty True [[''mecfoc.dat''] \<mapsto> Text ''whole'', [''tidal.dat''] \<mapsto> Text ''wh''] =
      (Ret (Inr ()), [[''mecfoc.dat''] \<mapsto> Text ''whole'', [''tidal.dat''] \<mapsto> Text ''wh'', [''bathy'', ''grid_a.grd''] \<mapsto> Text ''whole'',
         [''bathy'', ''xa.dat''] \<mapsto> Text ''whole'', [''bathy'', ''ya.dat''] \<mapsto> Text ''whole'',
         [''ttt_mundo'', ''cortado.i2''] \<mapsto> Text ''whole''])"
    using inputs by (simp add: prepare_simulation_workspace_def WORKSPACE_INPUTS_def)
  show "''wh'' \<noteq> ''whole''" by simp
qed simp_all

end
