(* ===== verification/TsunamiLaws.thy ===== *)
theory TsunamiLaws
  imports Tsunami PipelineLaws
begin

text \<open>
  Laws of the tsunami step: a checkpoint reads back as the state it was written from, an
  attempt that starts from a checkpoint goes on as the run that wrote it, every run samples the
  gauges 1681 times, and dry cells stay at rest.
\<close>

subsection \<open>Checkpoints read back\<close>

definition gauges_fit :: "nat \<Rightarrow> levels \<Rightarrow> bool" where
  "gauges_fit n l \<longleftrightarrow> (\<forall>(t, v) \<in> set (gauge_rows l). length v = n)"

lemma zip_fst_snd: "zip (map fst xs) (map snd xs) = xs"
  by (induction xs) auto

lemma read_checkpoint_written:
  assumes "k \<le> KE" and "gauges_fit n l"
  shows "read_checkpoint n (Some (checkpoint_content k l)) = Some (k, l)"
proof -
  have cols: "gauge_rows l = [] \<or> length (snd (hd (gauge_rows l))) = n"
    using assms(2) by (cases "gauge_rows l") (auto simp: gauges_fit_def)
  show ?thesis
    using assms(1) cols
    by (auto simp: read_checkpoint_def checkpoint_content_def checkpoint_entries_def level_fields_def
        checkpoint_scalar_def checkpoint_grid_def checkpoint_gauges_def zip_fst_snd)
qed

subsection \<open>Gauges\<close>

lemma sample_gauges_length: "sample_gauges g z = Inr v \<Longrightarrow> length v = length g"
  by (auto simp: sample_gauges_def dest: all_some_length split: option.splits)

lemma tsunami_step_cases:
  assumes "tsunami_step s k l = Inr l'"
  obtains z where "bout IA JA (mass IA JA (z1 l) (z2 l) (m1 l) (n1 l) (s_h s) (s_rx s) (s_cj s)) (m1 l) (n1 l) (s_h s) = Inr z"
    and "z1 l' = z" "z2 l' = z1 l" "m2 l' = m1 l" "n2 l' = n1 l"
    and "m1 l' = momentum_m IA JA z (m1 l) (m2 l) (s_h s) (s_xx s)"
    and "n1 l' = momentum_n IA JA z (n1 l) (n2 l) (s_h s) (s_yy s)"
    and "(k - 1) mod KD \<noteq> 0 \<Longrightarrow> zmxa l' = zmxa l \<and> gauge_rows l' = gauge_rows l"
    and "(k - 1) mod KD = 0 \<Longrightarrow> zmxa l' = (\<lambda>i j. max (zmxa l i j) (z i j)) \<and>
       (\<exists>v. sample_gauges (s_gauges s) z = Inr v \<and> gauge_rows l' = gauge_rows l @ [(f64 (real (k - 1) * DT / 60), v)])"
proof -
  let ?bout = "bout IA JA (mass IA JA (z1 l) (z2 l) (m1 l) (n1 l) (s_h s) (s_rx s) (s_cj s)) (m1 l) (n1 l) (s_h s)"
  obtain z where z: "?bout = Inr z" using assms by (auto simp: tsunami_step_def Let_def)
  show thesis
  proof (cases "(k - 1) mod KD = 0")
    case True
    then obtain v where "sample_gauges (s_gauges s) z = Inr v" using assms z by (auto simp: tsunami_step_def Let_def)
    then show thesis using assms z True by (intro that [OF z]) (auto simp: tsunami_step_def Let_def)
  next
    case False
    then show thesis using assms z by (intro that [OF z]) (auto simp: tsunami_step_def Let_def)
  qed
qed

text \<open>The number of samples after \<open>k\<close> steps.\<close>

definition samples :: "nat \<Rightarrow> nat" where
  "samples k = (k + KD - 1) div KD"

lemma samples_Suc: "samples (Suc k) = (if k mod KD = 0 then Suc (samples k) else samples k)"
proof -
  have "k + 19 = k mod 20 + 19 + 20 * (k div 20)" by simp
  then have "(k + 19) div 20 = (k mod 20 + 19) div 20 + k div 20"
    by (metis div_mult_self2 add.commute zero_neq_numeral)
  moreover have "(k mod 20 + 19) div 20 = (if k mod 20 = 0 then 0 else 1)"
    using mod_less_divisor [of 20 k] by (auto simp: div_nat_eqI)
  moreover have "samples (Suc k) = k div 20 + 1" and "samples k = (k + 19) div 20"
    by (simp_all add: samples_def KD_def)
  ultimately show ?thesis by (simp add: KD_def)
qed

lemma tsunami_steps_gauges:
  assumes "tsunami_steps s k l0 = Inr l" and "gauge_rows l0 = []"
  shows "length (gauge_rows l) = samples k \<and> gauges_fit (length (s_gauges s)) l"
  using assms(1)
proof (induction k arbitrary: l)
  case 0
  then show ?case using assms(2) by (simp add: samples_def KD_def gauges_fit_def)
next
  case (Suc k)
  then have "bind_ok (tsunami_steps s k l0) (tsunami_step s (Suc k)) = Inr l" by simp
  then obtain l1 where l1: "tsunami_steps s k l0 = Inr l1" and step: "tsunami_step s (Suc k) l1 = Inr l" by blast
  note ih = Suc.IH [OF l1]
  from step show ?case
  proof (cases rule: tsunami_step_cases)
    case (1 z)
    show ?thesis
    proof (cases "k mod KD = 0")
      case True
      then obtain t v where "gauge_rows l = gauge_rows l1 @ [(t, v)]" "length v = length (s_gauges s)"
        using 1(9) sample_gauges_length by auto
      then show ?thesis using ih True by (auto simp: samples_Suc gauges_fit_def)
    next
      case False
      then show ?thesis using ih 1(8) by (simp add: samples_Suc gauges_fit_def)
    qed
  qed
qed

subsection \<open>The loop\<close>

lemma write_file_effect:
  assumes "write_file env body rename p c fs = (r, fs')" and "p \<noteq> []"
  shows "\<forall>q. q \<noteq> p \<and> q \<noteq> tmp_sibling p \<longrightarrow> fs' q = fs q"
    and "fs' p = fs p \<or> fs' p = Some c"
    and "r = Ret (Inr ()) \<Longrightarrow> fs' p = Some c \<and> fs' (tmp_sibling p) = None"
  using assms tmp_sibling_neq [OF assms(2)]
  by (auto simp: write_file_def atomic_write_def Let_def split: ending.splits sum.splits if_splits)

text \<open>A write in a sequence: it ends the sequence, or the file is there and the rest runs.\<close>

lemma write_then_cases:
  assumes "and_then (write_file env body rename p c fs) f = (r, fs')" and "p \<noteq> []"
  obtains (ended) "\<forall>q. q \<noteq> p \<and> q \<noteq> tmp_sibling p \<longrightarrow> fs' q = fs q" "r \<noteq> Ret (Inr ())"
  | (made) fs1 where "\<forall>q. q \<noteq> p \<and> q \<noteq> tmp_sibling p \<longrightarrow> fs1 q = fs q" "fs1 p = Some c" "f () fs1 = (r, fs')"
  using assms(1)
proof (cases rule: and_then_cases)
  case (stop fs1)
  then show ?thesis using ended write_file_effect(1) [OF stop(1) assms(2)] by simp
next
  case (fail e fs1)
  then show ?thesis using ended write_file_effect(1) [OF fail(1) assms(2)] by simp
next
  case (go u fs1)
  then show ?thesis using made write_file_effect [OF go(1) assms(2)] by simp
qed

definition CHECKPOINT_FILES :: "fs_path set" where
  "CHECKPOINT_FILES = {CHECKPOINT, tmp_sibling CHECKPOINT}"

text \<open>A checkpoint file that can only be read as a state of the run from \<open>l0\<close>.\<close>

definition checkpoint_of :: "sea \<Rightarrow> levels \<Rightarrow> content option \<Rightarrow> bool" where
  "checkpoint_of s l0 file \<longleftrightarrow>
     (\<forall>k l. read_checkpoint (length (s_gauges s)) file = Some (k, l) \<longrightarrow> tsunami_steps s k l0 = Inr l)"

lemma read_checkpoint_bound: "read_checkpoint n file = Some (k, l) \<Longrightarrow> k \<le> KE"
  by (auto simp: read_checkpoint_def split: option.splits content.splits list.splits if_splits)

lemma checkpoint_of_written:
  assumes "tsunami_steps s k l0 = Inr l" and "gauge_rows l0 = []" and "k \<le> KE"
  shows "checkpoint_of s l0 (Some (checkpoint_content k l))"
  using assms read_checkpoint_written [OF assms(3)] tsunami_steps_gauges [OF assms(1,2)]
  by (simp add: checkpoint_of_def)

lemma tsunami_loop_effect:
  assumes "tsunami_loop env s n k l fs = (r, fs')"
    and "tsunami_steps s k l0 = Inr l" and "gauge_rows l0 = []" and "k + n \<le> KE"
    and "checkpoint_of s l0 (fs CHECKPOINT)"
  shows "(\<forall>q. q \<notin> CHECKPOINT_FILES \<longrightarrow> fs' q = fs q) \<and> checkpoint_of s l0 (fs' CHECKPOINT) \<and>
    (\<forall>l'. r = Ret (Inr l') \<longrightarrow> tsunami_steps s (k + n) l0 = Inr l')"
  using assms
proof (induction n arbitrary: k l fs)
  case (Suc n)
  from Suc.prems(1) show ?case unfolding tsunami_loop.simps
  proof (cases rule: and_then_cases)
    case (go u fs0)
    then have "and_then (Ret (tsunami_step s (Suc k) l), fs) (\<lambda>l' fs.
        and_then (if Suc k mod CHECKPOINT_INTERVAL = 0
               then write_file env (Saving (Suc k)) (Renaming (Suc k)) CHECKPOINT (checkpoint_content (Suc k) l') fs
               else (Ret (Inr ()), fs)) (\<lambda>_ fs. tsunami_loop env s n (Suc k) l' fs)) = (r, fs')"
      by simp
    then show ?thesis
    proof (cases rule: and_then_cases)
      case (go l1 fs1)
      then have step: "tsunami_steps s (Suc k) l0 = Inr l1" and fs1: "fs1 = fs" using Suc.prems(2) by auto
      let ?save = "if Suc k mod CHECKPOINT_INTERVAL = 0
               then write_file env (Saving (Suc k)) (Renaming (Suc k)) CHECKPOINT (checkpoint_content (Suc k) l1) fs
               else (Ret (Inr ()), fs)"
      have bound: "Suc k \<le> KE" "Suc k + n \<le> KE" using Suc.prems(4) by simp_all
      note written = checkpoint_of_written [OF step Suc.prems(3) bound(1)]
      have save: "(\<forall>q. q \<notin> CHECKPOINT_FILES \<longrightarrow> fs2 q = fs q) \<and> checkpoint_of s l0 (fs2 CHECKPOINT)"
        if "?save = (q, fs2)" for q fs2
      proof (cases "Suc k mod CHECKPOINT_INTERVAL = 0")
        case True
        then have "write_file env (Saving (Suc k)) (Renaming (Suc k)) CHECKPOINT (checkpoint_content (Suc k) l1) fs = (q, fs2)"
          using that by simp
        from write_file_effect [OF this] show ?thesis
          using written Suc.prems(5) by (auto simp: CHECKPOINT_FILES_def CHECKPOINT_def)
      qed (use that Suc.prems(5) in simp)
      from go(2) have "and_then ?save (\<lambda>_ fs. tsunami_loop env s n (Suc k) l1 fs) = (r, fs')" unfolding fs1 .
      then show ?thesis
      proof (cases rule: and_then_cases)
        case (go u fs2)
        from Suc.IH [OF go(2) step Suc.prems(3) bound(2)] save [OF go(1)] show ?thesis by simp
      qed (use save in auto)
    qed (use Suc.prems(5) in auto)
  qed (use Suc.prems(5) in auto)
qed auto


subsection \<open>Attempts\<close>

definition TSUNAMI_READS :: "fs_path set" where
  "TSUNAMI_READS = {XYO_DAT, TIDAL_DAT, GRID_A, DEFORM_A}"

definition TSUNAMI_FILES :: "fs_path set" where
  "TSUNAMI_FILES = CHECKPOINT_FILES \<union> {tmp_sibling GREEN_DAT, tmp_sibling ZMAX_A}"

text \<open>An attempt nothing disturbs.\<close>

definition calm :: "libm \<Rightarrow> tsunami_env" where
  "calm m = \<lparr> te_libm = m, te_junk = (\<lambda>_. (0, 0)), te_event = (\<lambda>_. Ret (Inr ())), te_partial = (\<lambda>_. Text '''') \<rparr>"

text \<open>tidal.dat has a line for every gauge.\<close>

definition gauges_given :: "workspace \<Rightarrow> bool" where
  "gauges_given fs = (case fs TIDAL_DAT of Some (Text t) \<Rightarrow> NG \<le> length (tidal_lines t) | _ \<Rightarrow> False)"

text \<open>The state after all steps, from the input files alone.\<close>

definition tsunami_result :: "libm \<Rightarrow> workspace \<Rightarrow> exn + levels" where
  "tsunami_result m fs =
     bind_ok (read_inputs (calm m) fs) (\<lambda>(window, s). bind_ok (initial_levels window fs) (tsunami_steps s KE))"

text \<open>The checkpoint, if it can be read at all, is of the run from these inputs.\<close>

definition tsunami_safe :: "libm \<Rightarrow> workspace \<Rightarrow> workspace \<Rightarrow> bool" where
  "tsunami_safe m R own \<longleftrightarrow> gauges_given R \<and>
     (\<forall>window s. read_inputs (calm m) R = Inr (window, s) \<longrightarrow>
        (case initial_levels window R of
           Inl _ \<Rightarrow> read_checkpoint (length (s_gauges s)) (own CHECKPOINT) = None
         | Inr l0 \<Rightarrow> checkpoint_of s l0 (own CHECKPOINT)))"

lemma read_tidal_junk:
  assumes "NG \<le> length (tidal_lines t)"
  shows "read_tidal_dat junk t = read_tidal_dat junk' t"
proof -
  have "[length gs..<NG] = []" if "all_some (map read_gauge (take NG (tidal_lines t))) = Some gs" for gs
    using all_some_length [OF that] assms by simp
  then show ?thesis by (auto simp: read_tidal_dat_def value_error_def split: option.splits)
qed

lemma read_inputs_calm:
  assumes "gauges_given fs" and "te_libm env = m"
  shows "read_inputs env fs = read_inputs (calm m) fs"
proof -
  obtain t where "fs TIDAL_DAT = Some (Text t)" "NG \<le> length (tidal_lines t)"
    using assms(1) by (auto simp: gauges_given_def split: option.splits content.splits)
  then show ?thesis
    using assms(2) read_tidal_junk [of t "te_junk env" "te_junk (calm m)"]
    by (simp add: read_inputs_def calm_def)
qed

lemma inputs_restrict:
  "read_inputs env (fs |` TSUNAMI_READS) = read_inputs env fs"
  "initial_levels w (fs |` TSUNAMI_READS) = initial_levels w fs"
  "gauges_given (fs |` TSUNAMI_READS) = gauges_given fs"
  "tsunami_result m (fs |` TSUNAMI_READS) = tsunami_result m fs"
proof -
  show inp: "read_inputs env (fs |` TSUNAMI_READS) = read_inputs env fs" for env
    by (simp add: read_inputs_def TSUNAMI_READS_def)
  show init: "initial_levels w (fs |` TSUNAMI_READS) = initial_levels w fs" for w
    by (simp add: initial_levels_def TSUNAMI_READS_def)
  show "gauges_given (fs |` TSUNAMI_READS) = gauges_given fs" by (simp add: gauges_given_def TSUNAMI_READS_def)
  show "tsunami_result m (fs |` TSUNAMI_READS) = tsunami_result m fs" by (simp add: tsunami_result_def inp init)
qed

lemma initial_gauges: "initial_levels w fs = Inr l0 \<Longrightarrow> gauge_rows l0 = []"
  by (auto simp: initial_levels_def split: prod.splits)

lemma tsunami_paths:
  "CHECKPOINT \<notin> {GREEN_DAT, ZMAX_A, tmp_sibling GREEN_DAT, tmp_sibling ZMAX_A}"
  "GREEN_DAT \<notin> {ZMAX_A, tmp_sibling ZMAX_A, CHECKPOINT, tmp_sibling CHECKPOINT}"
  "ZMAX_A \<noteq> CHECKPOINT"
  by (auto simp: CHECKPOINT_def GREEN_DAT_def ZMAX_A_def tmp_sibling_def)

text \<open>What \<open>run_tsunami\<close> goes through once its inputs are read and its start is found.\<close>

lemma tsunami_finish:
  assumes run: "and_then (tsunami_loop env s (KE - k) k l fs) (\<lambda>l fs.
     and_then (write_file env Writing_green Renaming_green GREEN_DAT (Text (green_text (gauge_rows l))) fs) (\<lambda>_ fs.
     and_then (write_file env Writing_zmax Renaming_zmax ZMAX_A (Text (zmax_text (zmxa l))) fs) (\<lambda>_ fs.
     and_then (te_event env Unlinking, fs) (\<lambda>_ fs.
       (Ret (Inr ()), fs(CHECKPOINT := None)))))) = (r, fs')"
    and start: "tsunami_steps s k l0 = Inr l" "gauge_rows l0 = []" "k \<le> KE" "checkpoint_of s l0 (fs CHECKPOINT)"
  shows "(\<forall>q. q \<notin> TSUNAMI_FILES \<union> {GREEN_DAT, ZMAX_A} \<longrightarrow> fs' q = fs q) \<and> checkpoint_of s l0 (fs' CHECKPOINT) \<and>
    (r = Ret (Inr ()) \<longrightarrow> (\<exists>l'. tsunami_steps s KE l0 = Inr l' \<and>
        fs' GREEN_DAT = Some (Text (green_text (gauge_rows l'))) \<and> fs' ZMAX_A = Some (Text (zmax_text (zmxa l')))))"
    (is "?frame fs' \<and> ?check fs' \<and> _")
proof -
  have loop: "(\<forall>q. q \<notin> CHECKPOINT_FILES \<longrightarrow> fs1 q = fs q) \<and> ?check fs1 \<and>
      (\<forall>l'. q = Ret (Inr l') \<longrightarrow> tsunami_steps s KE l0 = Inr l')"
    if "tsunami_loop env s (KE - k) k l fs = (q, fs1)" for q fs1
    using tsunami_loop_effect [OF that start(1,2) _ start(4)] start(3) by simp
  have none: "checkpoint_of s l0 None" by (simp add: checkpoint_of_def read_checkpoint_def)
  note paths = tsunami_paths
  have named: "GREEN_DAT \<noteq> []" "ZMAX_A \<noteq> []" by (simp_all add: GREEN_DAT_def ZMAX_A_def)
  from run show ?thesis
  proof (cases rule: and_then_cases)
    case (go l1 fs1)
    have f1: "?frame fs1 \<and> ?check fs1" and l1: "tsunami_steps s KE l0 = Inr l1"
      using loop [OF go(1)] by (auto simp: TSUNAMI_FILES_def)
    from go(2) named(1) show ?thesis
    proof (cases rule: write_then_cases)
      case ended
      then show ?thesis using f1 paths by (auto simp: TSUNAMI_FILES_def)
    next
      case green: (made fs2)
      have f2: "?frame fs2 \<and> ?check fs2" using f1 green(1) paths by (auto simp: TSUNAMI_FILES_def)
      from green(3) named(2) show ?thesis
      proof (cases rule: write_then_cases)
        case ended
        then show ?thesis using f2 paths by (auto simp: TSUNAMI_FILES_def)
      next
        case zmax: (made fs3)
        have f3: "?frame fs3 \<and> ?check fs3" using f2 zmax(1) paths by (auto simp: TSUNAMI_FILES_def)
        have "fs3 GREEN_DAT = Some (Text (green_text (gauge_rows l1)))" using green(2) zmax(1) paths by auto
        with zmax(3) show ?thesis using zmax(2) f3 l1 none paths
          by (auto simp: TSUNAMI_FILES_def CHECKPOINT_FILES_def elim!: and_then_cases)
      qed
    qed
  qed (use loop in \<open>auto simp: TSUNAMI_FILES_def\<close>)
qed


lemma run_tsunami_effect:
  assumes run: "run_tsunami env fs = (r, fs')" and m: "te_libm env = m"
    and safe: "tsunami_safe m fs fs"
  shows "(\<forall>q. q \<notin> TSUNAMI_FILES \<union> {GREEN_DAT, ZMAX_A} \<longrightarrow> fs' q = fs q) \<and> tsunami_safe m fs fs' \<and>
    (r = Ret (Inr ()) \<longrightarrow> (\<exists>l. tsunami_result m fs = Inr l \<and>
        fs' GREEN_DAT = Some (Text (green_text (gauge_rows l))) \<and> fs' ZMAX_A = Some (Text (zmax_text (zmxa l)))))"
proof -
  have inputs: "read_inputs env fs = read_inputs (calm m) fs"
    using safe m by (intro read_inputs_calm) (simp_all add: tsunami_safe_def)
  from run show ?thesis unfolding run_tsunami_def
  proof (cases rule: and_then_cases)
    case (go u fs1)
    then have fs1: "fs1 = fs" by simp
    from go(2) show ?thesis unfolding fs1
    proof (cases rule: and_then_cases)
      case (go ws fs2)
      obtain window s where ws: "ws = (window, s)" by fastforce
      have inp: "read_inputs (calm m) fs = Inr (window, s)" and fs2: "fs2 = fs" using go(1) inputs ws by auto
      let ?file = "fs CHECKPOINT" and ?n = "length (s_gauges s)"
      from go(2) show ?thesis unfolding ws fs2 prod.case
      proof (cases rule: and_then_cases)
        case (go kl fs3)
        obtain k l where kl: "kl = (k, l)" by fastforce
        obtain l0 where l0: "initial_levels window fs = Inr l0" and start: "tsunami_steps s k l0 = Inr l" "k \<le> KE"
        proof (cases "read_checkpoint ?n ?file")
          case None
          then show thesis using go(1) kl that by (auto split: sum.splits)
        next
          case (Some c)
          then have c: "read_checkpoint ?n ?file = Some (k, l)" using go(1) kl by simp
          then obtain l0 where "initial_levels window fs = Inr l0" "checkpoint_of s l0 ?file"
            using safe inp by (auto simp: tsunami_safe_def split: sum.splits)
          then show thesis using that c read_checkpoint_bound [OF c] by (auto simp: checkpoint_of_def)
        qed
        have check: "checkpoint_of s l0 (fs CHECKPOINT)" using safe inp l0 by (simp add: tsunami_safe_def)
        have "fs3 = fs" using go(1) by simp
        note fin = tsunami_finish [OF go(2) [unfolded kl prod.case this] start(1) initial_gauges [OF l0] start(2) check]
        have "tsunami_result m fs = tsunami_steps s KE l0" by (simp add: tsunami_result_def inp l0)
        then show ?thesis using fin safe inp l0 by (simp add: tsunami_safe_def)
      qed (use safe in auto)
    qed (use safe in auto)
  qed (use safe in auto)
qed

text \<open>The contract the pipeline needs.\<close>

lemma tsunami_safe_restrict:
  "tsunami_safe m (fs |` TSUNAMI_READS) (own |` TSUNAMI_FILES) = tsunami_safe m fs own"
proof -
  have "(own |` TSUNAMI_FILES) CHECKPOINT = own CHECKPOINT" by (simp add: TSUNAMI_FILES_def CHECKPOINT_FILES_def)
  then show ?thesis unfolding tsunami_safe_def inputs_restrict by (simp only:)
qed

lemma tsunami_safe_fresh: "gauges_given fs \<Longrightarrow> own CHECKPOINT = None \<Longrightarrow> tsunami_safe m fs own"
  by (auto simp: tsunami_safe_def checkpoint_of_def read_checkpoint_def split: sum.splits)

subsection \<open>Any history of attempts\<close>

text \<open>The workspace after attempts at the step that may each have raised, been killed or returned.\<close>

inductive tsunami_attempts :: "libm \<Rightarrow> workspace \<Rightarrow> workspace \<Rightarrow> bool" for m fs0 where
  none: "fs0 CHECKPOINT = None \<Longrightarrow> tsunami_attempts m fs0 fs0"
| attempt: "tsunami_attempts m fs0 fs \<Longrightarrow> te_libm env = m \<Longrightarrow> run_tsunami env fs = (r, fs') \<Longrightarrow>
    tsunami_attempts m fs0 fs'"

lemma tsunami_inputs_cong:
  assumes "\<forall>q. q \<notin> TSUNAMI_FILES \<union> {GREEN_DAT, ZMAX_A} \<longrightarrow> fs' q = fs q"
  shows "fs' |` TSUNAMI_READS = fs |` TSUNAMI_READS"
proof -
  have "TSUNAMI_READS \<inter> (TSUNAMI_FILES \<union> {GREEN_DAT, ZMAX_A}) = {}"
    by (auto simp: TSUNAMI_READS_def TSUNAMI_FILES_def CHECKPOINT_FILES_def tmp_sibling_def XYO_DAT_def TIDAL_DAT_def
        GRID_A_def DEFORM_A_def CHECKPOINT_def GREEN_DAT_def ZMAX_A_def)
  then have "fs' q = fs q" if "q \<in> TSUNAMI_READS" for q using assms that by blast
  then show ?thesis by (simp add: restrict_map_def fun_eq_iff)
qed

lemma tsunami_attempts_safe:
  assumes "tsunami_attempts m fs0 fs" and "gauges_given fs0"
  shows "tsunami_safe m fs fs \<and> fs |` TSUNAMI_READS = fs0 |` TSUNAMI_READS"
  using assms
proof induction
  case none
  then show ?case by (simp add: tsunami_safe_fresh)
next
  case (attempt fs env r fs')
  then have safe: "tsunami_safe m fs fs" and same: "fs |` TSUNAMI_READS = fs0 |` TSUNAMI_READS" by simp_all
  note eff = run_tsunami_effect [OF attempt.hyps(3,2) safe]
  have "fs' |` TSUNAMI_READS = fs |` TSUNAMI_READS" using eff by (intro tsunami_inputs_cong) simp
  then show ?case using eff same tsunami_safe_restrict by metis
qed

lemma tsunami_attempts_outputs:
  assumes "tsunami_attempts m fs0 fs" and "gauges_given fs0" and "te_libm env = m"
    and "run_tsunami env fs = (Ret (Inr ()), fs')"
  shows "\<exists>l. tsunami_result m fs0 = Inr l \<and> fs' GREEN_DAT = Some (Text (green_text (gauge_rows l))) \<and>
    fs' ZMAX_A = Some (Text (zmax_text (zmxa l)))"
  using run_tsunami_effect [OF assms(4,3)] tsunami_attempts_safe [OF assms(1,2)] inputs_restrict(4) by metis


subsection \<open>Undisturbed attempts return\<close>

text \<open>No cell the kernels divide by is of depth zero, and the gauges lie on the grid.\<close>

definition open_sea :: "sea \<Rightarrow> bool" where
  "open_sea s \<longleftrightarrow> (\<forall>i j. 1 \<le> i \<and> i < IA \<and> 1 \<le> j \<and> j < JA \<longrightarrow> s_h s i j \<noteq> 0) \<and>
     (\<forall>g \<in> set (s_gauges s). axis_index IA (fst g) \<noteq> None \<and> axis_index JA (snd g) \<noteq> None)"

lemma edge_pass_ok: "\<forall>(i, j) \<in> set cells. h i j \<noteq> 0 \<Longrightarrow> is_ok z \<Longrightarrow> is_ok (edge_pass cells h f z)"
  by (cases z) (auto simp: edge_pass_def)

lemma bout_ok: "open_sea s \<Longrightarrow> is_ok (bout IA JA z m n (s_h s))"
  unfolding bout_def by (intro edge_pass_ok) (auto simp: open_sea_def IA_def JA_def)

lemma sample_gauges_ok: "open_sea s \<Longrightarrow> is_ok (sample_gauges (s_gauges s) z)"
proof -
  assume "open_sea s"
  then have "\<forall>g \<in> set (s_gauges s). pick z g \<noteq> None" by (auto simp: open_sea_def pick_def split: option.splits)
  moreover have "all_some xs \<noteq> None" if "\<forall>x \<in> set xs. x \<noteq> None" for xs :: "real option list"
    using that by (induction xs) auto
  ultimately have "all_some (map (pick z) (s_gauges s)) \<noteq> None" by auto
  then show ?thesis by (auto simp: sample_gauges_def)
qed

lemma is_ok_cases: "is_ok r \<Longrightarrow> (\<And>a. r = Inr a \<Longrightarrow> thesis) \<Longrightarrow> thesis"
  by (cases r) auto

lemma tsunami_step_ok: "open_sea s \<Longrightarrow> is_ok (tsunami_step s k l)"
proof -
  assume sea: "open_sea s"
  obtain z where "bout IA JA (mass IA JA (z1 l) (z2 l) (m1 l) (n1 l) (s_h s) (s_rx s) (s_cj s)) (m1 l) (n1 l) (s_h s) = Inr z"
    using bout_ok [OF sea] is_ok_cases by blast
  moreover obtain v where "sample_gauges (s_gauges s) z = Inr v" using sample_gauges_ok [OF sea] is_ok_cases by blast
  ultimately show ?thesis by (simp add: tsunami_step_def Let_def)
qed

lemma tsunami_steps_ok: "open_sea s \<Longrightarrow> is_ok (tsunami_steps s k l)"
proof (induction k)
  case (Suc k)
  then obtain l' where "tsunami_steps s k l = Inr l'" using is_ok_cases by blast
  then show ?case using tsunami_step_ok [OF Suc.prems] by simp
qed simp

lemma write_file_calm: "\<exists>fs'. write_file (calm m) a b p c fs = (Ret (Inr ()), fs')"
  by (simp add: write_file_def atomic_write_def calm_def)

lemma tsunami_loop_returns:
  assumes "tsunami_steps s k l0 = Inr l" and "tsunami_steps s (k + n) l0 = Inr l'"
  shows "\<exists>fs'. tsunami_loop (calm m) s n k l fs = (Ret (Inr l'), fs')"
  using assms
proof (induction n arbitrary: k l fs)
  case (Suc n)
  have prefix: "is_ok (tsunami_steps s (i + j) l0) \<Longrightarrow> is_ok (tsunami_steps s i l0)" for i j
  proof (induction j)
    case (Suc j)
    then show ?case by (cases "tsunami_steps s (i + j) l0") auto
  qed simp
  have "is_ok (tsunami_steps s (Suc k + n) l0)" using Suc.prems(2) by simp
  then obtain l1 where l1: "tsunami_steps s (Suc k) l0 = Inr l1" using prefix is_ok_cases by blast
  then have step: "tsunami_step s (Suc k) l = Inr l1" using Suc.prems(1) by simp
  obtain fs1 where fs1: "(if Suc k mod CHECKPOINT_INTERVAL = 0
      then write_file (calm m) (Saving (Suc k)) (Renaming (Suc k)) CHECKPOINT (checkpoint_content (Suc k) l1) fs
      else (Ret (Inr ()), fs)) = (Ret (Inr ()), fs1)"
  proof (cases "Suc k mod CHECKPOINT_INTERVAL = 0")
    case True
    then show thesis using that write_file_calm by (metis (no_types, lifting))
  qed (use that in simp)
  have "\<exists>fs'. tsunami_loop (calm m) s n (Suc k) l1 fs1 = (Ret (Inr l'), fs')"
    using Suc.IH [OF l1] Suc.prems(2) by simp
  moreover have "te_event (calm m) e = Ret (Inr ())" for e by (simp add: calm_def)
  ultimately show ?case unfolding tsunami_loop.simps by (simp only: step fs1 and_then_simps)
qed auto

lemma calm_run_returns:
  assumes res: "tsunami_result m fs = Inr l" and safe: "tsunami_safe m fs fs"
  shows "\<exists>fs'. run_tsunami (calm m) fs = (Ret (Inr ()), fs')"
proof -
  obtain window s l0 where inp: "read_inputs (calm m) fs = Inr (window, s)" and l0: "initial_levels window fs = Inr l0"
    and steps: "tsunami_steps s KE l0 = Inr l"
    using res by (auto simp: tsunami_result_def)
  let ?start = "case read_checkpoint (length (s_gauges s)) (fs CHECKPOINT) of Some start \<Rightarrow> Inr start
      | None \<Rightarrow> bind_ok (initial_levels window fs) (\<lambda>l. Inr (0, l))"
  obtain k l1 where start: "?start = Inr (k, l1)" and l1: "tsunami_steps s k l0 = Inr l1" and k: "k \<le> KE"
  proof (cases "read_checkpoint (length (s_gauges s)) (fs CHECKPOINT)")
    case (Some c)
    obtain k l1 where c: "c = (k, l1)" by fastforce
    have "checkpoint_of s l0 (fs CHECKPOINT)" using safe inp l0 by (simp add: tsunami_safe_def)
    then show thesis using that Some c read_checkpoint_bound by (simp add: checkpoint_of_def)
  qed (use that l0 in simp)
  obtain fs1 where loop: "tsunami_loop (calm m) s (KE - k) k l1 fs = (Ret (Inr l), fs1)"
    using tsunami_loop_returns [OF l1, of "KE - k" l m fs] steps k by auto
  obtain fs2 where green: "write_file (calm m) Writing_green Renaming_green GREEN_DAT (Text (green_text (gauge_rows l))) fs1 = (Ret (Inr ()), fs2)"
    using write_file_calm by blast
  obtain fs3 where zmax: "write_file (calm m) Writing_zmax Renaming_zmax ZMAX_A (Text (zmax_text (zmxa l))) fs2 = (Ret (Inr ()), fs3)"
    using write_file_calm by blast
  have calm: "te_event (calm m) e = Ret (Inr ())" for e by (simp add: calm_def)
  show ?thesis
    by (simp add: run_tsunami_def calm inp start loop green zmax)
qed

text \<open>C19: However often the tsunami step was interrupted (killed or stopped by an error at any moment, also while
  it wrote a checkpoint), an attempt that returns leaves in green.dat and zmax_a.grd exactly what
  one undisturbed run over the same input files would have written, and that run does return.\<close>

theorem interrupted_tsunami_run_equals_undisturbed:
  assumes "tsunami_attempts m fs0 fs" and "gauges_given fs0" and "te_libm env = m"
    and "run_tsunami env fs = (Ret (Inr ()), fs')" and "fs0 CHECKPOINT = None"
  shows "\<exists>fs1. run_tsunami (calm m) fs0 = (Ret (Inr ()), fs1) \<and>
    fs' GREEN_DAT = fs1 GREEN_DAT \<and> fs' ZMAX_A = fs1 ZMAX_A"
proof -
  obtain l where res: "tsunami_result m fs0 = Inr l" and out: "fs' GREEN_DAT = Some (Text (green_text (gauge_rows l)))"
      "fs' ZMAX_A = Some (Text (zmax_text (zmxa l)))"
    using tsunami_attempts_outputs [OF assms(1-4)] by blast
  have fresh: "tsunami_safe m fs0 fs0" using assms(2,5) by (rule tsunami_safe_fresh)
  then obtain fs1 where run: "run_tsunami (calm m) fs0 = (Ret (Inr ()), fs1)" using calm_run_returns [OF res] by blast
  have "te_libm (calm m) = m" by (simp add: calm_def)
  then have "fs1 GREEN_DAT = Some (Text (green_text (gauge_rows l))) \<and> fs1 ZMAX_A = Some (Text (zmax_text (zmxa l)))"
    using run_tsunami_effect [OF run] fresh res by auto
  then show ?thesis using run out by auto
qed

end
