(* ===== verification/TsunamiRest.thy ===== *)
theory TsunamiRest
  imports TsunamiLaws
begin

text \<open>
  More of the tsunami step: a run over readable inputs returns, the gauge file has the rows and
  columns ttt_max reads and reads back number by number, dry cells stay at rest; and a
  workspace of dry land on which the laws are seen at work.
\<close>

subsection \<open>Dry land\<close>

definition dry_row :: "(nat \<times> string) list" where
  "dry_row = replicate JA (3, ''-1'')"

definition dry_gauges :: string where
  "dry_gauges = concat (map (\<lambda>w. w @ [CHR 0x0A]) (replicate NG ''g 1 1''))"

definition dry_grid_text :: string where
  "dry_grid_text = concat (map (\<lambda>ws. table_row ws @ [CHR 0x0A]) (replicate IA dry_row))"

definition dry_land :: workspace where
  "dry_land = [XYO_DAT \<mapsto> Text ''1 1 1 1'',
     TIDAL_DAT \<mapsto> Text dry_gauges,
     GRID_A \<mapsto> Text dry_grid_text,
     DEFORM_A \<mapsto> Text ''0.5'']"

lemma stored_one: "cast d 1 = 1" "cast d (- 1) = - 1"
  using stored_of_int [of 1 d 0] by (simp_all add: array_type.stored_def cast_minus)

lemma small_texts:
  "py_float ''1'' = Some 1" "read_number d ''-1'' = Some (- 1)" "py_int ''1'' = Some 1"
  by (simp_all add: py_float_def read_number_def numeral_val_def py_int_def strip_by_def is_space_def signed_def
      group_val_def digit_val_def group_places_def stored_one Let_def)

lemma dry_xyo: "read_xyo_dat ''1 1 1 1'' = Inr (1, 1, 1, 1)"
  by (simp add: read_xyo_dat_def is_space_def small_texts trunc_def)

lemma dry_tidal_lines: "tidal_lines dry_gauges = replicate NG ''g 1 1''"
proof -
  have "\<forall>w \<in> set (replicate NG ''g 1 1''). \<forall>c \<in> set w. \<not> is_line_end c" by (simp add: is_line_end_def NG_def)
  then have "splitlines dry_gauges = replicate NG ''g 1 1''"
    unfolding dry_gauges_def by (rule splitlines_lines)
  moreover have "strip_by is_space ''g 1 1'' \<noteq> []" by (simp add: strip_by_def is_space_def)
  ultimately show ?thesis by (simp add: tidal_lines_def)
qed

lemma dry_tidal: "read_tidal_dat junk dry_gauges = Inr (replicate NG (1, 1))"
proof -
  have "read_gauge ''g 1 1'' = Some (1, 1)" by (simp add: read_gauge_def is_space_def small_texts)
  then have "all_some (map read_gauge (replicate NG ''g 1 1'')) = Some (map (\<lambda>_. (1, 1)) (replicate NG ''g 1 1''))"
    by (intro all_some_map) simp
  then show ?thesis by (simp add: read_tidal_dat_def dry_tidal_lines value_error_def)
qed

lemma dry_grid:
  "\<exists>h. read_grid_a dry_grid_text = Inr h \<and>
    (\<forall>i j. i < IA \<and> j < JA \<longrightarrow> h i j = - 1)"
proof -
  have word: "table_word 3 ''-1''" by (simp add: table_word_def is_space_def)
  have "loadtxt Float32 dry_grid_text =
      Some (map (map ((\<lambda>_. - 1) \<circ> snd)) (replicate IA dry_row))"
    unfolding dry_grid_text_def using word by (intro loadtxt_table [where n = JA]) (auto simp: dry_row_def JA_def small_texts)
  then have "loadtxt Float32 dry_grid_text =
      Some (replicate IA (replicate JA (- 1)))"
    by (simp add: dry_row_def)
  moreover have "length (hd (replicate IA (replicate JA (- 1 :: real)))) = JA" by (simp add: IA_def)
  ultimately show ?thesis by (simp add: read_grid_a_def value_error_def from_rows_def floor_depth_def)
qed

lemma dry_initial: "\<exists>l. initial_levels (1, 1, 1, 1) dry_land = Inr l"
proof -
  have "dry_land DEFORM_A = Some (Text ''0.5'')" by (simp add: dry_land_def)
  moreover have "\<exists>v. read_number Float32 ''0.5'' = Some v"
    by (simp add: py_float_def read_number_def numeral_val_def strip_by_def is_space_def signed_def
      group_val_def digit_val_def Let_def)
  ultimately show ?thesis
    by (auto simp: initial_levels_def read_deform_a_def value_error_def is_space_def place_window_def
        slice_bound_def slice_length_def IA_def JA_def Let_def)
qed

lemma dry_inputs:
  "\<exists>s. read_inputs env dry_land = Inr ((1, 1, 1, 1), s) \<and> open_sea s \<and>
    (\<forall>i j. i < IA \<and> j < JA \<longrightarrow> s_h s i j = - 1) \<and> s_gauges s = replicate NG (0, 0)"
proof -
  obtain h where h: "read_grid_a dry_grid_text = Inr h"
    "\<forall>i j. i < IA \<and> j < JA \<longrightarrow> h i j = - 1"
    using dry_grid by blast
  have files: "dry_land XYO_DAT = Some (Text ''1 1 1 1'')"
    "dry_land TIDAL_DAT = Some (Text dry_gauges)"
    "dry_land GRID_A = Some (Text dry_grid_text)"
    by (simp_all add: dry_land_def XYO_DAT_def TIDAL_DAT_def GRID_A_def DEFORM_A_def)
  show ?thesis
    unfolding read_inputs_def files
    by (simp add: dry_xyo dry_tidal h(1) open_sea_def h(2) axis_index_def IA_def JA_def NG_def)
qed

lemma dry_facts: "gauges_given dry_land" "dry_land CHECKPOINT = None"
proof -
  have "dry_land TIDAL_DAT = Some (Text dry_gauges)"
    by (simp add: dry_land_def XYO_DAT_def TIDAL_DAT_def GRID_A_def DEFORM_A_def)
  then show "gauges_given dry_land" unfolding gauges_given_def by (simp add: dry_tidal_lines)
  show "dry_land CHECKPOINT = None"
    by (simp add: dry_land_def XYO_DAT_def TIDAL_DAT_def GRID_A_def DEFORM_A_def CHECKPOINT_def)
qed


lemma dry_result: "\<exists>l. tsunami_result m dry_land = Inr l"
proof -
  obtain s where s: "read_inputs (calm m) dry_land = Inr ((1, 1, 1, 1), s)" "open_sea s" using dry_inputs by blast
  obtain l0 where l0: "initial_levels (1, 1, 1, 1) dry_land = Inr l0" using dry_initial by blast
  obtain l where "tsunami_steps s KE l0 = Inr l" using tsunami_steps_ok [OF s(2)] is_ok_cases by blast
  then show ?thesis using s l0 by (simp add: tsunami_result_def)
qed

definition dry_libm :: libm where
  "dry_libm = \<lparr> np_cos = (\<lambda>_. 1), np_arctan = (\<lambda>_. 1) \<rparr>"

text \<open>An attempt killed between writing its second checkpoint and renaming it.\<close>

definition killed_env :: tsunami_env where
  "killed_env = (calm dry_libm)\<lparr> te_event := (\<lambda>e. if e = Renaming 4000 then Killed else Ret (Inr ())) \<rparr>"

lemma dry_start: "tsunami_attempts m dry_land dry_land"
  by (rule tsunami_attempts.none) (rule dry_facts(2))

lemma dry_attempts: "tsunami_attempts dry_libm dry_land (snd (run_tsunami killed_env dry_land))"
proof (rule tsunami_attempts.attempt)
  show "tsunami_attempts dry_libm dry_land dry_land" by (rule dry_start)
  show "te_libm killed_env = dry_libm" by (simp add: killed_env_def calm_def)
  show "run_tsunami killed_env dry_land = (fst (run_tsunami killed_env dry_land), snd (run_tsunami killed_env dry_land))"
    by simp
qed

lemma dry_resumed_returns:
  "\<exists>fs'. run_tsunami (calm dry_libm) (snd (run_tsunami killed_env dry_land)) = (Ret (Inr ()), fs')"
proof -
  note at = tsunami_attempts_safe [OF dry_attempts dry_facts(1)]
  have "tsunami_result dry_libm (snd (run_tsunami killed_env dry_land)) = tsunami_result dry_libm dry_land"
    using at inputs_restrict(4) by metis
  then show ?thesis using calm_run_returns dry_result at by metis
qed

lemma interrupted_tsunami_run_equals_undisturbed_witness:
  "\<exists>fs' fs1. run_tsunami (calm dry_libm) (snd (run_tsunami killed_env dry_land)) = (Ret (Inr ()), fs') \<and>
     run_tsunami (calm dry_libm) dry_land = (Ret (Inr ()), fs1) \<and> fs' GREEN_DAT = fs1 GREEN_DAT \<and> fs' ZMAX_A = fs1 ZMAX_A"
proof -
  obtain fs' where run: "run_tsunami (calm dry_libm) (snd (run_tsunami killed_env dry_land)) = (Ret (Inr ()), fs')"
    using dry_resumed_returns by blast
  have "te_libm (calm dry_libm) = dry_libm" by (simp add: calm_def)
  from interrupted_tsunami_run_equals_undisturbed [OF dry_attempts dry_facts(1) this run dry_facts(2)] run
  show ?thesis by blast
qed

subsection \<open>Returning\<close>

text \<open>Over readable inputs with no cell of depth zero and gauges on the grid, the tsunami step
  returns when nothing disturbs it, from whatever interrupted attempts left behind.\<close>

theorem tsunami_run_returns:
  assumes "tsunami_attempts m fs0 fs" and "gauges_given fs0"
    and "read_inputs (calm m) fs0 = Inr (window, s)" and "initial_levels window fs0 = Inr l0" and "open_sea s"
  shows "\<exists>fs'. run_tsunami (calm m) fs = (Ret (Inr ()), fs')"
proof -
  note at = tsunami_attempts_safe [OF assms(1,2)]
  obtain l where "tsunami_steps s KE l0 = Inr l" using tsunami_steps_ok [OF assms(5)] is_ok_cases by blast
  then have "tsunami_result m fs0 = Inr l" using assms(3,4) by (simp add: tsunami_result_def)
  then have "tsunami_result m fs = Inr l" using at inputs_restrict(4) by metis
  then show ?thesis using calm_run_returns at by blast
qed

lemma tsunami_run_returns_witness: "\<exists>fs'. run_tsunami (calm dry_libm) dry_land = (Ret (Inr ()), fs')"
proof -
  obtain s where s: "read_inputs (calm dry_libm) dry_land = Inr ((1, 1, 1, 1), s)" "open_sea s" using dry_inputs by blast
  obtain l where l: "initial_levels (1, 1, 1, 1) dry_land = Inr l" using dry_initial by blast
  show ?thesis by (rule tsunami_run_returns [OF dry_start dry_facts(1) s(1) l s(2)])
qed


subsection \<open>Dry cells stay at rest\<close>

lemma edge_pass_keeps:
  assumes "edge_pass cells h f z = Inr z'" and "(i, j) \<notin> set cells \<or> \<not> 0 < h i j"
  shows "\<exists>z0. z = Inr z0 \<and> z' i j = z0 i j"
proof -
  from assms(1) obtain z0 where z0: "z = Inr z0" by (auto simp: edge_pass_def)
  have "(i, j) \<notin> set cells \<or> h i j < 0 \<or> h i j = 0" using assms(2) by auto
  then show ?thesis using assms(1) z0 by (auto simp: edge_pass_def split: if_splits)
qed

lemma bout_keeps:
  assumes "bout IA JA z m n h = Inr z'" and "\<not> 0 < h i j \<or> i = 0 \<or> j = 0"
  shows "z' i j = z i j"
proof -
  let ?south = "map (\<lambda>i. (i, 1)) [1..<IA - 1]" and ?north = "map (\<lambda>i. (i, JA - 1)) [1..<IA - 1]"
    and ?west = "map (\<lambda>j. (1, j)) [1..<JA - 1]" and ?east = "map (\<lambda>j. (IA - 1, j)) [1..<JA - 1]"
  have out: "(i, j) \<notin> set cells \<or> \<not> 0 < h i j" if "cells \<in> {?south, ?north, ?west, ?east}" for cells
    using assms(2) that by (auto simp: IA_def JA_def)
  obtain za where a: "edge_pass ?west h (west_value m n h) (edge_pass ?north h (north_value m n h)
      (edge_pass ?south h (south_value m n h) (Inr z))) = Inr za" "z' i j = za i j"
    using edge_pass_keeps [OF assms(1) [unfolded bout_def] out] by auto
  obtain zb where b: "edge_pass ?north h (north_value m n h) (edge_pass ?south h (south_value m n h) (Inr z)) = Inr zb"
      "za i j = zb i j"
    using edge_pass_keeps [OF a(1) out] by auto
  obtain zc where c: "edge_pass ?south h (south_value m n h) (Inr z) = Inr zc" "zb i j = zc i j"
    using edge_pass_keeps [OF b(1) out] by auto
  have "zc i j = z i j" using edge_pass_keeps [OF c(1) out] by auto
  then show ?thesis using a b c by simp
qed

text \<open>A cell the elevation never reaches: dry, or in the first row or column.\<close>

definition quiet :: "sea \<Rightarrow> nat \<Rightarrow> nat \<Rightarrow> bool" where
  "quiet s i j \<longleftrightarrow> (i = 0 \<or> j = 0 \<or> (i < IA \<and> j < JA \<and> \<not> 0 < s_h s i j))"

text \<open>
  The two elevation buffers alternate: every even step leaves the deformation's buffer current,
  and the samples are taken on odd ones.
\<close>

definition at_rest :: "sea \<Rightarrow> nat \<Rightarrow> levels \<Rightarrow> bool" where
  "at_rest s k l \<longleftrightarrow>
     (\<forall>i j. i = 0 \<or> j = 0 \<longrightarrow> (if even k then z2 l i j = 0 else z1 l i j = 0)) \<and>
     (\<forall>i j. \<not> (0 < s_h s i j \<and> 0 < s_h s (Suc i) j) \<longrightarrow> m1 l i j = 0 \<and> m2 l i j = 0) \<and>
     (\<forall>i j. \<not> (0 < s_h s i j \<and> 0 < s_h s i (Suc j)) \<longrightarrow> n1 l i j = 0 \<and> n2 l i j = 0) \<and>
     (\<forall>i j. 0 \<le> zmxa l i j \<and> (quiet s i j \<longrightarrow> zmxa l i j = 0))"

lemma initial_at_rest: "initial_levels w fs = Inr l \<Longrightarrow> at_rest s 0 l"
  by (auto simp: initial_levels_def at_rest_def zeros_def split: prod.splits)

lemma mass_quiet:
  "i \<noteq> 0 \<Longrightarrow> j \<noteq> 0 \<Longrightarrow> i < IA \<Longrightarrow> j < JA \<Longrightarrow> \<not> 0 < h i j \<Longrightarrow> mass IA JA a b m n h r c i j = 0"
  "i = 0 \<or> j = 0 \<Longrightarrow> mass IA JA a b m n h r c i j = b i j"
  by (auto simp: mass_def mass_cell_def)

lemma momentum_dry:
  "\<not> (0 < h i j \<and> 0 < h (Suc i) j) \<Longrightarrow> b i j = 0 \<Longrightarrow> momentum_m IA JA z a b h x i j = 0"
  "\<not> (0 < h i j \<and> 0 < h i (Suc j)) \<Longrightarrow> b i j = 0 \<Longrightarrow> momentum_n IA JA z a b h x i j = 0"
  by (auto simp: momentum_m_def momentum_n_def)

lemma tsunami_step_rest:
  assumes rest: "at_rest s k l" and step: "tsunami_step s (Suc k) l = Inr l'"
  shows "at_rest s (Suc k) l'"
    and "k mod KD = 0 \<Longrightarrow> quiet s i j \<Longrightarrow> z1 l' i j = 0"
proof -
  from step show "at_rest s (Suc k) l'"
    and "k mod KD = 0 \<Longrightarrow> quiet s i j \<Longrightarrow> z1 l' i j = 0"
  proof (atomize (full), cases rule: tsunami_step_cases)
    case (1 z)
    let ?z0 = "mass IA JA (z1 l) (z2 l) (m1 l) (n1 l) (s_h s) (s_rx s) (s_cj s)"
    have border: "z i j = z2 l i j" if "i = 0 \<or> j = 0" for i j
      using bout_keeps [OF 1(1)] mass_quiet(2) that by simp
    have dry: "z i j = 0" if "i \<noteq> 0" "j \<noteq> 0" "i < IA" "j < JA" "\<not> 0 < s_h s i j" for i j
      using bout_keeps [OF 1(1)] mass_quiet(1) that by simp
    have quiet: "z i j = 0" if "even k" "quiet s i j" for i j
    proof (cases "i = 0 \<or> j = 0")
      case True
      then show ?thesis using border rest that(1) by (auto simp: at_rest_def)
    next
      case False
      then show ?thesis using dry that(2) by (simp add: quiet_def)
    qed
    have even: "even k" if "k mod KD = 0" using that by (auto simp: KD_def elim: dvd_trans)
    have a: "\<forall>i j. i = 0 \<or> j = 0 \<longrightarrow> (if even (Suc k) then z2 l' i j = 0 else z1 l' i j = 0)"
      using rest border 1(2,3) by (auto simp: at_rest_def)
    have b: "\<forall>i j. \<not> (0 < s_h s i j \<and> 0 < s_h s (Suc i) j) \<longrightarrow> m1 l' i j = 0 \<and> m2 l' i j = 0"
      using rest momentum_dry(1) 1(4,6) by (simp add: at_rest_def)
    have c: "\<forall>i j. \<not> (0 < s_h s i j \<and> 0 < s_h s i (Suc j)) \<longrightarrow> n1 l' i j = 0 \<and> n2 l' i j = 0"
      using rest momentum_dry(2) 1(5,7) by (simp add: at_rest_def)
    have "0 \<le> zmxa l' i j \<and> (quiet s i j \<longrightarrow> zmxa l' i j = 0)" for i j
    proof (cases "k mod KD = 0")
      case True
      then show ?thesis using 1(9) rest quiet [OF even [OF True]] by (auto simp: at_rest_def le_max_iff_disj)
    next
      case False
      then show ?thesis using 1(8) rest by (simp add: at_rest_def)
    qed
    then show "at_rest s (Suc k) l' \<and> (k mod KD = 0 \<longrightarrow> quiet s i j \<longrightarrow> z1 l' i j = 0)"
      using a b c quiet even 1(2) by (auto simp: at_rest_def)
  qed
qed

lemma tsunami_steps_rest:
  assumes "at_rest s 0 l0" and "tsunami_steps s k l0 = Inr l"
  shows "at_rest s k l"
  using assms(2)
proof (induction k arbitrary: l)
  case (Suc k)
  then have "bind_ok (tsunami_steps s k l0) (tsunami_step s (Suc k)) = Inr l" by simp
  then show ?case using Suc.IH tsunami_step_rest(1) by blast
qed (use assms(1) in simp)

text \<open>C20: In every time level of every run the discharge across a face that touches a dry cell is zero, and the
  maximum heights are never negative and zero on every dry cell and on the first row and column,
  wherever the deformation window lies.\<close>

theorem dry_cells_stay_at_rest:
  assumes "read_inputs env fs = Inr (window, s)" and "initial_levels window fs = Inr l0"
    and "tsunami_steps s k l0 = Inr l"
  shows "(\<forall>i j. 0 \<le> zmxa l i j \<and> (quiet s i j \<longrightarrow> zmxa l i j = 0)) \<and>
    (\<forall>i j. \<not> (0 < s_h s i j \<and> 0 < s_h s (Suc i) j) \<longrightarrow> m1 l i j = 0) \<and>
    (\<forall>i j. \<not> (0 < s_h s i j \<and> 0 < s_h s i (Suc j)) \<longrightarrow> n1 l i j = 0)"
  using tsunami_steps_rest [OF initial_at_rest [OF assms(2)] assms(3)] by (simp add: at_rest_def)

lemma dry_cells_stay_at_rest_witness:
  "\<exists>l s l0. tsunami_steps s KE l0 = Inr l \<and> (\<forall>i < IA. \<forall>j < JA. zmxa l i j = 0)"
proof -
  obtain s where s: "read_inputs (calm dry_libm) dry_land = Inr ((1, 1, 1, 1), s)" "open_sea s"
    and dry: "\<forall>i j. i < IA \<and> j < JA \<longrightarrow> s_h s i j = - 1" using dry_inputs by blast
  obtain l0 where l0: "initial_levels (1, 1, 1, 1) dry_land = Inr l0" using dry_initial by blast
  obtain l where l: "tsunami_steps s KE l0 = Inr l" using tsunami_steps_ok [OF s(2)] is_ok_cases by blast
  have "quiet s i j" if "i < IA" "j < JA" for i j using dry that by (simp add: quiet_def)
  then show ?thesis using dry_cells_stay_at_rest [OF s(1) l0 l] l by blast
qed


subsection \<open>The gauge file\<close>

lemma sample_gauges_values:
  assumes "sample_gauges gauges z = Inr v" and "x \<in> set v"
  shows "\<exists>g \<in> set gauges. \<exists>i j. axis_index IA (fst g) = Some i \<and> axis_index JA (snd g) = Some j \<and> x = z i j"
proof -
  have all: "all_some xs = Some ys \<Longrightarrow> y \<in> set ys \<Longrightarrow> Some y \<in> set xs" for xs :: "real option list" and ys y
  proof (induction xs arbitrary: ys)
    case (Cons a xs)
    then show ?case by (cases a) auto
  qed simp
  have "all_some (map (pick z) gauges) = Some v" using assms(1) by (auto simp: sample_gauges_def split: option.splits)
  then have "Some x \<in> set (map (pick z) gauges)" using assms(2) by (rule all)
  then obtain g where "g \<in> set gauges" "pick z g = Some x" by auto
  then show ?thesis by (auto simp: pick_def split: option.splits)
qed

lemma tsunami_steps_rows:
  assumes "at_rest s 0 l0" and "gauge_rows l0 = []" and "tsunami_steps s k l0 = Inr l" and "(t, v) \<in> set (gauge_rows l)"
  shows "\<exists>kk < k. t = f64 (real kk * DT / 60)"
    and "\<lbrakk>\<forall>g \<in> set (s_gauges s). \<forall>i j. axis_index IA (fst g) = Some i \<longrightarrow> axis_index JA (snd g) = Some j \<longrightarrow> quiet s i j\<rbrakk>
      \<Longrightarrow> \<forall>x \<in> set v. x = 0"
  using assms(3,4)
proof (atomize (full), induction k arbitrary: l)
  case (Suc k)
  then have "bind_ok (tsunami_steps s k l0) (tsunami_step s (Suc k)) = Inr l" by simp
  then obtain l1 where l1: "tsunami_steps s k l0 = Inr l1" and step: "tsunami_step s (Suc k) l1 = Inr l" by blast
  note rest = tsunami_step_rest(2) [OF tsunami_steps_rest [OF assms(1) l1] step]
  note ih = Suc.IH [OF l1]
  from step show ?case
  proof (cases rule: tsunami_step_cases)
    case (1 z)
    show ?thesis
    proof (cases "(t, v) \<in> set (gauge_rows l1)")
      case True
      then show ?thesis using ih less_SucI by blast
    next
      case False
      have k: "k mod KD = 0"
      proof (rule ccontr)
        assume "k mod KD \<noteq> 0"
        then have "gauge_rows l = gauge_rows l1" using 1(8) by simp
        then show False using False Suc.prems(2) by simp
      qed
      then have new: "sample_gauges (s_gauges s) z = Inr v" "t = f64 (real k * DT / 60)"
        using 1(9) False Suc.prems(2) by auto
      then show ?thesis using sample_gauges_values [OF new(1)] rest [OF k] 1(2) by fastforce
    qed
  qed
qed (use assms(2) in simp)

text \<open>The heights a \<open>7.3f\<close> column has room for with a blank before them.\<close>

definition gauge_height_fits :: "real \<Rightarrow> bool" where
  "gauge_height_fits z \<longleftrightarrow> - 9.999 \<le> z \<and> z \<le> 99.999"

lemma gauge_height_word: "gauge_height_fits z \<Longrightarrow> table_word 7 (fixed_body 3 z)"
  unfolding gauge_height_fits_def
  by (cases "z < 0") (rule fixed_word [where m = 9999 and k = 1] fixed_word [where m = 99999 and k = 2]; simp)+

lemma green_text_table:
  "green_text rows = concat (map (\<lambda>ws. table_row ws @ [CHR 0x0A])
     (map (\<lambda>(t, vs). (7, fixed_body 1 t) # map (\<lambda>v. (7, fixed_body 3 v)) vs) rows))"
  by (auto simp: green_text_def table_row_def fixed_def o_def split_def intro!: arg_cong [where f = concat])

lemma green_text_reads_back:
  assumes "\<forall>(t, vs) \<in> set rows. 0 \<le> t \<and> t \<le> 9999 \<and> length vs = n \<and> (\<forall>v \<in> set vs. gauge_height_fits v)"
  shows "loadtxt Float64 (green_text rows) =
    Some (map (\<lambda>(t, vs). f64 (fixed_val 1 t) # map (\<lambda>v. f64 (fixed_val 3 v)) vs) rows)"
proof -
  let ?rows = "map (\<lambda>(t, vs). (7 :: nat, fixed_body 1 t) # map (\<lambda>v. (7, fixed_body 3 v)) vs) rows"
  let ?val = "\<lambda>w. the (read_number Float64 w)"
  have time: "table_word 7 (fixed_body 1 t)" if "0 \<le> t" "t \<le> 9999" for t
    using that by (intro fixed_word [where m = 99990 and k = 4]) simp_all
  have "loadtxt Float64 (green_text rows) = Some (map (map (?val \<circ> snd)) ?rows)"
    unfolding green_text_table using assms time gauge_height_word
    by (intro loadtxt_table [where n = "Suc n"]) (fastforce simp: read_number_fixed)+
  then show ?thesis by (simp add: read_number_fixed split_def o_def array_type.idem)
qed

end
