(* ===== verification/Mareogram.thy ===== *)
theory Mareogram
  imports TsunamiRest
begin

text \<open>
  The mareogram step (render/ttt_max.py): the gauge table of the tsunami step, scaled by
  station, the tables written from it and the scale of the plot; the drawing of the SVG is
  left out. And the law that ties it to the tsunami step: what that step writes, this one can
  process.
\<close>

subsection \<open>Stations\<close>

definition station_rows :: nat where "station_rows = 1681"

definition station_names :: "string list" where
  "station_names = [''cruz'', ''tala'', ''pait'', ''pime'', ''sala'', ''chim'', ''huar'', ''huac'', ''cala'',
     ''cerr'', ''pisc'', ''juan'', ''atic'', ''cama'', ''mata'', ''iloo'', ''aric'']"

text \<open>The fourth root of a quotient of depths; \<open>pow\<close> is taken as correctly rounded.\<close>

definition scaling :: "real \<Rightarrow> real \<Rightarrow> real" where
  "scaling a b = f64 (f64 (f64 a / f64 b) powr (1 / 4))"

definition scaling_factors :: "real list" where
  "scaling_factors = [scaling 12.9 14, scaling 183.1 20, scaling 50 210, scaling 26.2 54, scaling 247.1 24,
     scaling 51.7 28, scaling 69.7 14, scaling 148.9 12, scaling 76 16, scaling 125.4 12, scaling 25 36,
     scaling 222.2 8, scaling 163.5 84, scaling 46.1 350, scaling 313.4 112, scaling 455.9 26, scaling 48 10]"

subsection \<open>Numbers for the legacy reader\<close>

text \<open>\<open>f"{x:17.7E}"\<close>: eight significant digits; the exponent has a sign and at least two digits.\<close>

definition sci_body :: "real \<Rightarrow> string" where
  "sci_body x =
     (let e = \<lfloor>log 10 \<bar>x\<bar>\<rfloor>;
          n = nat (rint (\<bar>x\<bar> * 10 powr of_int (7 - e)));
          (n, e) = (if n = 10 ^ 8 then (10 ^ 7, e + 1) else (n, e))
      in (if x < 0 then ''-'' else '''') @ decimal (n div 10 ^ 7) @ ''.'' @ dec_places 7 (n mod 10 ^ 7) @
         (if e < 0 then ''E-'' else ''E+'') @ (if \<bar>e\<bar> < 100 then dec_places 2 (nat \<bar>e\<bar>) else decimal (nat \<bar>e\<bar>)))"

definition fortran_float_format :: "real \<Rightarrow> string" where
  "fortran_float_format x = (if \<bar>x\<bar> < 1 / 10 ^ 12 then ''  0.0000000E+00'' else pad_left 17 (sci_body x))"

subsection \<open>\<open>process_tsunami_data\<close>\<close>

definition station_column :: "real list list \<Rightarrow> nat \<Rightarrow> real list" where
  "station_column data i = map (\<lambda>row. f64 (scaling_factors ! i * row ! Suc i)) data"

text \<open>The one-based row of the first positive height, 0 when there is none.\<close>

definition first_positive :: "real list \<Rightarrow> nat" where
  "first_positive vs = (case filter (\<lambda>k. 0 < vs ! k) [0..<length vs] of [] \<Rightarrow> 0 | k # _ \<Rightarrow> Suc k)"

definition max_value :: "real list \<Rightarrow> real" where
  "max_value vs = fold max (tl vs) (hd vs)"

definition station_index :: "string \<Rightarrow> nat" where
  "station_index name = length (takeWhile (\<lambda>n. n \<noteq> name) station_names)"

definition green_rev_text :: "real list list \<Rightarrow> string" where
  "green_rev_text data =
     concat (map (\<lambda>k.
       fixed 12 6 (f64 (data ! k ! 0 / 60)) @ '' '' @
       fortran_float_format (station_column data (station_index ''tala'') ! k) @ '' '' @
       fortran_float_format (station_column data (station_index ''cala'') ! k) @ '' '' @
       fortran_float_format (station_column data (station_index ''mata'') ! k) @ [CHR 0x0A]) [0..<station_rows])"

definition ttt_max_text :: "real list list \<Rightarrow> string" where
  "ttt_max_text data =
     concat (map (\<lambda>i. fixed 6 1 (real (first_positive (station_column data i))) @
       fixed 6 2 (max_value (station_column data i)) @ [CHR 0x0A]) [0..<length station_names])"

datatype tick_type = Small | Medium | Large

definition mareogram_scale :: "real \<Rightarrow> real \<times> tick_type" where
  "mareogram_scale maxmax =
     (if maxmax \<le> f64 0.1 then (f64 0.1, Small) else if maxmax \<le> f64 0.2 then (f64 0.2, Small)
      else if maxmax \<le> f64 0.6 then (f64 0.6, Medium) else if maxmax \<le> 1 then (1, Medium)
      else if maxmax \<le> 2 then (2, Medium) else if maxmax \<le> 3 then (3, Large)
      else if maxmax \<le> 4 then (4, Large) else (5, Large))"

text \<open>The two tables and the scale of the plot, or the error that stops the step.\<close>

definition process_tsunami_data :: "workspace \<Rightarrow> exn + (string \<times> string \<times> real \<times> tick_type)" where
  "process_tsunami_data fs =
     (case bind_ok (text_of (fs GREEN_DAT)) (\<lambda>t. value_error (loadtxt Float64 t)) of
        Inl e \<Rightarrow> Inl (FileNotFoundError ''Failed to read green.dat'')
      | Inr data \<Rightarrow>
          if length data \<le> 1 \<or> length (hd data) \<le> length station_names then Inl (OtherError ''IndexError'')
          else if length data < station_rows then Inl OSError
          else Inr (green_rev_text data, ttt_max_text data,
                 mareogram_scale (max_value (map (\<lambda>i. max_value (station_column data i)) [0..<length station_names]))))"

subsection \<open>The tsunami step feeds it\<close>

lemma samples_KE: "samples KE = station_rows"
  by (simp add: samples_def KE_def KD_def station_rows_def)

lemma tsunami_gauge_file:
  assumes "tsunami_result m fs0 = Inr l" and "gauges_given fs0" and "\<forall>(t, vs) \<in> set (gauge_rows l). \<forall>v \<in> set vs. gauge_height_fits v"
  shows "\<exists>data. loadtxt Float64 (green_text (gauge_rows l)) = Some data \<and> length data = station_rows \<and>
    (\<forall>row \<in> set data. length row = Suc (length station_names))"
proof -
  obtain window s l0 where inp: "read_inputs (calm m) fs0 = Inr (window, s)" and l0: "initial_levels window fs0 = Inr l0"
    and l: "tsunami_steps s KE l0 = Inr l"
    using assms(1) by (auto simp: tsunami_result_def)
  have "length (s_gauges s) = NG"
    using inp by (auto simp: read_inputs_def read_tidal_dat_def value_error_def split: option.splits dest!: all_some_length)
  then have gauges: "length (gauge_rows l) = station_rows" "\<forall>(t, vs) \<in> set (gauge_rows l). length vs = NG"
    using tsunami_steps_gauges [OF l initial_gauges [OF l0]] samples_KE by (auto simp: gauges_fit_def)
  have "0 \<le> t \<and> t \<le> 9999" if row: "(t, vs) \<in> set (gauge_rows l)" for t vs
  proof -
    obtain kk where kk: "kk < KE" "t = f64 (real kk * DT / 60)"
      using tsunami_steps_rows(1) [OF initial_at_rest [OF l0] initial_gauges [OF l0] l row] by blast
    have stored: "array_type.stored Float64 9999" using stored_of_int [of 9999 Float64 0] by simp
    have "real kk \<le> 33602" using kk(1) by (simp add: KE_def)
    then have "real kk * DT / 60 \<le> 9999" by (simp add: DT_def)
    then have "t \<le> 9999" unfolding kk(2) by (rule array_type.le_stored [OF stored])
    moreover have "0 \<le> t" unfolding kk(2) by (rule array_type.nonneg) (simp add: DT_def)
    ultimately show ?thesis by simp
  qed
  then have "loadtxt Float64 (green_text (gauge_rows l)) =
      Some (map (\<lambda>(t, vs). f64 (fixed_val 1 t) # map (\<lambda>v. f64 (fixed_val 3 v)) vs) (gauge_rows l))"
    using gauges(2) assms(3) by (intro green_text_reads_back [where n = NG]) fastforce
  then show ?thesis using gauges by (auto simp: NG_def station_names_def)
qed

text \<open>Whatever interruptions the tsunami step went through, what it leaves when it returns can be processed
  by the mareogram step: green.dat has the 1681 rows and 18 columns the tables are written
  from, provided the gauge heights lie between -9.999 m and 99.999 m.\<close>

theorem tsunami_step_feeds_the_mareogram:
  assumes "tsunami_attempts m fs0 fs" and "gauges_given fs0" and "te_libm env = m"
    and "run_tsunami env fs = (Ret (Inr ()), fs')" and "tsunami_result m fs0 = Inr l"
    and "\<forall>(t, vs) \<in> set (gauge_rows l). \<forall>v \<in> set vs. gauge_height_fits v"
  shows "\<exists>out. process_tsunami_data fs' = Inr out"
proof -
  have "fs' GREEN_DAT = Some (Text (green_text (gauge_rows l)))"
    using tsunami_attempts_outputs [OF assms(1-4)] assms(5) by auto
  moreover obtain data where data: "loadtxt Float64 (green_text (gauge_rows l)) = Some data" "length data = station_rows"
      "\<forall>row \<in> set data. length row = Suc (length station_names)"
    using tsunami_gauge_file [OF assms(5,2,6)] by blast
  moreover have "hd data \<in> set data" using data(2) by (intro hd_in_set) (auto simp: station_rows_def)
  then have "length (hd data) = Suc (length station_names)" using data(3) by blast
  ultimately show ?thesis by (simp add: process_tsunami_data_def value_error_def station_rows_def)
qed

lemma tsunami_step_feeds_the_mareogram_witness:
  "\<exists>fs' out. run_tsunami (calm dry_libm) (snd (run_tsunami killed_env dry_land)) = (Ret (Inr ()), fs') \<and>
     process_tsunami_data fs' = Inr out"
proof -
  obtain fs' where run: "run_tsunami (calm dry_libm) (snd (run_tsunami killed_env dry_land)) = (Ret (Inr ()), fs')"
    using dry_resumed_returns by blast
  obtain l where l: "tsunami_result dry_libm dry_land = Inr l" using dry_result by blast
  obtain s where s: "read_inputs (calm dry_libm) dry_land = Inr ((1, 1, 1, 1), s)" "s_gauges s = replicate NG (0, 0)"
    using dry_inputs by blast
  obtain l0 where l0: "initial_levels (1, 1, 1, 1) dry_land = Inr l0" using dry_initial by blast
  have steps: "tsunami_steps s KE l0 = Inr l" using l s l0 by (simp add: tsunami_result_def)
  have "\<forall>g \<in> set (s_gauges s). \<forall>i j. axis_index IA (fst g) = Some i \<longrightarrow> axis_index JA (snd g) = Some j \<longrightarrow> quiet s i j"
    by (auto simp: s(2) axis_index_def quiet_def IA_def split: if_splits)
  then have "\<forall>(t, vs) \<in> set (gauge_rows l). \<forall>v \<in> set vs. gauge_height_fits v"
    using tsunami_steps_rows(2) [OF initial_at_rest [OF l0] initial_gauges [OF l0] steps]
    by (fastforce simp: gauge_height_fits_def)
  from tsunami_step_feeds_the_mareogram [OF dry_attempts dry_facts(1) _ run l this] run
  show ?thesis by (auto simp: calm_def)
qed

lemma trough_digits:
  "decimal 0 = ''0''" "decimal (Suc 0) = ''1''" "decimal 10 = ''10''" "dec_places 3 0 = ''000''"
  "dec_places 3 500 = ''500''" "digit_char 0 = CHR ''0''"
  by code_simp+

lemma trough_pads: "replicate 2 CHR '' '' = ''  ''" "replicate 4 CHR '' '' = ''    ''"
  by (simp_all add: eval_nat_numeral)

lemma trough_texts:
  "fixed 7 3 (1 / 2) = ''  0.500''" "fixed 7 3 (- 10) = ''-10.000''"
  "fixed 7 (Suc 0) 0 = ''    0.0''" "fixed 7 (Suc 0) 1 = ''    1.0''"
  by (simp_all add: fixed_def fixed_body_def pad_left_def trough_digits trough_pads)

lemma trough_lines:
  "splitlines ''    0.0  0.500-10.000\<newline>    1.0  0.500-10.000\<newline>'' = [''    0.0  0.500-10.000'', ''    1.0  0.500-10.000'']"
  by code_simp

lemma trough_words: "split_ws ''    0.0  0.500-10.000'' = [''0.0'', ''0.500-10.000'']"
  by code_simp

lemma trough_number: "numeral_val ''0.500-10.000'' = None"
proof -
  have "digits_val False 0 ''500-10.000'' = None" "digits_val False 0 ''0'' = Some 0" by (simp_all add: digit_val_def)
  then show ?thesis
    by (simp add: numeral_val_def strip_by_none is_space_def signed_def group_val_def Let_def del: digits_val.simps)
qed

lemma trough_green:
  "green_text [(0, [1 / 2, - 10]), (1, [1 / 2, - 10])] = ''    0.0  0.500-10.000\<newline>    1.0  0.500-10.000\<newline>''"
  by (simp add: green_text_def trough_texts)

lemma trough_unreadable: "loadtxt Float64 ''    0.0  0.500-10.000\<newline>    1.0  0.500-10.000\<newline>'' = None"
proof -
  have "read_number Float64 ''0.500-10.000'' = None" by (simp only: read_number_def py_float_def trough_number option.map)
  moreover have "all_some [x, None] = None" for x :: "real option" by (cases x) simp_all
  ultimately have bad: "all_some [read_number Float64 ''0.0'', read_number Float64 ''0.500-10.000''] = None"
    by metis
  have cut: "takeWhile (\<lambda>c. c \<noteq> CHR ''#'') ''    0.0  0.500-10.000'' = ''    0.0  0.500-10.000''" by simp
  define l1 where "l1 = ''    1.0  0.500-10.000''"
  have "loadtxt Float64 ''    0.0  0.500-10.000\<newline>    1.0  0.500-10.000\<newline>'' =
     (case all_some (map (all_some \<circ> map (read_number Float64)) (filter (\<lambda>ws. ws \<noteq> [])
        [[''0.0'', ''0.500-10.000''], split_ws (takeWhile (\<lambda>c. c \<noteq> CHR ''#'') l1)])) of
        None \<Rightarrow> None | Some vs \<Rightarrow> if \<forall>v \<in> set vs. length v = length (hd vs) then Some vs else None)"
    by (simp only: loadtxt_def trough_lines list.map o_apply cut trough_words l1_def Let_def)
  also have "\<dots> = None"
    by (simp only: filter.simps list.distinct not_False_eq_True if_True list.map o_apply bad all_some.simps option.case)
  finally show ?thesis .
qed

text \<open>A trough of 10 m or more at a gauge fills its \<open>7.3f\<close> column, so its number runs into the one
  before it and the mareogram step cannot read the file the tsunami step wrote.\<close>

theorem deep_trough_makes_green_dat_unreadable:
  "process_tsunami_data [GREEN_DAT \<mapsto> Text (green_text [(0, [1 / 2, - 10]), (1, [1 / 2, - 10])])] =
     Inl (FileNotFoundError ''Failed to read green.dat'')"
  by (simp only: process_tsunami_data_def trough_green fun_upd_same text_of_Text bind_ok_simps trough_unreadable
      value_error_def option.case sum.case)

end
