(* ===== verification/RoundingError.thy ===== *)
theory RoundingError
  imports Rounding
begin

text \<open>
  How far rounding moves a number, and that it keeps signs: what the laws of the numeric steps share.
\<close>

lemma spacing_nonzero: "spacing p x \<noteq> 0"
  using spacing_pos [of p x] by linarith

lemma fl_error: "x \<noteq> 0 \<Longrightarrow> \<bar>fl p x - x\<bar> \<le> spacing p x / 2"
proof -
  assume x: "x \<noteq> 0"
  have "fl p x - x = (of_int (rint (x / spacing p x)) - x / spacing p x) * spacing p x"
    using x by (simp add: fl_def left_diff_distrib spacing_nonzero)
  then have "\<bar>fl p x - x\<bar> = \<bar>of_int (rint (x / spacing p x)) - x / spacing p x\<bar> * spacing p x"
    by (simp add: abs_mult)
  also have "\<dots> \<le> 1 / 2 * spacing p x" by (rule mult_right_mono [OF rint_near less_imp_le [OF spacing_pos]])
  finally show ?thesis by simp
qed

lemma fl_near: "\<bar>fl p x - x\<bar> \<le> \<bar>x\<bar> / 2 ^ p"
proof (cases "x = 0")
  case False
  have "spacing p x = 2 powr of_int (magnitude x) * 2 powr (1 - real p)"
    by (simp add: spacing_def powr_add [symmetric] algebra_simps)
  also have "\<dots> = 2 powr of_int (magnitude x) * (2 / 2 ^ p)" by (simp add: powr_diff powr_realpow)
  also have "\<dots> \<le> \<bar>x\<bar> * (2 / 2 ^ p)" using magnitude_bounds(1) [OF False] by (intro mult_right_mono) simp_all
  finally have "spacing p x / 2 \<le> \<bar>x\<bar> / 2 ^ p" by simp
  then show ?thesis using fl_error [OF False, of p] by linarith
qed simp

lemma f32_eq_0 [simp]: "f32 x = 0 \<longleftrightarrow> x = 0"
proof
  assume zero: "f32 x = 0"
  show "x = 0"
  proof (rule ccontr)
    assume "x \<noteq> 0"
    then have "2 ^ 23 \<le> \<bar>rint (x / spacing 24 x)\<bar>" using rint_scaled_bound(1) [of x 24] by simp
    then have "rint (x / spacing 24 x) \<noteq> 0" by auto
    then show False using zero \<open>x \<noteq> 0\<close> less_imp_neq [OF spacing_pos, of 24 x] by (simp add: cast_def fl_def)
  qed
qed (simp add: array_type.zero)

lemma f32_pos: "0 < x \<Longrightarrow> 0 < f32 x"
  using array_type.nonneg [of x Float32] f32_eq_0 [of x] by linarith

end
