(* ===== verification/MareogramPlot.thy ===== *)
theory MareogramPlot
  imports Mareogram GridFile RoundingError
begin

text \<open>
  The plot of the mareogram step (\<open>plot_mareograma\<close> of render/ttt_max.py): an SVG of three panels, its texts
  and coordinates as the code computes and prints them. The names of the stations have nothing to escape.
\<close>

subsection \<open>Coordinates\<close>

definition PLOT_WIDTH :: real where "PLOT_WIDTH = 720 - 72 - 28"
definition PANEL_HEIGHT :: real where "PANEL_HEIGHT = 120"
definition DURATION_HOURS :: real where "DURATION_HOURS = 28"

definition x_to_px :: "real \<Rightarrow> real" where
  "x_to_px value = f64 (72 + f64 (f64 (value / DURATION_HOURS) * PLOT_WIDTH))"

definition y_to_px :: "real \<Rightarrow> real \<Rightarrow> nat \<Rightarrow> real" where
  "y_to_px scale value panel_top =
     f64 (real panel_top + f64 (f64 (f64 (scale - value) / f64 (2 * scale)) * PANEL_HEIGHT))"

definition panel_top :: "nat \<Rightarrow> nat" where "panel_top k = 28 + k * (120 + 45)"

text \<open>\<open>round(x, 10)\<close>, and the ticks from \<open>start\<close> to \<open>stop\<close>.\<close>

definition round10 :: "real \<Rightarrow> real" where "round10 x = f64 (fixed_val 10 x)"

definition tick_values :: "real \<Rightarrow> real \<Rightarrow> real \<Rightarrow> real list" where
  "tick_values start stop step =
     map (\<lambda>i. round10 (f64 (start + f64 (real i * step)))) [0..<nat (rint (f64 (f64 (stop - start) / step)) + 1)]"

definition y_step :: "tick_type \<Rightarrow> real" where
  "y_step tick = (case tick of Small \<Rightarrow> f64 (5 / 100) | Medium \<Rightarrow> f64 (2 / 10) | Large \<Rightarrow> 1)"

definition x_ticks :: "nat list" where "x_ticks = map (\<lambda>k. 2 * k) [0..<15]"

subsection \<open>Elements\<close>

definition two_places :: "real \<Rightarrow> string" where "two_places x = fixed_body 2 x"

text \<open>An attribute, \<open>name="value"\<close>.\<close>

definition attr :: "string \<Rightarrow> string \<Rightarrow> string" where
  "attr name value = name @ ''='' @ [CHR 0x22] @ value @ [CHR 0x22]"

definition attrs :: "(string \<times> string) list \<Rightarrow> string" where
  "attrs as = concat (map (\<lambda>(n, v). CHR '' '' # attr n v) as)"

definition svg_head :: "string list" where
  "svg_head =
     [''<svg'' @ attrs [(''xmlns'', ''http://www.w3.org/2000/svg''), (''width'', ''720''), (''height'', ''560''), (''viewBox'', ''0 0 720 560'')] @ ''>'',
      ''<rect'' @ attrs [(''width'', ''100%''), (''height'', ''100%''), (''fill'', ''white'')] @ ''/>'',
      ''<style>text{font-family:Helvetica,Arial,sans-serif;font-size:12px}'' @
      ''.axis{stroke:#111;stroke-width:1}.grid{stroke:#ddd;stroke-width:1}'' @
      ''.series{fill:none;stroke:#1d4ed8;stroke-width:1.5}</style>'']"

definition x_tick_elements :: "bool \<Rightarrow> nat \<Rightarrow> nat \<Rightarrow> string list" where
  "x_tick_elements last_panel ptop tick =
     (let x = two_places (x_to_px (real tick)) in
      (''<line'' @ attrs [(''x1'', x), (''y1'', decimal ptop), (''x2'', x), (''y2'', decimal (ptop + 120)), (''class'', ''grid'')] @ ''/>'') #
      (if last_panel
       then [''<text'' @ attrs [(''x'', x), (''y'', decimal (ptop + 120 + 18)), (''text-anchor'', ''middle'')] @ ''>'' @ decimal tick @ ''</text>'']
       else []))"

definition y_tick_elements :: "real \<Rightarrow> nat \<Rightarrow> real \<Rightarrow> string list" where
  "y_tick_elements scale ptop tick =
     (let y = y_to_px scale tick ptop in
      [''<line'' @ attrs [(''x1'', ''72''), (''y1'', two_places y), (''x2'', ''692''), (''y2'', two_places y), (''class'', ''grid'')] @ ''/>'',
       ''<text'' @ attrs [(''x'', ''64''), (''y'', two_places (f64 (y + 4))), (''text-anchor'', ''end'')] @ ''>'' @ general_text tick @ ''</text>''])"

definition polyline_points :: "real \<Rightarrow> nat \<Rightarrow> real list \<Rightarrow> real list \<Rightarrow> (string \<times> string) list" where
  "polyline_points scale ptop ts vs = map2 (\<lambda>t v. (two_places (x_to_px t), two_places (y_to_px scale v ptop))) ts vs"

fun spaced :: "string list \<Rightarrow> string" where
  "spaced [] = ''''"
| "spaced [x] = x"
| "spaced (x # xs) = x @ '' '' @ spaced xs"

definition panel_elements :: "real \<Rightarrow> tick_type \<Rightarrow> nat \<Rightarrow> string \<Rightarrow> real list \<Rightarrow> real list \<Rightarrow> string list" where
  "panel_elements scale tick k station ts vs =
     (let ptop = panel_top k; middle = two_places (real ptop + 60) in
      [''<rect'' @ attrs [(''x'', ''72''), (''y'', decimal ptop), (''width'', ''620''), (''height'', ''120''), (''fill'', ''none''), (''class'', ''axis'')] @ ''/>'',
       ''<text'' @ attrs [(''x'', ''80''), (''y'', decimal (ptop + 18))] @ ''>'' @ station @ ''</text>''] @
      concat (map (x_tick_elements (k = 2) ptop) x_ticks) @
      concat (map (y_tick_elements scale ptop) (tick_values (- scale) scale (y_step tick))) @
      [''<polyline'' @ attrs [(''points'', spaced (map (\<lambda>(x, y). x @ '','' @ y) (polyline_points scale ptop ts vs))), (''class'', ''series'')] @ ''/>''] @
      (if k = 1
       then [''<text'' @ attrs [(''x'', ''20''), (''y'', middle), (''transform'', ''rotate(-90 20 '' @ middle @ '')''), (''text-anchor'', ''middle'')] @ ''>H (m)</text>'']
       else []))"

text \<open>The whole picture, or the error of reading a table that is not one of four columns.\<close>

definition plot_mareograma :: "real \<Rightarrow> tick_type \<Rightarrow> string \<Rightarrow> exn + string" where
  "plot_mareograma scale tick green_rev =
     bind_ok (value_error (loadtxt Float64 green_rev)) (\<lambda>data.
       if length data \<le> 1 \<or> length (hd data) < 4 then Inl (OtherError ''IndexError'')
       else let ts = map (\<lambda>row. row ! 0) data; column = (\<lambda>c. map (\<lambda>row. row ! c) data);
                elements = svg_head @ panel_elements scale tick 0 ''Talara'' ts (column 1) @
                  panel_elements scale tick 1 ''Callao'' ts (column 2) @ panel_elements scale tick 2 ''Matarani'' ts (column 3) @
                  [''<text'' @ attrs [(''x'', ''382.00''), (''y'', ''548''), (''text-anchor'', ''middle'')] @ ''>Time (h)</text>'', ''</svg>'']
            in Inr (concat (map (\<lambda>e. e @ [CHR 0x0A]) (butlast elements)) @ last elements))"

definition GREEN_REV :: fs_path where "GREEN_REV = [''zfolder'', ''green_rev.dat'']"
definition TTT_MAX_DAT :: fs_path where "TTT_MAX_DAT = [''ttt_max.dat'']"
definition MAREOGRAMA_SVG :: fs_path where "MAREOGRAMA_SVG = [''mareograma.svg'']"

text \<open>The step: both tables are written before the plot reads the first of them.\<close>

definition run_ttt_max :: "workspace \<Rightarrow> (exn + unit) \<times> workspace" where
  "run_ttt_max fs =
     (case process_tsunami_data fs of
        Inl e \<Rightarrow> (Inl e, fs)
      | Inr (green_rev, ttt_max, scale, tick) \<Rightarrow>
          (let fs' = fs(GREEN_REV \<mapsto> Text green_rev, TTT_MAX_DAT \<mapsto> Text ttt_max) in
           case plot_mareograma scale tick green_rev of
             Inl e \<Rightarrow> (Inl e, fs')
           | Inr svg \<Rightarrow> (Inr (), fs'(MAREOGRAMA_SVG \<mapsto> Text svg))))"

end
