(* ===== verification/MareogramPlotLaws.thy ===== *)
theory MareogramPlotLaws
  imports MareogramPlot
begin

text \<open>
  Laws of the mareogram's plot: where its points are drawn, and which heights its scale covers.
\<close>

lemma f64_nat: "n \<le> 2 ^ 24 \<Longrightarrow> f64 (real n) = real n"
  using stored_of_int [of "int n" Float64 0] by (simp add: array_type.stored_def)

lemma stored_nat: "n \<le> 2 ^ 24 \<Longrightarrow> array_type.stored Float64 (real n)"
  using f64_nat by (simp add: array_type.stored_def)

lemma f64_double: "array_type.stored Float64 x \<Longrightarrow> f64 (2 * x) = 2 * x"
proof -
  assume "array_type.stored Float64 x"
  then have "fl 53 x = x" by (simp add: array_type.stored_def cast_def)
  then have "representable 53 x" using representable_fl [of 53 x] by simp
  then obtain m e :: int where m: "\<bar>m\<bar> \<le> 2 ^ 53" "x = of_int m * 2 powr of_int e" by (auto simp: representable_def)
  then have "2 * x = of_int m * 2 powr of_int (e + 1)" by (simp add: powr_add)
  then have "representable 53 (2 * x)" unfolding representable_def using m(1) by blast
  then show ?thesis by (simp add: cast_def fl_representable)
qed

text \<open>A quotient between 0 and 1, stretched over a length that is a small whole number.\<close>

lemma stretched:
  assumes "0 \<le> a" and "a \<le> b" and "0 < b" and "m \<le> 2 ^ 24"
  shows "0 \<le> f64 (f64 (a / b) * real m) \<and> f64 (f64 (a / b) * real m) \<le> real m"
proof -
  have "a / b \<le> real 1" using assms(2,3) by simp
  then have "f64 (a / b) \<le> real 1" by (intro array_type.le_stored stored_nat) simp_all
  moreover have nonneg: "0 \<le> f64 (a / b)" using assms(1,3) by (intro array_type.nonneg) simp
  ultimately have "f64 (a / b) * real m \<le> real m" by (intro mult_left_le_one_le) simp_all
  then have "f64 (f64 (a / b) * real m) \<le> real m" by (rule array_type.le_stored [OF stored_nat [OF assms(4)]])
  moreover have "0 \<le> f64 (f64 (a / b) * real m)" using nonneg by (intro array_type.nonneg) simp
  ultimately show ?thesis by simp
qed

lemma shifted:
  assumes "0 \<le> x" and "x \<le> real m" and "n + m \<le> 2 ^ 24"
  shows "real n \<le> f64 (real n + x) \<and> f64 (real n + x) \<le> real (n + m)"
  using assms by (intro conjI array_type.stored_le array_type.le_stored stored_nat) simp_all

text \<open>
  C0: A point of a series is drawn inside its panel: the times of the 28 hours between the panel's left and
  right edges, the heights between the scale's bounds between its top and bottom edges, exactly, with every
  rounding of the computation.
\<close>

theorem points_are_drawn_inside_their_panel:
  assumes "0 \<le> t" and "t \<le> 28" and "0 < scale" and "array_type.stored Float64 scale" and "\<bar>v\<bar> \<le> scale" and "k \<le> 2"
  shows "72 \<le> x_to_px t \<and> x_to_px t \<le> 692 \<and>
    real (panel_top k) \<le> y_to_px scale v (panel_top k) \<and> y_to_px scale v (panel_top k) \<le> real (panel_top k + 120)"
proof -
  have two: "f64 (2 * scale) = 2 * scale" by (rule f64_double [OF assms(4)])
  have "0 \<le> f64 (scale - v)" using assms(5) by (intro array_type.nonneg) linarith
  moreover have "array_type.stored Float64 (2 * scale)" using two by (simp add: array_type.stored_def)
  then have "f64 (scale - v) \<le> 2 * scale" using assms(5) by (intro array_type.le_stored) linarith+
  ultimately have y: "0 \<le> f64 (f64 (f64 (scale - v) / (2 * scale)) * real 120) \<and>
      f64 (f64 (f64 (scale - v) / (2 * scale)) * real 120) \<le> real 120"
    using assms(3) by (intro stretched) simp_all
  have x: "0 \<le> f64 (f64 (t / 28) * real 620) \<and> f64 (f64 (t / 28) * real 620) \<le> real 620"
    using assms(1,2) by (intro stretched) simp_all
  have "panel_top k + 120 \<le> 2 ^ 24" using assms(6) by (simp add: panel_top_def)
  from shifted [OF conjunct1 [OF y] conjunct2 [OF y] this] shifted [OF conjunct1 [OF x] conjunct2 [OF x], of 72]
  show ?thesis by (simp add: x_to_px_def y_to_px_def two PLOT_WIDTH_def PANEL_HEIGHT_def DURATION_HOURS_def)
qed

lemma points_are_drawn_inside_their_panel_witness:
  "72 \<le> x_to_px 14 \<and> x_to_px 14 \<le> 692 \<and> real (panel_top 1) \<le> y_to_px 1 (1 / 2) (panel_top 1)"
  using points_are_drawn_inside_their_panel [of 14 1 "1 / 2" 1] stored_nat [of 1] by simp

text \<open>The scale covers the highest value of all stations, up to five metres; but it is chosen from the
  maximum alone: a trough of three metres beside a crest of one is drawn at the height of the panel below.\<close>

theorem scale_covers_the_crests_only:
  "(maxmax \<le> 5 \<longrightarrow> maxmax \<le> fst (mareogram_scale maxmax)) \<and>
   fst (mareogram_scale 1) = 1 \<and> y_to_px 1 (- 3) (panel_top 0) = 268 \<and> panel_top 0 + 120 = 148 \<and> panel_top 1 = 193"
proof (intro conjI)
  show "maxmax \<le> 5 \<longrightarrow> maxmax \<le> fst (mareogram_scale maxmax)" by (simp add: mareogram_scale_def)
  have half: "array_type.stored Float64 (1 / 2)" using stored_of_int [of 1 Float64 "- 1"] by (simp add: powr_minus)
  have small: "f64 (1 / 10) \<le> 1 / 2" "f64 (2 / 10) \<le> 1 / 2" by (intro array_type.le_stored [OF half]; simp)+
  have "f64 (6 / 10) < 1"
  proof -
    have "array_type.stored Float64 (3 / 4)" using stored_of_int [of 3 Float64 "- 2"] by (simp add: powr_minus)
    then have "f64 (6 / 10) \<le> 3 / 4" by (rule array_type.le_stored) simp
    then show ?thesis by simp
  qed
  with small show "fst (mareogram_scale 1) = 1" by (simp add: mareogram_scale_def)
  have n: "f64 1 = 1" "f64 2 = 2" "f64 4 = 4" "f64 240 = 240" "f64 268 = 268"
    using f64_nat [of 1] f64_nat [of 2] f64_nat [of 4] f64_nat [of 240] f64_nat [of 268] by simp_all
  show "y_to_px 1 (- 3) (panel_top 0) = 268" by (simp add: y_to_px_def panel_top_def PANEL_HEIGHT_def n)
qed (simp_all add: panel_top_def)

end
