(* ===== verification/Maxola.thy ===== *)
theory Maxola
  imports Mareogram
begin

text \<open>
  The map of maximum heights (render/maxola.py): the grid the tsunami step wrote, reshaped, scaled
  for display and placed on the globe, with every float32 operation rounded; and what the step
  leaves in the workspace. The drawing itself is GMT's, whose outcomes are arguments.
\<close>

subsection \<open>The grid\<close>

definition NCOLS :: nat where "NCOLS = 2461"
definition NROWS :: nat where "NROWS = 2056"
definition MAXOLA_GRID_KILOMETERS_PER_DEGREE :: real where "MAXOLA_GRID_KILOMETERS_PER_DEGREE = f64 111.1994"
definition XLLCORNER :: real where "XLLCORNER = f64 128.02777778"
definition YLLCORNER :: real where "YLLCORNER = f64 (- 76.00555556)"

definition CELLSIZE :: real where
  "CELLSIZE = f64 (f64 (f64 7412.9951096 / 1000) / MAXOLA_GRID_KILOMETERS_PER_DEGREE)"

definition MAX_WAVE_HEIGHT_METERS :: real where "MAX_WAVE_HEIGHT_METERS = 12"

text \<open>\<open>values.reshape((ncols, nrows), order="F")\<close>: both arrays are walked column by column.\<close>

definition column_order :: "real list list \<Rightarrow> nat \<Rightarrow> real" where
  "column_order vs k = vs ! (k mod length vs) ! (k div length vs)"

text \<open>\<open>np.flipud(model_grid.T)\<close>: the first row of the answer is the last column of the model.\<close>

definition reshape_model_grid :: "nat \<Rightarrow> nat \<Rightarrow> real list list \<Rightarrow> exn + real list list" where
  "reshape_model_grid ncols nrows vs =
     (if length (concat vs) \<noteq> ncols * nrows then Inl (ValueError ''Unexpected zmax_a.grd size'')
      else Inr (rev (map (\<lambda>j. map (\<lambda>i. column_order vs (i + ncols * j)) [0..<ncols]) [0..<nrows])))"

text \<open>\<open>np.round(x, 2)\<close> on float32, and the scale of one height.\<close>

definition round2 :: "real \<Rightarrow> real" where
  "round2 x = f32 (of_int (rint (f32 (x * 100))) / 100)"

definition display_height :: "real \<Rightarrow> real \<Rightarrow> real" where
  "display_height peak v = round2 (f32 (f32 (MAX_WAVE_HEIGHT_METERS * v) / peak))"

definition normalize_max_height_grid :: "real list list \<Rightarrow> real list list" where
  "normalize_max_height_grid g =
     (if concat g = [] then g
      else let peak = Max (set (concat g)) in
        if peak = 0 then map (map (\<lambda>v. 0)) g else map (map (display_height peak)) g)"

definition cell_centers :: "real \<Rightarrow> nat \<Rightarrow> real \<Rightarrow> real list" where
  "cell_centers origin count cell = map (\<lambda>k. f64 (origin + f64 ((real k + 1 / 2) * cell))) [0..<count]"

record height_map =
  hm_lat :: "real list"
  hm_lon :: "real list"
  hm_rows :: "real list list"

definition create_grid_dataarray :: "real list list \<Rightarrow> height_map" where
  "create_grid_dataarray data =
     \<lparr> hm_lat = cell_centers YLLCORNER NROWS CELLSIZE, hm_lon = cell_centers XLLCORNER NCOLS CELLSIZE, hm_rows = rev data \<rparr>"

text \<open>\<open>process_grid\<close>: a grid that cannot be read or has the wrong size is one error.\<close>

definition process_grid :: "workspace \<Rightarrow> exn + height_map" where
  "process_grid fs =
     (if fs ZMAX_A = None then Inl (FileNotFoundError ''Grid file not found'')
      else case bind_ok (text_of (fs ZMAX_A)) (\<lambda>t.
             bind_ok (value_error (loadtxt Float32 t)) (\<lambda>vs. reshape_model_grid NCOLS NROWS vs)) of
        Inl _ \<Rightarrow> Inl (RuntimeError ''Grid processing error'')
      | Inr g \<Rightarrow> Inr (create_grid_dataarray (normalize_max_height_grid g)))"

subsection \<open>The step\<close>

definition DEPTH_CPT :: fs_path where "DEPTH_CPT = [''depth.cpt'']"
definition HGT_CPT :: fs_path where "HGT_CPT = [''hgt.cpt'']"
definition MAXOLA_PDF :: fs_path where "MAXOLA_PDF = [''maxola.pdf'']"

text \<open>
  What the station list and GMT answer: the two palettes, the figure of a map (the saved file, or an
  exception with what it has left of the file). An error of the palettes is reported as one.
\<close>

record maxola_env =
  mx_stations :: "exn + unit"
  mx_depth :: "exn + content"
  mx_heights :: "exn + content"
  mx_figure :: "height_map \<Rightarrow> exn option \<times> content option"

definition create_cpt_files :: "maxola_env \<Rightarrow> workspace \<Rightarrow> (exn + unit) \<times> workspace" where
  "create_cpt_files env fs =
     (case mx_depth env of
        Inl e \<Rightarrow> (Inl (RuntimeError ''CPT generation error''), fs)
      | Inr depth \<Rightarrow>
          (case mx_heights env of
             Inl e \<Rightarrow> (Inl (RuntimeError ''CPT generation error''), fs(DEPTH_CPT \<mapsto> depth))
           | Inr heights \<Rightarrow> (Inr (), fs(DEPTH_CPT \<mapsto> depth, HGT_CPT \<mapsto> heights))))"

definition cleanup_files :: "fs_path list \<Rightarrow> workspace \<Rightarrow> workspace" where
  "cleanup_files ps fs = foldl (\<lambda>fs p. fs(p := None)) fs ps"

definition generate_maxola_plot :: "maxola_env \<Rightarrow> workspace \<Rightarrow> (exn + unit) \<times> workspace" where
  "generate_maxola_plot env fs =
     (case mx_stations env of
        Inl e \<Rightarrow> (Inl e, fs)
      | Inr _ \<Rightarrow>
          (case create_cpt_files env fs of
             (Inl e, fs1) \<Rightarrow> (Inl e, fs1)
           | (Inr _, fs1) \<Rightarrow>
               (case process_grid fs1 of
                  Inl e \<Rightarrow> (Inl e, cleanup_files [DEPTH_CPT, HGT_CPT] fs1)
                | Inr grid \<Rightarrow>
                    (case mx_figure env grid of
                       (failure, pdf) \<Rightarrow>
                         ((case failure of Some e \<Rightarrow> Inl e | None \<Rightarrow> Inr ()),
                          cleanup_files [DEPTH_CPT, HGT_CPT] (case pdf of None \<Rightarrow> fs1 | Some c \<Rightarrow> fs1(MAXOLA_PDF \<mapsto> c)))))))"

end
