(* ===== verification/MaxolaLaws.thy ===== *)
theory MaxolaLaws
  imports Maxola RoundingError
begin

text \<open>
  Laws of the map of maximum heights: it shows the grid of the tsunami step, cell by cell, on a scale
  from 0 to 12 on which the highest cell is at 12.
\<close>

subsection \<open>Rounding\<close>

lemma short_f32:
  assumes "\<bar>m\<bar> \<le> 2 ^ 24" shows "array_type.stored Float32 (of_int m / 2 ^ k)"
  using stored_of_int [OF assms, of Float32 "- int k"] by (simp add: powr_minus powr_realpow divide_inverse)

lemma rint_near_1200: "rint (2401 / 2) = 1200" "rint (4799 / 4) = 1200"
proof -
  have "\<lfloor>2401 / 2 :: real\<rfloor> = 1200" "\<lfloor>4799 / 4 :: real\<rfloor> = 1199" by linarith+
  then show "rint (2401 / 2) = 1200" "rint (4799 / 4) = 1200" by (simp_all add: rint_def Let_def)
qed

lemma round2_top:
  assumes "x \<le> 12 + 1 / 2 ^ 19"
  shows "round2 x \<le> 12" and "12 - 1 / 2 ^ 19 \<le> x \<Longrightarrow> round2 x = 12" and "0 \<le> x \<Longrightarrow> 0 \<le> round2 x"
proof -
  have s: "array_type.stored Float32 (2401 / 2)" "array_type.stored Float32 (4799 / 4)" "array_type.stored Float32 12"
    using short_f32 [of 2401 1] short_f32 [of 4799 2] short_f32 [of 12 0] by simp_all
  have "x * 100 \<le> 2401 / 2" using assms by simp
  then have "f32 (x * 100) \<le> 2401 / 2" by (rule array_type.le_stored [OF s(1)])
  then have up: "rint (f32 (x * 100)) \<le> 1200" using rint_mono rint_near_1200(1) by metis
  then have "of_int (rint (f32 (x * 100))) / 100 \<le> (12 :: real)" by simp
  then show "round2 x \<le> 12" unfolding round2_def by (rule array_type.le_stored [OF s(3)])
  show "round2 x = 12" if "12 - 1 / 2 ^ 19 \<le> x"
  proof -
    have "4799 / 4 \<le> x * 100" using that by simp
    then have "4799 / 4 \<le> f32 (x * 100)" by (rule array_type.stored_le [OF s(2)])
    then have "1200 \<le> rint (f32 (x * 100))" using rint_mono rint_near_1200(2) by metis
    with up have "rint (f32 (x * 100)) = 1200" by simp
    then show ?thesis using s(3) by (simp add: round2_def array_type.stored_def)
  qed
  show "0 \<le> round2 x" if "0 \<le> x"
  proof -
    have "0 \<le> f32 (x * 100)" using that by (intro array_type.nonneg) simp
    then have "0 \<le> rint (f32 (x * 100))" using rint_mono [of 0] by simp
    then show ?thesis unfolding round2_def by (intro array_type.nonneg) simp
  qed
qed

lemma display_height_scale:
  assumes "0 \<le> v" and "v \<le> peak" and "0 < peak"
  shows "0 \<le> display_height peak v \<and> display_height peak v \<le> 12 \<and> (v = peak \<longrightarrow> display_height peak v = 12)"
proof -
  let ?a = "f32 (12 * v)" and ?q = "f32 (f32 (12 * v) / peak)"
  have "\<bar>?a - 12 * v\<bar> \<le> 12 * v / 2 ^ 24" using fl_near [of 24 "12 * v"] assms(1) by (simp add: cast_def abs_mult)
  then have near: "?a \<le> 12 * v * (1 + 1 / 2 ^ 24)" "12 * v * (1 - 1 / 2 ^ 24) \<le> ?a" by (simp_all only: abs_le_iff) argo+
  have s: "array_type.stored Float32 (12 + 1 / 2 ^ 19)" "array_type.stored Float32 (12 - 1 / 2 ^ 19)"
    using short_f32 [of 6291457 19] short_f32 [of 6291455 19] by simp_all
  note near(1)
  also have "12 * v * (1 + 1 / 2 ^ 24) \<le> 12 * peak * (1 + 1 / 2 ^ 24)" using assms(2) by (intro mult_right_mono) simp_all
  also have "\<dots> \<le> peak * (12 + 1 / 2 ^ 19)" using assms(3) by (simp add: field_simps)
  finally have "?a / peak \<le> 12 + 1 / 2 ^ 19" using assms(3) by (simp add: divide_le_eq mult.commute)
  then have up: "?q \<le> 12 + 1 / 2 ^ 19" by (rule array_type.le_stored [OF s(1)])
  have "0 \<le> ?a" using assms(1) by (intro array_type.nonneg) simp
  then have "0 \<le> ?q" using assms(3) by (intro array_type.nonneg) simp
  moreover have "12 - 1 / 2 ^ 19 \<le> ?q" if "v = peak"
  proof -
    have "peak * (12 - 1 / 2 ^ 19) \<le> 12 * peak * (1 - 1 / 2 ^ 24)" using assms(3) by (simp add: field_simps)
    also have "\<dots> \<le> ?a" using near(2) that by simp
    finally have "12 - 1 / 2 ^ 19 \<le> ?a / peak" using assms(3) by (simp add: le_divide_eq mult.commute)
    then show ?thesis by (rule array_type.stored_le [OF s(2)])
  qed
  ultimately show ?thesis using round2_top [OF up] unfolding display_height_def MAX_WAVE_HEIGHT_METERS_def by blast
qed

subsection \<open>The file and the map\<close>

text \<open>The height in the file, as the map's reader sees it: printed to the millimetre, read as float32.\<close>

definition printed_height :: "field \<Rightarrow> nat \<Rightarrow> nat \<Rightarrow> real" where
  "printed_height z i j = f32 (f64 (fixed_val 3 (z i j)))"

lemma zmax_reads_back:
  assumes "\<And>i j. i < IA \<Longrightarrow> j < JA \<Longrightarrow> 0 \<le> z i j \<and> z i j \<le> 999"
  shows "loadtxt Float32 (zmax_text z) = Some (map (\<lambda>i. map (printed_height z i) [0..<JA]) [0..<IA])"
proof -
  define rows where "rows = map (\<lambda>i. map (\<lambda>j. (8 :: nat, fixed_body 3 (z i j))) [0..<JA]) [0..<IA]"
  define v where "v = (\<lambda>w. the (read_number Float32 w))"
  have written: "zmax_text z = concat (map (\<lambda>ws. table_row ws @ [CHR 0x0A]) rows)"
    by (simp add: zmax_text_def rows_def table_row_def fixed_def o_def)
  have word: "table_word 8 (fixed_body 3 (z i j))" if "i < IA" "j < JA" for i j
    using assms [OF that] by (intro fixed_word [where m = 999000 and k = 3]) simp_all
  have "loadtxt Float32 (concat (map (\<lambda>ws. table_row ws @ [CHR 0x0A]) rows)) = Some (map (map (v \<circ> snd)) rows)"
  proof (rule loadtxt_table [where n = JA])
    show "\<forall>ws \<in> set rows. ws \<noteq> [] \<and> length ws = JA \<and> (\<forall>(width, w) \<in> set ws. table_word width w)"
      using word by (auto simp: rows_def JA_def)
    show "\<forall>ws \<in> set rows. \<forall>(width, w) \<in> set ws. read_number Float32 w = Some (v w)"
      by (auto simp: rows_def v_def read_number_fixed)
  qed
  then show ?thesis by (simp add: written rows_def v_def read_number_fixed printed_height_def o_def)
qed

lemma column_order_table:
  assumes "i < m" and "j < n"
  shows "column_order (map (\<lambda>i. map (f i) [0..<n]) [0..<m]) (i + m * j) = f i j"
  using assms by (simp add: column_order_def)

lemma reshape_table:
  "reshape_model_grid m n (map (\<lambda>i. map (f i) [0..<n]) [0..<m]) = Inr (rev (map (\<lambda>j. map (\<lambda>i. f i j) [0..<m]) [0..<n]))"
proof -
  have "length (concat (map (\<lambda>i. map (f i) [0..<n]) [0..<m])) = m * n" by (simp add: length_concat o_def sum_list_triv)
  moreover have "map (\<lambda>i. column_order (map (\<lambda>i. map (f i) [0..<n]) [0..<m]) (i + m * j)) [0..<m] = map (\<lambda>i. f i j) [0..<m]" if "j < n" for j
    using that by (intro map_cong [OF refl] column_order_table) simp_all
  ultimately show ?thesis by (simp add: reshape_model_grid_def cong: map_cong)
qed

lemma printed_height_nonneg: "0 \<le> z i j \<Longrightarrow> 0 \<le> printed_height z i j"
  unfolding printed_height_def
  by (intro array_type.nonneg) (simp add: fixed_val_def rint_mono [of 0, simplified])

text \<open>The map of a table of heights that are not negative.\<close>

definition height_table :: "(nat \<Rightarrow> nat \<Rightarrow> real) \<Rightarrow> real list list" where
  "height_table v = rev (map (\<lambda>j. map (\<lambda>i. v i j) [0..<IA]) [0..<JA])"

lemma height_table_peak:
  fixes v :: "nat \<Rightarrow> nat \<Rightarrow> real"
  defines "peak \<equiv> Max {v i j | i j. i < IA \<and> j < JA}"
  shows "concat (height_table v) \<noteq> []" and "Max (set (concat (height_table v))) = peak"
    and "\<exists>i < IA. \<exists>j < JA. v i j = peak" and "i < IA \<Longrightarrow> j < JA \<Longrightarrow> v i j \<le> peak"
proof -
  let ?g = "height_table v"
  have all: "set (concat ?g) = {v i j | i j. i < IA \<and> j < JA}" by (fastforce simp: height_table_def)
  have "v 0 0 \<in> {v i j | i j. i < IA \<and> j < JA}" using IA_def JA_def by fastforce
  then show full: "concat ?g \<noteq> []" using all by (metis empty_iff set_empty)
  show max: "Max (set (concat ?g)) = peak" by (simp only: peak_def all)
  have "Max (set (concat ?g)) \<in> set (concat ?g)" using full by (intro Max_in finite_set) (simp only: set_empty not_False_eq_True)
  then have "peak \<in> {v i j | i j. i < IA \<and> j < JA}" by (metis max all)
  then show "\<exists>i < IA. \<exists>j < JA. v i j = peak" by blast
  show "v i j \<le> peak" if "i < IA" "j < JA"
  proof -
    have "v i j \<in> set (concat ?g)" using that unfolding all by blast
    from Max_ge [OF finite_set this] show ?thesis by (simp only: max)
  qed
qed

lemma map_of_heights:
  fixes v :: "nat \<Rightarrow> nat \<Rightarrow> real"
  assumes "\<And>i j. 0 \<le> v i j"
  defines "peak \<equiv> Max {v i j | i j. i < IA \<and> j < JA}" and "hm \<equiv> create_grid_dataarray (normalize_max_height_grid (height_table v))"
  shows "length (hm_rows hm) = length (hm_lat hm) \<and>
    (\<forall>j < JA. length (hm_rows hm ! j) = length (hm_lon hm) \<and>
      (\<forall>i < IA. hm_rows hm ! j ! i = (if peak = 0 then 0 else display_height peak (v i j)) \<and>
         0 \<le> hm_rows hm ! j ! i \<and> hm_rows hm ! j ! i \<le> 12)) \<and>
    (peak \<noteq> 0 \<longrightarrow> (\<exists>i < IA. \<exists>j < JA. hm_rows hm ! j ! i = 12))"
proof -
  let ?show = "\<lambda>x. if peak = 0 then 0 else display_height peak x"
  note cells = height_table_peak [where v = v, folded peak_def]
  have "normalize_max_height_grid (height_table v) = map (map ?show) (height_table v)"
    using cells(1,2) by (auto simp: normalize_max_height_grid_def Let_def)
  then have rows: "hm_rows hm = map (\<lambda>j. map (\<lambda>i. ?show (v i j)) [0..<IA]) [0..<JA]"
    by (simp add: hm_def create_grid_dataarray_def height_table_def rev_map [symmetric])
  have axes: "length (hm_lat hm) = JA" "length (hm_lon hm) = IA"
    by (simp_all add: hm_def create_grid_dataarray_def cell_centers_def NROWS_def JA_def NCOLS_def IA_def)
  have scale: "0 \<le> ?show (v i j) \<and> ?show (v i j) \<le> 12 \<and> (v i j = peak \<longrightarrow> peak \<noteq> 0 \<longrightarrow> ?show (v i j) = 12)" if "i < IA" "j < JA" for i j
    using display_height_scale [of "v i j" peak] assms(1) [of i j] cells(4) [OF that] by (cases "peak = 0") auto
  from cells(3) obtain i j where ij: "i < IA" "j < JA" "v i j = peak" by blast
  then have "peak \<noteq> 0 \<longrightarrow> hm_rows hm ! j ! i = 12" using scale [OF ij(1,2)] by (simp add: rows)
  with ij(1,2) have "peak \<noteq> 0 \<longrightarrow> (\<exists>i < IA. \<exists>j < JA. hm_rows hm ! j ! i = 12)" by blast
  then show ?thesis using scale by (simp add: rows axes)
qed



subsection \<open>What the step leaves\<close>

text \<open>The step touches its own files only and removes its palettes, also when drawing fails; but when the
  second palette cannot be made the first one stays.\<close>

theorem maxola_leaves_no_palettes:
  assumes "generate_maxola_plot env fs = (r, fs')"
  shows "(\<forall>p. p \<notin> {DEPTH_CPT, HGT_CPT, MAXOLA_PDF} \<longrightarrow> fs' p = fs p) \<and>
    (r = Inr () \<longrightarrow> fs' DEPTH_CPT = None \<and> fs' HGT_CPT = None) \<and>
    (is_ok (mx_stations env) \<and> is_ok (mx_depth env) \<longrightarrow>
       (if is_ok (mx_heights env) then fs' DEPTH_CPT = None \<and> fs' HGT_CPT = None else \<not> is_ok r \<and> fs' DEPTH_CPT \<noteq> None))"
proof -
  have paths: "DEPTH_CPT \<noteq> HGT_CPT" "MAXOLA_PDF \<noteq> HGT_CPT" "DEPTH_CPT \<noteq> MAXOLA_PDF"
    by (simp_all add: DEPTH_CPT_def HGT_CPT_def MAXOLA_PDF_def)
  show ?thesis
    using assms paths paths [symmetric]
    by (cases "mx_stations env"; cases "mx_depth env"; cases "mx_heights env")
      (auto simp: generate_maxola_plot_def create_cpt_files_def cleanup_files_def split: sum.splits prod.splits option.splits)
qed

end
