(* ===== verification/FaultPlane.thy ===== *)
theory FaultPlane
  imports TsunamiRest
begin

text \<open>
  From the epicentre to the deformation window: the source parameters (tsdhn/calculator.py), the
  fault plane and its files (fault_plane.py), and the deformation grid's file (deform.py; the
  displacement formulas themselves are left out). Real arithmetic is exact here; numbers are
  rounded where they are printed or read.
\<close>

subsection \<open>Source parameters\<close>

definition RIGIDITY_N_PER_M2 :: real where "RIGIDITY_N_PER_M2 = 4 * 10 ^ 10"
definition NM_CONVERSION :: real where "NM_CONVERSION = 60 * 1853"
definition FAULT_PLANE_KILOMETERS_PER_DEGREE :: real where "FAULT_PLANE_KILOMETERS_PER_DEGREE = 111"

definition rupture_dimensions :: "real \<Rightarrow> real \<times> real" where
  "rupture_dimensions Mw = (10 powr (0.55 * Mw - 2.19), 10 powr (0.31 * Mw - 0.63))"

definition average_slip :: "real \<Rightarrow> real \<Rightarrow> real \<Rightarrow> real \<times> real" where
  "average_slip Mw L W =
     (let M0 = 10 powr (1.5 * Mw + 9.1) in (M0, M0 / (RIGIDITY_N_PER_M2 * (L * 1000) * (W * 1000))))"

definition radians :: "real \<Rightarrow> real" where "radians x = x * pi / 180"
definition degrees :: "real \<Rightarrow> real" where "degrees x = x * 180 / pi"

text \<open>\<open>lon % 360.0\<close>\<close>

definition to_0_360 :: "real \<Rightarrow> real" where
  "to_0_360 lon = lon - 360 * of_int \<lfloor>lon / 360\<rfloor>"

definition hypot :: "real \<Rightarrow> real \<Rightarrow> real" where
  "hypot x y = sqrt (x\<^sup>2 + y\<^sup>2)"

record rectangle =
  r_L1 :: real
  r_W1 :: real
  r_beta :: real
  r_alfa :: real
  r_h1 :: real
  r_a1 :: real
  r_b1 :: real
  r_xo :: real
  r_yo :: real

definition rectangle_parameters :: "real \<Rightarrow> real \<Rightarrow> real \<Rightarrow> real \<Rightarrow> real \<Rightarrow> real \<Rightarrow> rectangle" where
  "rectangle_parameters L W lon0 lat0 azimuth dip =
     (let L1 = L * 1000; W1 = W * 1000 * cos (radians dip); beta = degrees (arctan (W1 / L1));
          alfa = azimuth - 270; h1 = hypot L1 W1;
          a1 = 0.5 * h1 * sin (radians (alfa + beta)) / 1000; b1 = 0.5 * h1 * cos (radians (alfa + beta)) / 1000
      in \<lparr> r_L1 = L1, r_W1 = W1, r_beta = beta, r_alfa = alfa, r_h1 = h1, r_a1 = a1, r_b1 = b1,
           r_xo = lon0 + b1 / FAULT_PLANE_KILOMETERS_PER_DEGREE,
           r_yo = lat0 - a1 / FAULT_PLANE_KILOMETERS_PER_DEGREE \<rparr>)"

definition rectangle_corners :: "rectangle \<Rightarrow> real \<Rightarrow> (real \<times> real) list" where
  "rectangle_corners r azimuth =
     (let a0 = - radians (azimuth - 90); a1 = - radians azimuth;
          r0 = r_L1 r / NM_CONVERSION; r1 = r_W1 r / NM_CONVERSION
      in map (\<lambda>(u, v). (r0 * cos a0 * u + r1 * cos a1 * v + r_xo r, r0 * sin a0 * u + r1 * sin a1 * v + r_yo r))
           [(0, 0), (1, 0), (1, 1), (0, 1), (0, 0)])"

text \<open>\<open>np.argmin\<close>: the first index of the least value.\<close>

definition argmin :: "real list \<Rightarrow> nat" where
  "argmin xs = length (takeWhile (\<lambda>x. x \<noteq> Min (set xs)) xs)"

definition nearest_focal_mechanism :: "real list list \<Rightarrow> real \<Rightarrow> real \<Rightarrow> exn + (real \<times> real)" where
  "nearest_focal_mechanism mecfoc lon lat =
     (if mecfoc = [] \<or> length (hd mecfoc) < 4 then Inl (OtherError ''IndexError'')
      else let near = (\<lambda>row. let dlon = \<bar>to_0_360 (row ! 0) - to_0_360 lon\<bar>
                         in hypot (min dlon (360 - dlon)) (row ! 1 - lat));
               best = mecfoc ! argmin (map near mecfoc)
           in Inr (best ! 2, best ! 3))"

subsection \<open>hypo.dat\<close>

text \<open>\<open>_write_hypo_dat\<close>; \<open>data.hhmm or "0000"\<close>.\<close>

definition hypo_text :: "string option \<Rightarrow> real \<Rightarrow> real \<Rightarrow> real \<Rightarrow> real \<Rightarrow> string" where
  "hypo_text hhmm lon0 lat0 h Mw =
     (case hhmm of None \<Rightarrow> ''0000'' | Some t \<Rightarrow> if t = '''' then ''0000'' else t) @ [CHR 0x0A] @
     fixed_body 2 lon0 @ [CHR 0x0A] @ fixed_body 2 lat0 @ [CHR 0x0A] @ fixed_body 0 h @ [CHR 0x0A] @ fixed_body 1 Mw"

definition read_hypo_dat :: "string \<Rightarrow> exn + (string \<times> real \<times> real \<times> real \<times> real)" where
  "read_hypo_dat text =
     (let lines = splitlines text in
      if length lines < 5 then Inl (OtherError ''IndexError'')
      else case (py_float (lines ! 1), py_float (lines ! 2), py_float (lines ! 3), py_float (lines ! 4)) of
        (Some lon0, Some lat0, Some zep, Some mw) \<Rightarrow> Inr (strip_by is_space (lines ! 0), lon0, lat0, zep, mw)
      | _ \<Rightarrow> Inl (ValueError ''could not convert string to float''))"

subsection \<open>The window\<close>

definition nearest_index :: "real list \<Rightarrow> real \<Rightarrow> int" where
  "nearest_index axis v = int (argmin (map (\<lambda>x. \<bar>x - v\<bar>) axis)) + 1"

definition grid_snap :: "real list \<Rightarrow> real list \<Rightarrow> real \<Rightarrow> real \<Rightarrow> int \<times> int" where
  "grid_snap xa ya xo yo = (nearest_index xa xo, nearest_index ya yo)"

definition grid_window :: "real list \<Rightarrow> real list \<Rightarrow> real \<Rightarrow> real \<Rightarrow> real \<Rightarrow> real \<Rightarrow> int \<times> int \<times> int \<times> int" where
  "grid_window xa ya xep yep l_km mw =
     (let cte = (if mw > 8 then 1.4 else 2.8); off = cte * l_km / FAULT_PLANE_KILOMETERS_PER_DEGREE in
      (nearest_index xa (of_int (trunc (xep - off))), nearest_index xa (of_int (trunc (xep + off))),
       nearest_index ya (of_int (trunc (yep - off))), nearest_index ya (of_int (trunc (yep + off)))))"

definition recompute_depth :: "real \<Rightarrow> real \<Rightarrow> real \<Rightarrow> real \<Rightarrow> real \<Rightarrow> real \<Rightarrow> real \<Rightarrow> real" where
  "recompute_depth lon0 lat0 xo yo zep az dip =
     (let dx = (lon0 - xo) * FAULT_PLANE_KILOMETERS_PER_DEGREE; dy = (lat0 - yo) * FAULT_PLANE_KILOMETERS_PER_DEGREE;
          h = (zep - (dx * cos (radians (- az)) + dy * sin (radians (- az))) * tan (radians dip)) * 1000
      in if h < 0 then 5000 else h)"

subsection \<open>The files\<close>

definition pfalla_text :: "int \<Rightarrow> int \<Rightarrow> real \<Rightarrow> real \<Rightarrow> real \<Rightarrow> real \<Rightarrow> real \<Rightarrow> real \<Rightarrow> real \<Rightarrow> string" where
  "pfalla_text i0 j0 d0 l0 w0 az dip rake h =
     int_text i0 @ '' '' @ int_text j0 @ '' '' @ py_repr d0 @ '' '' @ py_repr l0 @ '' '' @ py_repr w0 @ '' '' @
     py_repr az @ '' '' @ py_repr dip @ '' '' @ py_repr rake @ '' '' @ py_repr h @ [CHR 0x0A]"

definition xyo_text :: "int \<times> int \<times> int \<times> int \<Rightarrow> string" where
  "xyo_text window =
     (case window of (ids, ide, jds, jde) \<Rightarrow>
        int_text ids @ '' '' @ int_text ide @ '' '' @ int_text jds @ '' '' @ int_text jde @ [CHR 0x0A])"

definition meca_text :: "real list \<Rightarrow> string \<Rightarrow> string" where
  "meca_text vs hhmm = concat (map (fixed 7 2) vs) @ '' 0 0 '' @ hhmm @ [CHR 0x0A]"

text \<open>\<open>read_meca_spec\<close> (render/meca.py): the first line, ten values, the last a name.\<close>

definition read_meca_spec :: "string \<Rightarrow> exn + (real list \<times> string)" where
  "read_meca_spec text =
     (let ws = split_ws (takeWhile (\<lambda>c. c \<noteq> CHR 0x0A \<and> c \<noteq> CHR 0x0D) text) in
      if length ws \<noteq> 10 then Inl (ValueError ''Meca file does not contain exactly 10 values.'')
      else case all_some (map py_float (take 9 ws)) of
        None \<Rightarrow> Inl (ValueError ''could not convert string to float'')
      | Some vs \<Rightarrow> Inr (vs, if take 1 (ws ! 9) = ''s'' then ws ! 9 else ''s'' @ ws ! 9))"

definition RAKE :: real where "RAKE = 90"

text \<open>\<open>np.loadtxt\<close> of an axis: one column or one row; a table cannot be compared with a number.\<close>

definition read_axis :: "string \<Rightarrow> exn + real list" where
  "read_axis text =
     bind_ok (value_error (loadtxt Float64 text)) (\<lambda>vs.
       case vs of
         [] \<Rightarrow> Inl (OtherError ''IndexError'')
       | [row] \<Rightarrow> Inr row
       | _ \<Rightarrow> if length (hd vs) = 1 then Inr (map hd vs) else Inl (ValueError ''ambiguous truth value''))"

definition XA_DAT :: fs_path where "XA_DAT = [''bathy'', ''xa.dat'']"
definition YA_DAT :: fs_path where "YA_DAT = [''bathy'', ''ya.dat'']"
definition MECFOC_DAT :: fs_path where "MECFOC_DAT = [''mecfoc.dat'']"
definition PFALLA_INP :: fs_path where "PFALLA_INP = [''pfalla.inp'']"
definition MECA_DAT :: fs_path where "MECA_DAT = [''meca.dat'']"

text \<open>\<open>np.loadtxt\<close> of the mechanisms; a single row is no table.\<close>

definition read_mecfoc :: "string \<Rightarrow> exn + real list list" where
  "read_mecfoc text =
     bind_ok (value_error (loadtxt Float64 text)) (\<lambda>vs.
       if length vs = 1 then Inl (OtherError ''IndexError'') else Inr vs)"

text \<open>\<open>run_fault_plane\<close>: the three files it writes.\<close>

definition run_fault_plane :: "workspace \<Rightarrow> exn + workspace" where
  "run_fault_plane fs =
     bind_ok (bind_ok (text_of (fs HYPO_DAT)) read_hypo_dat) (\<lambda>(hhmm, lon0, lat0, zep, mw).
     let xep = to_0_360 lon0; (L, W) = rupture_dimensions mw; slip = snd (average_slip mw L W) in
     bind_ok (bind_ok (text_of (fs MECFOC_DAT)) read_mecfoc) (\<lambda>mecfoc.
     bind_ok (nearest_focal_mechanism mecfoc lon0 lat0) (\<lambda>(az, dip).
     let r = rectangle_parameters L W lon0 lat0 az dip in
     bind_ok (bind_ok (text_of (fs XA_DAT)) read_axis) (\<lambda>xa.
     bind_ok (bind_ok (text_of (fs YA_DAT)) read_axis) (\<lambda>ya.
     if xep < hd xa then Inl (RuntimeError ''Epicenter is outside the computational grid'')
     else let (i0, j0) = grid_snap xa ya (to_0_360 (r_xo r)) (r_yo r);
              h = recompute_depth lon0 lat0 (r_xo r) (r_yo r) zep az dip in
       Inr (fs(PFALLA_INP \<mapsto> Text (pfalla_text i0 j0 slip (L * 1000) (W * 1000) az dip RAKE h),
               XYO_DAT \<mapsto> Text (xyo_text (grid_window xa ya xep lat0 L mw)),
               MECA_DAT \<mapsto> Text (meca_text [xep, lat0, zep, az, dip, RAKE, mw] hhmm))))))))"

subsection \<open>deform_a.grd\<close>

definition parse_pfalla_inp :: "string \<Rightarrow> exn + (int \<times> int \<times> real list)" where
  "parse_pfalla_inp text =
     (let ws = take 9 (split_ws text) in
      if length ws \<noteq> 9 then Inl (ValueError ''not enough values to unpack'')
      else case all_some (map py_float ws) of
        None \<Rightarrow> Inl (ValueError ''could not convert string to float'')
      | Some vs \<Rightarrow> Inr (trunc (vs ! 0), trunc (vs ! 1), drop 2 vs))"

definition clip_anomalous_values :: "real \<Rightarrow> field \<Rightarrow> field" where
  "clip_anomalous_values threshold g = (\<lambda>i j. if threshold \<le> \<bar>g i j\<bar> then 0 else g i j)"

text \<open>\<open>np.savetxt(path, grid, fmt="%9.3f", delimiter="")\<close>\<close>

definition deform_text :: "nat \<Rightarrow> nat \<Rightarrow> field \<Rightarrow> string" where
  "deform_text rows cols g =
     concat (map (\<lambda>i. concat (map (\<lambda>j. fixed 9 3 (g i j)) [0..<cols]) @ [CHR 0x0A]) [0..<rows])"

end
