(* ===== verification/TttStep.thy ===== *)
theory TttStep
  imports FaultPlane GridFile
begin

text \<open>
  The travel-time steps of the report: ttt_inverso.py calls the client with the epicenter of meca.dat,
  point_ttt.py draws its grid, and the command line of tsdhn_ttt, which reads such an argument, a
  bathymetry and writes the grid. GMT and the called client are arguments.
\<close>

subsection \<open>The epicenter as an argument\<close>

definition format_ttt_epicenter :: "real \<Rightarrow> real \<Rightarrow> string" where
  "format_ttt_epicenter longitude latitude =
     fixed 6 2 longitude @ ''/'' @
     (if latitude \<le> - 10 then fixed 6 2 latitude
      else if latitude < 0 then fixed 5 2 latitude
      else if latitude < 10 then fixed 4 2 latitude
      else fixed 5 2 latitude)"

text \<open>\<open>_epicenter\<close>: \<open>text.partition("/")\<close>, then two numbers.\<close>

definition parse_epicenter :: "string \<Rightarrow> exn + real \<times> real" where
  "parse_epicenter text =
     (let lon = takeWhile (\<lambda>c. c \<noteq> CHR ''/'') text; rest = drop (length lon) text in
      if rest = [] then Inl (OtherError ''expected LON/LAT'')
      else case (py_float lon, py_float (tl rest)) of
        (Some x, Some y) \<Rightarrow> Inr (x, y)
      | _ \<Rightarrow> Inl (OtherError ''expected LON/LAT in degrees''))"

subsection \<open>ttt_inverso\<close>

text \<open>
  \<open>run_client\<close> is the call of the client in the step's directory: its arguments without the program, and
  what it leaves; a status other than zero is an exception.
\<close>

definition ttt_inverso :: "(string \<Rightarrow> string option) \<Rightarrow> (string list \<Rightarrow> workspace \<Rightarrow> (exn + unit) \<times> workspace) \<Rightarrow>
    workspace \<Rightarrow> (exn + unit) \<times> workspace" where
  "ttt_inverso which run_client fs =
     (if fs MECA_DAT = None then (Inl (FileNotFoundError ''Required file meca.dat not found.''), fs)
      else case bind_ok (text_of (fs MECA_DAT)) read_meca_spec of
        Inl e \<Rightarrow> (Inl e, fs)
      | Inr (vs, event) \<Rightarrow>
          if which ''ttt_client'' = None then (Inl (RuntimeError ''Required executable not found on PATH''), fs)
          else run_client [''cortado.i2'', ''-E'' @ format_ttt_epicenter (vs ! 0) (vs ! 1), ''-Tttt.b'', ''-VL''] fs)"

subsection \<open>point_ttt\<close>

definition CORTADO_I2 :: fs_path where "CORTADO_I2 = [''ttt_mundo'', ''cortado.i2'']"
definition TTT_B :: fs_path where "TTT_B = [''ttt_mundo'', ''ttt.b'']"
definition TTT_PDF :: fs_path where "TTT_PDF = [''ttt_mundo'', ''ttt.pdf'']"
definition COLOR_CPT :: fs_path where "COLOR_CPT = [''ttt_mundo'', ''color.cpt'']"

text \<open>What GMT does before, at and after the palette and when it saves: each call may raise.\<close>

record ttt_map_env =
  tm_config :: "exn + unit"
  tm_palette :: "exn + content"
  tm_draw :: "exn + unit"
  tm_meca :: "exn + unit"
  tm_save :: "exn + content option"

definition ttt_map_body :: "ttt_map_env \<Rightarrow> workspace \<Rightarrow> (exn + unit) \<times> workspace" where
  "ttt_map_body env fs =
     (if fs CORTADO_I2 = None \<or> fs TTT_B = None \<or> fs MECA_DAT = None then (Inl (FileNotFoundError ''Required file not found.''), fs)
      else case tm_config env of Inl e \<Rightarrow> (Inl e, fs) | Inr _ \<Rightarrow>
      (case tm_palette env of Inl e \<Rightarrow> (Inl e, fs) | Inr cpt \<Rightarrow>
      (let fs = fs(COLOR_CPT \<mapsto> cpt) in
       case tm_draw env of Inl e \<Rightarrow> (Inl e, fs) | Inr _ \<Rightarrow>
      (case bind_ok (text_of (fs MECA_DAT)) read_meca_spec of Inl e \<Rightarrow> (Inl e, fs) | Inr _ \<Rightarrow>
      (case tm_meca env of Inl e \<Rightarrow> (Inl e, fs) | Inr _ \<Rightarrow>
      (case tm_save env of Inl e \<Rightarrow> (Inl e, fs) | Inr saved \<Rightarrow>
      (let fs = (case saved of None \<Rightarrow> fs | Some c \<Rightarrow> fs(TTT_PDF \<mapsto> c)) in
       if fs TTT_PDF = None then (Inl (RuntimeError ''Failed to generate TTT PDF file.''), fs) else (Inr (), fs))))))))"

definition generate_ttt_map :: "ttt_map_env \<Rightarrow> workspace \<Rightarrow> (exn + unit) \<times> workspace" where
  "generate_ttt_map env fs =
     (case ttt_map_body env fs of
        (Inl e, fs) \<Rightarrow> (Inl (RuntimeError ''TTT map generation failed''), fs(TTT_PDF := None))
      | (Inr u, fs) \<Rightarrow> (Inr u, fs))"

subsection \<open>The command line of tsdhn_ttt\<close>

text \<open>
  \<open>main\<close> on parsed arguments: the bytes of the grid or the error of reading them. The answer is the exit
  status, or the exception that ends the process, with the bytes written. None is a propagation that does
  not end.
\<close>

definition ttt_main :: "bool \<Rightarrow> real \<times> real \<Rightarrow> exn + bytes \<Rightarrow> ((exn + nat) \<times> bytes option) option" where
  "ttt_main client_compatible epicenter grid =
     (case epicenter of (lon, lat) \<Rightarrow>
      case bind_ok grid read_bathymetry of Inl e \<Rightarrow> Some (Inl e, None) | Inr b \<Rightarrow>
     (case travel_times b lon lat client_compatible of
        None \<Rightarrow> None
      | Some (Inl (ValueError msg)) \<Rightarrow> Some (Inr 1, None)
      | Some (Inl e) \<Rightarrow> Some (Inl e, None)
      | Some (Inr r) \<Rightarrow>
          (case write_travel_times b (tt_hours r) lon lat (tt_slope r) of
             Inl e \<Rightarrow> Some (Inl e, None)
           | Inr out \<Rightarrow> Some (Inr 0, Some out))))"

end
