(* ===== verification/FaultPlaneLaws.thy ===== *)
theory FaultPlaneLaws
  imports FaultPlane JobRow
begin

text \<open>
  Laws of the fault plane and its files: the window lies on the grid whatever the epicentre,
  every file reads back as what was written, and the tsunami step can start from what the two
  steps before it wrote.
\<close>

subsection \<open>The nearest grid line\<close>

lemma takeWhile_neq_index:
  assumes "m \<in> set xs"
  shows "length (takeWhile (\<lambda>x. x \<noteq> m) xs) < length xs" and "xs ! length (takeWhile (\<lambda>x. x \<noteq> m) xs) = m"
    and "\<forall>k < length (takeWhile (\<lambda>x. x \<noteq> m) xs). xs ! k \<noteq> m"
proof -
  show "length (takeWhile (\<lambda>x. x \<noteq> m) xs) < length xs" "xs ! length (takeWhile (\<lambda>x. x \<noteq> m) xs) = m"
    "\<forall>k < length (takeWhile (\<lambda>x. x \<noteq> m) xs). xs ! k \<noteq> m"
    using assms
  proof (atomize (full), induction xs)
    case (Cons x xs)
    then show ?case by (auto simp: nth_Cons split: nat.split)
  qed simp
qed

lemma argmin_least:
  assumes "xs \<noteq> []"
  shows "argmin xs < length xs" and "k < length xs \<Longrightarrow> xs ! argmin xs \<le> xs ! k"
    and "k < argmin xs \<Longrightarrow> xs ! argmin xs < xs ! k"
proof -
  have m: "Min (set xs) \<in> set xs" using assms by simp
  note idx = takeWhile_neq_index [OF m, folded argmin_def]
  show len: "argmin xs < length xs" by (rule idx(1))
  show le: "xs ! argmin xs \<le> xs ! k" if "k < length xs" for k using idx(2) that by simp
  show "xs ! argmin xs < xs ! k" if "k < argmin xs"
  proof -
    have "xs ! argmin xs \<le> xs ! k" using le len that by simp
    moreover have "xs ! k \<noteq> xs ! argmin xs" using idx(2) idx(3) that by simp
    ultimately show ?thesis by simp
  qed
qed

lemma nearest_index_range: "axis \<noteq> [] \<Longrightarrow> 1 \<le> nearest_index axis v \<and> nearest_index axis v \<le> int (length axis)"
  using argmin_least(1) [of "map (\<lambda>x. \<bar>x - v\<bar>) axis"] by (simp add: nearest_index_def)

text \<open>On an increasing axis a greater coordinate has no smaller nearest index.\<close>

lemma nearest_index_mono:
  assumes "sorted_wrt (<) axis" and "axis \<noteq> []" and "u \<le> v"
  shows "nearest_index axis u \<le> nearest_index axis v"
proof (rule ccontr)
  let ?d = "\<lambda>w. map (\<lambda>x. \<bar>x - w\<bar>) axis"
  let ?i = "argmin (?d u)" and ?k = "argmin (?d v)"
  assume "\<not> nearest_index axis u \<le> nearest_index axis v"
  then have less: "?k < ?i" by (simp add: nearest_index_def)
  have i: "?i < length axis" and k: "?k < length axis"
    using argmin_least(1) [of "?d u"] argmin_least(1) [of "?d v"] assms(2) by simp_all
  have "axis ! ?k < axis ! ?i" using assms(1) less i by (simp add: sorted_wrt_iff_nth_less)
  moreover have "\<bar>axis ! ?i - u\<bar> < \<bar>axis ! ?k - u\<bar>"
    using argmin_least(3) [of "?d u" ?k] less i k assms(2) by simp
  moreover have "\<bar>axis ! ?k - v\<bar> \<le> \<bar>axis ! ?i - v\<bar>"
    using argmin_least(2) [of "?d v" ?i] i k assms(2) by simp
  ultimately show False using assms(3) by linarith
qed

lemma trunc_mono: "x \<le> y \<Longrightarrow> trunc x \<le> trunc y"
proof -
  assume le: "x \<le> y"
  consider "y < 0" | "x < 0" "0 \<le> y" | "0 \<le> x" using le by linarith
  then show ?thesis
  proof cases
    case 2
    then have "\<lceil>x\<rceil> \<le> 0" "0 \<le> \<lfloor>y\<rfloor>" by (simp_all add: ceiling_le_iff le_floor_iff)
    then have "\<lceil>x\<rceil> \<le> \<lfloor>y\<rfloor>" by linarith
    then show ?thesis using 2 by (simp add: trunc_def)
  qed (use le in \<open>simp_all add: trunc_def ceiling_mono floor_mono\<close>)
qed

lemma grid_window_on_grid:
  assumes "sorted_wrt (<) xa" and "sorted_wrt (<) ya" and "xa \<noteq> []" and "ya \<noteq> []" and "0 \<le> l"
    and "grid_window xa ya xep yep l mw = (ids, ide, jds, jde)"
  shows "1 \<le> ids \<and> ids \<le> ide \<and> ide \<le> int (length xa) \<and> 1 \<le> jds \<and> jds \<le> jde \<and> jde \<le> int (length ya)"
proof -
  let ?off = "(if mw > 8 then 1.4 else 2.8) * l / FAULT_PLANE_KILOMETERS_PER_DEGREE"
  have off: "0 \<le> ?off" using assms(5) by (simp add: FAULT_PLANE_KILOMETERS_PER_DEGREE_def)
  have w: "ids = nearest_index xa (of_int (trunc (xep - ?off)))" "ide = nearest_index xa (of_int (trunc (xep + ?off)))"
    "jds = nearest_index ya (of_int (trunc (yep - ?off)))" "jde = nearest_index ya (of_int (trunc (yep + ?off)))"
    using assms(6) by (simp_all add: grid_window_def Let_def)
  have "trunc (c - ?off) \<le> trunc (c + ?off)" for c using off by (intro trunc_mono) linarith
  then have "ids \<le> ide" "jds \<le> jde" unfolding w
    by (intro nearest_index_mono [OF assms(1,3)] nearest_index_mono [OF assms(2,4)]; simp)+
  then show ?thesis
    using nearest_index_range [OF assms(3)] nearest_index_range [OF assms(4)] unfolding w by blast
qed

subsection \<open>xyo.dat\<close>

lemma space_char [simp]: "is_space CHR '' ''" "is_space CHR 0x0A"
  by (simp_all add: is_space_def)

lemma split_ws_ints:
  "split_ws (int_text a @ '' '' @ int_text b @ '' '' @ int_text c @ '' '' @ int_text d @ [CHR 0x0A]) =
     [int_text a, int_text b, int_text c, int_text d]"
  by (simp add: split_ws_word int_text_word)

lemma read_xyo_written:
  assumes "\<forall>v \<in> {ids, ide, jds, jde}. \<bar>v\<bar> \<le> 2 ^ 24"
  shows "read_xyo_dat (xyo_text (ids, ide, jds, jde)) = Inr (ids, ide, jds, jde)"
proof -
  have one: "(map_option trunc \<circ> py_float) (int_text v) = Some v" if "\<bar>v\<bar> \<le> 2 ^ 24" for v
    using stored_of_int [of v Float64 0] that
    by (simp add: py_float_def numeral_val_int array_type.stored_def trunc_def)
  have "map (map_option trunc \<circ> py_float) (split_ws (xyo_text (ids, ide, jds, jde))) = [Some ids, Some ide, Some jds, Some jde]"
    unfolding xyo_text_def prod.case split_ws_ints list.map using assms by (simp only: one insert_iff ball_simps simp_thms)
  then show ?thesis by (simp add: read_xyo_dat_def)
qed

subsection \<open>deform_a.grd\<close>

lemma clip_below: "0 < threshold \<Longrightarrow> \<bar>clip_anomalous_values threshold g i j\<bar> < threshold"
  by (simp add: clip_anomalous_values_def)

lemma deform_word: "\<bar>x\<bar> < 20 \<Longrightarrow> table_word 9 (fixed_body 3 x)"
  by (rule fixed_word [where m = 20000 and k = 3]) simp_all

lemma deform_text_table:
  "deform_text rows cols g = concat (map (\<lambda>ws. table_row ws @ [CHR 0x0A])
     (map (\<lambda>i. map (\<lambda>j. (9, fixed_body 3 (g i j))) [0..<cols]) [0..<rows]))"
  by (auto simp: deform_text_def table_row_def fixed_def o_def intro!: arg_cong [where f = concat])

lemma concat_rows_nth:
  "i < rows \<Longrightarrow> j < cols \<Longrightarrow> concat (map (\<lambda>i. map (f i) [0..<cols]) [0..<rows]) ! (i * cols + j) = f i j"
proof (induction rows)
  case (Suc rows)
  have len: "length (concat (map (\<lambda>i. map (f i) [0..<cols]) [0..<rows])) = rows * cols"
    by (simp add: length_concat o_def sum_list_triv)
  show ?case
  proof (cases "i < rows")
    case True
    then have "i * cols + j < rows * cols"
      using Suc.prems(2) by (metis (no_types) add.commute mlex_eq mult.commute mult_Suc_right nat_add_left_cancel_less
          less_le_trans add_less_le_mono mult_le_mono1 Suc_leI mult_Suc)
    then show ?thesis using Suc True len by (simp add: nth_append)
  next
    case False
    then have "i = rows" using Suc.prems(1) by simp
    then show ?thesis using Suc.prems(2) len by (simp add: nth_append)
  qed
qed simp

lemma read_deform_written:
  assumes "\<forall>i j. \<bar>g i j\<bar> < 20" and "1 \<le> ids" "ids \<le> ide" "1 \<le> jds" "jds \<le> jde"
    and "rows = nat (ide - ids + 1)" "cols = nat (jde - jds + 1)"
  shows "\<exists>v. read_deform_a (deform_text rows cols g) ids ide jds jde = Inr (ide - ids + 1, jde - jds + 1, v) \<and>
    (\<forall>i < rows. \<forall>j < cols. v i j = f32 (f64 (fixed_val 3 (g i j))))"
proof -
  let ?f = "\<lambda>i j. f32 (f64 (fixed_val 3 (g i j)))"
  let ?vs = "concat (map (\<lambda>i. map (?f i) [0..<cols]) [0..<rows])"
  have "split_ws (deform_text rows cols g) =
      concat (map (map snd) (map (\<lambda>i. map (\<lambda>j. (9 :: nat, fixed_body 3 (g i j))) [0..<cols]) [0..<rows]))"
    unfolding deform_text_table using deform_word assms(1) by (intro split_ws_table) auto
  then have words: "split_ws (deform_text rows cols g) =
      map (\<lambda>(i, j). fixed_body 3 (g i j)) (concat (map (\<lambda>i. map (\<lambda>j. (i, j)) [0..<cols]) [0..<rows]))"
    by (simp add: map_concat o_def)
  have "all_some (map (read_number Float32) (split_ws (deform_text rows cols g))) =
      Some (map (\<lambda>(i, j). ?f i j) (concat (map (\<lambda>i. map (\<lambda>j. (i, j)) [0..<cols]) [0..<rows])))"
    unfolding words map_map by (intro all_some_map) (auto simp: read_number_fixed)
  then have all: "all_some (map (read_number Float32) (split_ws (deform_text rows cols g))) = Some ?vs"
    by (simp add: map_concat o_def)
  have len: "length ?vs = rows * cols" by (simp add: length_concat o_def sum_list_triv)
  have dims: "int rows = ide - ids + 1" "int cols = jde - jds + 1" using assms(2-7) by simp_all
  then have "int (length ?vs) = (ide - ids + 1) * (jde - jds + 1)" using len by (metis of_nat_mult)
  then have "read_deform_a (deform_text rows cols g) ids ide jds jde = Inr (ide - ids + 1, jde - jds + 1,
      \<lambda>i j. if int i < ide - ids + 1 \<and> int j < jde - jds + 1 then ?vs ! (i * nat (jde - jds + 1) + j) else 0)"
    using assms(3,5) by (simp add: read_deform_a_def value_error_def all Let_def)
  moreover have "(if int i < ide - ids + 1 \<and> int j < jde - jds + 1 then ?vs ! (i * nat (jde - jds + 1) + j) else 0) = ?f i j"
    if "i < rows" "j < cols" for i j
    using concat_rows_nth [OF that, of ?f] that assms(7) unfolding dims [symmetric] by simp
  ultimately show ?thesis by blast
qed


subsection \<open>The tsunami step starts from them\<close>

lemma place_window_inside:
  assumes "1 \<le> ids" "ids \<le> ide" "ide \<le> int IA" "1 \<le> jds" "jds \<le> jde" "jde \<le> int JA"
  shows "place_window ids ide jds jde (ide - ids + 1, jde - jds + 1, v) =
    Inr (\<lambda>i j. if ids - 1 \<le> int i \<and> int i < ide \<and> jds - 1 \<le> int j \<and> int j < jde
           then v (nat (int i - (ids - 1))) (nat (int j - (jds - 1))) else 0)"
proof -
  have b: "slice_bound IA (ids - 1) = ids - 1" "slice_length IA (ids - 1) ide = ide - ids + 1"
    "slice_bound JA (jds - 1) = jds - 1" "slice_length JA (jds - 1) jde = jde - jds + 1"
    using assms by (simp_all add: slice_bound_def slice_length_def)
  show ?thesis unfolding place_window_def prod.case Let_def b by (auto simp: fun_eq_iff)
qed

text \<open>C21: The deformation window of any earthquake on increasing axes lies on the grid; xyo.dat reads back as
  that window; and from the deformation file, written with its fields of nine characters after
  clipping, the tsunami step starts: every cell of the window holds the clipped displacement
  rounded to millimetres, every other cell zero.\<close>

theorem deformation_reaches_the_tsunami_step:
  assumes "sorted_wrt (<) xa" and "sorted_wrt (<) ya" and "length xa = IA" and "length ya = JA"
    and "grid_window xa ya xep yep (fst (rupture_dimensions mw)) mw = (ids, ide, jds, jde)"
    and "fs DEFORM_A = Some (Text (deform_text (nat (ide - ids + 1)) (nat (jde - jds + 1)) (clip_anomalous_values 20 g)))"
  shows "read_xyo_dat (xyo_text (ids, ide, jds, jde)) = Inr (ids, ide, jds, jde) \<and>
    (\<exists>l. initial_levels (ids, ide, jds, jde) fs = Inr l \<and>
      (\<forall>i j. z1 l i j =
         (if ids - 1 \<le> int i \<and> int i < ide \<and> jds - 1 \<le> int j \<and> int j < jde
          then f32 (f64 (fixed_val 3 (clip_anomalous_values 20 g (nat (int i - (ids - 1))) (nat (int j - (jds - 1))))))
          else 0)))"
proof -
  have "xa \<noteq> []" "ya \<noteq> []" using assms(3,4) by (auto simp: IA_def JA_def)
  then have w: "1 \<le> ids" "ids \<le> ide" "ide \<le> int IA" "1 \<le> jds" "jds \<le> jde" "jde \<le> int JA"
    using grid_window_on_grid [OF assms(1,2) _ _ _ assms(5)] assms(3,4) by (simp_all add: rupture_dimensions_def)
  have "\<forall>i j. \<bar>clip_anomalous_values 20 g i j\<bar> < 20" by (simp add: clip_below)
  then obtain v where v: "read_deform_a (deform_text (nat (ide - ids + 1)) (nat (jde - jds + 1)) (clip_anomalous_values 20 g))
        ids ide jds jde = Inr (ide - ids + 1, jde - jds + 1, v)"
    "\<forall>i < nat (ide - ids + 1). \<forall>j < nat (jde - jds + 1). v i j = f32 (f64 (fixed_val 3 (clip_anomalous_values 20 g i j)))"
    using read_deform_written [OF _ w(1,2,4,5) refl refl] by blast
  have "initial_levels (ids, ide, jds, jde) fs = Inr \<lparr> z1 = (\<lambda>i j. if ids - 1 \<le> int i \<and> int i < ide \<and> jds - 1 \<le> int j \<and> int j < jde
      then v (nat (int i - (ids - 1))) (nat (int j - (jds - 1))) else 0),
      z2 = zeros, m1 = zeros, m2 = zeros, n1 = zeros, n2 = zeros, zmxa = zeros, gauge_rows = [] \<rparr>"
    by (simp add: initial_levels_def assms(6) v(1) place_window_inside [OF w])
  moreover have "v (nat (int i - (ids - 1))) (nat (int j - (jds - 1))) =
      f32 (f64 (fixed_val 3 (clip_anomalous_values 20 g (nat (int i - (ids - 1))) (nat (int j - (jds - 1))))))"
    if "ids - 1 \<le> int i" "int i < ide" "jds - 1 \<le> int j" "int j < jde" for i j
    using v(2) that by simp
  moreover have "read_xyo_dat (xyo_text (ids, ide, jds, jde)) = Inr (ids, ide, jds, jde)"
    using w by (intro read_xyo_written) (auto simp: IA_def JA_def)
  ultimately show ?thesis by auto
qed

lemma deformation_reaches_the_tsunami_step_witness:
  "\<exists>window fs l. grid_window (map real [0..<IA]) (map real [0..<JA]) 1000 1000 (fst (rupture_dimensions 8)) 8 = window \<and>
     initial_levels window fs = Inr l \<and> z1 l 999 999 = 0"
proof -
  obtain ids ide jds jde where w: "grid_window (map real [0..<IA]) (map real [0..<JA]) 1000 1000 (fst (rupture_dimensions 8)) 8 =
      (ids, ide, jds, jde)"
    by (cases "grid_window (map real [0..<IA]) (map real [0..<JA]) 1000 1000 (fst (rupture_dimensions 8)) 8") auto
  let ?fs = "[DEFORM_A \<mapsto> Text (deform_text (nat (ide - ids + 1)) (nat (jde - jds + 1)) (clip_anomalous_values 20 zeros))]"
  have sorted: "sorted_wrt (<) (map real [0..<n])" for n by (simp add: sorted_wrt_iff_nth_less)
  obtain l where "initial_levels (ids, ide, jds, jde) ?fs = Inr l" "z1 l 999 999 =
      (if ids - 1 \<le> int 999 \<and> int 999 < ide \<and> jds - 1 \<le> int 999 \<and> int 999 < jde
       then f32 (f64 (fixed_val 3 (clip_anomalous_values 20 zeros (nat (int 999 - (ids - 1))) (nat (int 999 - (jds - 1))))))
       else 0)"
    using deformation_reaches_the_tsunami_step [OF sorted sorted _ _ w, of ?fs zeros] by auto
  moreover have "clip_anomalous_values 20 zeros i j = 0" for i j by (simp add: clip_anomalous_values_def zeros_def)
  ultimately have "initial_levels (ids, ide, jds, jde) ?fs = Inr l \<and> z1 l 999 999 = 0"
    by (simp add: fixed_val_def array_type.zero)
  then show ?thesis using w by blast
qed

subsection \<open>meca.dat\<close>

definition meca_value_fits :: "real \<Rightarrow> bool" where
  "meca_value_fits v \<longleftrightarrow> - 99.99 \<le> v \<and> v \<le> 999.99"

lemma meca_value_word: "meca_value_fits v \<Longrightarrow> table_word 7 (fixed_body 2 v)"
  unfolding meca_value_fits_def
  by (cases "v < 0") (rule fixed_word [where m = 9999 and k = 2] fixed_word [where m = 99999 and k = 3]; simp)+

lemma meca_words:
  assumes "\<forall>v \<in> set vs. meca_value_fits v" and "\<forall>c \<in> set time. c \<noteq> CHR 0x0A \<and> c \<noteq> CHR 0x0D"
  shows "split_ws (takeWhile (\<lambda>c. c \<noteq> CHR 0x0A \<and> c \<noteq> CHR 0x0D) (meca_text vs time)) =
    map (fixed_body 2) vs @ [''0'', ''0''] @ split_ws time"
proof -
  let ?row = "map (\<lambda>v. (7 :: nat, fixed_body 2 v)) vs"
  have row: "concat (map (fixed 7 2) vs) = table_row ?row" by (simp add: table_row_def fixed_def [abs_def] o_def)
  have words: "\<forall>(width, w) \<in> set ?row. table_word width w" using assms(1) meca_value_word by auto
  define X where "X = table_row ?row @ '' 0 0 '' @ time"
  have "c \<noteq> CHR 0x0A \<and> c \<noteq> CHR 0x0D" if "c \<in> set (X)" for c
  proof -
    from that [unfolded X_def] consider "c \<in> set (table_row ?row)" | "c = CHR '' ''" | "c = CHR ''0''" | "c \<in> set time" by auto
    then show ?thesis
    proof cases
      case 1
      then have "\<not> is_line_end c" using table_row_chars [OF words] by blast
      moreover have "is_line_end CHR 0x0A" "is_line_end CHR 0x0D" by (simp_all add: is_line_end_def)
      ultimately show ?thesis by metis
    qed (use assms(2) in auto)
  qed
  then have "takeWhile (\<lambda>c. c \<noteq> CHR 0x0A \<and> c \<noteq> CHR 0x0D) (X @ [CHR 0x0A]) = X" by (subst takeWhile_append2) auto
  then have "takeWhile (\<lambda>c. c \<noteq> CHR 0x0A \<and> c \<noteq> CHR 0x0D) (meca_text vs time) = X"
    unfolding meca_text_def row X_def by simp
  moreover have "split_ws ('' 0 0 '' @ time) = [''0'', ''0''] @ split_ws time" by (simp add: is_space_def)
  ultimately show ?thesis using split_ws_table_row [OF words, of "'' 0 0 '' @ time"] by (simp add: o_def X_def)
qed

lemma zero_text: "py_float ''0'' = Some 0"
  by (simp add: py_float_def numeral_val_def strip_by_def is_space_def signed_def group_val_def digit_val_def
      group_places_def array_type.zero Let_def)

text \<open>The fault-plane record meca.dat reads back, with its seven numbers to two decimals, as long as each
  lies between -99.99 and 999.99 and the time has no blank in it.\<close>

theorem meca_record_reads_back:
  assumes "length vs = 7" and "\<forall>v \<in> set vs. meca_value_fits v"
    and "time \<noteq> []" and "\<forall>c \<in> set time. \<not> is_space c"
  shows "read_meca_spec (meca_text vs time) =
    Inr (map (\<lambda>v. f64 (fixed_val 2 v)) vs @ [0, 0], if take 1 time = ''s'' then time else ''s'' @ time)"
proof -
  have "\<not> is_space c \<Longrightarrow> c \<noteq> CHR 0x0A \<and> c \<noteq> CHR 0x0D" for c by (auto simp: is_space_def)
  then have "\<forall>c \<in> set time. c \<noteq> CHR 0x0A \<and> c \<noteq> CHR 0x0D" using assms(4) by blast
  moreover have "split_ws time = [time]" using split_ws_word [OF assms(3,4), of "[]"] by simp
  ultimately have ws: "split_ws (takeWhile (\<lambda>c. c \<noteq> CHR 0x0A \<and> c \<noteq> CHR 0x0D) (meca_text vs time)) =
      map (fixed_body 2) vs @ [''0'', ''0'', time]"
    using meca_words [OF assms(2)] by simp
  have "map py_float (map (fixed_body 2) vs @ [''0'', ''0'']) = map Some (map (\<lambda>v. f64 (fixed_val 2 v)) vs @ [0, 0])"
    by (simp add: py_float_def numeral_val_fixed zero_text [unfolded py_float_def])
  moreover have "all_some (map Some xs) = Some xs" for xs :: "real list" using all_some_map [of xs Some id] by simp
  ultimately have "all_some (map py_float (map (fixed_body 2) vs @ [''0'', ''0''])) =
      Some (map (\<lambda>v. f64 (fixed_val 2 v)) vs @ [0, 0])"
    by metis
  then show ?thesis using assms(1) unfolding read_meca_spec_def ws Let_def by (simp add: nth_append)
qed

lemma meca_record_reads_back_witness:
  "\<exists>vs. read_meca_spec (meca_text [281, - 12, 30, 350, 18, 90, 8] ''1230'') = Inr (vs, ''s1230'')"
proof -
  have "\<forall>v \<in> set [281, - 12, 30, 350, 18, 90, 8]. meca_value_fits v" by (simp add: meca_value_fits_def)
  moreover have "\<forall>c \<in> set ''1230''. \<not> is_space c" by (simp add: is_space_def)
  ultimately show ?thesis using meca_record_reads_back [of "[281, - 12, 30, 350, 18, 90, 8]" "''1230''"] by simp
qed

text \<open>A time with a blank in it is accepted: the request keeps \<open>12 30\<close>, both halves are numbers for the
  travel-time formula, and hypo.dat carries it; but the meca.dat written from it has eleven
  values, which the travel-time step rejects.\<close>

theorem blank_in_time_breaks_meca:
  "validate_time ''12 30'' = ''12 30'' \<and> numeral_val (take 2 ''12 30'') \<noteq> None \<and> numeral_val (drop 2 ''12 30'') \<noteq> None \<and>
   strip_by is_space ''12 30'' = ''12 30'' \<and>
   read_meca_spec (meca_text [281, - 12, 30, 350, 18, 90, 8] ''12 30'') =
     Inl (ValueError ''Meca file does not contain exactly 10 values.'')"
proof (intro conjI)
  have "\<forall>v \<in> set [281, - 12, 30, 350, 18, 90, 8]. meca_value_fits v" by (simp add: meca_value_fits_def)
  then have "length (split_ws (takeWhile (\<lambda>c. c \<noteq> CHR 0x0A \<and> c \<noteq> CHR 0x0D)
      (meca_text [281, - 12, 30, 350, 18, 90, 8] ''12 30''))) = 11"
    by (subst meca_words) (simp_all add: is_space_def)
  then show "read_meca_spec (meca_text [281, - 12, 30, 350, 18, 90, 8] ''12 30'') =
     Inl (ValueError ''Meca file does not contain exactly 10 values.'')"
    by (simp add: read_meca_spec_def Let_def)
  show "numeral_val (take 2 ''12 30'') \<noteq> None" "numeral_val (drop 2 ''12 30'') \<noteq> None"
    by (simp_all add: numeral_val_def strip_by_def is_space_def signed_def group_val_def digit_val_def Let_def)
qed (simp_all add: validate_time_def strip_by_def is_space_def)

end
