(* ===== verification/TttStepLaws.thy ===== *)
theory TttStepLaws
  imports TttStep FaultPlaneLaws RoundingError
begin

text \<open>
  Laws of the travel-time steps: the argument the client is called with is the epicenter of meca.dat, a map
  that fails leaves no file behind, and the command line writes a grid exactly when it succeeds.
\<close>

subsection \<open>The epicenter\<close>

lemma digits_no_slash: "all_digits s \<Longrightarrow> CHR ''/'' \<notin> set s"
proof
  assume "all_digits s" and "CHR ''/'' \<in> set s"
  then obtain d where d: "d < 10" "CHR ''/'' = digit_char d" by (auto simp: all_digits_def)
  have "digit_val CHR ''/'' = None" by (simp add: digit_val_def)
  then show False using digit_char_facts(1) [OF d(1)] d(2) by simp
qed

lemma fixed_no_slash: "CHR ''/'' \<notin> set (fixed w d x)"
  using digits_no_slash [OF decimal_digits(1)] digits_no_slash [OF dec_places_digits(1)]
  by (auto simp: fixed_def pad_left_def fixed_body_def Let_def)

lemma numeral_val_padded: "0 < d \<Longrightarrow> numeral_val (fixed w d x) = Some (fixed_val d x)"
proof -
  assume d: "0 < d"
  have blank: "is_space CHR '' ''" by (simp add: is_space_def)
  have "strip_by is_space (fixed w d x) = strip_by is_space (fixed_body d x)"
    unfolding fixed_def pad_left_def strip_by_def using blank by (subst dropWhile_append2) simp_all
  then show ?thesis using numeral_val_fixed [OF d, of x] unfolding numeral_val_def by simp
qed

text \<open>
  The epicenter the step formats for the client, whatever the widths it chooses, is the one the
  command line of tsdhn_ttt parses: longitude and latitude to two decimals.
\<close>

lemma epicenter_argument:
  "parse_epicenter (format_ttt_epicenter lon lat) = Inr (f64 (fixed_val 2 lon), f64 (fixed_val 2 lat))"
proof -
  define w :: nat where "w = (if lat \<le> - 10 then 6 else if lat < 0 then 5 else if lat < 10 then 4 else 5)"
  have arg: "format_ttt_epicenter lon lat = fixed 6 2 lon @ CHR ''/'' # fixed w 2 lat"
    by (simp add: format_ttt_epicenter_def w_def)
  have "takeWhile (\<lambda>c. c \<noteq> CHR ''/'') (fixed 6 2 lon @ CHR ''/'' # fixed w 2 lat) = fixed 6 2 lon"
    using fixed_no_slash [of 6 2 lon] by (subst takeWhile_append2) auto
  then show ?thesis by (simp add: arg parse_epicenter_def Let_def py_float_def numeral_val_padded)
qed

text \<open>Printing a printed number again changes nothing.\<close>

lemma fixed_val_again:
  assumes "\<bar>x\<bar> \<le> 1000"
  shows "fixed_val 2 (f64 (fixed_val 2 x)) = fixed_val 2 x"
proof -
  define n where "n = rint (x * 100)"
  have v: "fixed_val 2 x = of_int n / 100" by (simp add: fixed_val_def n_def)
  have "rint (x * 100) \<le> rint (of_int 100000)" "rint (of_int (- 100000)) \<le> rint (x * 100)"
    using assms by (intro rint_mono; simp)+
  then have n: "\<bar>n\<bar> \<le> 100000" unfolding n_def rint_of_int by linarith
  then have "\<bar>real_of_int n\<bar> \<le> 100000" by linarith
  then have "\<bar>of_int n / 100 :: real\<bar> / 2 ^ 53 < 1 / 1000" by (simp add: abs_divide)
  then have "\<bar>f64 (of_int n / 100) - of_int n / 100\<bar> < 1 / 1000"
    using fl_near [of 53 "of_int n / 100"] by (simp add: cast_def)
  then have near: "\<bar>f64 (of_int n / 100) * 100 - of_int n\<bar> < 1 / 2" by (simp add: abs_if split: if_splits)
  have "rint (f64 (of_int n / 100) * 100) = n"
    using near rint_near [of "f64 (of_int n / 100) * 100"] by linarith
  then show ?thesis by (simp add: v) (simp add: fixed_val_def)
qed



subsection \<open>The map\<close>

text \<open>A map that fails, at whatever call, leaves no ttt.pdf, also none from before, and one that succeeds
  leaves one; nothing else changes but the palette, which stays.\<close>

theorem failed_map_leaves_no_pdf:
  assumes "generate_ttt_map env fs = (r, fs')"
  shows "(fs' TTT_PDF = None \<longleftrightarrow> r \<noteq> Inr ()) \<and> (\<forall>p. p \<noteq> TTT_PDF \<and> p \<noteq> COLOR_CPT \<longrightarrow> fs' p = fs p)"
proof -
  obtain q fs1 where body: "ttt_map_body env fs = (q, fs1)" by fastforce
  have "\<forall>p. p \<noteq> TTT_PDF \<and> p \<noteq> COLOR_CPT \<longrightarrow> fs1 p = fs p"
    using body by (auto simp: ttt_map_body_def Let_def split: if_splits sum.splits option.splits prod.splits)
  moreover have "q = Inr () \<longrightarrow> fs1 TTT_PDF \<noteq> None"
    using body by (auto simp: ttt_map_body_def Let_def split: if_splits sum.splits option.splits prod.splits)
  ultimately show ?thesis using assms body by (cases q) (auto simp: generate_ttt_map_def)
qed

subsection \<open>The command line\<close>

text \<open>The grid is written exactly when the status is zero; an epicenter that is refused, on land or outside
  the grid, ends with status 1 and nothing written.\<close>

theorem grid_is_written_on_success_only:
  assumes "ttt_main cc epicenter grid = Some (st, out)"
  shows "(out \<noteq> None \<longleftrightarrow> st = Inr 0) \<and> (st = Inr 1 \<longrightarrow> (\<exists>b msg. bind_ok grid read_bathymetry = Inr b \<and>
    TravelTimes.travel_times b (fst epicenter) (snd epicenter) cc = Some (Inl (ValueError msg)))) \<and> st \<in> {Inr 0, Inr 1} \<union> range Inl"
  using assms by (auto simp: ttt_main_def split: prod.splits sum.splits option.splits exn.splits)

end
