(* ===== verification/Calculator.thy ===== *)
theory Calculator
  imports FaultPlaneLaws "HOL-Library.AList"
begin

text \<open>
  The answers of the calculator (tsdhn/calculator.py, tsdhn/utils/geo.py): the place and warning of
  an epicentre, the approximate arrival times at the ports and their texts. The interpolation of
  the bathymetry (scipy) is an argument, latitude first; the current month's name is an argument.
  Real arithmetic is exact; \<open>None\<close> stands for an infinite integral or a NaN time, as each definition says.
\<close>

subsection \<open>The epicentre\<close>

definition STANDARD_GRAVITY_M_PER_S2 :: real where "STANDARD_GRAVITY_M_PER_S2 = 9.80665"
definition TSUNAMI_MODEL_EARTH_RADIUS_KM :: real where "TSUNAMI_MODEL_EARTH_RADIUS_KM = 6370.8"
definition MEAN_EARTH_KILOMETERS_PER_DEGREE :: real where "MEAN_EARTH_KILOMETERS_PER_DEGREE = 6371 * pi / 180"

definition calculate_distance_to_coast :: "(real \<times> real) list \<Rightarrow> real \<Rightarrow> real \<Rightarrow> exn + real" where
  "calculate_distance_to_coast coast xe ye =
     (if coast = [] then Inl (ValueError ''zero-size array'')
      else Inr (Min (set (map (\<lambda>(lon, lat). hypot (lon - xe) (lat - ye)) coast)) * MEAN_EARTH_KILOMETERS_PER_DEGREE))"

text \<open>The messages; the first holds an accented letter, in UTF-8.\<close>

definition LAND_NEAR_COAST_WARNING :: string where
  "LAND_NEAR_COAST_WARNING = ''El epicentro esta en Tierra, pero podr'' @ [CHR 0xC3, CHR 0xAD] @ ''a generar Tsunami''"
definition LAND_NO_TSUNAMI_WARNING :: string where
  "LAND_NO_TSUNAMI_WARNING = ''El epicentro esta en Tierra. NO genera Tsunami''"
definition SEA_NO_TSUNAMI_WARNING :: string where
  "SEA_NO_TSUNAMI_WARNING = ''El epicentro esta en el Mar y NO genera Tsunami''"
definition NO_TSUNAMI_WARNING :: string where
  "NO_TSUNAMI_WARNING = ''NO genera Tsunami''"

definition SEA_TSUNAMI_TIERS :: "(real \<times> string) list" where
  "SEA_TSUNAMI_TIERS =
     [(8.8, ''Genera un Tsunami grande y destructivo''),
      (8.3995, ''Genera un Tsunami potencialmente destructivo''),
      (7.9, ''Genera un Tsunami pequeno''),
      (7.0, ''Probable Tsunami pequeno y local'')]"

fun first_tier :: "real \<Rightarrow> (real \<times> string) list \<Rightarrow> string option" where
  "first_tier m [] = None"
| "first_tier m ((threshold, message) # tiers) = (if threshold \<le> m then Some message else first_tier m tiers)"

definition determine_tsunami_warning :: "real \<Rightarrow> real \<Rightarrow> real \<Rightarrow> real \<Rightarrow> string" where
  "determine_tsunami_warning m h h0 dist_min =
     (if 0 < h0 then (if dist_min < 50 then LAND_NEAR_COAST_WARNING else LAND_NO_TSUNAMI_WARNING)
      else if 60 < h \<or> m < 7 then SEA_NO_TSUNAMI_WARNING
      else case first_tier m SEA_TSUNAMI_TIERS of Some message \<Rightarrow> message | None \<Rightarrow> NO_TSUNAMI_WARNING)"

definition determine_epicenter_location :: "real \<Rightarrow> real \<Rightarrow> string" where
  "determine_epicenter_location h0 dist_min =
     (if 0 < h0 then (if 50 < dist_min then ''tierra'' else ''tierra cerca de costa'') else ''mar'')"

subsection \<open>Source parameters\<close>

text \<open>What the constructor loads. \<open>mechanisms\<close>, \<open>coast\<close> and \<open>bathymetry\<close> read files of the model.\<close>

record calculator =
  mechanisms :: "real list list"
  coast :: "(real \<times> real) list"
  bathymetry_at :: "real \<Rightarrow> real \<Rightarrow> real"
  ports :: "(string \<times> real \<times> real) list"

text \<open>
  \<open>_load_geographic_data\<close> turns the axes of the grid into those of the interpolator: longitudes
  less a turn, latitudes ascending with their rows.
\<close>

definition interpolator_axes :: "real list \<Rightarrow> real list \<Rightarrow> real list list \<Rightarrow> real list \<times> real list \<times> real list list" where
  "interpolator_axes xa ya a =
     (let vlon = map (\<lambda>x. x - 360) xa in
      if ya \<noteq> [] \<and> last ya < hd ya then (rev ya, vlon, rev a) else (ya, vlon, a))"

record calculation =
  rupture_length :: real
  rupture_width :: real
  dislocation :: real
  seismic_moment :: real
  tsunami_warning :: string
  distance_to_coast :: real
  source_azimuth :: real
  source_dip :: real
  epicenter_location :: string
  source_rectangle :: rectangle
  source_corners :: "(real \<times> real) list"

definition calculation_error :: exn where "calculation_error = RuntimeError ''Earthquake calculation error''"
definition travel_error :: exn where "travel_error = RuntimeError ''Tsunami travel time error''"

text \<open>
  \<open>calculate_earthquake_parameters\<close>: the answer, and hypo.dat in the workspace unless writing it
  fails (\<open>disk\<close>). Every exception becomes the same \<open>RuntimeError\<close>.
\<close>

definition calculate_earthquake_parameters ::
  "calculator \<Rightarrow> exn option \<Rightarrow> earthquake_input \<Rightarrow> workspace \<Rightarrow> (exn + calculation) \<times> workspace" where
  "calculate_earthquake_parameters calc disk eq fs =
     (let (L, W) = rupture_dimensions (Mw eq); (M0, D) = average_slip (Mw eq) L W in
      case bind_ok (nearest_focal_mechanism (mechanisms calc) (lon0 eq) (lat0 eq)) (\<lambda>(azimuth, dip).
             bind_ok (calculate_distance_to_coast (coast calc) (lon0 eq) (lat0 eq)) (\<lambda>km. Inr (azimuth, dip, km))) of
        Inl _ \<Rightarrow> (Inl calculation_error, fs)
      | Inr (azimuth, dip, km) \<Rightarrow>
          if disk \<noteq> None then (Inl calculation_error, fs)
          else let r = rectangle_parameters L W (lon0 eq) (lat0 eq) azimuth dip; h0 = bathymetry_at calc (lat0 eq) (lon0 eq) in
            (Inr \<lparr> rupture_length = L, rupture_width = W, dislocation = D, seismic_moment = M0,
                   tsunami_warning = determine_tsunami_warning (Mw eq) (depth_h eq) h0 km, distance_to_coast = km,
                   source_azimuth = azimuth, source_dip = dip, epicenter_location = determine_epicenter_location h0 km,
                   source_rectangle = r, source_corners = rectangle_corners r azimuth \<rparr>,
             fs(HYPO_DAT \<mapsto> Text (hypo_text (hhmm eq) (lon0 eq) (lat0 eq) (depth_h eq) (Mw eq)))))"

subsection \<open>Travel times\<close>

definition central_angle :: "real \<Rightarrow> real \<Rightarrow> real \<Rightarrow> real \<Rightarrow> real" where
  "central_angle xe ye lon lat =
     (let t1 = pi / 2 - radians ye; f1 = radians xe; t2 = pi / 2 - radians lat; f2 = radians lon
      in arccos (max (-1) (min 1 (sin t1 * sin t2 * cos (f1 - f2) + cos t1 * cos t2))))"

text \<open>\<open>y[0] + y[-1] + 4 * y[1:-1:2].sum() + 2 * y[2:-1:2].sum()\<close> over \<open>n_points = 100\<close> intervals.\<close>

definition simpson_sum :: "(nat \<Rightarrow> real) \<Rightarrow> real" where
  "simpson_sum y =
     y 0 + y 100 + 4 * sum_list (map (\<lambda>k. y (2 * k + 1)) [0..<50]) + 2 * sum_list (map (\<lambda>k. y (2 * k + 2)) [0..<49])"

definition wave_speed :: "real \<Rightarrow> real" where
  "wave_speed h = sqrt (STANDARD_GRAVITY_M_PER_S2 * h) * 3.6"

text \<open>The depths along the path; the interpolator takes latitude first.\<close>

definition path_depth :: "(real \<Rightarrow> real \<Rightarrow> real) \<Rightarrow> real \<Rightarrow> real \<Rightarrow> real \<Rightarrow> real \<Rightarrow> real \<Rightarrow> nat \<Rightarrow> real" where
  "path_depth bathy xe ye port_lon port_lat alpha i =
     (let d = TSUNAMI_MODEL_EARTH_RADIUS_KM * alpha; delta = degrees alpha / 100
      in \<bar>bathy (ye + real i * delta * ((port_lat - ye) / d * 110)) (xe + real i * delta * ((port_lon - xe) / d * 110))\<bar>)"

text \<open>Half the integral of the slowness; a depth of zero on the path makes it infinite, \<open>None\<close>.\<close>

definition near_field_time :: "(nat \<Rightarrow> real) \<Rightarrow> real \<Rightarrow> real option" where
  "near_field_time depth alpha =
     (if \<exists>i \<in> set [0..<101]. depth i = 0 then None
      else Some (0.5 * (alpha / 100 * TSUNAMI_MODEL_EARTH_RADIUS_KM / 3 * simpson_sum (\<lambda>i. 1 / wave_speed (depth i)))))"

text \<open>\<open>None\<close>: the epicentre is the port, and the direction of the path is NaN.\<close>

definition calculate_travel_time ::
  "(real \<Rightarrow> real \<Rightarrow> real) \<Rightarrow> real \<Rightarrow> real \<Rightarrow> real \<Rightarrow> real \<Rightarrow> real \<Rightarrow> real \<times> real option" where
  "calculate_travel_time bathy xe ye port_lon port_lat time0 =
     (let alpha = central_angle xe ye port_lon port_lat; distance = TSUNAMI_MODEL_EARTH_RADIUS_KM * alpha;
          hours = (if 750 \<le> distance then Some (distance / 790 + 0.2)
                   else if \<not> (-19 \<le> ye \<and> ye \<le> 0) then Some (distance / 700)
                   else if distance = 0 then None
                   else case near_field_time (path_depth bathy xe ye port_lon port_lat alpha) alpha of
                     None \<Rightarrow> Some (distance / 733 + 0.25)
                   | Some t \<Rightarrow> Some (if 3 < t then distance / 733 + 0.25
                                  else if 1.4 < t \<and> t < 3 then distance / 690 + 0.2 else t))
      in (distance, map_option (\<lambda>t. t + time0) hours))"

definition pad2 :: "int \<Rightarrow> string" where
  "pad2 n = (let s = int_text n in if length s < 2 then CHR ''0'' # s else s)"

text \<open>\<open>None\<close>: \<open>int(day)\<close> raises \<open>ValueError\<close>.\<close>

definition format_arrival_time :: "string \<Rightarrow> real \<Rightarrow> string \<Rightarrow> string option" where
  "format_arrival_time month time day =
     (let hour = trunc time; minute = trunc ((time - of_int hour) * 60); day_increment = (24 \<le> hour);
          hour = (if day_increment then hour - 24 else hour)
      in map_option (\<lambda>d. pad2 hour @ '':'' @ pad2 minute @ '' '' @ pad2 (d + (if day_increment then 1 else 0)) @ month) (py_int day))"

record travel_response =
  arrival_times :: "(string \<times> string) list"
  distances :: "(string \<times> real) list"
  epicenter_info :: "(string \<times> string) list"

text \<open>A port whose time is NaN, or for which the day is not a number, is passed over (\<open>ValueError\<close>).\<close>

fun port_times ::
  "(real \<Rightarrow> real \<Rightarrow> real) \<Rightarrow> string \<Rightarrow> earthquake_input \<Rightarrow> real \<Rightarrow> string \<Rightarrow> (string \<times> real \<times> real) list
   \<Rightarrow> (string \<times> string) list \<times> (string \<times> real) list \<Rightarrow> (string \<times> string) list \<times> (string \<times> real) list" where
  "port_times bathy month eq time0 day [] (ts, ds) = (ts, ds)"
| "port_times bathy month eq time0 day ((name, lon, lat) # ps) (ts, ds) =
     (case calculate_travel_time bathy (lon0 eq) (lat0 eq) lon lat time0 of
        (distance, None) \<Rightarrow> port_times bathy month eq time0 day ps (ts, ds)
      | (distance, Some t) \<Rightarrow>
          (case format_arrival_time month t day of
             None \<Rightarrow> port_times bathy month eq time0 day ps (ts, ds)
           | Some text \<Rightarrow> port_times bathy month eq time0 day ps (AList.update name text ts, AList.update name distance ds)))"

text \<open>
  \<open>calculate_tsunami_travel_times\<close>. A missing day raises a \<open>TypeError\<close> at the first port that has a
  time, or is refused by the response model; both become the same \<open>RuntimeError\<close>.
\<close>

definition origin_hours :: "string \<Rightarrow> real option" where
  "origin_hours t =
     (case (py_float (take 2 t), py_float (drop 2 t)) of (Some h, Some m) \<Rightarrow> Some (h + m / 60) | _ \<Rightarrow> None)"

definition calculate_tsunami_travel_times :: "calculator \<Rightarrow> string \<Rightarrow> earthquake_input \<Rightarrow> exn + travel_response" where
  "calculate_tsunami_travel_times calc month eq =
     (case (hhmm eq, dia eq) of
        (Some t, Some day) \<Rightarrow>
          (case origin_hours t of
             None \<Rightarrow> Inl travel_error
           | Some time0 \<Rightarrow>
               (case port_times (bathymetry_at calc) month eq time0 day (ports calc) ([], []) of
                  (ts, ds) \<Rightarrow>
                    Inr \<lparr> arrival_times = ts, distances = ds,
                          epicenter_info = [(''date'', day), (''time'', t), (''latitude'', fixed_body 2 (lat0 eq)),
                            (''longitude'', fixed_body 2 (lon0 eq)), (''depth'', fixed_body 0 (depth_h eq)),
                            (''magnitude'', fixed_body 1 (Mw eq))] \<rparr>))
      | _ \<Rightarrow> Inl travel_error)"

end
