(* ===== verification/RunOutputs.thy ===== *)
theory RunOutputs
  imports Calculator Pipeline "HOL-Library.Char_ord" "HOL-Library.List_Lexorder"
begin

text \<open>
  What a finished simulation writes for the client (\<open>write_simulation_outputs\<close> of engine.py): four JSON files
  and the table of arrivals, as Python's \<open>json\<close> and \<open>csv\<close> modules write them. ASCII text; a number of a
  JSON value is a float.
\<close>

subsection \<open>json.dumps(data, ensure_ascii=True, indent=2, sort_keys=True)\<close>

definition hex_lower :: "nat \<Rightarrow> char" where
  "hex_lower d = (if d < 10 then char_of (48 + d) else char_of (87 + d))"

definition json_char :: "char \<Rightarrow> string" where
  "json_char c =
     (let n = (of_char c :: nat) in
      if c = CHR 0x22 then [CHR 0x5C, CHR 0x22]
      else if c = CHR 0x5C then [CHR 0x5C, CHR 0x5C]
      else if n = 8 then CHR 0x5C # ''b'' else if n = 9 then CHR 0x5C # ''t'' else if n = 10 then CHR 0x5C # ''n''
      else if n = 12 then CHR 0x5C # ''f'' else if n = 13 then CHR 0x5C # ''r''
      else if n < 32 \<or> 126 < n then CHR 0x5C # ''u00'' @ [hex_lower (n div 16), hex_lower (n mod 16)]
      else [c])"

definition json_string :: "string \<Rightarrow> string" where
  "json_string s = CHR 0x22 # concat (map json_char s) @ [CHR 0x22]"

fun joined :: "string \<Rightarrow> string list \<Rightarrow> string" where
  "joined sep [] = ''''"
| "joined sep [x] = x"
| "joined sep (x # xs) = x @ sep @ joined sep xs"

definition line_start :: "nat \<Rightarrow> string" where
  "line_start n = CHR 0x0A # replicate (2 * n) CHR '' ''"

definition bracketed :: "nat \<Rightarrow> char \<Rightarrow> char \<Rightarrow> string list \<Rightarrow> string" where
  "bracketed n l r items =
     (if items = [] then [l, r]
      else l # line_start (n + 1) @ joined ('','' @ line_start (n + 1)) items @ line_start n @ [r])"

fun json_dumps :: "nat \<Rightarrow> json \<Rightarrow> string" where
  "json_dumps n JNull = ''null''"
| "json_dumps n (JBool b) = (if b then ''true'' else ''false'')"
| "json_dumps n (JNum x) = py_repr x"
| "json_dumps n (JStr s) = json_string s"
| "json_dumps n (JArr xs) = bracketed n CHR ''['' CHR '']'' (map (json_dumps (n + 1)) xs)"
| "json_dumps n (JObj ms) =
     bracketed n CHR ''{'' CHR ''}''
       (map (\<lambda>(k, t). json_string k @ '': '' @ t)
         (sort_key fst (map (\<lambda>(k, v). (k, json_dumps (n + 1) v)) ms)))"

subsection \<open>csv.writer\<close>

text \<open>A field is quoted when it has a comma, a quote or a line end in it; quotes in it are doubled.\<close>

definition csv_special :: "char \<Rightarrow> bool" where
  "csv_special c \<longleftrightarrow> c = CHR '','' \<or> c = CHR 0x22 \<or> c = CHR 0x0A \<or> c = CHR 0x0D"

definition csv_field :: "string \<Rightarrow> string" where
  "csv_field s =
     (if list_ex csv_special s
      then CHR 0x22 # concat (map (\<lambda>c. if c = CHR 0x22 then [c, c] else [c]) s) @ [CHR 0x22]
      else s)"

definition csv_row :: "string list \<Rightarrow> string" where
  "csv_row fields_of_row = joined '','' (map csv_field fields_of_row) @ [CHR 0x0D, CHR 0x0A]"

definition travel_times_table :: "travel_response \<Rightarrow> string list list" where
  "travel_times_table t =
     [''port'', ''arrival_time'', ''distance_km''] #
     map (\<lambda>(port, arrival). [port, arrival, case map_of (distances t) port of None \<Rightarrow> '''' | Some d \<Rightarrow> py_repr d]) (arrival_times t)"

definition travel_times_csv :: "travel_response \<Rightarrow> string" where
  "travel_times_csv t = concat (map csv_row (travel_times_table t))"

subsection \<open>The files\<close>

text \<open>\<open>torn p\<close> is what a write to \<open>p\<close> that raises leaves in the file.\<close>

fun write_files :: "(fs_path \<Rightarrow> content option) \<Rightarrow> (fs_path \<times> string) list \<Rightarrow> workspace \<Rightarrow> (exn + unit) \<times> workspace" where
  "write_files torn [] fs = (Inr (), fs)"
| "write_files torn ((p, t) # rest) fs =
     (case torn p of
        Some c \<Rightarrow> (Inl OSError, fs(p \<mapsto> c))
      | None \<Rightarrow> write_files torn rest (fs(p \<mapsto> Text t)))"

definition json_file :: "json \<Rightarrow> string" where
  "json_file v = json_dumps 0 v @ [CHR 0x0A]"

definition write_simulation_outputs ::
  "(fs_path \<Rightarrow> content option) \<Rightarrow> json \<Rightarrow> json \<Rightarrow> json \<Rightarrow> travel_response \<Rightarrow> json \<Rightarrow> workspace \<Rightarrow>
   (exn + (string \<times> string \<times> string) list) \<times> workspace" where
  "write_simulation_outputs torn input_json calculation_json times_json travel runtime_json fs =
     (case write_files torn
        [([''input.json''], json_file input_json), ([''calculation.json''], json_file calculation_json),
         ([''travel_times.json''], json_file times_json), ([''travel_times.csv''], travel_times_csv travel),
         ([''runtime.json''], json_file runtime_json)] fs of
        (Inl e, fs') \<Rightarrow> (Inl e, fs')
      | (Inr _, fs') \<Rightarrow> (Inr (output_list fs'), fs'))"

subsection \<open>The table reads back\<close>

text \<open>The states of a reader of such tables, \<open>csv.reader\<close>: at the start of a field, in a plain one, inside
  quotes, after a quote inside quotes.\<close>

datatype csv_state = AtStart | Plain | Quoted | AfterQuote

fun csv_read :: "csv_state \<Rightarrow> string \<Rightarrow> string list \<Rightarrow> string \<Rightarrow> string list list" where
  "csv_read st f row [] = (if st = AtStart \<and> row = [] then [] else [row @ [f]])"
| "csv_read st f row (c # cs) =
     (if st = Quoted then
        (if c = CHR 0x22 then csv_read AfterQuote f row cs else csv_read Quoted (f @ [c]) row cs)
      else if c = CHR 0x22 \<and> st = AtStart then csv_read Quoted f row cs
      else if c = CHR 0x22 \<and> st = AfterQuote then csv_read Quoted (f @ [c]) row cs
      else if c = CHR '','' then csv_read AtStart [] (row @ [f]) cs
      else if c = CHR 0x0D \<and> take 1 cs = [CHR 0x0A] then (row @ [f]) # csv_read AtStart [] [] (drop 1 cs)
      else if c = CHR 0x0D \<or> c = CHR 0x0A then (row @ [f]) # csv_read AtStart [] [] cs
      else csv_read Plain (f @ [c]) row cs)"

lemma read_quoted:
  "csv_read Quoted f row (concat (map (\<lambda>c. if c = CHR 0x22 then [c, c] else [c]) s) @ CHR 0x22 # rest) =
     csv_read AfterQuote (f @ s) row rest"
  by (induction s arbitrary: f) simp_all

lemma read_plain:
  "\<not> list_ex csv_special s \<Longrightarrow> st = AtStart \<or> st = Plain \<Longrightarrow>
     csv_read st f row (s @ rest) = csv_read (if s = [] then st else Plain) (f @ s) row rest"
proof (induction s arbitrary: f st)
  case (Cons c s)
  then have "csv_read st f row ((c # s) @ rest) = csv_read Plain (f @ [c]) row (s @ rest)"
    by (auto simp: csv_special_def)
  then show ?case using Cons.IH [of Plain "f @ [c]"] Cons.prems by simp
qed simp

lemma read_field:
  assumes "c = CHR '','' \<or> c = CHR 0x0D"
  shows "csv_read AtStart [] row (csv_field s @ c # rest) = csv_read Plain s row (c # rest)"
proof (cases "list_ex csv_special s")
  case True
  then show ?thesis using read_quoted [of "[]" row s "c # rest"] assms by (auto simp: csv_field_def)
next
  case False
  then show ?thesis using read_plain [OF False, of AtStart "[]" row "c # rest"] assms by (auto simp: csv_field_def)
qed

lemma read_row:
  assumes "fs \<noteq> []"
  shows "csv_read AtStart [] row (csv_row fs @ rest) = (row @ fs) # csv_read AtStart [] [] rest"
  using assms
proof (induction fs arbitrary: row rule: list_nonempty_induct)
  case (single s)
  then show ?case using read_field [of "CHR 0x0D" row s "CHR 0x0A # rest"] by (simp add: csv_row_def)
next
  case (cons s fs)
  obtain g gs where fs: "fs = g # gs" using cons.hyps by (cases fs) auto
  have "csv_row (s # fs) @ rest = csv_field s @ CHR '','' # (csv_row fs @ rest)" by (simp add: csv_row_def fs)
  then show ?case using read_field [of "CHR '',''" row s "csv_row fs @ rest"] cons.IH [of "row @ [s]"] by simp
qed

lemma read_table: "\<forall>r \<in> set t. r \<noteq> [] \<Longrightarrow> csv_read AtStart [] [] (concat (map csv_row t)) = t"
proof (induction t)
  case (Cons r t)
  then show ?case using read_row [of r "[]" "concat (map csv_row t)"] by simp
qed simp

text \<open>A list of writes that returns has written every file, whole.\<close>

lemma write_files_done:
  assumes "write_files torn ws fs = (Inr (), fs')" and "distinct (map fst ws)"
  shows "(\<forall>(p, t) \<in> set ws. fs' p = Some (Text t)) \<and> (\<forall>p. p \<notin> fst ` set ws \<longrightarrow> fs' p = fs p)"
  using assms
proof (induction ws arbitrary: fs)
  case (Cons w ws)
  obtain p t where w: "w = (p, t)" by (cases w)
  have run: "write_files torn ws (fs(p \<mapsto> Text t)) = (Inr (), fs')" using Cons.prems(1) by (auto simp: w split: option.splits)
  have "p \<notin> fst ` set ws" using Cons.prems(2) by (auto simp: w)
  with Cons.IH [OF run] Cons.prems(2) show ?case by (auto simp: w)
qed simp

text \<open>C39: A simulation that ends lists only files that are in its workspace, the five it always writes among
  them; and the table of arrivals reads back as the ports with their times and distances, whatever commas,
  quotes or line ends are in their names.\<close>

theorem listed_outputs_exist:
  assumes "write_simulation_outputs torn input_json calculation_json times_json travel runtime_json fs = (Inr outs, fs')"
  shows "(\<forall>(name, f, kind) \<in> set outs. fs' [f] \<noteq> None) \<and>
    {''input'', ''calculation'', ''travel_times_json'', ''travel_times_csv'', ''runtime''} \<subseteq> fst ` set outs \<and>
    (\<exists>t. fs' [''travel_times.csv''] = Some (Text t) \<and> csv_read AtStart [] [] t = travel_times_table travel)"
proof -
  let ?ws = "[([''input.json''], json_file input_json), ([''calculation.json''], json_file calculation_json),
     ([''travel_times.json''], json_file times_json), ([''travel_times.csv''], travel_times_csv travel),
     ([''runtime.json''], json_file runtime_json)]"
  have run: "write_files torn ?ws fs = (Inr (), fs')" and outs: "outs = output_list fs'"
    using assms by (auto simp: write_simulation_outputs_def split: prod.splits sum.splits)
  have files: "\<forall>(p, t) \<in> set ?ws. fs' p = Some (Text t)" using write_files_done [OF run] by simp
  then have "\<forall>(name, f, kind) \<in> set outs. fs' [f] \<noteq> None" by (auto simp: outs output_list_def)
  moreover have "{''input'', ''calculation'', ''travel_times_json'', ''travel_times_csv'', ''runtime''} \<subseteq> fst ` set outs"
    by (simp add: outs output_list_def)
  moreover have "csv_read AtStart [] [] (travel_times_csv travel) = travel_times_table travel"
    unfolding travel_times_csv_def by (rule read_table) (auto simp: travel_times_table_def)
  ultimately show ?thesis using files by simp
qed

definition sample_travel :: travel_response where
  "sample_travel = \<lparr> arrival_times = [(''Callao, \"La Punta\"'', ''01:30 24Ene''), (''Ilo'', ''00:50 24Ene'')], distances = [], epicenter_info = [] \<rparr>"

lemma listed_outputs_exist_witness:
  "\<exists>outs fs'. write_simulation_outputs (\<lambda>_. None) JNull JNull JNull sample_travel JNull (\<lambda>_. None) = (Inr outs, fs') \<and>
     (\<exists>t. fs' [''travel_times.csv''] = Some (Text t) \<and> csv_read AtStart [] [] t =
       [[''port'', ''arrival_time'', ''distance_km''], [''Callao, \"La Punta\"'', ''01:30 24Ene'', ''''], [''Ilo'', ''00:50 24Ene'', '''']])"
proof -
  obtain outs fs' where run: "write_simulation_outputs (\<lambda>_. None) JNull JNull JNull sample_travel JNull (\<lambda>_. None) = (Inr outs, fs')"
    by (simp add: write_simulation_outputs_def)
  then show ?thesis using listed_outputs_exist [OF run] by (auto simp: travel_times_table_def sample_travel_def)
qed

end
