(* ===== verification/Okada.thy ===== *)
theory Okada
  imports FaultPlane
begin

text \<open>
  The vertical displacement of a rectangular fault (deform.py), in float32: every arithmetic operation
  rounds, and the masked divisions of the source are written out on the numbers of the format, its two
  infinities and NaN. The arrays are computed cell by cell. The elementary functions are arguments. A
  zero has no sign here: the denominators that can be zero are sums, whose zero is positive.
\<close>

subsection \<open>float32 with its infinities\<close>

datatype fval = Num real | PosInf | NegInf | Nan

fun fsign :: "fval \<Rightarrow> real" where
  "fsign (Num x) = sgn x"
| "fsign PosInf = 1"
| "fsign NegInf = - 1"
| "fsign Nan = 0"

definition infinity_of :: "real \<Rightarrow> fval" where
  "infinity_of s = (if 0 < s then PosInf else if s < 0 then NegInf else Nan)"

instantiation fval :: "{plus, minus, uminus, times, inverse}"
begin

fun uminus_fval :: "fval \<Rightarrow> fval" where
  "- Num x = Num (- x)"
| "- PosInf = NegInf"
| "- NegInf = PosInf"
| "- Nan = Nan"

fun plus_fval :: "fval \<Rightarrow> fval \<Rightarrow> fval" where
  "Num x + Num y = Num (f32 (x + y))"
| "Nan + b = Nan"
| "a + Nan = Nan"
| "PosInf + NegInf = Nan"
| "NegInf + PosInf = Nan"
| "PosInf + b = PosInf"
| "NegInf + b = NegInf"
| "a + PosInf = PosInf"
| "a + NegInf = NegInf"

definition minus_fval :: "fval \<Rightarrow> fval \<Rightarrow> fval" where
  "a - b = a + - (b :: fval)"

fun times_fval :: "fval \<Rightarrow> fval \<Rightarrow> fval" where
  "Num x * Num y = Num (f32 (x * y))"
| "a * b = infinity_of (fsign a * fsign b)"

fun divide_fval :: "fval \<Rightarrow> fval \<Rightarrow> fval" where
  "divide (Num x) (Num y) = (if y = 0 then infinity_of x else Num (f32 (x / y)))"
| "divide (Num x) Nan = Nan"
| "divide (Num x) b = Num 0"
| "divide a (Num y) = infinity_of (fsign a * (if y < 0 then - 1 else 1))"
| "divide a b = Nan"

definition inverse_fval :: "fval \<Rightarrow> fval" where
  "inverse a = divide (Num 1) (a :: fval)"

instance ..

end

fun fsqrt :: "fval \<Rightarrow> fval" where
  "fsqrt (Num x) = (if x < 0 then Nan else Num (f32 (sqrt x)))"
| "fsqrt PosInf = PosInf"
| "fsqrt a = Nan"

text \<open>numpy's elementary functions on numbers, and the limit of the arctangent.\<close>

record float_libm =
  l_sin :: "real \<Rightarrow> real"
  l_cos :: "real \<Rightarrow> real"
  l_tan :: "real \<Rightarrow> real"
  l_log :: "real \<Rightarrow> real"
  l_atan :: "real \<Rightarrow> real"
  l_asin :: "real \<Rightarrow> real"
  l_atan_inf :: real

fun flog :: "float_libm \<Rightarrow> fval \<Rightarrow> fval" where
  "flog lm (Num x) = (if x < 0 then Nan else if x = 0 then NegInf else Num (l_log lm x))"
| "flog lm PosInf = PosInf"
| "flog lm a = Nan"

fun fatan :: "float_libm \<Rightarrow> fval \<Rightarrow> fval" where
  "fatan lm (Num x) = Num (l_atan lm x)"
| "fatan lm PosInf = Num (l_atan_inf lm)"
| "fatan lm NegInf = Num (- l_atan_inf lm)"
| "fatan lm Nan = Nan"

text \<open>\<open>np.abs(a) >= threshold\<close>\<close>

fun abs_at_least :: "real \<Rightarrow> fval \<Rightarrow> bool" where
  "abs_at_least t (Num x) = (t \<le> \<bar>x\<bar>)"
| "abs_at_least t Nan = False"
| "abs_at_least t a = True"

subsection \<open>Constants\<close>

definition DX :: real where "DX = f32 7412.9951096"
definition VP :: real where "VP = f32 4820"
definition VS :: real where "VS = f32 2780"
definition RMU :: real where "RMU = f32 (f32 (VS * VS) / f32 (f32 (VP * VP) - f32 (VS * VS)))"
definition EPS :: real where "EPS = f32 (1 / 10 ^ 8)"
definition FLOAT_PI :: "float_libm \<Rightarrow> real" where "FLOAT_PI lm = f32 (2 * l_asin lm 1)"
definition DEG2RAD :: "float_libm \<Rightarrow> real" where "DEG2RAD lm = f32 (FLOAT_PI lm / 180)"

subsection \<open>Okada's components\<close>

definition ustrike_fz :: "float_libm \<Rightarrow> real \<Rightarrow> fval \<Rightarrow> fval \<Rightarrow> fval \<Rightarrow> fval \<Rightarrow> fval \<Rightarrow> fval \<Rightarrow> fval" where
  "ustrike_fz lm eps rmu q cs sn xi et =
     (let dh = et * sn - q * cs;
          r = fsqrt (xi * xi + et * et + q * q);
          ret = r + et;
          rdh = r + dh;
          ret_regular = abs_at_least eps ret;
          cs_regular = abs_at_least eps cs;
          rdh_regular = abs_at_least eps rdh;
          xi4_reg_csreg = rmu * (flog lm (r + dh) - sn * flog lm (r + et)) / cs;
          xi4_reg_cssing = - rmu * q / (r + dh);
          xi4_reg = (if cs_regular then xi4_reg_csreg else xi4_reg_cssing);
          xi4_sing_csreg_rdhreg = rmu * (flog lm (r + dh) + sn * flog lm (r - et)) / cs;
          xi4_sing_csreg_rdhsing = rmu * (- flog lm (r - dh) + sn * flog lm (r - et)) / cs;
          xi4_sing_csreg = (if rdh_regular then xi4_sing_csreg_rdhreg else xi4_sing_csreg_rdhsing);
          xi4_sing_cssing_rdhreg = - rmu * q / (r + dh);
          xi4_sing_cssing = (if rdh_regular then xi4_sing_cssing_rdhreg else Num 0);
          xi4_sing = (if cs_regular then xi4_sing_csreg else xi4_sing_cssing);
          xi4 = (if ret_regular then xi4_reg else xi4_sing);
          suz1 = (if ret_regular then dh * q / (r * (r + et)) else Num 0);
          suz2 = (if ret_regular then q * sn / (r + et) else Num 0);
          suz3 = xi4 * sn
      in suz1 + suz2 + suz3)"

definition udip_gz :: "float_libm \<Rightarrow> real \<Rightarrow> fval \<Rightarrow> fval \<Rightarrow> fval \<Rightarrow> fval \<Rightarrow> fval \<Rightarrow> fval \<Rightarrow> fval" where
  "udip_gz lm eps rmu q cs sn xi et =
     (let dh = et * sn - q * cs;
          r = fsqrt (xi * xi + et * et + q * q);
          ret = r + et;
          xx = fsqrt (xi * xi + q * q);
          ret_regular = abs_at_least eps ret;
          cs_regular = abs_at_least eps cs;
          xi_regular = abs_at_least eps xi;
          r_plus_xi_regular = abs_at_least eps (r + xi);
          q_regular = abs_at_least eps q;
          xi5in = (et * (xx + q * cs) + xx * (r + xx) * sn) / (xi * (r + xx) * cs);
          xi5_cs_regular_generic = rmu * Num 2 * fatan lm xi5in / cs;
          xi5_reg_csreg = (if xi_regular then xi5_cs_regular_generic else Num 0);
          xi5_reg_cssing = (if xi_regular then - rmu * xi * sn / (r + dh) else Num 0);
          xi5_reg = (if cs_regular then xi5_reg_csreg else xi5_reg_cssing);
          xi5_sing_csreg = (if xi_regular then xi5_cs_regular_generic else Num 0);
          xi5_sing_cssing = (if xi_regular then - rmu * xi * sn / (r + dh) else Num 0);
          xi5_sing = (if cs_regular then xi5_sing_csreg else xi5_sing_cssing);
          xi5 = (if ret_regular then xi5_reg else xi5_sing);
          uz1 = (if r_plus_xi_regular then dh * q / (r * (r + xi)) else Num 0);
          uz2 = (if q_regular then sn * fatan lm (xi * et / (q * r)) else Num 0);
          uz3 = - xi5 * sn * cs
      in uz1 + uz2 + uz3)"

subsection \<open>The grid\<close>

text \<open>The fault as the function takes it: the snapped corner, then slip, length, width, strike, dip, rake and depth.\<close>

record fault =
  f_i0 :: int
  f_j0 :: int
  f_slip :: real
  f_length :: real
  f_width :: real
  f_strike :: real
  f_dip :: real
  f_rake :: real
  f_depth :: real

definition offset_strike :: "real \<Rightarrow> real" where
  "offset_strike th = (let st = f32 th in if st = 0 \<or> st = 360 then f32 (st + f32 (1 / 1000)) else st)"

text \<open>One cell: \<open>x0\<close> and \<open>y0\<close> are its distances from the corner along the axes of the grid.\<close>

definition deform_at :: "float_libm \<Rightarrow> fault \<Rightarrow> fval \<Rightarrow> fval \<Rightarrow> fval" where
  "deform_at lm f x0 y0 =
     (let str = f32 (f32 (90 - offset_strike (f_strike f)) * DEG2RAD lm);
          dir = f32 (f32 (f_dip f) * DEG2RAD lm);
          slr = f32 (f32 (f_rake f) * DEG2RAD lm);
          d0 = f32 (f_slip f); l0 = Num (f32 (f_length f)); w0 = Num (f32 (f_width f)); hh = Num (f32 (f_depth f));
          cs = Num (l_cos lm dir); sn = Num (l_sin lm dir);
          de = hh + w0 * sn;
          dst = Num d0 * Num (l_cos lm slr); ddp = Num d0 * Num (l_sin lm slr);
          cos_str = Num (l_cos lm str); sin_str = Num (l_sin lm str); tan_str = Num (l_tan lm str);
          x = x0 / cos_str + (y0 - x0 * tan_str) * sin_str;
          y = y0 * cos_str - x0 * sin_str + w0 * cs;
          p = y * cs + de * sn;
          q = y * sn - de * cs;
          fz = ustrike_fz lm EPS (Num RMU) q cs sn;
          gz = udip_gz lm EPS (Num RMU) q cs sn;
          uzst = - (fz x p - fz x (p - w0) - fz (x - l0) p + fz (x - l0) (p - w0)) * dst / (Num 2 * Num (FLOAT_PI lm));
          uzdp = - (gz x p - gz x (p - w0) - gz (x - l0) p + gz (x - l0) (p - w0)) * ddp / (Num 2 * Num (FLOAT_PI lm))
      in uzst + uzdp)"

text \<open>\<open>(np.arange(n, dtype=np.float32) - i0) * _DX\<close>, for one index.\<close>

definition axis_distance :: "int \<Rightarrow> nat \<Rightarrow> fval" where
  "axis_distance i0 k = (Num (f32 (real k)) - Num (f32 (of_int i0))) * Num DX"

type_synonym window = "int \<times> int \<times> int \<times> int"

definition compute_deform_grid :: "float_libm \<Rightarrow> fault \<Rightarrow> window \<Rightarrow> nat \<times> nat \<times> (nat \<Rightarrow> nat \<Rightarrow> fval)" where
  "compute_deform_grid lm f w =
     (case w of (ids, ide, jds, jde) \<Rightarrow>
        (nat (ide - ids + 1), nat (jde - jds + 1),
         (\<lambda>ii jj. deform_at lm f (axis_distance (f_i0 f - ids + 1) ii) (axis_distance (f_j0 f - jds + 1) jj))))"

subsection \<open>The step\<close>

definition clip_value :: "real \<Rightarrow> fval \<Rightarrow> fval" where
  "clip_value threshold v = (if abs_at_least threshold v then Num 0 else v)"

definition value_text :: "fval \<Rightarrow> string" where
  "value_text v =
     (case v of Num x \<Rightarrow> fixed 9 3 x | Nan \<Rightarrow> pad_left 9 ''nan'' | PosInf \<Rightarrow> pad_left 9 ''inf'' | NegInf \<Rightarrow> pad_left 9 ''-inf'')"

definition grid_text :: "nat \<times> nat \<times> (nat \<Rightarrow> nat \<Rightarrow> fval) \<Rightarrow> string" where
  "grid_text g =
     (case g of (rows, cols, v) \<Rightarrow> concat (map (\<lambda>i. concat (map (\<lambda>j. value_text (v i j)) [0..<cols]) @ [CHR 0x0A]) [0..<rows]))"

definition parsed_fault :: "int \<times> int \<times> real list \<Rightarrow> fault" where
  "parsed_fault p =
     (case p of (i0, j0, vs) \<Rightarrow>
        \<lparr> f_i0 = i0, f_j0 = j0, f_slip = vs ! 0, f_length = vs ! 1, f_width = vs ! 2, f_strike = vs ! 3, f_dip = vs ! 4,
          f_rake = vs ! 5, f_depth = vs ! 6 \<rparr>)"

definition run_deform :: "float_libm \<Rightarrow> bool \<Rightarrow> workspace \<Rightarrow> unit ending \<times> workspace" where
  "run_deform lm killed fs =
     (case bind_ok (bind_ok (text_of (fs PFALLA_INP)) parse_pfalla_inp) (\<lambda>p.
             bind_ok (bind_ok (text_of (fs XYO_DAT)) read_xyo_dat) (\<lambda>w. Inr (compute_deform_grid lm (parsed_fault p) w))) of
        Inl e \<Rightarrow> (Ret (Inl e), fs)
      | Inr (rows, cols, g) \<Rightarrow>
          atomic_write DEFORM_A
            (\<lambda>tmp fs. (Ret (Inr ()), fs(tmp \<mapsto> Text (grid_text (rows, cols, \<lambda>i j. clip_value 20 (g i j)))))) killed fs)"

end
