(* ===== verification/OkadaLaws.thy ===== *)
theory OkadaLaws
  imports Okada RoundingError
begin

text \<open>
  Laws of the deformation: a cell's displacement depends on its place on the grid, not on the window it is
  computed in; the masks of the two components keep every division by zero and every bad logarithm out;
  what is written holds no infinity and nothing of twenty metres or more.
\<close>

subsection \<open>Rounded arithmetic\<close>

lemma f32_of_int: "\<bar>n\<bar> \<le> 2 ^ 24 \<Longrightarrow> f32 (of_int n) = of_int n"
  using stored_of_int [of n Float32 0] by (simp add: array_type.stored_def)

subsection \<open>The window\<close>

lemma axis_distance_absolute:
  assumes "lo \<le> a" and "\<bar>a - lo\<bar> \<le> 2 ^ 24" and "\<bar>i0 - lo + 1\<bar> \<le> 2 ^ 24"
  shows "axis_distance (i0 - lo + 1) (nat (a - lo)) = Num (f32 (f32 (of_int (a - i0 - 1)) * DX))"
proof -
  have "f32 (real (nat (a - lo))) = of_int (a - lo)"
    using f32_of_int [OF assms(2)] assms(1) by simp
  moreover have "f32 (of_int (i0 - lo + 1)) = of_int (i0 - lo + 1)" by (rule f32_of_int [OF assms(3)])
  moreover have "real_of_int (a - lo) - of_int (i0 - lo + 1) = of_int (a - i0 - 1)" by simp
  ultimately show ?thesis by (simp only: axis_distance_def minus_fval_def uminus_fval.simps plus_fval.simps times_fval.simps add_uminus_conv_diff)
qed

definition inside :: "window \<Rightarrow> int \<Rightarrow> int \<Rightarrow> bool" where
  "inside w a b \<longleftrightarrow> (case w of (ids, ide, jds, jde) \<Rightarrow> ids \<le> a \<and> a \<le> ide \<and> jds \<le> b \<and> b \<le> jde)"

definition displacement_at :: "float_libm \<Rightarrow> fault \<Rightarrow> window \<Rightarrow> int \<Rightarrow> int \<Rightarrow> fval" where
  "displacement_at lm f w a b =
     (case compute_deform_grid lm f w of (rows, cols, g) \<Rightarrow>
        (case w of (ids, ide, jds, jde) \<Rightarrow> g (nat (a - ids)) (nat (b - jds))))"

definition small_window :: "fault \<Rightarrow> window \<Rightarrow> bool" where
  "small_window f w \<longleftrightarrow>
     (case w of (ids, ide, jds, jde) \<Rightarrow>
        (\<forall>v \<in> {ids, ide, jds, jde}. 0 \<le> v \<and> v < 2 ^ 23) \<and> \<bar>f_i0 f\<bar> < 2 ^ 23 \<and> \<bar>f_j0 f\<bar> < 2 ^ 23)"

lemma displacement_absolute:
  assumes "small_window f w" and "inside w a b"
  shows "displacement_at lm f w a b =
    deform_at lm f (Num (f32 (f32 (of_int (a - f_i0 f - 1)) * DX))) (Num (f32 (f32 (of_int (b - f_j0 f - 1)) * DX)))"
proof -
  obtain ids ide jds jde where w: "w = (ids, ide, jds, jde)" by (cases w)
  have "ids \<le> a" "\<bar>a - ids\<bar> \<le> 2 ^ 24" "\<bar>f_i0 f - ids + 1\<bar> \<le> 2 ^ 24" "jds \<le> b" "\<bar>b - jds\<bar> \<le> 2 ^ 24" "\<bar>f_j0 f - jds + 1\<bar> \<le> 2 ^ 24"
    using assms unfolding w inside_def small_window_def by auto
  then show ?thesis
    by (simp only: displacement_at_def compute_deform_grid_def w prod.case axis_distance_absolute)
qed

text \<open>C35: The displacement of a cell does not depend on the window: two windows that hold the cell, with
  indices that float32 counts exactly, give it the same value to the last bit.\<close>

theorem deformation_does_not_depend_on_the_window:
  assumes "small_window f w" and "small_window f w'" and "inside w a b" and "inside w' a b"
  shows "displacement_at lm f w a b = displacement_at lm f w' a b"
  using displacement_absolute [OF assms(1,3)] displacement_absolute [OF assms(2,4)] by simp

definition sample_libm :: float_libm where
  "sample_libm = \<lparr> l_sin = \<lambda>x. f32 (sin x), l_cos = \<lambda>x. f32 (cos x), l_tan = \<lambda>x. f32 (tan x), l_log = \<lambda>x. f32 (ln x),
     l_atan = \<lambda>x. f32 (arctan x), l_asin = \<lambda>x. f32 (arcsin x), l_atan_inf = f32 (pi / 2) \<rparr>"

definition sample_fault :: fault where
  "sample_fault = \<lparr> f_i0 = 1200, f_j0 = 900, f_slip = 5, f_length = 200000, f_width = 60000, f_strike = 350, f_dip = 20,
     f_rake = 90, f_depth = 12000 \<rparr>"

lemma deformation_does_not_depend_on_the_window_witness:
  "displacement_at sample_libm sample_fault (1100, 1300, 800, 1000) 1200 900 = displacement_at sample_libm sample_fault (1190, 1210, 890, 910) 1200 900"
  by (rule deformation_does_not_depend_on_the_window) (simp_all add: small_window_def inside_def sample_fault_def)

subsection \<open>The masks\<close>

fun is_finite_value :: "fval \<Rightarrow> bool" where
  "is_finite_value (Num x) = True"
| "is_finite_value a = False"

lemma is_finite_value_iff: "is_finite_value v \<longleftrightarrow> (\<exists>x. v = Num x)"
  by (cases v) simp_all

lemma is_finite_value_ops [simp]:
  "is_finite_value a \<Longrightarrow> is_finite_value (- a)"
  "is_finite_value a \<Longrightarrow> is_finite_value b \<Longrightarrow> is_finite_value (a + b)" "is_finite_value a \<Longrightarrow> is_finite_value b \<Longrightarrow> is_finite_value (a - b)"
  "is_finite_value a \<Longrightarrow> is_finite_value b \<Longrightarrow> is_finite_value (a * b)"
  by (auto simp: is_finite_value_iff minus_fval_def)

lemma is_finite_value_divide: "is_finite_value a \<Longrightarrow> b = Num y \<Longrightarrow> y \<noteq> 0 \<Longrightarrow> is_finite_value (a / b)"
  by (auto simp: is_finite_value_iff)

lemma is_finite_value_atan [simp]: "is_finite_value a \<Longrightarrow> is_finite_value (fatan lm a)"
  by (auto simp: is_finite_value_iff)

text \<open>A root of rounded squares.\<close>

lemma fsqrt_nonneg:
  assumes "0 \<le> s"
  shows "\<exists>r. fsqrt (Num s) = Num r \<and> 0 \<le> r \<and> (r = 0 \<longrightarrow> s = 0)"
  using assms by (intro exI [of _ "f32 (sqrt s)"]) (simp add: array_type.nonneg)

lemma root_of_two:
  "\<exists>r. fsqrt (Num x * Num x + Num z * Num z) = Num r \<and> 0 \<le> r \<and> (r = 0 \<longrightarrow> x = 0 \<and> z = 0)"
proof -
  have nonneg: "0 \<le> f32 (x * x)" "0 \<le> f32 (z * z)" by (simp_all add: array_type.nonneg)
  then have "0 \<le> f32 (f32 (x * x) + f32 (z * z))" by (intro array_type.nonneg) simp
  from fsqrt_nonneg [OF this] show ?thesis using nonneg by (simp add: add_nonneg_eq_0_iff)
qed

lemma root_of_squares:
  "\<exists>r. fsqrt (Num x * Num x + Num y * Num y + Num z * Num z) = Num r \<and> 0 \<le> r \<and> (r = 0 \<longrightarrow> x = 0 \<and> y = 0 \<and> z = 0)"
proof -
  have nonneg: "0 \<le> f32 (x * x)" "0 \<le> f32 (y * y)" "0 \<le> f32 (z * z)" by (simp_all add: array_type.nonneg)
  then have s: "0 \<le> f32 (f32 (x * x) + f32 (y * y))" by (intro array_type.nonneg) simp
  then have "0 \<le> f32 (f32 (f32 (x * x) + f32 (y * y)) + f32 (z * z))" using nonneg(3) by (intro array_type.nonneg) simp
  from fsqrt_nonneg [OF this] show ?thesis using nonneg s by (simp add: add_nonneg_eq_0_iff)
qed


lemma EPS_bounds: "0 < EPS" "EPS \<le> 1 / 2"
proof -
  show "0 < EPS" unfolding EPS_def by (rule f32_pos) simp
  have half: "array_type.stored Float32 (1 / 2)"
    using stored_of_int [of 1 Float32 "- 1"] by (simp add: powr_minus)
  show "EPS \<le> 1 / 2" unfolding EPS_def by (rule array_type.le_stored [OF half]) simp
qed


text \<open>The root of a rounded square is the number itself: a hypotenuse is never shorter than its leg.\<close>

lemma spacing_square:
  assumes "y \<noteq> 0"
  shows "spacing p (y * y) \<le> 2 * 2 powr of_int (magnitude y) * spacing p y"
proof -
  have "\<bar>y * y\<bar> < 2 powr of_int (magnitude y + 1) * 2 powr of_int (magnitude y + 1)"
    unfolding abs_mult using magnitude_bounds(2) [OF assms] by (intro mult_strict_mono) simp_all
  also have "\<dots> = 2 powr of_int (2 * magnitude y + 2)" by (simp add: powr_add [symmetric])
  finally have "\<bar>y * y\<bar> < 2 powr of_int (2 * magnitude y + 2)" .
  moreover have "2 powr of_int (magnitude (y * y)) \<le> \<bar>y * y\<bar>" using assms by (intro magnitude_bounds) simp
  ultimately have "2 powr real_of_int (magnitude (y * y)) < 2 powr of_int (2 * magnitude y + 2)" by (rule order_le_less_trans [rotated])
  then have "magnitude (y * y) \<le> 2 * magnitude y + 1" by (simp del: of_int_add of_int_mult)
  then have "spacing p (y * y) \<le> 2 powr of_int (2 * magnitude y + 1 - int p + 1)" unfolding spacing_def by (intro powr_mono) simp_all
  also have "\<dots> = 2 * 2 powr of_int (magnitude y) * spacing p y"
  proof -
    have "2 powr real_of_int (2 * magnitude y + 1 - int p + 1) =
        2 powr (1 + of_int (magnitude y) + of_int (magnitude y - int p + 1))" by (rule arg_cong [where f = "\<lambda>e. 2 powr e"]) simp
    also have "\<dots> = 2 powr 1 * 2 powr of_int (magnitude y) * 2 powr of_int (magnitude y - int p + 1)" by (simp only: powr_add)
    finally show ?thesis by (simp add: spacing_def)
  qed
  finally show ?thesis .
qed

lemma fl_root_of_square:
  assumes "fl p y = y" and "0 < y" and "2 \<le> p"
  shows "y \<le> fl p (sqrt (fl p (y * y)))"
proof (cases "y \<le> sqrt (fl p (y * y))")
  case True
  then show ?thesis using fl_mono [of y "sqrt (fl p (y * y))" p] assms by simp
next
  case False
  define u where "u = spacing p y"
  define B where "B = 2 powr real_of_int (magnitude y)"
  define z where "z = sqrt (fl p (y * y))"
  define n where "n = rint (y / u)"
  have u: "0 < u" by (simp add: u_def)
  have y: "y = of_int n * u" using assms(1,2) by (simp add: fl_def n_def u_def)
  have B: "B = 2 ^ (p - 1) * u" using assms(3)
    by (simp add: B_def u_def spacing_def powr_realpow [symmetric] powr_add [symmetric] of_nat_diff)
  have in_binade: "B \<le> y" "y < 2 * B" using magnitude_bounds [of y] assms(2) by (simp_all add: B_def powr_add)
  have square: "0 \<le> fl p (y * y)" by (intro fl_nonneg) simp
  then have z2: "z * z = fl p (y * y)" by (simp add: z_def)
  have "n \<noteq> 2 ^ (p - 1)"
  proof
    assume "n = 2 ^ (p - 1)"
    then have "y = B" using y B by simp
    then have "y * y = of_int 1 * 2 powr of_int (2 * magnitude y)" by (simp add: B_def) (metis mult_2 powr_add)
    then have "fl p (y * y) = y * y" using assms(3) representable_scaled [of 1 p "2 * magnitude y"] by (simp add: fl_representable)
    then show False using False assms(2) by simp
  qed
  moreover have "2 ^ (p - 1) \<le> n"
  proof -
    have "2 ^ (p - 1) * u \<le> of_int n * u" using in_binade(1) y B by simp
    then have "(2 :: real) ^ (p - 1) \<le> of_int n" using u by simp
    then show ?thesis by (metis of_int_le_iff of_int_numeral of_int_power)
  qed
  ultimately have "2 ^ (p - 1) + 1 \<le> n" by linarith
  then have "of_int (2 ^ (p - 1) + 1) * u \<le> of_int n * u" using u by (intro mult_right_mono) (simp_all only: of_int_le_iff less_imp_le)
  then have above: "B + u \<le> y" using y B by (simp add: distrib_right)
  have "\<bar>fl p (y * y) - y * y\<bar> \<le> B * u"
    using fl_error [of "y * y" p] spacing_square [of y p] assms(2) by (simp add: B_def u_def)
  moreover have "B * u + u * u \<le> y * u" using mult_right_mono [OF above less_imp_le [OF u]] by (simp only: distrib_right)
  moreover have "0 < u * u" using u by (rule mult_pos_pos [OF _ u])
  moreover have "(y - u / 2) * (y - u / 2) = y * y - y * u + u * u / 4" by (simp add: field_simps)
  ultimately have smaller: "(y - u / 2) * (y - u / 2) < z * z" unfolding z2 by linarith
  have "y - u / 2 < z"
  proof (rule ccontr)
    assume "\<not> y - u / 2 < z"
    then have "z \<le> y - u / 2" by simp
    moreover have "0 \<le> z" using square by (simp add: z_def)
    ultimately have "z * z \<le> (y - u / 2) * (y - u / 2)" by (intro mult_mono) simp_all
    then show False using smaller by simp
  qed
  then have "B \<le> z" "z < 2 * B" using above u in_binade False by (simp_all add: z_def)
  moreover have "0 < B" by (simp add: B_def)
  ultimately have "magnitude z = magnitude y" by (intro magnitude_unique) (simp_all add: B_def powr_add)
  then have "spacing p z = u" by (simp add: u_def spacing_def)
  moreover have "real_of_int (n - 1) < of_int (rint (z / u))"
  proof -
    have "of_int n - 1 / 2 < z / u" using \<open>y - u / 2 < z\<close> u by (simp add: y field_simps)
    then show ?thesis using rint_near [of "z / u"] by linarith
  qed
  then have "real_of_int n * u \<le> of_int (rint (z / u)) * u" using u by (intro mult_right_mono) (simp_all only: of_int_less_iff of_int_le_iff less_imp_le)
  ultimately have "of_int n * u \<le> fl p z" using \<open>B \<le> z\<close> \<open>0 < B\<close> by (simp add: fl_def [of p z])
  then show ?thesis using y unfolding z_def by linarith
qed

lemma f32_root_bound:
  assumes "array_type.stored Float32 y" and "f32 (y * y) \<le> s"
  shows "\<bar>y\<bar> \<le> f32 (sqrt s)"
proof (cases "y = 0")
  case True
  then show ?thesis using assms(2) by (simp add: array_type.nonneg array_type.zero)
next
  case False
  have "f32 \<bar>y\<bar> = \<bar>y\<bar>" using assms(1) by (auto simp: array_type.stored_def abs_if cast_minus)
  then have "\<bar>y\<bar> \<le> f32 (sqrt (f32 (y * y)))"
    using fl_root_of_square [of 24 "\<bar>y\<bar>"] False by (simp add: cast_def)
  also have "\<dots> \<le> f32 (sqrt s)" using assms(2) by (intro array_type.mono) simp
  finally show ?thesis .
qed

lemma hypotenuse_bound:
  assumes "fsqrt (Num x * Num x + Num y * Num y + Num z * Num z) = Num r" and "array_type.stored Float32 y"
  shows "\<bar>y\<bar> \<le> r"
proof -
  have nonneg: "0 \<le> f32 (x * x)" "0 \<le> f32 (y * y)" "0 \<le> f32 (z * z)" by (simp_all add: array_type.nonneg)
  have stored: "array_type.stored Float32 (f32 v)" for v by simp
  have "f32 (y * y) \<le> f32 (f32 (x * x) + f32 (y * y))"
    using nonneg by (intro array_type.stored_le [OF stored]) simp
  also have "\<dots> \<le> f32 (f32 (f32 (x * x) + f32 (y * y)) + f32 (z * z))"
    using nonneg by (intro array_type.stored_le [OF stored]) simp
  finally have leg: "f32 (y * y) \<le> f32 (f32 (f32 (x * x) + f32 (y * y)) + f32 (z * z))" .
  then have "0 \<le> f32 (f32 (f32 (x * x) + f32 (y * y)) + f32 (z * z))" using nonneg(2) by linarith
  then have "r = f32 (sqrt (f32 (f32 (f32 (x * x) + f32 (y * y)) + f32 (z * z))))" using assms(1) by simp
  then show ?thesis using f32_root_bound [OF assms(2) leg] by simp
qed

text \<open>Adding a number to a stored distance.\<close>

lemma distance_plus:
  assumes "array_type.stored Float32 r" and "EPS \<le> r" and "\<not> EPS \<le> \<bar>f32 (r + d)\<bar>"
  shows "0 < f32 (r - d)"
proof -
  have "d < 0"
  proof (rule ccontr)
    assume "\<not> d < 0"
    then have "r \<le> f32 (r + d)" by (intro array_type.stored_le [OF assms(1)]) simp
    then show False using assms(2,3) by linarith
  qed
  then show ?thesis using assms(2) EPS_bounds(1) by (intro f32_pos) linarith
qed

text \<open>
  C0: The strike component is finite too, where it is not asked for the logarithm of a depth that is not
  positive: for a fault that is not vertical, at a distance of at least EPS, with a positive sum of
  distance and depth, the value is a number.
\<close>

theorem strike_component_is_finite:
  assumes "EPS \<le> \<bar>cs\<bar>" and "array_type.stored Float32 et"
    and "fsqrt (Num xi * Num xi + Num et * Num et + Num q * Num q) = Num r" and "EPS \<le> r"
    and "Num et * Num sn - Num q * Num cs = Num d" and "0 < f32 (r + d)"
  shows "is_finite_value (ustrike_fz lm EPS (Num rmu) (Num q) (Num cs) (Num sn) (Num xi) (Num et))"
proof -
  have eps: "0 < EPS" "cs \<noteq> 0" "r \<noteq> 0" using EPS_bounds(1) assms(1,4) by auto
  have stored: "array_type.stored Float32 r" using assms(3) by (auto split: if_splits)
  have leg: "\<bar>et\<bar> \<le> r" by (rule hypotenuse_bound [OF assms(3,2)])
  have sum: "0 \<le> f32 (r + et)" using leg by (intro array_type.nonneg) linarith
  have log: "is_finite_value (flog lm (Num v))" if "0 < v" for v using that by simp
  have over_cs: "is_finite_value (a / Num cs)" if "is_finite_value a" for a using that eps(2) by (rule is_finite_value_divide [OF _ refl])
  have num: "is_finite_value (Num v)" for v by simp
  have d: "Num r + Num d = Num (f32 (r + d))" "Num r - Num d = Num (f32 (r - d))" "Num r + Num et = Num (f32 (r + et))"
    "Num r - Num et = Num (f32 (r - et))" by (simp_all add: minus_fval_def)
  note parts = is_finite_value_ops over_cs log num assms(6)
  show ?thesis
  proof (cases "EPS \<le> \<bar>f32 (r + et)\<bar>")
    case True
    then have pos: "0 < f32 (r + et)" using sum eps(1) by linarith
    then have nonzero: "r + et \<noteq> 0" by (metis array_type.zero less_irrefl)
    have ratio: "is_finite_value (a / Num (f32 (r + et)))" "is_finite_value (a / (Num r * Num (f32 (r + et))))" if "is_finite_value a" for a
      using is_finite_value_divide [OF that, of _ "f32 (r + et)"] is_finite_value_divide [OF that, of _ "f32 (r * f32 (r + et))"] nonzero eps(3) by simp_all
    show ?thesis unfolding ustrike_fz_def Let_def assms(3,5) d abs_at_least.simps if_P [OF True] if_P [OF assms(1)]
      by (intro parts ratio pos)
  next
    case False
    note far = distance_plus [OF stored assms(4) False]
    show ?thesis
    proof (cases "EPS \<le> \<bar>f32 (r + d)\<bar>")
      case True
      show ?thesis unfolding ustrike_fz_def Let_def assms(3,5) d abs_at_least.simps if_not_P [OF False] if_P [OF True] if_P [OF assms(1)]
        by (intro parts far)
    next
      case near: False
      show ?thesis unfolding ustrike_fz_def Let_def assms(3,5) d abs_at_least.simps if_not_P [OF False] if_not_P [OF near] if_P [OF assms(1)]
        by (intro parts far distance_plus [OF stored assms(4) near])
    qed
  qed
qed

lemma f32_small: "f32 1 = 1" "f32 (1 / 2) = 1 / 2"
  using stored_of_int [of 1 Float32 0] stored_of_int [of 1 Float32 "- 1"]
  by (simp_all add: array_type.stored_def powr_minus)

lemma strike_component_is_finite_witness:
  "is_finite_value (ustrike_fz sample_libm EPS (Num RMU) (Num 1) (Num (1 / 2)) (Num (1 / 2)) (Num 0) (Num 0))"
proof (rule strike_component_is_finite [where r = 1 and d = "- (1 / 2)"])
  show "fsqrt (Num 0 * Num 0 + Num 0 * Num 0 + Num 1 * Num 1) = Num 1"
    by (simp add: f32_small array_type.zero)
  show "Num 0 * Num (1 / 2) - Num 1 * Num (1 / 2) = Num (- (1 / 2))"
    by (simp add: minus_fval_def f32_small array_type.zero cast_minus)
qed (use EPS_bounds in \<open>simp_all add: f32_small\<close>)

subsection \<open>What is written\<close>

lemma clip_value_bounded: "clip_value 20 v = Nan \<or> (\<exists>x. clip_value 20 v = Num x \<and> \<bar>x\<bar> < 20)"
  by (cases v) (auto simp: clip_value_def)

lemma grid_text_numbers:
  assumes "\<forall>i < rows. \<forall>j < cols. g i j = Num (v i j)"
  shows "grid_text (rows, cols, \<lambda>i j. clip_value 20 (g i j)) = deform_text rows cols (clip_anomalous_values 20 v)"
proof -
  have cell: "value_text (clip_value 20 (g i j)) = fixed 9 3 (clip_anomalous_values 20 v i j)" if "i < rows" "j < cols" for i j
    using assms that by (simp add: clip_value_def clip_anomalous_values_def value_text_def)
  have "concat (map (\<lambda>j. value_text (clip_value 20 (g i j))) [0..<cols]) =
      concat (map (\<lambda>j. fixed 9 3 (clip_anomalous_values 20 v i j)) [0..<cols])" if "i < rows" for i
    using cell [OF that] by (intro arg_cong [where f = concat] list.map_cong0) simp
  then show ?thesis unfolding grid_text_def deform_text_def prod.case by (intro arg_cong [where f = concat] list.map_cong0) simp
qed

text \<open>When no cell of the window is infinite or NaN, the step leaves exactly the file of clipped
  displacements from which the tsunami step starts, changes nothing else, and a run killed before the
  rename leaves the old file in place.\<close>

theorem deform_step_writes_the_clipped_displacements:
  assumes "bind_ok (text_of (fs PFALLA_INP)) parse_pfalla_inp = Inr p" and "bind_ok (text_of (fs XYO_DAT)) read_xyo_dat = Inr w"
    and "compute_deform_grid lm (parsed_fault p) w = (rows, cols, g)" and "\<forall>i < rows. \<forall>j < cols. g i j = Num (v i j)"
  shows "run_deform lm False fs =
      (Ret (Inr ()), fs(DEFORM_A \<mapsto> Text (deform_text rows cols (clip_anomalous_values 20 v)), tmp_sibling DEFORM_A := None))"
    and "snd (run_deform lm True fs) DEFORM_A = fs DEFORM_A"
proof -
  have neq: "tmp_sibling DEFORM_A \<noteq> DEFORM_A" by (intro tmp_sibling_neq) (simp add: DEFORM_A_def)
  show "run_deform lm False fs =
      (Ret (Inr ()), fs(DEFORM_A \<mapsto> Text (deform_text rows cols (clip_anomalous_values 20 v)), tmp_sibling DEFORM_A := None))"
    using assms neq by (simp add: run_deform_def atomic_write_def Let_def grid_text_numbers fun_eq_iff)
  show "snd (run_deform lm True fs) DEFORM_A = fs DEFORM_A"
    using assms neq by (simp add: run_deform_def atomic_write_def Let_def)
qed

end
