(* ===== verification/CalculatorLaws.thy ===== *)
theory CalculatorLaws
  imports Calculator
begin

text \<open>
  Laws of the calculator: the form of an arrival text and when it fails, bounds of the travel
  times, the near-field integral over a flat bottom, which ports get a time, and that the fault
  plane reads back the epicentre the calculator wrote.
\<close>

subsection \<open>Arrival texts\<close>

lemma two_digits:
  assumes "n < 100"
  shows "pad2 (int n) = dec_places 2 n"
proof -
  have places: "dec_places 2 n = [digit_char (n div 10 mod 10), digit_char (n mod 10)]"
    by (simp add: numeral_2_eq_2)
  show ?thesis
  proof (cases "n < 10")
    case True
    moreover have "digit_char 0 = CHR ''0''" by code_simp
    ultimately show ?thesis unfolding places by (simp add: pad2_def int_text_def decimal.simps)
  next
    case False
    then have "decimal n = [digit_char (n div 10), digit_char (n mod 10)]" "n div 10 < 10"
      using assms by (simp_all add: decimal.simps [of n] decimal.simps [of "n div 10"])
    then show ?thesis unfolding places by (simp add: pad2_def int_text_def)
  qed
qed

lemma hour_and_minute:
  assumes "0 \<le> t"
  obtains m :: nat where "trunc ((t - of_int (trunc t)) * 60) = int m" and "m < 60"
    and "of_int (trunc t) + real m / 60 \<le> t" and "t < of_int (trunc t) + real m / 60 + 1 / 60"
proof -
  define u where "u = (t - of_int \<lfloor>t\<rfloor>) * 60"
  have "0 \<le> t - of_int \<lfloor>t\<rfloor>" "t - of_int \<lfloor>t\<rfloor> < 1" by linarith+
  then have u: "0 \<le> u" "u < 60" unfolding u_def by simp_all
  define m where "m = nat \<lfloor>u\<rfloor>"
  have m: "int m = \<lfloor>u\<rfloor>" using u by (simp add: m_def)
  then have "real m = of_int \<lfloor>u\<rfloor>" by (metis of_int_of_nat_eq)
  then have "real m \<le> u" "u < real m + 1" by linarith+
  show ?thesis
  proof (rule that [of m])
    have "trunc t = \<lfloor>t\<rfloor>" using assms by (simp add: trunc_def)
    then have "(t - of_int (trunc t)) * 60 = u" by (simp add: u_def)
    then show "trunc ((t - of_int (trunc t)) * 60) = int m" using u(1) m by (simp only: trunc_def if_not_P not_less)
    show "m < 60" using \<open>real m \<le> u\<close> u by linarith
    show "of_int (trunc t) + real m / 60 \<le> t" "t < of_int (trunc t) + real m / 60 + 1 / 60"
      using \<open>real m \<le> u\<close> \<open>u < real m + 1\<close> assms by (simp_all add: trunc_def u_def field_simps)
  qed
qed



text \<open>An arrival after midnight of the last day of a month is given a day that does not exist, and
  one two days after the origin's midnight an hour that does not.\<close>

theorem arrival_text_leaves_the_calendar:
  "(\<forall>month t. 24 \<le> t \<and> t < 25 \<longrightarrow>
      (\<exists>mm. format_arrival_time month t ''31'' = Some (''00:'' @ mm @ '' 32'' @ month))) \<and>
   format_arrival_time ''Jan'' 48 ''01'' = Some ''24:00 02Jan''"
proof (intro conjI allI impI)
  fix month :: string and t :: real assume "24 \<le> t \<and> t < 25"
  then have "\<lfloor>t\<rfloor> = 24" by linarith
  then have "trunc t = 24" using \<open>24 \<le> t \<and> t < 25\<close> by (simp add: trunc_def)
  moreover have "py_int ''31'' = Some 31" "pad2 0 = ''00''" "pad2 32 = ''32''" by code_simp+
  ultimately show "\<exists>mm. format_arrival_time month t ''31'' = Some (''00:'' @ mm @ '' 32'' @ month)"
    by (simp add: format_arrival_time_def Let_def)
next
  have "trunc 48 = 48" "trunc ((48 - of_int 48) * 60) = 0" "py_int ''01'' = Some 1" "pad2 24 = ''24''" "pad2 0 = ''00''" "pad2 2 = ''02''"
    by (simp_all add: trunc_def) code_simp+
  then show "format_arrival_time ''Jan'' 48 ''01'' = Some ''24:00 02Jan''"
    by (simp add: format_arrival_time_def Let_def)
qed


subsection \<open>Travel times\<close>

lemma central_angle_range: "0 \<le> central_angle xe ye lon lat \<and> central_angle xe ye lon lat \<le> pi"
  unfolding central_angle_def Let_def by (intro conjI arccos_lbound arccos_ubound) (simp_all add: min_def max_def)

lemma simpson_sum_pos:
  assumes "\<And>i. i < 101 \<Longrightarrow> 0 < y i"
  shows "0 < simpson_sum y"
proof -
  have "0 \<le> sum_list (map (\<lambda>k. y (2 * k + 1)) [0..<50])" "0 \<le> sum_list (map (\<lambda>k. y (2 * k + 2)) [0..<49])"
    by (rule sum_list_nonneg; use assms in \<open>force intro: less_imp_le\<close>)+
  moreover have "0 < y 0" "0 < y 100" using assms by simp_all
  ultimately show ?thesis unfolding simpson_sum_def by linarith
qed

lemma simpson_sum_const:
  assumes "\<And>i. i < 101 \<Longrightarrow> y i = c"
  shows "simpson_sum y = 300 * c"
proof -
  have "map (\<lambda>k. y (2 * k + 1)) [0..<50] = replicate 50 c" "map (\<lambda>k. y (2 * k + 2)) [0..<49] = replicate 49 c"
    by (rule nth_equalityI; simp add: assms)+
  then show ?thesis using assms [of 0] assms [of 100] by (simp add: simpson_sum_def sum_list_replicate)
qed

lemma near_field_time_pos:
  assumes "near_field_time depth alpha = Some t" and "\<And>i. 0 \<le> depth i" and "0 < alpha"
  shows "0 < t"
proof -
  have "0 < wave_speed (depth i)" if "i < 101" for i
    using assms(1,2) that less_le [of 0 "depth i"]
    by (force simp: near_field_time_def wave_speed_def STANDARD_GRAVITY_M_PER_S2_def split: if_splits)
  then have "0 < simpson_sum (\<lambda>i. 1 / wave_speed (depth i))" by (intro simpson_sum_pos) simp
  moreover have t: "t = 0.5 * (alpha / 100 * TSUNAMI_MODEL_EARTH_RADIUS_KM / 3 * simpson_sum (\<lambda>i. 1 / wave_speed (depth i)))"
    using assms(1) by (simp only: near_field_time_def option.distinct option.inject split: if_splits)
  ultimately show ?thesis unfolding t using assms(3) by (simp add: TSUNAMI_MODEL_EARTH_RADIUS_KM_def)
qed

lemma path_depth_nonneg: "0 \<le> path_depth bathy xe ye lon lat alpha i"
  by (simp add: path_depth_def Let_def)

text \<open>The distance to a port is at most half the circumference. An arrival is after the origin unless
  the port is the epicentre, within 3 hours or the time the empirical speeds give; only an epicentre
  off Peru that is the port itself has no time.\<close>

theorem travel_time_is_bounded:
  assumes "calculate_travel_time bathy xe ye lon lat time0 = (km, hours)"
  shows "0 \<le> km \<and> km \<le> TSUNAMI_MODEL_EARTH_RADIUS_KM * pi \<and>
    (hours = None \<longleftrightarrow> km = 0 \<and> -19 \<le> ye \<and> ye \<le> 0) \<and>
    (\<forall>t. hours = Some t \<longrightarrow> (0 < km \<longrightarrow> time0 < t) \<and> time0 \<le> t \<and> t \<le> time0 + max 3 (km / 690 + 0.25))"
proof -
  let ?a = "central_angle xe ye lon lat"
  define near where "near = near_field_time (path_depth bathy xe ye lon lat ?a) ?a"
  define d where "d = TSUNAMI_MODEL_EARTH_RADIUS_KM * ?a"
  have "calculate_travel_time bathy xe ye lon lat time0 = (d, map_option (\<lambda>t. t + time0)
      (if 750 \<le> d then Some (d / 790 + 0.2) else if \<not> (-19 \<le> ye \<and> ye \<le> 0) then Some (d / 700)
       else if d = 0 then None
       else case near of None \<Rightarrow> Some (d / 733 + 0.25)
         | Some t \<Rightarrow> Some (if 3 < t then d / 733 + 0.25 else if 1.4 < t \<and> t < 3 then d / 690 + 0.2 else t)))"
    by (simp only: calculate_travel_time_def Let_def near_def d_def)
  then have km: "km = TSUNAMI_MODEL_EARTH_RADIUS_KM * ?a"
    and hours: "hours = map_option (\<lambda>t. t + time0)
      (if 750 \<le> km then Some (km / 790 + 0.2) else if \<not> (-19 \<le> ye \<and> ye \<le> 0) then Some (km / 700)
       else if km = 0 then None
       else case near of None \<Rightarrow> Some (km / 733 + 0.25)
         | Some t \<Rightarrow> Some (if 3 < t then km / 733 + 0.25 else if 1.4 < t \<and> t < 3 then km / 690 + 0.2 else t))"
    by (simp_all only: assms prod.inject d_def)
  have radius: "0 < TSUNAMI_MODEL_EARTH_RADIUS_KM" by (simp add: TSUNAMI_MODEL_EARTH_RADIUS_KM_def)
  then have range: "0 \<le> km" "km \<le> TSUNAMI_MODEL_EARTH_RADIUS_KM * pi"
    using central_angle_range [of xe ye lon lat] by (simp_all add: km)
  have near_pos: "0 < t" if "near = Some t" "0 < km" for t
  proof (rule near_field_time_pos [OF that(1) [unfolded near_def] path_depth_nonneg])
    show "0 < ?a" using that(2) radius by (simp add: km zero_less_mult_iff)
  qed
  have none: "hours = None \<longleftrightarrow> km = 0 \<and> -19 \<le> ye \<and> ye \<le> 0" by (simp add: hours split: option.split)
  have "(0 < km \<longrightarrow> time0 < t) \<and> time0 \<le> t \<and> t \<le> time0 + max 3 (km / 690 + 0.25)" if "hours = Some t" for t
  proof (cases "750 \<le> km \<or> \<not> (-19 \<le> ye \<and> ye \<le> 0)")
    case True
    then show ?thesis using that range by (auto simp: hours max_def split: if_splits)
  next
    case False
    then have "km \<noteq> 0" using that none by auto
    then have "0 < km" using range by simp
    from near_pos [OF _ this] show ?thesis using False that range \<open>km \<noteq> 0\<close>
      by (cases near) (auto simp: hours max_def split: if_splits)
  qed
  then show ?thesis using range none by blast
qed


lemma angle_on_equator:
  assumes "\<bar>xe - lon\<bar> \<le> 180"
  shows "central_angle xe 0 lon 0 = \<bar>radians xe - radians lon\<bar>"
proof -
  have pi: "\<bar>radians xe - radians lon\<bar> \<le> pi"
    using assms mult_right_mono [of "\<bar>xe - lon\<bar>" 180 pi]
    by (simp add: radians_def diff_divide_distrib [symmetric] left_diff_distrib [symmetric] abs_mult)
  have "central_angle xe 0 lon 0 = arccos (cos (radians xe - radians lon))"
    by (simp add: central_angle_def radians_def)
  also have "\<dots> = arccos (cos \<bar>radians xe - radians lon\<bar>)" by (simp add: cos_abs_real)
  also have "\<dots> = \<bar>radians xe - radians lon\<bar>" using pi by (intro arccos_cos) simp_all
  finally show ?thesis .
qed

lemma travel_time_is_bounded_witness:
  "calculate_travel_time (\<lambda>_ _. -4000) 0 0 (-90) 0 1 =
     (TSUNAMI_MODEL_EARTH_RADIUS_KM * (pi / 2), Some (TSUNAMI_MODEL_EARTH_RADIUS_KM * (pi / 2) / 790 + 0.2 + 1)) \<and>
   TSUNAMI_MODEL_EARTH_RADIUS_KM * (pi / 2) \<le> TSUNAMI_MODEL_EARTH_RADIUS_KM * pi \<and>
   1 < TSUNAMI_MODEL_EARTH_RADIUS_KM * (pi / 2) / 790 + 0.2 + 1"
proof -
  have angle: "central_angle 0 0 (-90) 0 = pi / 2" by (subst angle_on_equator) (simp_all add: radians_def)
  have "6370.8 * 1 \<le> TSUNAMI_MODEL_EARTH_RADIUS_KM * (pi / 2)"
    unfolding TSUNAMI_MODEL_EARTH_RADIUS_KM_def using pi_ge_two by (intro mult_left_mono) simp_all
  then have far: "750 \<le> TSUNAMI_MODEL_EARTH_RADIUS_KM * (pi / 2)" by simp
  have run: "calculate_travel_time (\<lambda>_ _. -4000) 0 0 (-90) 0 1 =
     (TSUNAMI_MODEL_EARTH_RADIUS_KM * (pi / 2), Some (TSUNAMI_MODEL_EARTH_RADIUS_KM * (pi / 2) / 790 + 0.2 + 1))"
    using far by (simp only: calculate_travel_time_def Let_def angle if_True option.map)
  show ?thesis using run travel_time_is_bounded [OF run] far by simp
qed

text \<open>Over water of one depth, off Peru, the near-field time is half the distance over the speed of a
  long wave: Simpson's rule is exact there.\<close>

theorem flat_bottom_halves_the_travel_time:
  assumes "\<And>a b. bathy a b = z" and "z \<noteq> 0" and "-19 \<le> ye" and "ye \<le> 0"
    and "km = TSUNAMI_MODEL_EARTH_RADIUS_KM * central_angle xe ye lon lat"
    and "0 < km" and "km < 750" and "km \<le> 2.8 * wave_speed \<bar>z\<bar>"
  shows "calculate_travel_time bathy xe ye lon lat time0 = (km, Some (km / (2 * wave_speed \<bar>z\<bar>) + time0))"
proof -
  let ?a = "central_angle xe ye lon lat" and ?v = "wave_speed \<bar>z\<bar>"
  have depth: "path_depth bathy xe ye lon lat ?a i = \<bar>z\<bar>" for i by (simp add: path_depth_def Let_def assms(1))
  have v: "0 < ?v" using assms(2) by (simp add: wave_speed_def STANDARD_GRAVITY_M_PER_S2_def)
  have "simpson_sum (\<lambda>i. 1 / wave_speed (path_depth bathy xe ye lon lat ?a i)) = 300 * (1 / ?v)"
    by (rule simpson_sum_const) (simp add: depth)
  then have "near_field_time (path_depth bathy xe ye lon lat ?a) ?a =
      Some (0.5 * (?a / 100 * TSUNAMI_MODEL_EARTH_RADIUS_KM / 3 * (300 * (1 / ?v))))"
    using assms(2) by (simp add: near_field_time_def depth)
  also have "0.5 * (?a / 100 * TSUNAMI_MODEL_EARTH_RADIUS_KM / 3 * (300 * (1 / ?v))) = km / (2 * ?v)"
    by (simp add: assms(5))
  finally have near: "near_field_time (path_depth bathy xe ye lon lat ?a) ?a = Some (km / (2 * ?v))" .
  have "km / (2 * ?v) \<le> 1.4" using assms(8) v by (simp add: divide_le_eq)
  then have "\<not> 3 < km / (2 * ?v)" "\<not> (1.4 < km / (2 * ?v) \<and> km / (2 * ?v) < 3)" by linarith+
  moreover have "\<not> 750 \<le> km" "km \<noteq> 0" "\<not> \<not> (-19 \<le> ye \<and> ye \<le> 0)" using assms(3,4,6,7) by auto
  ultimately show ?thesis
    by (simp only: calculate_travel_time_def Let_def assms(5) [symmetric] near if_False option.map option.case)
qed

lemma flat_bottom_halves_the_travel_time_witness:
  "\<exists>km. calculate_travel_time (\<lambda>_ _. -4000) 1 0 0 0 2 = (km, Some (km / (2 * wave_speed 4000) + 2)) \<and> 0 < km"
proof -
  define km where "km = TSUNAMI_MODEL_EARTH_RADIUS_KM * central_angle 1 0 0 0"
  have km: "km = 6370.8 * (pi / 180)"
    by (simp add: km_def angle_on_equator radians_def TSUNAMI_MODEL_EARTH_RADIUS_KM_def)
  have "pi < 4" using pi_less_4 by simp
  then have "0 < km" "km < 150" unfolding km by simp_all
  have "sqrt (100\<^sup>2) \<le> sqrt (STANDARD_GRAVITY_M_PER_S2 * 4000)"
    by (rule real_sqrt_le_mono) (simp add: STANDARD_GRAVITY_M_PER_S2_def power2_eq_square)
  then have "360 \<le> wave_speed 4000" by (simp add: wave_speed_def)
  then have "km \<le> 2.8 * wave_speed \<bar>-4000\<bar>" using \<open>km < 150\<close> by simp
  from flat_bottom_halves_the_travel_time [of "\<lambda>_ _. -4000" "-4000" 0 km 1 0 0 2, OF _ _ _ _ km_def \<open>0 < km\<close> _ this]
  show ?thesis using \<open>0 < km\<close> \<open>km < 150\<close> by (intro exI [of _ km]) simp
qed


subsection \<open>Which ports get a time\<close>

lemma port_times_unreadable_day:
  "py_int day = None \<Longrightarrow> port_times bathy month eq time0 day ps st = st"
  by (induction bathy month eq time0 day ps st rule: port_times.induct)
    (simp_all add: format_arrival_time_def Let_def split: prod.split option.split)

lemma port_times_keys:
  assumes "py_int day = Some d" and "distinct (map fst ts @ map fst ps)" and "map fst ds = map fst ts"
    and "\<forall>(name, lon, lat) \<in> set ps. central_angle (lon0 eq) (lat0 eq) lon lat \<noteq> 0"
  shows "\<exists>ts' ds'. port_times bathy month eq time0 day ps (ts, ds) = (ts', ds') \<and>
    map fst ts' = map fst ts @ map fst ps \<and> map fst ds' = map fst ts'"
  using assms
proof (induction ps arbitrary: ts ds)
  case (Cons p ps)
  obtain name lon lat where p: "p = (name, lon, lat)" by (cases p)
  obtain km hours where run: "calculate_travel_time bathy (lon0 eq) (lat0 eq) lon lat time0 = (km, hours)"
    by fastforce
  have "km = TSUNAMI_MODEL_EARTH_RADIUS_KM * central_angle (lon0 eq) (lat0 eq) lon lat"
    using run by (simp add: calculate_travel_time_def Let_def)
  then have "km \<noteq> 0" using Cons.prems(4) by (simp add: p TSUNAMI_MODEL_EARTH_RADIUS_KM_def)
  then have "hours \<noteq> None" using run
    by (auto simp: calculate_travel_time_def Let_def split: option.splits if_splits)
  then obtain t where t: "hours = Some t" by blast
  obtain shown where shown: "format_arrival_time month t day = Some shown"
    using Cons.prems(1) by (simp add: format_arrival_time_def Let_def)
  have fresh: "name \<notin> set (map fst ts)" using Cons.prems(2) by (auto simp: p)
  then have keys: "map fst (AList.update name shown ts) = map fst ts @ [name]"
    "map fst (AList.update name km ds) = map fst ts @ [name]"
    using Cons.prems(3) by (simp_all add: AList.update_keys)
  have "\<exists>ts' ds'. port_times bathy month eq time0 day ps (AList.update name shown ts, AList.update name km ds) = (ts', ds') \<and>
    map fst ts' = map fst (AList.update name shown ts) @ map fst ps \<and> map fst ds' = map fst ts'"
    by (rule Cons.IH) (use Cons.prems keys in \<open>auto simp: p\<close>)
  then show ?case by (simp add: p run t shown keys)
qed auto

text \<open>Every port gets an arrival text and a distance, in the order of the list, when the day and time
  are numbers and no port is the epicentre; a day that is no number is not refused but leaves
  both answers empty.\<close>

theorem every_port_gets_a_time:
  assumes "hhmm eq = Some t" and "origin_hours t = Some time0" and "dia eq = Some day"
  shows "\<exists>r. calculate_tsunami_travel_times calc month eq = Inr r \<and>
    (py_int day = None \<longrightarrow> arrival_times r = [] \<and> distances r = []) \<and>
    (py_int day \<noteq> None \<and> distinct (map fst (ports calc)) \<and>
       (\<forall>(name, lon, lat) \<in> set (ports calc). central_angle (lon0 eq) (lat0 eq) lon lat \<noteq> 0) \<longrightarrow>
     map fst (arrival_times r) = map fst (ports calc) \<and> map fst (distances r) = map fst (ports calc))"
proof -
  obtain ts ds where run: "port_times (bathymetry_at calc) month eq time0 day (ports calc) ([], []) = (ts, ds)" by fastforce
  have "ts = [] \<and> ds = []" if "py_int day = None"
    using port_times_unreadable_day [OF that, of "bathymetry_at calc" month eq time0 "ports calc" "([], [])"] run by simp
  moreover have "map fst ts = map fst (ports calc) \<and> map fst ds = map fst (ports calc)"
    if "py_int day = Some d" "distinct (map fst (ports calc))"
      "\<forall>(name, lon, lat) \<in> set (ports calc). central_angle (lon0 eq) (lat0 eq) lon lat \<noteq> 0" for d
    using port_times_keys [of day d "[]" "ports calc" "[]" eq "bathymetry_at calc" month time0] that run by auto
  ultimately show ?thesis using assms run by (auto simp: calculate_tsunami_travel_times_def)
qed

definition sample_calculator :: calculator where
  "sample_calculator = \<lparr> mechanisms = [[0, 0, 10, 20], [1, 1, 30, 40]], coast = [(0, 1)],
     bathymetry_at = (\<lambda>_ _. -4000), ports = [(''Talara'', -81.2827, -4.5751)] \<rparr>"

definition sample_quake :: "string \<Rightarrow> earthquake_input" where
  "sample_quake day = \<lparr> Mw = 9, depth_h = 12, lat0 = 0, lon0 = 0, dia = Some day, hhmm = Some ''0000'' \<rparr>"

lemma every_port_gets_a_time_witness:
  "\<exists>r. calculate_tsunami_travel_times sample_calculator ''Jan'' (sample_quake ''x'') = Inr r \<and>
     arrival_times r = [] \<and> distances r = []"
proof -
  have val: "numeral_val ''00'' = Some 0" by (code_simp)
  then have "py_float ''00'' = Some 0" by (simp add: py_float_def array_type.zero)
  then have "origin_hours ''0000'' = Some 0" by (simp add: origin_hours_def)
  moreover have "py_int ''x'' = None" by code_simp
  ultimately show ?thesis
    using every_port_gets_a_time [of "sample_quake ''x''" "''0000''" 0 "''x''" sample_calculator "''Jan''"]
    by (simp add: sample_quake_def)
qed


subsection \<open>The warning\<close>

text \<open>The last warning is never given, and on land the warning agrees with the place except exactly
  50 km from the coast, where the place is near it and the warning says far.\<close>

theorem warning_agrees_with_the_place:
  "determine_tsunami_warning m h h0 km \<noteq> NO_TSUNAMI_WARNING \<and>
   (0 < h0 \<longrightarrow> ((determine_tsunami_warning m h h0 km = LAND_NEAR_COAST_WARNING) =
      (determine_epicenter_location h0 km = ''tierra cerca de costa'')) = (km \<noteq> 50)) \<and>
   (h0 \<le> 0 \<longrightarrow> (determine_tsunami_warning m h h0 km = SEA_NO_TSUNAMI_WARNING) = (60 < h \<or> m < 7))"
proof -
  have texts: "LAND_NEAR_COAST_WARNING \<noteq> NO_TSUNAMI_WARNING" "LAND_NO_TSUNAMI_WARNING \<noteq> NO_TSUNAMI_WARNING"
    "SEA_NO_TSUNAMI_WARNING \<noteq> NO_TSUNAMI_WARNING" "LAND_NO_TSUNAMI_WARNING \<noteq> LAND_NEAR_COAST_WARNING"
    "\<forall>w \<in> snd ` set SEA_TSUNAMI_TIERS. w \<noteq> NO_TSUNAMI_WARNING \<and> w \<noteq> SEA_NO_TSUNAMI_WARNING"
    by (simp_all add: LAND_NEAR_COAST_WARNING_def LAND_NO_TSUNAMI_WARNING_def SEA_NO_TSUNAMI_WARNING_def
        NO_TSUNAMI_WARNING_def SEA_TSUNAMI_TIERS_def)
  have tier: "\<exists>w. first_tier m SEA_TSUNAMI_TIERS = Some w \<and> w \<in> snd ` set SEA_TSUNAMI_TIERS" if "7 \<le> m"
    using that by (simp add: SEA_TSUNAMI_TIERS_def)
  show ?thesis
  proof (cases "0 < h0 \<or> 60 < h \<or> m < 7")
    case True
    then show ?thesis using texts(1-4)
      by (auto simp: determine_tsunami_warning_def determine_epicenter_location_def)
  next
    case False
    then obtain w where "first_tier m SEA_TSUNAMI_TIERS = Some w" "w \<in> snd ` set SEA_TSUNAMI_TIERS" using tier by auto
    then show ?thesis using False texts(5) by (auto simp: determine_tsunami_warning_def)
  qed
qed

lemma warning_agrees_with_the_place_witness:
  "determine_tsunami_warning 8 10 1 50 \<noteq> LAND_NEAR_COAST_WARNING \<and>
   determine_epicenter_location 1 50 = ''tierra cerca de costa'' \<and>
   determine_tsunami_warning 6 10 (-1) 50 = SEA_NO_TSUNAMI_WARNING"
proof -
  have place: "determine_epicenter_location 1 50 = ''tierra cerca de costa''" by (simp add: determine_epicenter_location_def)
  show ?thesis
    using warning_agrees_with_the_place [of 8 10 1 50] warning_agrees_with_the_place [of 6 10 "-1" 50] place by simp
qed

subsection \<open>hypo.dat\<close>

lemma numeral_val_whole: "numeral_val (fixed_body 0 x) = Some (fixed_val 0 x)"
proof -
  have "numeral_val ((if x < 0 then ''-'' else '''') @ decimal (nat (rint \<bar>x\<bar>))) =
      Some ((if (if x < 0 then ''-'' else '''') = [] then 1 else - 1) * real (nat (rint \<bar>x\<bar>)))"
    by (rule numeral_val_digits [OF decimal_digits digits_val_decimal]) simp
  then show ?thesis by (simp add: fixed_body_def Let_def fixed_val_abs)
qed

lemma splitlines_last: "w \<noteq> [] \<Longrightarrow> \<forall>c \<in> set w. \<not> is_line_end c \<Longrightarrow> splitlines w = [w]"
proof (induction w)
  case (Cons a w)
  then show ?case by (cases "w = []") simp_all
qed simp

text \<open>The epicentre that the calculator writes to hypo.dat is the one the fault-plane step reads,
  rounded to two decimals, whole kilometres and one decimal.\<close>

theorem fault_plane_reads_the_epicentre:
  assumes "calculate_earthquake_parameters calc disk eq fs = (Inr c, fs')"
    and "hhmm eq = Some t" and "t \<noteq> ''''" and "\<forall>c \<in> set t. \<not> is_line_end c"
  shows "bind_ok (text_of (fs' HYPO_DAT)) read_hypo_dat =
    Inr (strip_by is_space t, f64 (fixed_val 2 (lon0 eq)), f64 (fixed_val 2 (lat0 eq)),
      f64 (fixed_val 0 (depth_h eq)), f64 (fixed_val 1 (Mw eq)))"
proof -
  have written: "fs' HYPO_DAT = Some (Text (hypo_text (hhmm eq) (lon0 eq) (lat0 eq) (depth_h eq) (Mw eq)))"
    using assms(1) by (auto simp: calculate_earthquake_parameters_def Let_def split: prod.splits sum.splits if_splits)
  have ends: "\<forall>c \<in> set (fixed_body d x). \<not> is_line_end c" "fixed_body d x \<noteq> []" for d x
    using fixed_body_word [of d x] line_end_space by blast+
  have lines: "splitlines (hypo_text (hhmm eq) (lon0 eq) (lat0 eq) (depth_h eq) (Mw eq)) =
      [t, fixed_body 2 (lon0 eq), fixed_body 2 (lat0 eq), fixed_body 0 (depth_h eq), fixed_body 1 (Mw eq)]"
    using assms(2-4) by (simp add: hypo_text_def splitlines_line splitlines_last ends)
  show ?thesis
    by (simp add: written read_hypo_dat_def lines py_float_def numeral_val_fixed numeral_val_whole)
qed

lemma fault_plane_reads_the_epicentre_witness:
  "\<exists>c fs'. calculate_earthquake_parameters sample_calculator None (sample_quake ''23'') Map.empty = (Inr c, fs') \<and>
     bind_ok (text_of (fs' HYPO_DAT)) read_hypo_dat = Inr (''0000'', f64 (fixed_val 2 0), f64 (fixed_val 2 0), f64 (fixed_val 0 12), f64 (fixed_val 1 9))"
proof -
  have "\<exists>c fs'. calculate_earthquake_parameters sample_calculator None (sample_quake ''23'') Map.empty = (Inr c, fs')"
    by (simp add: calculate_earthquake_parameters_def sample_calculator_def nearest_focal_mechanism_def calculate_distance_to_coast_def
        Let_def split: prod.split)
  then obtain c fs' where run: "calculate_earthquake_parameters sample_calculator None (sample_quake ''23'') Map.empty = (Inr c, fs')"
    by blast
  from fault_plane_reads_the_epicentre [OF run, of "''0000''"] run show ?thesis
    by (auto simp: sample_quake_def is_line_end_def is_space_def strip_by_def)
qed

end
