(* ===== verification/PipelineRegistry.thy ===== *)
theory PipelineRegistry
  imports TsunamiRest
begin

text \<open>
  The pipeline as it is registered (pipeline/registry.py): the files each step reads and may leave
  behind, as its source says, the proof that the steps keep out of each other's way, and the
  law of resumed runs for it. The tsunami step and the copying step are the models of their
  code; the other steps are assumed to produce their outputs from the files they read.
\<close>

subsection \<open>What the steps read and leave behind\<close>

definition tmp_outputs :: "string list \<Rightarrow> fs_path list" where
  "tmp_outputs names = map (\<lambda>n. tmp_sibling (under [] n)) names"

fun step_owned :: "string \<Rightarrow> fs_path list" where
  "step_owned name =
     (if name = ''fault_plane'' then tmp_outputs [''pfalla.inp'', ''xyo.dat'', ''meca.dat'']
      else if name = ''deform'' then tmp_outputs [''deform_a.grd'']
      else if name = ''tsunami'' then under [] ''zfolder/_checkpoint.npz'' #
        tmp_outputs [''zfolder/_checkpoint.npz'', ''zfolder/green.dat'', ''zfolder/zmax_a.grd'']
      else if name = ''maxola'' then map (under []) [''depth.cpt'', ''hgt.cpt'']
      else if name = ''point_ttt'' then [under [] ''ttt_mundo/color.cpt'']
      else [])"

fun step_reads :: "string \<Rightarrow> fs_path list" where
  "step_reads name = map (under [])
     (if name = ''fault_plane'' then [''hypo.dat'', ''mecfoc.dat'', ''bathy/xa.dat'', ''bathy/ya.dat'']
      else if name = ''deform'' then [''pfalla.inp'', ''xyo.dat'']
      else if name = ''tsunami'' then [''xyo.dat'', ''tidal.dat'', ''bathy/grid_a.grd'', ''deform_a.grd'']
      else if name = ''maxola'' then [''zfolder/zmax_a.grd'', ''meca.dat'']
      else if name = ''ttt_max'' then [''zfolder/green.dat'']
      else if name = ''ttt_inverso'' then [''meca.dat'', ''ttt_mundo/cortado.i2'']
      else if name = ''point_ttt'' then [''ttt_mundo/cortado.i2'', ''ttt_mundo/ttt.b'', ''meca.dat'']
      else if name = ''copy_ttt_pdf'' then [''ttt_mundo/ttt.pdf'']
      else [])"

text \<open>The outputs of the two modelled steps; \<open>others\<close> gives those of the rest.\<close>

definition tsunami_output :: "libm \<Rightarrow> workspace \<Rightarrow> fs_path \<Rightarrow> content" where
  "tsunami_output m R p =
     (case tsunami_result m R of
        Inl _ \<Rightarrow> Text ''''
      | Inr l \<Rightarrow> if p = GREEN_DAT then Text (green_text (gauge_rows l)) else Text (zmax_text (zmxa l)))"

definition copied_output :: "workspace \<Rightarrow> content" where
  "copied_output R = (case R [''ttt_mundo'', ''ttt.pdf''] of None \<Rightarrow> Text '''' | Some c \<Rightarrow> c)"

definition registry_contract :: "libm \<Rightarrow> (string \<Rightarrow> workspace \<Rightarrow> fs_path \<Rightarrow> content) \<Rightarrow> contract" where
  "registry_contract m others =
     \<lparr> c_owned = (\<lambda>s. set (step_owned (st_name s))), c_reads = (\<lambda>s. set (step_reads (st_name s))),
       c_safe = (\<lambda>s R own. st_name s = ''tsunami'' \<longrightarrow> tsunami_safe m R own),
       c_produce = (\<lambda>s R p. if st_name s = ''tsunami'' then tsunami_output m R p
          else if st_name s = ''copy_ttt_pdf'' then copied_output R else others (st_name s) R p) \<rparr>"

subsection \<open>The steps keep apart\<close>

definition layout :: contract where
  "layout = \<lparr> c_owned = (\<lambda>s. set (step_owned (st_name s))), c_reads = (\<lambda>s. set (step_reads (st_name s))),
     c_safe = (\<lambda>_ _ _. True), c_produce = (\<lambda>_ _ _. Text '''') \<rparr>"

lemma separate_cong:
  assumes "c_owned c = c_owned c'" and "c_reads c = c_reads c'"
  shows "separate c taken ss = separate c' taken ss"
proof (induction ss arbitrary: taken)
  case (Cons s ss)
  have "writes c = writes c'" using assms(1) by (simp add: writes_def [abs_def])
  then show ?case using Cons assms by simp
qed simp

lemma layout_separate:
  "separate layout (set (map (under []) WORKSPACE_INPUTS) \<union> {HYPO_DAT} \<union> set RESULT_FILES) DEFAULT_PIPELINE"
  by code_simp

lemma layout_reads: "\<forall>s \<in> set DEFAULT_PIPELINE. set (step_reads (st_name s)) \<inter> set RESULT_FILES = {}"
  by code_simp

lemma pipeline_distinct: "distinct (map st_name DEFAULT_PIPELINE)"
  by code_simp

lemma registry_well_planned: "well_planned (registry_contract m others) DEFAULT_PIPELINE"
proof -
  have "separate (registry_contract m others) taken ss = separate layout taken ss" for taken ss
    by (rule separate_cong) (simp_all add: registry_contract_def layout_def)
  then show ?thesis
    using layout_separate layout_reads pipeline_distinct
    by (simp add: well_planned_def workspace_inputs_def registry_contract_def distinct_map)
qed


subsection \<open>The modelled steps keep their contracts\<close>

lemma registry_simps:
  "c_owned (registry_contract m others) s = set (step_owned (st_name s))"
  "c_reads (registry_contract m others) s = set (step_reads (st_name s))"
  "c_safe (registry_contract m others) s R own = (st_name s = ''tsunami'' \<longrightarrow> tsunami_safe m R own)"
  by (simp_all add: registry_contract_def)

definition tsunami_step_entry :: step where
  "tsunami_step_entry = DEFAULT_PIPELINE ! 2"

definition copy_step_entry :: step where
  "copy_step_entry = DEFAULT_PIPELINE ! 7"

lemma entries:
  "tsunami_step_entry \<in> set DEFAULT_PIPELINE" "copy_step_entry \<in> set DEFAULT_PIPELINE"
  "st_name tsunami_step_entry = ''tsunami''" "st_name copy_step_entry = ''copy_ttt_pdf''"
  "output_paths tsunami_step_entry = [GREEN_DAT, ZMAX_A]" "output_paths copy_step_entry = [[''ttt.pdf'']]"
  by code_simp+

lemma tsunami_tables:
  "set (step_reads ''tsunami'') = TSUNAMI_READS" "set (step_owned ''tsunami'') = TSUNAMI_FILES"
proof -
  have "step_reads ''tsunami'' = [XYO_DAT, TIDAL_DAT, GRID_A, DEFORM_A]"
    "step_owned ''tsunami'' = [CHECKPOINT, tmp_sibling CHECKPOINT, tmp_sibling GREEN_DAT, tmp_sibling ZMAX_A]"
    by code_simp+
  then show "set (step_reads ''tsunami'') = TSUNAMI_READS" "set (step_owned ''tsunami'') = TSUNAMI_FILES"
    by (auto simp: TSUNAMI_READS_def TSUNAMI_FILES_def CHECKPOINT_FILES_def)
qed

lemma green_not_zmax: "GREEN_DAT \<noteq> ZMAX_A"
  by (simp add: GREEN_DAT_def ZMAX_A_def)

lemma tsunami_honest:
  assumes "te_libm env = m"
  shows "honest (registry_contract m others) tsunami_step_entry (run_tsunami env)"
  unfolding honest_def
proof (intro allI impI)
  fix fs r fs'
  let ?c = "registry_contract m others" and ?s = tsunami_step_entry
  assume "c_safe ?c ?s (fs |` c_reads ?c ?s) (fs |` c_owned ?c ?s)"
  then have safe: "tsunami_safe m fs fs"
    by (simp add: registry_simps entries tsunami_tables tsunami_safe_restrict del: step_reads.simps step_owned.simps)
  assume run: "run_tsunami env fs = (r, fs')"
  note eff = run_tsunami_effect [OF run assms safe]
  have w: "writes ?c ?s = TSUNAMI_FILES \<union> {GREEN_DAT, ZMAX_A}"
    by (auto simp: writes_def registry_simps entries tsunami_tables simp del: step_owned.simps)
  have "c_produce ?c ?s (fs |` c_reads ?c ?s) p = tsunami_output m fs p" for p
    by (simp add: registry_contract_def entries tsunami_tables tsunami_output_def inputs_restrict
        del: step_reads.simps step_owned.simps)
  then show "(\<forall>p. p \<notin> writes ?c ?s \<longrightarrow> fs' p = fs p) \<and>
      c_safe ?c ?s (fs |` c_reads ?c ?s) (fs' |` c_owned ?c ?s) \<and>
      (r = Ret (Inr ()) \<longrightarrow> (\<forall>p \<in> set (output_paths ?s). fs' p = None \<or> fs' p = Some (c_produce ?c ?s (fs |` c_reads ?c ?s) p)))"
    using eff green_not_zmax unfolding w
    by (auto simp: registry_simps entries tsunami_tables tsunami_safe_restrict tsunami_output_def
        simp del: step_reads.simps step_owned.simps)
qed

lemma copy_honest: "honest (registry_contract m others) copy_step_entry (copy_ttt_pdf part)"
proof -
  have "set (step_reads ''copy_ttt_pdf'') = {[''ttt_mundo'', ''ttt.pdf'']}" "step_owned ''copy_ttt_pdf'' = []"
    by code_simp+
  then show ?thesis
    by (auto simp: honest_def copy_ttt_pdf_def writes_def registry_contract_def entries copied_output_def
        simp del: step_reads.simps step_owned.simps split: option.splits)
qed

subsection \<open>Runs of a job\<close>

definition modelled_names :: "string list" where
  "modelled_names = [''tsunami'', ''copy_ttt_pdf'']"

text \<open>
  An attempt at a job: its model files, its hypo.dat, the tsunami step and the copying step as
  modelled (disturbed anywhere), the other steps within their contract, and results written to
  the result files.
\<close>

definition job_attempt ::
  "libm \<Rightarrow> (string \<Rightarrow> workspace \<Rightarrow> fs_path \<Rightarrow> content) \<Rightarrow> workspace \<Rightarrow> string \<Rightarrow> engine_env \<Rightarrow> bool" where
  "job_attempt m others model hypo env \<longleftrightarrow>
     ee_model env = model \<and> ee_torn env = Map.empty \<and> ee_hypo env = hypo \<and>
     (\<exists>tenv. te_libm tenv = m \<and> se_run (ee_steps env ''tsunami'') = run_tsunami tenv) \<and>
     (\<exists>part. se_run (ee_steps env ''copy_ttt_pdf'') = copy_ttt_pdf part) \<and>
     (\<forall>s \<in> set DEFAULT_PIPELINE. st_name s \<notin> set modelled_names \<longrightarrow>
        honest (registry_contract m others) s (se_run (ee_steps env (st_name s)))) \<and>
     (\<forall>fs r fs'. ee_write env fs = (r, fs') \<longrightarrow> (\<forall>p. p \<notin> set RESULT_FILES \<longrightarrow> fs' p = fs p))"

inductive job_history ::
  "(string \<Rightarrow> string) \<Rightarrow> libm \<Rightarrow> (string \<Rightarrow> workspace \<Rightarrow> fs_path \<Rightarrow> content) \<Rightarrow> workspace \<Rightarrow> string \<Rightarrow> workspace \<Rightarrow> bool"
  for sha m others model hypo where
  new: "job_history sha m others model hypo (\<lambda>_. None)"
| attempt: "job_history sha m others model hypo fs \<Longrightarrow> job_attempt m others model hypo env \<Longrightarrow>
    engine_run sha DEFAULT_PIPELINE resume env fs = (r, fs') \<Longrightarrow> job_history sha m others model hypo fs'"

lemma names_unique:
  assumes "s \<in> set DEFAULT_PIPELINE" and "t \<in> set DEFAULT_PIPELINE" and "st_name s = st_name t"
  shows "s = t"
  using pipeline_distinct assms by (simp add: distinct_map inj_on_def)

lemma job_attempt_ok:
  assumes "job_attempt m others model hypo env"
  shows "attempt_ok (registry_contract m others) DEFAULT_PIPELINE model hypo env"
proof -
  have "honest (registry_contract m others) s (se_run (ee_steps env (st_name s)))" if s: "s \<in> set DEFAULT_PIPELINE" for s
  proof (cases "st_name s \<in> set modelled_names")
    case True
    then consider "st_name s = ''tsunami''" | "st_name s = ''copy_ttt_pdf''" by (auto simp: modelled_names_def)
    then show ?thesis
    proof cases
      case 1
      then have "s = tsunami_step_entry" using names_unique [OF s entries(1)] entries(3) by simp
      then show ?thesis using assms tsunami_honest entries(3) by (auto simp: job_attempt_def)
    next
      case 2
      then have "s = copy_step_entry" using names_unique [OF s entries(2)] entries(4) by simp
      then show ?thesis using assms copy_honest entries(4) by (auto simp: job_attempt_def)
    qed
  qed (use assms s in \<open>simp add: job_attempt_def\<close>)
  then show ?thesis using assms by (simp add: job_attempt_def attempt_ok_def)
qed

text \<open>The files of a job's undisturbed run: every step applied once to the base files.\<close>

definition job_files :: "libm \<Rightarrow> (string \<Rightarrow> workspace \<Rightarrow> fs_path \<Rightarrow> content) \<Rightarrow> workspace \<Rightarrow> string \<Rightarrow> workspace" where
  "job_files m others model hypo = ideal (registry_contract m others) DEFAULT_PIPELINE (base_files model hypo)"

lemma tidal_settled: "\<forall>s \<in> set DEFAULT_PIPELINE. TIDAL_DAT \<notin> set (output_paths s)"
  by code_simp

lemma registry_startable:
  assumes "gauges_given model"
  shows "startable (registry_contract m others) DEFAULT_PIPELINE (base_files model hypo)"
proof -
  have "TIDAL_DAT \<in> set (map (under []) WORKSPACE_INPUTS)" by code_simp
  then have "base_files model hypo TIDAL_DAT = model TIDAL_DAT" by (simp add: base_files_def workspace_inputs_def)
  then have "job_files m others model hypo TIDAL_DAT = model TIDAL_DAT"
    unfolding job_files_def using ideal_other tidal_settled by metis
  then have "gauges_given (job_files m others model hypo)" using assms by (simp add: gauges_given_def)
  then have "tsunami_safe m (job_files m others model hypo) Map.empty" by (rule tsunami_safe_fresh) simp
  then have "tsunami_safe m (job_files m others model hypo |` TSUNAMI_READS) (Map.empty |` TSUNAMI_FILES)"
    by (subst tsunami_safe_restrict)
  then show ?thesis
    unfolding startable_def registry_simps job_files_def
    by (auto simp: tsunami_tables simp del: step_reads.simps step_owned.simps)
qed

lemma job_history_worked_on:
  "job_history sha m others model hypo fs \<Longrightarrow> worked_on sha (registry_contract m others) DEFAULT_PIPELINE model hypo fs"
  by (induction rule: job_history.induct) (auto intro: worked_on.intros job_attempt_ok)

text \<open>C17: However often a job's attempts raised, were killed or were resumed, at any point of any step, an
  attempt that returns leaves in every output of every step of the registered pipeline the
  contents an undisturbed run of all steps would have written.\<close>

theorem resumed_job_equals_undisturbed:
  assumes "job_history sha m others model hypo fs" and "gauges_given model" and "job_attempt m others model hypo env"
    and "engine_run sha DEFAULT_PIPELINE resume env fs = (Ret (Inr ()), fs')"
  shows "\<forall>s \<in> set DEFAULT_PIPELINE. \<forall>p \<in> set (output_paths s). fs' p = job_files m others model hypo p"
proof -
  have "between sha (registry_contract m others) DEFAULT_PIPELINE model hypo fs"
    by (rule worked_on_between [OF job_history_worked_on [OF assms(1)] registry_well_planned registry_startable [OF assms(2)]])
  from attempt_keeps_between [OF registry_well_planned registry_startable [OF assms(2)] this job_attempt_ok [OF assms(3)] assms(4)]
  show ?thesis by (simp add: good_outputs_def job_files_def)
qed

text \<open>An attempt that nothing disturbs returns, whatever earlier attempts left in the workspace, resumed
  or not.\<close>

theorem undisturbed_job_returns:
  assumes "job_history sha m others model hypo fs" and "gauges_given model" and "job_attempt m others model hypo env"
    and "undisturbed (registry_contract m others) DEFAULT_PIPELINE (job_files m others model hypo) env"
  shows "\<exists>fs'. engine_run sha DEFAULT_PIPELINE resume env fs = (Ret (Inr ()), fs')"
proof -
  have "between sha (registry_contract m others) DEFAULT_PIPELINE model hypo fs"
    by (rule worked_on_between [OF job_history_worked_on [OF assms(1)] registry_well_planned registry_startable [OF assms(2)]])
  then show ?thesis
    by (rule undisturbed_attempt_returns [OF registry_well_planned registry_startable [OF assms(2)] _
        job_attempt_ok [OF assms(3)] assms(4) [unfolded job_files_def]])
qed


subsection \<open>A job on dry land\<close>

definition dry_others :: "string \<Rightarrow> workspace \<Rightarrow> fs_path \<Rightarrow> content" where
  "dry_others name R p =
     (if p = XYO_DAT then Text ''1 1 1 1'' else if p = DEFORM_A then Text ''0.5'' else Text ''x'')"

definition dry_model :: workspace where
  "dry_model p = (if p \<in> {TIDAL_DAT, GRID_A} then dry_land p else Some (Text ''x''))"

abbreviation dry_contract :: contract where
  "dry_contract \<equiv> registry_contract dry_libm dry_others"

definition write_outputs :: "step \<Rightarrow> workspace \<Rightarrow> unit ending \<times> workspace" where
  "write_outputs s fs = (Ret (Inr ()), \<lambda>p. if p \<in> set (output_paths s)
     then Some (c_produce dry_contract s (fs |` c_reads dry_contract s) p) else fs p)"

text \<open>\<open>tenv\<close> is what happens to the tsunami step.\<close>

definition dry_env :: "tsunami_env \<Rightarrow> engine_env" where
  "dry_env tenv = \<lparr> ee_model = dry_model, ee_torn = Map.empty, ee_which = (\<lambda>_. Some ''x''), ee_resolve = Ret (Inr ()), ee_calculate = Ret (Inr ()),
     ee_hypo = ''h'', ee_hypo_left = (\<lambda>c. c), ee_travel_times = Ret (Inr ()),
     ee_steps = (\<lambda>name. \<lparr> se_run = (if name = ''tsunami'' then run_tsunami tenv
          else if name = ''copy_ttt_pdf'' then copy_ttt_pdf None
          else write_outputs (hd (filter (\<lambda>s. st_name s = name) DEFAULT_PIPELINE))), se_partial = None, se_cut = False \<rparr>),
     ee_progress = (\<lambda>_. Ret (Inr ())), ee_write = (\<lambda>fs. (Ret (Inr ()), fs)) \<rparr>"

lemma entry_by_name: "\<forall>s \<in> set DEFAULT_PIPELINE. hd (filter (\<lambda>t. st_name t = st_name s) DEFAULT_PIPELINE) = s"
  by code_simp

lemma dry_step_run:
  assumes "s \<in> set DEFAULT_PIPELINE" and "st_name s \<notin> set modelled_names"
  shows "se_run (ee_steps (dry_env tenv) (st_name s)) = write_outputs s"
  using assms entry_by_name by (simp add: dry_env_def modelled_names_def)

lemma dry_attempt: "te_libm tenv = dry_libm \<Longrightarrow> job_attempt dry_libm dry_others dry_model ''h'' (dry_env tenv)"
proof -
  assume m: "te_libm tenv = dry_libm"
  have "honest dry_contract s (se_run (ee_steps (dry_env tenv) (st_name s)))"
    if "s \<in> set DEFAULT_PIPELINE" "st_name s \<notin> set modelled_names" for s
    unfolding dry_step_run [OF that] using that(2)
    by (auto simp: honest_def write_outputs_def writes_def registry_simps modelled_names_def
        simp del: step_reads.simps step_owned.simps)
  moreover have "se_run (ee_steps (dry_env tenv) ''tsunami'') = run_tsunami tenv"
    "se_run (ee_steps (dry_env tenv) ''copy_ttt_pdf'') = copy_ttt_pdf None"
    by (simp_all add: dry_env_def)
  moreover have "ee_model (dry_env tenv) = dry_model" "ee_torn (dry_env tenv) = Map.empty" "ee_hypo (dry_env tenv) = ''h''"
    "ee_write (dry_env tenv) = (\<lambda>fs. (Ret (Inr ()), fs))" by (simp_all add: dry_env_def)
  ultimately show ?thesis using m unfolding job_attempt_def by auto
qed

lemma dry_job_inputs: "job_files dry_libm dry_others dry_model ''h'' |` TSUNAMI_READS = dry_land |` TSUNAMI_READS"
proof -
  let ?E = "job_files dry_libm dry_others dry_model ''h''"
  have sol: "solves dry_contract DEFAULT_PIPELINE ?E"
    unfolding job_files_def by (rule ideal_solves [OF registry_well_planned])
  have paths: "XYO_DAT \<in> set (output_paths (DEFAULT_PIPELINE ! 0)) \<and> DEFAULT_PIPELINE ! 0 \<in> set DEFAULT_PIPELINE \<and>
      st_name (DEFAULT_PIPELINE ! 0) \<notin> set modelled_names"
    "DEFORM_A \<in> set (output_paths (DEFAULT_PIPELINE ! 1)) \<and> DEFAULT_PIPELINE ! 1 \<in> set DEFAULT_PIPELINE \<and>
      st_name (DEFAULT_PIPELINE ! 1) \<notin> set modelled_names"
    "\<forall>s \<in> set DEFAULT_PIPELINE. TIDAL_DAT \<notin> set (output_paths s) \<and> GRID_A \<notin> set (output_paths s)"
    "{TIDAL_DAT, GRID_A} \<subseteq> set (map (under []) WORKSPACE_INPUTS)" "XYO_DAT \<noteq> DEFORM_A"
    by code_simp+
  have out: "?E p = Some (dry_others (st_name s) R p)"
    if "p \<in> set (output_paths s) \<and> s \<in> set DEFAULT_PIPELINE \<and> st_name s \<notin> set modelled_names" for p s R
    using sol that by (auto simp: solves_def registry_contract_def modelled_names_def dry_others_def)
  have xyo: "?E XYO_DAT = Some (Text ''1 1 1 1'')" and deform: "?E DEFORM_A = Some (Text ''0.5'')"
    using out [OF paths(1)] out [OF paths(2)] paths(5) by (simp_all add: dry_others_def)
  have "?E p = base_files dry_model ''h'' p" if "p \<in> {TIDAL_DAT, GRID_A}" for p
    unfolding job_files_def using paths(3) that by (intro ideal_other) auto
  then have base: "?E p = dry_land p" if "p \<in> {TIDAL_DAT, GRID_A}" for p
    using that paths(4) by (auto simp: base_files_def workspace_inputs_def dry_model_def)
  have "dry_land XYO_DAT = Some (Text ''1 1 1 1'')" "dry_land DEFORM_A = Some (Text ''0.5'')"
    by (simp_all add: dry_land_def XYO_DAT_def TIDAL_DAT_def GRID_A_def DEFORM_A_def)
  then have "?E p = dry_land p" if "p \<in> TSUNAMI_READS" for p
    using that base xyo deform by (auto simp: TSUNAMI_READS_def)
  then show ?thesis by (auto simp: restrict_map_def fun_eq_iff)
qed

lemma dry_undisturbed:
  "undisturbed dry_contract DEFAULT_PIPELINE (job_files dry_libm dry_others dry_model ''h'') (dry_env (calm dry_libm))"
proof -
  let ?E = "job_files dry_libm dry_others dry_model ''h''" and ?env = "dry_env (calm dry_libm)"
  have "productive dry_contract ?E s (ee_steps ?env (st_name s))" if s: "s \<in> set DEFAULT_PIPELINE" for s
  proof (cases "st_name s \<in> set modelled_names")
    case False
    then show ?thesis using dry_step_run [OF s False, of "calm dry_libm"]
      by (simp add: productive_def write_outputs_def missing_outputs_def dry_env_def filter_empty_conv)
  next
    case True
    then consider "st_name s = ''tsunami''" | "st_name s = ''copy_ttt_pdf''" by (auto simp: modelled_names_def)
    then show ?thesis
    proof cases
      case 1
      then have e: "s = tsunami_step_entry" using names_unique [OF s entries(1)] entries(3) by simp
      have "\<exists>fs'. run_tsunami (calm dry_libm) fs = (Ret (Inr ()), fs') \<and> missing_outputs s fs' = []"
        if safe: "tsunami_safe dry_libm fs fs" and reads: "\<forall>p \<in> TSUNAMI_READS. fs p = ?E p" for fs
      proof -
        have "fs |` TSUNAMI_READS = dry_land |` TSUNAMI_READS"
          using reads unfolding dry_job_inputs [symmetric] by (simp add: restrict_map_def fun_eq_iff)
        then have "tsunami_result dry_libm fs = tsunami_result dry_libm dry_land" using inputs_restrict(4) by metis
        then obtain l where "tsunami_result dry_libm fs = Inr l" using dry_result [of dry_libm] by auto
        then obtain fs' where run: "run_tsunami (calm dry_libm) fs = (Ret (Inr ()), fs')"
          using calm_run_returns safe by blast
        moreover have "te_libm (calm dry_libm) = dry_libm" by (simp add: calm_def)
        ultimately have "fs' GREEN_DAT \<noteq> None" "fs' ZMAX_A \<noteq> None" using run_tsunami_effect [OF run _ safe] by auto
        then show ?thesis using run by (simp add: missing_outputs_def e entries)
      qed
      then show ?thesis
        by (simp add: productive_def registry_simps 1 tsunami_tables tsunami_safe_restrict dry_env_def
            del: step_reads.simps step_owned.simps)
    next
      case 2
      then have e: "s = copy_step_entry" using names_unique [OF s entries(2)] entries(4) by simp
      have pdf: "[''ttt_mundo'', ''ttt.pdf''] \<in> set (output_paths (DEFAULT_PIPELINE ! 6)) \<and> DEFAULT_PIPELINE ! 6 \<in> set DEFAULT_PIPELINE"
        "[''ttt_mundo'', ''ttt.pdf''] \<in> set (step_reads ''copy_ttt_pdf'')"
        by code_simp+
      have "solves dry_contract DEFAULT_PIPELINE ?E"
        unfolding job_files_def by (rule ideal_solves [OF registry_well_planned])
      then have "?E [''ttt_mundo'', ''ttt.pdf''] \<noteq> None" using pdf(1) unfolding solves_def by blast
      then have "\<exists>fs'. copy_ttt_pdf None fs = (Ret (Inr ()), fs') \<and> missing_outputs s fs' = []"
        if reads: "\<forall>p \<in> set (step_reads ''copy_ttt_pdf''). fs p = ?E p" for fs
      proof -
        obtain y where "fs [''ttt_mundo'', ''ttt.pdf''] = Some y"
          using bspec [OF reads pdf(2)] \<open>?E [''ttt_mundo'', ''ttt.pdf''] \<noteq> None\<close> by auto
        then have "copy_ttt_pdf None fs = (Ret (Inr ()), fs([''ttt.pdf''] \<mapsto> y))" by (simp add: copy_ttt_pdf_def)
        then show ?thesis by (simp add: missing_outputs_def e entries)
      qed
      then show ?thesis
        by (simp add: productive_def registry_simps 2 dry_env_def del: step_reads.simps step_owned.simps)
    qed
  qed
  moreover have "ensure_executables (\<lambda>_. Some ''x'') names = Inr ()" for names by (simp add: ensure_executables_def)
  moreover have "\<forall>p \<in> workspace_inputs. dry_model p \<noteq> None"
    by (simp add: dry_model_def dry_land_def TIDAL_DAT_def GRID_A_def XYO_DAT_def DEFORM_A_def)
  ultimately show ?thesis by (simp add: undisturbed_def) (simp add: dry_env_def)
qed

text \<open>A first attempt killed in the tsunami step, a second one resumed.\<close>

abbreviation dry_killed :: workspace where
  "dry_killed \<equiv> snd (engine_run (\<lambda>x. x) DEFAULT_PIPELINE False (dry_env killed_env) (\<lambda>_. None))"

lemma dry_history: "job_history (\<lambda>x. x) dry_libm dry_others dry_model ''h'' dry_killed"
proof (rule job_history.attempt [OF job_history.new])
  show "job_attempt dry_libm dry_others dry_model ''h'' (dry_env killed_env)"
    by (rule dry_attempt) (simp add: killed_env_def calm_def)
qed (rule prod.collapse [symmetric])

lemma dry_gauges_given: "gauges_given dry_model"
  using dry_facts(1) by (simp add: gauges_given_def dry_model_def)

lemma calm_libm: "te_libm (calm m) = m"
  by (simp add: calm_def)

lemma dry_job_returns: "\<exists>fs'. engine_run (\<lambda>x. x) DEFAULT_PIPELINE True (dry_env (calm dry_libm)) dry_killed = (Ret (Inr ()), fs')"
  by (rule undisturbed_attempt_returns [OF registry_well_planned registry_startable [OF dry_gauges_given]
      worked_on_between [OF job_history_worked_on [OF dry_history] registry_well_planned registry_startable [OF dry_gauges_given]]
      job_attempt_ok [OF dry_attempt [OF calm_libm]] dry_undisturbed [unfolded job_files_def]])

lemma resumed_job_equals_undisturbed_witness:
  "\<exists>fs'. engine_run (\<lambda>x. x) DEFAULT_PIPELINE True (dry_env (calm dry_libm)) dry_killed = (Ret (Inr ()), fs') \<and>
     fs' [''ttt.pdf''] = job_files dry_libm dry_others dry_model ''h'' [''ttt.pdf'']"
proof -
  obtain fs' where run: "engine_run (\<lambda>x. x) DEFAULT_PIPELINE True (dry_env (calm dry_libm)) dry_killed = (Ret (Inr ()), fs')"
    using dry_job_returns by blast
  from resumed_job_equals_undisturbed [OF dry_history dry_gauges_given dry_attempt [OF calm_libm] run] entries(2,6) run
  show ?thesis by (metis list.set_intros(1))
qed

lemma undisturbed_job_returns_witness:
  "\<exists>fs'. engine_run (\<lambda>x. x) DEFAULT_PIPELINE True (dry_env (calm dry_libm)) dry_killed = (Ret (Inr ()), fs')"
  by (rule undisturbed_job_returns [OF dry_history dry_gauges_given dry_attempt [OF calm_libm] dry_undisturbed])

end
