(* ===== verification/ModelStoreLaws.thy ===== *)
theory ModelStoreLaws
  imports ModelStore
begin

text \<open>
  Laws of the model store: an installation that returns leaves a valid dataset where a later process
  finds it; one that raises leaves the installed dataset alone, as long as the archive's manifest
  stays inside the archive; what happens when it does not, and when a replacement is interrupted.
\<close>

subsection \<open>Tables of paths\<close>

lemma map_of_rmtree [simp]: "map_of (rmtree p d) q = (if prefix p q then None else map_of d q)"
  unfolding rmtree_def by (induction d) auto

lemma exists_rmtree: "exists_at (rmtree p d) q \<longleftrightarrow> \<not> prefix p q \<and> exists_at d q"
  by (simp add: exists_at_def)

lemma map_of_rekey:
  assumes "\<And>q n. (q, n) \<in> set d \<Longrightarrow> f q = k' \<longleftrightarrow> q = k"
  shows "map_of (map (\<lambda>(q, n). (f q, n)) d) k' = map_of d k"
  using assms by (induction d) (auto, metis+)

lemma map_of_rename:
  assumes "\<forall>q. prefix dst q \<longrightarrow> map_of d q = None"
  shows "map_of (rename_dir src dst d) (dst @ r) = map_of d (src @ r)"
proof -
  have "(if prefix src q then dst @ drop (length src) q else q) = dst @ r \<longleftrightarrow> q = src @ r" if "(q, n) \<in> set d" for q n
  proof -
    have "\<not> prefix dst q" using assms that by (metis map_of_eq_None_iff fst_conv image_eqI)
    then show ?thesis by (auto elim!: prefixE)
  qed
  then show ?thesis unfolding rename_dir_def by (rule map_of_rekey)
qed

lemma map_of_mkdirs:
  "\<not> prefix q p \<Longrightarrow> map_of (mkdirs p d) q = map_of d q"
proof -
  have "map_of (foldl (\<lambda>d q. if exists_at d q then d else (q, Dir) # d) d qs) q = map_of d q" if "q \<notin> set qs" for qs
    using that by (induction qs arbitrary: d) auto
  then show "\<not> prefix q p \<Longrightarrow> map_of (mkdirs p d) q = map_of d q" by (simp add: mkdirs_def in_set_prefixes)
qed

lemma required_paths:
  "n \<in> set REQUIRED_MODEL_DIRS \<union> set REQUIRED_MODEL_FILES \<Longrightarrow> \<exists>r. r \<noteq> [] \<and> (\<forall>p. join_path p n = p @ r)"
  by (auto simp: REQUIRED_MODEL_DIRS_def REQUIRED_MODEL_FILES_def join_path_def)

lemma missing_cong:
  assumes "\<And>r. r \<noteq> [] \<Longrightarrow> map_of d (p @ r) = map_of d' (p' @ r)"
  shows "missing_model_entries d p = missing_model_entries d' p'"
proof -
  have "map_of d (join_path p n) = map_of d' (join_path p' n)" if "n \<in> set REQUIRED_MODEL_DIRS \<union> set REQUIRED_MODEL_FILES" for n
    using required_paths [OF that] assms by auto
  then show ?thesis
    by (auto simp: missing_model_entries_def is_dir_def is_file_def intro!: arg_cong2 [where f = append] arg_cong [where f = "map _"] filter_cong)
qed

lemma validate_iff: "validate_model_dir d p = Inr q \<longleftrightarrow> missing_model_entries d p = [] \<and> q = p"
  by (auto simp: validate_model_dir_def)

lemma valid_not_empty: "missing_model_entries d p = [] \<Longrightarrow> \<exists>r. map_of d (p @ r) \<noteq> None \<and> r \<noteq> []"
proof -
  assume "missing_model_entries d p = []"
  then have "\<forall>n \<in> set REQUIRED_MODEL_DIRS. is_dir d (join_path p n)"
    by (simp add: missing_model_entries_def filter_empty_conv)
  then have "is_dir d (join_path p ''bathy'')" by (simp add: REQUIRED_MODEL_DIRS_def)
  then have "map_of d (p @ [''bathy'']) \<noteq> None" by (simp add: is_dir_def join_path_def)
  then show ?thesis by blast
qed

lemma staging_apart:
  assumes "target \<noteq> []"
  shows "\<not> prefix (staging_dir target) (target @ r)" and "\<not> prefix target (staging_dir target @ r)"
proof -
  have len: "length (staging_dir target) = length target" using assms by (simp add: staging_dir_def)
  have "last (staging_dir target) \<noteq> last target"
  proof
    assume "last (staging_dir target) = last target"
    then have "length (CHR ''.'' # last target @ ''.tmp'') = length (last target)" by (simp add: staging_dir_def)
    then show False by simp
  qed
  then have "staging_dir target \<noteq> target" by auto
  then show "\<not> prefix (staging_dir target) (target @ r)" "\<not> prefix target (staging_dir target @ r)"
    using len by (auto simp: prefix_append prefix_def dest: arg_cong [where f = length])
qed


subsection \<open>A successful installation\<close>

lemma found_root_valid:
  assumes "find_model_root parse d p = Inr origin"
  shows "missing_model_entries d origin = []"
proof (cases "missing_model_entries d p = [] \<or> length (child_dirs d p) = 1 \<and> missing_model_entries d (hd (child_dirs d p)) = []")
  case True
  then show ?thesis using assms by (auto simp: find_model_root_def Let_def split: if_splits)
next
  case False
  then have "(case map_of d (p @ [''manifest.json'']) of
      Some (File text) \<Rightarrow> bind_ok (parse text) (\<lambda>found. case found of None \<Rightarrow> Inl no_dataset
        | Some m \<Rightarrow> if missing_model_entries d (join_path p m) = [] then Inr (join_path p m) else Inl no_dataset)
      | _ \<Rightarrow> Inl no_dataset) = Inr origin"
    using assms by (auto simp: find_model_root_def Let_def split: if_splits)
  then show ?thesis by (auto simp: bind_ok_def split: option.splits node.splits if_splits sum.splits)
qed

lemma extraction_result:
  assumes "extract_model_archive src fault archive target d = (Inr u, d')" and "target \<noteq> []"
  shows "missing_model_entries d' target = []" and "exists_at d' target"
proof -
  obtain entries uf where unp: "unpack src archive = (entries, uf)" by fastforce
  define d2 where "d2 = unpacked_at (staging_dir target) entries @ mkdirs (staging_dir target) (rmtree (staging_dir target) d)"
  define d3 where "d3 = rmtree target d2"
  have "extract_model_archive src fault archive target d =
      (case uf of Some e \<Rightarrow> (Inl e, d2) | None \<Rightarrow>
        (case find_model_root (manifest_root src) d2 (staging_dir target) of Inl e \<Rightarrow> (Inl e, d2) | Inr origin \<Rightarrow>
          if fault \<noteq> None then (Inl (the fault), d3) else if \<not> is_dir d3 origin then (Inl (FileNotFoundError ''''), d3)
          else if prefix origin target then (Inl OSError, d3) else (Inr (), rmtree (staging_dir target) (rename_dir origin target d3))))"
    unfolding extract_model_archive_def Let_def unp prod.case d2_def [symmetric] d3_def [symmetric] by (rule refl)
  with assms(1) obtain origin where found: "find_model_root (manifest_root src) d2 (staging_dir target) = Inr origin"
    and renamed: "(if fault \<noteq> None then (Inl (the fault), d3) else if \<not> is_dir d3 origin then (Inl (FileNotFoundError ''''), d3)
      else if prefix origin target then (Inl OSError, d3) else (Inr (), rmtree (staging_dir target) (rename_dir origin target d3))) = (Inr u, d')"
    by (auto split: option.splits sum.splits)
  then have origin: "is_dir d3 origin" "\<not> prefix origin target" and d': "d' = rmtree (staging_dir target) (rename_dir origin target d3)"
    by (simp_all split: if_splits)
  have valid: "missing_model_entries d2 origin = []" using found by (rule found_root_valid)
  have "\<not> prefix target origin" using origin(1) by (auto simp: is_dir_def d3_def)
  then have apart: "\<not> prefix target (origin @ r)" for r
    using \<open>\<not> prefix target origin\<close> origin(2) prefix_same_cases [of target "origin @ r" origin] by auto
  have free: "\<forall>q. prefix target q \<longrightarrow> map_of d3 q = None" by (simp add: d3_def)
  have moved: "map_of d' (target @ r) = map_of d2 (origin @ r)" for r
    using map_of_rename [OF free, of origin r] staging_apart(1) [OF assms(2)] apart by (simp add: d' d3_def)
  then show "missing_model_entries d' target = []" using valid missing_cong [of d' target d2 origin] by simp
  show "exists_at d' target" using moved [of "[]"] origin(1) by (simp add: exists_at_def is_dir_def d3_def split: if_splits)
qed


text \<open>C30: An installation that returns leaves a complete dataset at the place it names, which a process
  then finds as the installed dataset of that version and \<open>status\<close> reports as installed; an
  installed version is not downloaded again unless forced.\<close>

theorem installed_dataset_is_found:
  assumes "install src repository fault base version url digest force d = (Inr dataset, d')"
    and "dataset_dir base version \<noteq> []"
  shows "ds_path dataset = dataset_dir base version \<and> missing_model_entries d' (dataset_dir base version) = [] \<and>
    resolve_installed d' base version = Inr (Some dataset) \<and> store_status d' base version = (True, []) \<and>
    (exists_at d (dataset_dir base version) \<and> \<not> force \<longrightarrow> d' = d)"
proof -
  let ?t = "dataset_dir base version"
  have dataset: "dataset = \<lparr> ds_version = version, ds_path = ?t, ds_managed = True \<rparr>"
    and valid: "missing_model_entries d' ?t = [] \<and> exists_at d' ?t"
    and same: "exists_at d ?t \<and> \<not> force \<longrightarrow> d' = d"
    using assms(1) extraction_result [OF _ assms(2)]
    by (auto simp: install_def Let_def validate_model_dir_def split: if_splits sum.splits prod.splits)
  then show ?thesis by (simp add: resolve_installed_def store_status_def validate_model_dir_def Let_def)
qed

definition sample_entries :: disk where
  "sample_entries = ([], Dir) # map (\<lambda>n. ([n], Dir)) REQUIRED_MODEL_DIRS @
     map (\<lambda>n. (join_path [] n, File n)) REQUIRED_MODEL_FILES"

definition sample_source :: source where
  "sample_source = \<lparr> fetch = (\<lambda>url. Inr url), sha256 = (\<lambda>s. ''digest''), unpack = (\<lambda>s. (sample_entries, None)),
     manifest_root = (\<lambda>s. Inr None) \<rparr>"

lemma installed_dataset_is_found_witness:
  "\<exists>dataset d'. install sample_source ''a/b'' None [''data''] ''1.0'' None (Some ''digest'') False [] = (Inr dataset, d') \<and>
     resolve_installed d' [''data''] ''1.0'' = Inr (Some dataset) \<and> store_status d' [''data''] ''1.0'' = (True, [])"
proof -
  have "is_ok (fst (install sample_source ''a/b'' None [''data''] ''1.0'' None (Some ''digest'') False []))" by code_simp
  then obtain dataset d' where run: "install sample_source ''a/b'' None [''data''] ''1.0'' None (Some ''digest'') False [] = (Inr dataset, d')"
    by (cases "install sample_source ''a/b'' None [''data''] ''1.0'' None (Some ''digest'') False []"; cases "fst (install sample_source ''a/b'' None [''data''] ''1.0'' None (Some ''digest'') False [])") auto
  moreover have "dataset_dir [''data''] ''1.0'' \<noteq> []" by code_simp
  ultimately show ?thesis using installed_dataset_is_found [OF run] by blast
qed

subsection \<open>An installation that fails\<close>

text \<open>What an unpacked archive looks like on a disk: its root is a directory, and every entry sits in one.\<close>

definition tree_ok :: "disk \<Rightarrow> bool" where
  "tree_ok entries \<longleftrightarrow> list_all (\<lambda>(q, n). if q = [] then n = Dir else butlast q = [] \<or> is_dir entries (butlast q)) entries"

lemma map_of_unpacked [simp]: "map_of (unpacked_at s entries) (s @ q) = map_of entries q"
  by (induction entries) (auto simp: unpacked_at_def)

lemma map_of_unpacked_other [simp]: "\<not> prefix s q \<Longrightarrow> map_of (unpacked_at s entries) q = None"
  by (induction entries) (auto simp: unpacked_at_def)

lemma mkdirs_dir: "map_of d p = None \<Longrightarrow> is_dir (mkdirs p d) p"
proof -
  have "map_of (foldl (\<lambda>d q. if exists_at d q then d else (q, Dir) # d) d qs) p = Some Dir"
    if "map_of d p = None \<and> p \<in> set qs \<or> map_of d p = Some Dir" for qs
    using that
  proof (induction qs arbitrary: d)
    case (Cons q qs)
    have "map_of (if exists_at d q then d else (q, Dir) # d) p = None \<and> p \<in> set qs \<or>
        map_of (if exists_at d q then d else (q, Dir) # d) p = Some Dir"
      using Cons.prems by (auto simp: exists_at_def)
    from Cons.IH [OF this] show ?case by simp
  qed simp
  then show "map_of d p = None \<Longrightarrow> is_dir (mkdirs p d) p" by (simp add: mkdirs_def is_dir_def)
qed

lemma parent_is_dir:
  assumes "tree_ok entries" and "map_of d s = Some Dir" and "\<And>r. r \<noteq> [] \<Longrightarrow> map_of d (s @ r) = None"
    and "map_of (unpacked_at s entries @ d) (s @ q @ [x]) \<noteq> None"
  shows "is_dir (unpacked_at s entries @ d) (s @ q)"
proof -
  obtain n where "map_of entries (q @ [x]) = Some n"
    using assms(3) [of "q @ [x]"] assms(4) by (auto simp: map_add_def split: option.splits)
  then have "(q @ [x], n) \<in> set entries" by (rule map_of_SomeD)
  then have parent: "q = [] \<or> is_dir entries q" using assms(1) by (auto simp: tree_ok_def list_all_iff)
  have "n' = Dir" if "map_of entries [] = Some n'" for n'
    using map_of_SomeD [OF that] assms(1) by (auto simp: tree_ok_def list_all_iff)
  moreover have "map_of (unpacked_at s entries @ d) (s @ q) = (case map_of entries q of None \<Rightarrow> map_of d (s @ q) | Some n \<Rightarrow> Some n)"
    by (simp add: map_add_def)
  ultimately show ?thesis using parent assms(2) by (cases "map_of entries q") (auto simp: is_dir_def)
qed

lemma found_root_inside:
  assumes "find_model_root parse d p = Inr origin"
    and "\<And>text m. parse text = Inr (Some m) \<Longrightarrow> prefix p (join_path p m)"
  shows "prefix p origin"
proof (cases "missing_model_entries d p = [] \<or> length (child_dirs d p) = 1 \<and> missing_model_entries d (hd (child_dirs d p)) = []")
  case True
  moreover have "prefix p (hd (child_dirs d p))" if "length (child_dirs d p) = 1"
  proof -
    have "hd (child_dirs d p) \<in> set (child_dirs d p)" using that by (cases "child_dirs d p") auto
    then have "butlast (hd (child_dirs d p)) = p" unfolding child_dirs_def by simp
    then show ?thesis by (metis prefixeq_butlast)
  qed
  ultimately show ?thesis using assms(1) by (auto simp: find_model_root_def Let_def split: if_splits)
next
  case False
  then show ?thesis using assms by (auto simp: find_model_root_def Let_def bind_ok_def split: if_splits option.splits node.splits sum.splits)
qed

lemma extraction_error:
  assumes "extract_model_archive src None archive target d = (Inl e, d')" and "target \<noteq> []"
    and "tree_ok (fst (unpack src archive))"
    and inside: "\<And>text m. manifest_root src text = Inr (Some m) \<Longrightarrow> prefix (staging_dir target) (join_path (staging_dir target) m)"
  shows "map_of d' (target @ r) = map_of d (target @ r)"
proof -
  let ?s = "staging_dir target"
  obtain entries uf where unp: "unpack src archive = (entries, uf)" by fastforce
  define d1 where "d1 = mkdirs ?s (rmtree ?s d)"
  define d2 where "d2 = unpacked_at ?s entries @ d1"
  have "\<not> prefix (target @ r) ?s"
    using staging_apart(2) [OF assms(2), of "[]"] by (metis append_Nil2 prefix_order.trans prefixI)
  then have d1_target: "map_of d1 (target @ r) = map_of d (target @ r)"
    using staging_apart(1) [OF assms(2)] by (simp add: d1_def map_of_mkdirs)
  have d1: "map_of d1 ?s = Some Dir" "\<And>q. q \<noteq> [] \<Longrightarrow> map_of d1 (?s @ q) = None"
    using mkdirs_dir [of "rmtree ?s d" ?s] by (simp_all add: d1_def is_dir_def map_of_mkdirs)
  have keep: "map_of d2 (target @ r) = map_of d (target @ r)"
    using staging_apart(1) [OF assms(2)] d1_target by (simp add: d2_def map_add_def)
  have found: "is_dir (rmtree target d2) origin \<and> \<not> prefix origin target"
    if "find_model_root (manifest_root src) d2 ?s = Inr origin" for origin
  proof -
    have "prefix ?s origin" using that by (rule found_root_inside) (rule inside)
    then obtain q where q: "origin = ?s @ q" by (rule prefixE)
    have apart: "\<not> prefix origin target" "\<not> prefix target origin"
      using staging_apart [OF assms(2)] q by (metis append_Nil2 prefix_order.trans prefixI, blast)
    have "is_dir d2 (join_path origin ''bathy'')"
      using found_root_valid [OF that] by (simp add: missing_model_entries_def REQUIRED_MODEL_DIRS_def split: if_splits)
    then have "map_of d2 (?s @ q @ [''bathy'']) \<noteq> None" by (simp add: is_dir_def join_path_def q)
    then have "is_dir d2 origin"
      using parent_is_dir [of entries d1 ?s q "''bathy''"] d1 assms(3) unp by (auto simp: d2_def q)
    then show ?thesis using apart by (simp add: is_dir_def)
  qed
  have "extract_model_archive src None archive target d =
      (case uf of Some e \<Rightarrow> (Inl e, d2) | None \<Rightarrow>
        (case find_model_root (manifest_root src) d2 ?s of Inl e \<Rightarrow> (Inl e, d2) | Inr origin \<Rightarrow>
          if None \<noteq> (None :: exn option) then (Inl (the None), rmtree target d2)
          else if \<not> is_dir (rmtree target d2) origin then (Inl (FileNotFoundError ''''), rmtree target d2)
          else if prefix origin target then (Inl OSError, rmtree target d2) else (Inr (), rmtree ?s (rename_dir origin target (rmtree target d2)))))"
    unfolding extract_model_archive_def Let_def unp prod.case d2_def [symmetric] d1_def [symmetric] by (rule refl)
  then have "d' = d2" using assms(1) found by (auto split: option.splits sum.splits)
  then show ?thesis using keep by simp
qed

lemma install_cases:
  assumes "install src repository fault base version url digest force d = (Inl e, d')"
  obtains "d' = d" | "d' = mkdirs (butlast (dataset_dir base version)) (mkdirs base d)"
    | archive where "extract_model_archive src fault archive (dataset_dir base version)
        (mkdirs (butlast (dataset_dir base version)) (mkdirs base d)) = (Inl e, d')"
    | archive u where "extract_model_archive src fault archive (dataset_dir base version)
        (mkdirs (butlast (dataset_dir base version)) (mkdirs base d)) = (Inr u, d')" "missing_model_entries d' (dataset_dir base version) \<noteq> []"
  using assms unfolding install_def Let_def validate_model_dir_def
  by (auto split: if_splits sum.splits prod.splits simp: map_sum_def)

text \<open>An installation that raises - no HTTPS, a failed download, a wrong digest, a broken archive, one
  that holds no dataset, also with \<open>force\<close> - leaves the files of the installed dataset as they were, when
  the manifest names a directory of the archive and the final rename works.\<close>

theorem failed_install_keeps_the_dataset:
  assumes "install src repository None base version url digest force d = (Inl e, d')"
    and "strict_prefix base (dataset_dir base version)"
    and "\<forall>archive. tree_ok (fst (unpack src archive))"
    and "\<forall>text m. manifest_root src text = Inr (Some m) \<longrightarrow>
      prefix (staging_dir (dataset_dir base version)) (join_path (staging_dir (dataset_dir base version)) m)"
  shows "map_of d' (dataset_dir base version @ r) = map_of d (dataset_dir base version @ r)"
proof -
  let ?t = "dataset_dir base version" and ?d0 = "mkdirs (butlast (dataset_dir base version)) (mkdirs base d)"
  have t: "?t \<noteq> []" using assms(2) by auto
  have "\<not> prefix (?t @ r) (butlast ?t)" "\<not> prefix (?t @ r) base"
    using prefix_length_less [OF assms(2)] t by (auto dest: prefix_length_le)
  then have d0: "map_of ?d0 (?t @ r) = map_of d (?t @ r)" by (simp add: map_of_mkdirs)
  show ?thesis
  proof (rule install_cases [OF assms(1)])
    fix archive assume run: "extract_model_archive src None archive ?t ?d0 = (Inl e, d')"
    have tree: "tree_ok (fst (unpack src archive))" using assms(3) by simp
    have "map_of d' (?t @ r) = map_of ?d0 (?t @ r)"
      by (rule extraction_error [OF run t tree]) (rule assms(4) [rule_format])
    then show ?thesis using d0 by (rule trans)
  next
    fix archive u assume "extract_model_archive src None archive ?t ?d0 = (Inr u, d')" "missing_model_entries d' ?t \<noteq> []"
    then show ?thesis using extraction_result(1) [OF _ t] by blast
  qed (simp_all add: d0)
qed

definition broken_source :: source where
  "broken_source = sample_source \<lparr> unpack := (\<lambda>s. (take 5 sample_entries, None)) \<rparr>"

lemma failed_install_keeps_the_dataset_witness:
  "\<exists>e d'. install broken_source ''a/b'' None [''data''] ''1.0'' None None True [([''data'', ''models'', ''1.0'', ''maper1.mat''], File ''m'')] = (Inl e, d') \<and>
     map_of d' [''data'', ''models'', ''1.0'', ''maper1.mat''] = Some (File ''m'')"
proof -
  let ?i = "install broken_source ''a/b'' None [''data''] ''1.0'' None None True [([''data'', ''models'', ''1.0'', ''maper1.mat''], File ''m'')]"
  have "\<not> is_ok (fst ?i)" by code_simp
  then obtain e d' where run: "?i = (Inl e, d')" by (cases ?i; cases "fst ?i") auto
  moreover have "dataset_dir [''data''] ''1.0'' = [''data'', ''models'', ''1.0'']" by code_simp
  moreover have "tree_ok (take 5 sample_entries)" by code_simp
  ultimately show ?thesis
    using failed_install_keeps_the_dataset [OF run, of "[''maper1.mat'']"]
    by (auto simp: strict_prefix_def broken_source_def sample_source_def)
qed


subsection \<open>Where the code falls short\<close>

text \<open>C0: A directory that is there but incomplete - what a replacement leaves that was killed while it removed
  the old dataset - is never repaired by a later call: resolving it and installing without \<open>force\<close>
  raise and change nothing, although \<open>status\<close> says that the version is not installed.\<close>

theorem incomplete_dataset_blocks_installation:
  assumes "exists_at d (dataset_dir base version)" and "missing_model_entries d (dataset_dir base version) \<noteq> []"
  shows "\<exists>e. install src repository fault base version url digest False d = (Inl e, d) \<and>
    resolve_installed d base version = Inl e \<and>
    resolve_model_dir d base package None None (Some version) = (if version = '''' then resolve_model_dir d base package None None None else Inl e) \<and>
    \<not> fst (store_status d base version)"
  using assms by (simp add: install_def resolve_installed_def resolve_model_dir_def store_status_def validate_model_dir_def Let_def)

lemma incomplete_dataset_blocks_installation_witness:
  "\<exists>e. install sample_source ''a/b'' None [''data''] ''1.0'' None None False [([''data'', ''models'', ''1.0''], Dir)] =
     (Inl e, [([''data'', ''models'', ''1.0''], Dir)])"
proof -
  have "exists_at [([''data'', ''models'', ''1.0''], Dir)] (dataset_dir [''data''] ''1.0'')" by code_simp
  moreover have "missing_model_entries [([''data'', ''models'', ''1.0''], Dir)] (dataset_dir [''data''] ''1.0'') \<noteq> []" by code_simp
  ultimately show ?thesis using incomplete_dataset_blocks_installation by blast
qed

definition foreign_source :: source where
  "foreign_source = sample_source \<lparr> unpack := (\<lambda>s. ([([], Dir), ([''manifest.json''], File ''m'')], None)),
     manifest_root := (\<lambda>s. Inr (Some ''/srv/grids'')) \<rparr>"

text \<open>A manifest may name any directory of the machine: an archive with nothing but a manifest that names
  \<open>/srv/grids\<close>, where another dataset is, installs that dataset and takes it away from there.\<close>

theorem manifest_may_move_a_foreign_directory:
  "\<exists>dataset d'. install foreign_source ''a/b'' None [''data''] ''1.0'' None None False
       (map (\<lambda>(q, n). (''srv'' # ''grids'' # q, n)) sample_entries) = (Inr dataset, d') \<and>
     missing_model_entries d' [''data'', ''models'', ''1.0''] = [] \<and> \<not> exists_at d' [''srv'', ''grids'']"
proof -
  let ?i = "install foreign_source ''a/b'' None [''data''] ''1.0'' None None False (map (\<lambda>(q, n). (''srv'' # ''grids'' # q, n)) sample_entries)"
  have "is_ok (fst ?i) \<and> missing_model_entries (snd ?i) [''data'', ''models'', ''1.0''] = [] \<and> \<not> exists_at (snd ?i) [''srv'', ''grids'']"
    by code_simp
  then show ?thesis by (cases ?i; cases "fst ?i") auto
qed

end
