(* ===== verification/Cli.thy ===== *)
theory Cli
  imports CalculatorLaws ModelStoreLaws
begin

text \<open>
  The command line (tsdhn/cli/main.py) and the external tools it reports (tsdhn/runtime.py): the exit
  status of \<open>run\<close> and \<open>calc\<close>, the rows of \<open>doctor\<close>, the level of the log. Printing, the search path and
  the tools' answers are arguments.
\<close>

subsection \<open>External tools\<close>

record capability_status =
  cs_available :: bool
  cs_version :: "string option"
  cs_path :: "string option"
  cs_detail :: "string option"

definition SYSTEM_EXECUTABLES :: "string list" where "SYSTEM_EXECUTABLES = [''gmt'', ''ttt_client'']"

text \<open>The command whose output names the version; \<open>subprocess.run\<close> answers stdout and stderr, or raises.\<close>

definition version_command :: "string \<Rightarrow> string list" where
  "version_command name = (if name = ''ttt_client'' then [name] else [name, ''--version''])"

definition read_tool_version :: "(string list \<Rightarrow> exn + string \<times> string) \<Rightarrow> string \<Rightarrow> string option" where
  "read_tool_version tool name =
     (case tool (version_command name) of
        Inl e \<Rightarrow> None
      | Inr (stdout, stderr) \<Rightarrow>
          (let output = strip_by is_space (if stdout \<noteq> '''' then stdout else stderr)
           in if output = '''' then None else Some (hd (splitlines output))))"

definition check_executable :: "(string \<rightharpoonup> string) \<Rightarrow> (string list \<Rightarrow> exn + string \<times> string) \<Rightarrow> string \<Rightarrow> capability_status" where
  "check_executable which tool name =
     (case which name of
        None \<Rightarrow> \<lparr> cs_available = False, cs_version = None, cs_path = None, cs_detail = Some (name @ '' was not found on PATH'') \<rparr>
      | Some p \<Rightarrow> \<lparr> cs_available = True, cs_version = read_tool_version tool name, cs_path = Some p, cs_detail = None \<rparr>)"

definition check_capabilities :: "(string \<rightharpoonup> string) \<Rightarrow> (string list \<Rightarrow> exn + string \<times> string) \<Rightarrow> (string \<times> capability_status) list" where
  "check_capabilities which tool = map (\<lambda>name. (name, check_executable which tool name)) SYSTEM_EXECUTABLES"

subsection \<open>Options\<close>

definition upper_char :: "char \<Rightarrow> char" where
  "upper_char c = (let n = (of_char c :: nat) in if 97 \<le> n \<and> n \<le> 122 then char_of (n - 32) else c)"

definition level_names :: "(string \<times> nat) list" where
  "level_names = [(''CRITICAL'', 50), (''FATAL'', 50), (''ERROR'', 40), (''WARN'', 30), (''WARNING'', 30), (''INFO'', 20), (''DEBUG'', 10), (''NOTSET'', 0)]"

definition resolve_log_level :: "bool \<Rightarrow> string option \<Rightarrow> nat" where
  "resolve_log_level verbose env =
     (if verbose then 10
      else case map_of level_names (map upper_char (case env of None \<Rightarrow> ''INFO'' | Some v \<Rightarrow> v)) of Some n \<Rightarrow> n | None \<Rightarrow> 20)"

text \<open>\<open>_build_input\<close>: the options are numbers and texts, so the validators only rewrite them.\<close>

definition build_input :: "real \<Rightarrow> real \<Rightarrow> real \<Rightarrow> real \<Rightarrow> string \<Rightarrow> string \<Rightarrow> earthquake_input" where
  "build_input mw h lat lon time day =
     \<lparr> Mw = mw, depth_h = h, lat0 = lat, lon0 = convert_longitude lon, dia = Some day, hhmm = Some (validate_time time) \<rparr>"

subsection \<open>Commands\<close>

text \<open>\<open>run\<close>: what \<open>run_simulation\<close> raises decides the exit status.\<close>

definition run_exit :: "exn + 'a \<Rightarrow> nat" where
  "run_exit result = (case result of Inr _ \<Rightarrow> 0 | Inl (ValueError _) \<Rightarrow> 2 | Inl _ \<Rightarrow> 1)"

definition progress_text :: "string \<Rightarrow> (nat \<times> nat) option \<Rightarrow> string" where
  "progress_text message step =
     (case step of None \<Rightarrow> message | Some (i, n) \<Rightarrow> ''['' @ decimal i @ ''/'' @ decimal n @ ''] '' @ message)"

text \<open>\<open>calc\<close>: the rows of the arrival table; an exception ends the process with status 1.\<close>

definition calc_rows :: "calculator \<Rightarrow> string \<Rightarrow> exn option \<Rightarrow> earthquake_input \<Rightarrow> exn + (string \<times> string \<times> string) list" where
  "calc_rows calc month disk_fault eq =
     bind_ok (fst (calculate_earthquake_parameters calc disk_fault eq (\<lambda>p. None))) (\<lambda>_.
     bind_ok (calculate_tsunami_travel_times calc month eq) (\<lambda>travel.
       Inr (map (\<lambda>(port, eta).
         (port, eta, fixed_body 1 (case map_of (distances travel) port of Some km \<Rightarrow> km | None \<Rightarrow> 0))) (arrival_times travel))))"

text \<open>\<open>doctor\<close>: the model's row, then one for each tool; \<open>shown\<close> writes an exception, \<open>path_text\<close> a path.\<close>

definition doctor ::
  "(exn \<Rightarrow> string) \<Rightarrow> (fs_path \<Rightarrow> string) \<Rightarrow> exn + fs_path \<times> string \<Rightarrow> (string \<times> capability_status) list \<Rightarrow> (string \<times> string \<times> string) list" where
  "doctor shown path_text resolved capabilities =
     (case resolved of
        Inr (p, version) \<Rightarrow> (''model'', ''available'', path_text p)
      | Inl e \<Rightarrow> (''model'', ''missing'', shown e)) #
     map (\<lambda>(name, c).
       (name, if cs_available c then ''available'' else ''missing'',
        (case (cs_version c, cs_path c, cs_detail c) of
           (Some v, p, d) \<Rightarrow> v | (None, Some p, d) \<Rightarrow> p | (None, None, Some d) \<Rightarrow> d | (None, None, None) \<Rightarrow> ''''))) capabilities"

subsection \<open>Laws\<close>

lemma exit_status: "run_exit r = 0 \<longleftrightarrow> is_ok r" "run_exit r = 2 \<longleftrightarrow> (\<exists>m. r = Inl (ValueError m))"
  by (auto simp: run_exit_def is_ok_def split: sum.splits exn.splits)

lemma calculation_raises:
  "fst (calculate_earthquake_parameters calc disk_fault eq fs) = Inl e \<Longrightarrow> e = calculation_error"
  unfolding calculate_earthquake_parameters_def Let_def prod.case_distrib [of fst] sum.case_distrib [of fst] if_distrib [of fst] fst_conv
  by (simp split: prod.splits sum.splits if_splits)

lemma travel_raises: "calculate_tsunami_travel_times calc month eq = Inl e \<Longrightarrow> e = travel_error"
  by (simp add: calculate_tsunami_travel_times_def split: option.splits prod.splits)

text \<open>No parameters of an earthquake are ever reported as invalid by \<open>run\<close>: whatever the options are, the input
  model accepts them, and what either calculation raises is a \<open>RuntimeError\<close>, so that the process ends with
  status 1. Status 2 is left for a \<open>ValueError\<close> from elsewhere, such as a file of the model or of a step
  that cannot be read.\<close>

theorem parameters_are_never_reported_invalid:
  "run_exit (fst (calculate_earthquake_parameters calc disk_fault (build_input mw h lat lon time day) fs)) \<in> {0, 1} \<and>
   run_exit (calculate_tsunami_travel_times calc month (build_input mw h lat lon time day)) \<in> {0, 1} \<and>
   run_exit (calc_rows calc month disk_fault (build_input mw h lat lon time day)) \<in> {0, 1} \<and>
   (run_exit r = 2) = (\<exists>m. r = Inl (ValueError m))"
proof -
  have two: "run_exit q \<in> {0, 1}" if "\<And>e. q = Inl e \<Longrightarrow> e = calculation_error \<or> e = travel_error" for q :: "exn + 'q"
    using that by (cases q) (auto simp: run_exit_def calculation_error_def travel_error_def)
  have rows: "e = calculation_error \<or> e = travel_error" if "calc_rows calc month disk_fault eq = Inl e" for eq e
    using that calculation_raises [of calc disk_fault eq] travel_raises [of calc month eq]
    by (auto simp: calc_rows_def bind_ok_def split: sum.splits)
  show ?thesis
    using calculation_raises travel_raises rows by (intro conjI two exit_status(2)) blast+
qed

end
