(* ===== verification/ParityHarness.thy ===== *)
theory ParityHarness
  imports PyText Errors "HOL-Library.AList"
begin

text \<open>
  The parity harness (tsdhn_parity): the generation of test cases (cases.py) and the comparison of the
  checkpoints of two traces (compare.py, trace.py, pytest_plugin.py). Parameter values are of any
  type whose equality is Python's; a set is a list without repetitions, and the order in which a set
  gives its elements is an argument (\<open>pick\<close>).
\<close>

subsection \<open>Cases\<close>

record 'v parity_case =
  case_id :: string
  case_params :: "(string \<times> 'v) list"

type_synonym 'v pair_key = "nat \<times> 'v \<times> nat \<times> 'v"

text \<open>\<open>shown\<close> is the text of a value in an f-string.\<close>

definition case_from_values :: "('v \<Rightarrow> string) \<Rightarrow> string list \<Rightarrow> 'v list \<Rightarrow> 'v parity_case" where
  "case_from_values shown names values =
     \<lparr> case_id = concat (map (\<lambda>(i, n, v). (if i = 0 then '''' else ''_'') @ n @ ''='' @ shown v)
          (zip [0..<length names] (zip names values))),
       case_params = zip names values \<rparr>"

fun py_product :: "'v list list \<Rightarrow> 'v list list" where
  "py_product [] = [[]]"
| "py_product (xs # xss) = concat (map (\<lambda>x. map ((#) x) (py_product xss)) xs)"

definition exhaustive :: "('v \<Rightarrow> string) \<Rightarrow> (string \<times> 'v list) list \<Rightarrow> 'v parity_case list" where
  "exhaustive shown value_lists = map (case_from_values shown (map fst value_lists)) (py_product (map snd value_lists))"

definition all_pairs :: "'v list list \<Rightarrow> 'v pair_key list" where
  "all_pairs values =
     remdups (concat (map (\<lambda>j. concat (map (\<lambda>i. concat (map (\<lambda>a. map (\<lambda>b. (i, a, j, b)) (values ! j)) (values ! i))) [0..<j]))
       [0..<length values]))"

text \<open>Whether a combination covers a pair, \<open>_pairs_in\<close>.\<close>

definition in_combo :: "'v list \<Rightarrow> 'v pair_key \<Rightarrow> bool" where
  "in_combo combo k = (case k of (i, a, j, b) \<Rightarrow> i < j \<and> j < length combo \<and> combo ! i = a \<and> combo ! j = b)"

definition pair_key :: "nat \<Rightarrow> 'v \<Rightarrow> nat \<Rightarrow> 'v \<Rightarrow> 'v pair_key" where
  "pair_key i a j b = (if i < j then (i, a, j, b) else (j, b, i, a))"

definition newly_covered :: "nat \<Rightarrow> (nat \<times> 'v) list \<Rightarrow> 'v pair_key list \<Rightarrow> 'v \<Rightarrow> nat" where
  "newly_covered index assigned uncovered candidate =
     length (filter (\<lambda>(other, v). pair_key other v index candidate \<in> set uncovered) assigned)"

text \<open>\<open>max(xs, key=key)\<close>: the first element with the greatest key; an empty sequence raises.\<close>

fun py_max :: "('v \<Rightarrow> nat) \<Rightarrow> 'v list \<Rightarrow> exn + 'v" where
  "py_max key [] = Inl (ValueError ''max() iterable argument is empty'')"
| "py_max key (x # xs) = Inr (foldl (\<lambda>best y. if key best < key y then y else best) x xs)"

definition best_value :: "'v list \<Rightarrow> nat \<Rightarrow> (nat \<times> 'v) list \<Rightarrow> 'v pair_key list \<Rightarrow> exn + 'v" where
  "best_value candidates index assigned uncovered = py_max (newly_covered index assigned uncovered) candidates"

text \<open>\<open>assigned\<close> is a dict; its entries in insertion order.\<close>

fun assign_rest :: "'v list list \<Rightarrow> 'v pair_key list \<Rightarrow> nat list \<Rightarrow> (nat \<times> 'v) list \<Rightarrow> exn + (nat \<times> 'v) list" where
  "assign_rest values uncovered [] assigned = Inr assigned"
| "assign_rest values uncovered (i # is) assigned =
     (if map_of assigned i \<noteq> None then assign_rest values uncovered is assigned
      else bind_ok (best_value (values ! i) i assigned uncovered)
             (\<lambda>v. assign_rest values uncovered is (assigned @ [(i, v)])))"

definition greedy_combination :: "'v list list \<Rightarrow> 'v pair_key list \<Rightarrow> 'v pair_key \<Rightarrow> exn + 'v list" where
  "greedy_combination values uncovered seed =
     (case seed of (i, a, j, b) \<Rightarrow>
        bind_ok (assign_rest values uncovered [0..<length values] [(i, a), (j, b)]) (\<lambda>assigned.
          Inr (map (\<lambda>k. the (map_of assigned k)) [0..<length values])))"

text \<open>The loop over \<open>uncovered\<close>; \<open>None\<close> when the fuel ran out.\<close>

fun covering_loop ::
  "('v pair_key list \<Rightarrow> 'v pair_key) \<Rightarrow> 'v list list \<Rightarrow> nat \<Rightarrow> 'v pair_key list \<Rightarrow> 'v list list \<Rightarrow> (exn + 'v list list) option" where
  "covering_loop pick values fuel [] combos = Some (Inr combos)"
| "covering_loop pick values 0 (k # ks) combos = None"
| "covering_loop pick values (Suc fuel) (k # ks) combos =
     (case greedy_combination values (k # ks) (pick (k # ks)) of
        Inl e \<Rightarrow> Some (Inl e)
      | Inr combo \<Rightarrow> covering_loop pick values fuel (filter (\<lambda>p. \<not> in_combo combo p) (k # ks)) (combos @ [combo]))"

definition covering_combos :: "('v pair_key list \<Rightarrow> 'v pair_key) \<Rightarrow> 'v list list \<Rightarrow> (exn + 'v list list) option" where
  "covering_combos pick values = covering_loop pick values (length (all_pairs values)) (all_pairs values) []"

definition pairwise_cases ::
  "('v pair_key list \<Rightarrow> 'v pair_key) \<Rightarrow> ('v \<Rightarrow> string) \<Rightarrow> (string \<times> 'v list) list \<Rightarrow> (exn + 'v parity_case list) option" where
  "pairwise_cases pick shown value_lists =
     (if length value_lists < 2 then Some (Inr (exhaustive shown value_lists))
      else case covering_combos pick (map snd value_lists) of
        None \<Rightarrow> None
      | Some (Inl e) \<Rightarrow> Some (Inl e)
      | Some (Inr combos) \<Rightarrow> Some (Inr (map (case_from_values shown (map fst value_lists)) combos)))"

subsection \<open>Traces and their comparison\<close>

text \<open>An array: its shape and its elements.\<close>

record checkpoint =
  cp_name :: string
  cp_shape :: "nat list"
  cp_values :: "real list"

record trace =
  trace_case :: string
  trace_checkpoints :: "checkpoint list"

text \<open>\<open>by_name\<close>: of checkpoints with one name the last counts.\<close>

definition by_name :: "trace \<Rightarrow> string \<Rightarrow> checkpoint option" where
  "by_name t name = map_of (rev (map (\<lambda>c. (cp_name c, c)) (trace_checkpoints t))) name"

datatype checkpoint_status = Match | Diverge | MissingInLegacy | MissingInPython

record tolerance =
  rtol :: real
  atol :: real

definition DEFAULT_TOLERANCE :: tolerance where
  "DEFAULT_TOLERANCE = \<lparr> rtol = 1 / 10 ^ 4, atol = 1 / 10 ^ 9 \<rparr>"

record checkpoint_diff =
  d_name :: string
  d_status :: checkpoint_status
  d_max_abs :: "real option"
  d_max_rel :: "real option"

definition diff_ok :: "checkpoint_diff \<Rightarrow> bool" where
  "diff_ok d = (d_status d = Match)"

text \<open>\<open>np.allclose(legacy, python)\<close>: the tolerance is relative to the second.\<close>

definition allclose :: "tolerance \<Rightarrow> real list \<Rightarrow> real list \<Rightarrow> bool" where
  "allclose tol xs ys = list_all2 (\<lambda>x y. \<bar>x - y\<bar> \<le> atol tol + rtol tol * \<bar>y\<bar>) xs ys"

definition diff_checkpoint :: "string \<Rightarrow> checkpoint option \<Rightarrow> checkpoint option \<Rightarrow> tolerance \<Rightarrow> exn + checkpoint_diff" where
  "diff_checkpoint name legacy python tol =
     (case (legacy, python) of
        (None, _) \<Rightarrow> Inr \<lparr> d_name = name, d_status = MissingInLegacy, d_max_abs = None, d_max_rel = None \<rparr>
      | (_, None) \<Rightarrow> Inr \<lparr> d_name = name, d_status = MissingInPython, d_max_abs = None, d_max_rel = None \<rparr>
      | (Some l, Some p) \<Rightarrow>
          if cp_shape l \<noteq> cp_shape p then Inr \<lparr> d_name = name, d_status = Diverge, d_max_abs = None, d_max_rel = None \<rparr>
          else if cp_values l = [] then Inl (ValueError ''zero-size array to reduction operation maximum'')
          else let ads = map2 (\<lambda>x y. \<bar>x - y\<bar>) (cp_values l) (cp_values p);
                   rds = map2 (\<lambda>d x. d / max \<bar>x\<bar> (atol tol)) ads (cp_values l)
            in Inr \<lparr> d_name = name, d_status = (if allclose tol (cp_values l) (cp_values p) then Match else Diverge),
                     d_max_abs = Some (Max (set ads)), d_max_rel = Some (Max (set rds)) \<rparr>)"

definition ordered_names :: "checkpoint list \<Rightarrow> checkpoint list \<Rightarrow> string list" where
  "ordered_names ls ps = rev (remdups (rev (map cp_name (ls @ ps))))"

fun map_ok :: "('a \<Rightarrow> exn + 'b) \<Rightarrow> 'a list \<Rightarrow> exn + 'b list" where
  "map_ok f [] = Inr []"
| "map_ok f (x # xs) = bind_ok (f x) (\<lambda>y. bind_ok (map_ok f xs) (\<lambda>ys. Inr (y # ys)))"

record comparison_result =
  cr_case_id :: string
  cr_diffs :: "checkpoint_diff list"

definition first_divergence :: "comparison_result \<Rightarrow> checkpoint_diff option" where
  "first_divergence r = find (\<lambda>d. \<not> diff_ok d) (cr_diffs r)"

definition result_ok :: "comparison_result \<Rightarrow> bool" where
  "result_ok r = (\<forall>d \<in> set (cr_diffs r). diff_ok d)"

definition compare_traces :: "trace \<Rightarrow> trace \<Rightarrow> (string \<Rightarrow> tolerance option) \<Rightarrow> tolerance \<Rightarrow> exn + comparison_result" where
  "compare_traces legacy python tolerances fallback =
     bind_ok (map_ok (\<lambda>name. diff_checkpoint name (by_name legacy name) (by_name python name)
                       (case tolerances name of Some t \<Rightarrow> t | None \<Rightarrow> fallback))
                (ordered_names (trace_checkpoints legacy) (trace_checkpoints python)))
       (\<lambda>ds. Inr \<lparr> cr_case_id = trace_case legacy, cr_diffs = ds \<rparr>)"

text \<open>\<open>assert_parity\<close> on the traces of the two adapters; the message is not modelled.\<close>

definition assert_parity :: "trace \<Rightarrow> trace \<Rightarrow> (string \<Rightarrow> tolerance option) \<Rightarrow> tolerance \<Rightarrow> exn + comparison_result" where
  "assert_parity legacy python tolerances fallback =
     bind_ok (compare_traces legacy python tolerances fallback) (\<lambda>r.
       if first_divergence r \<noteq> None then Inl (OtherError ''AssertionError'') else Inr r)"

end
