(* ===== verification/ParityHarnessLaws.thy ===== *)
theory ParityHarnessLaws
  imports ParityHarness
begin

text \<open>
  Laws of the parity harness: the generated cases cover every pair of values, the loop ends, no case is
  superfluous; a comparison succeeds exactly when both traces have the same checkpoints, each
  within its tolerance.
\<close>

subsection \<open>Choosing values\<close>

lemma best_so_far:
  "let v = foldl (\<lambda>best y. if key best < (key y :: nat) then y else best) x xs
   in v \<in> set (x # xs) \<and> (\<forall>y \<in> set (x # xs). key y \<le> key v)"
proof (induction xs arbitrary: x)
  case (Cons y ys)
  then show ?case by (cases "key x < key y") (fastforce simp: Let_def)+
qed simp

lemma py_max_greatest:
  assumes "xs \<noteq> []"
  obtains v where "py_max key xs = Inr v" and "v \<in> set xs" and "\<And>x. x \<in> set xs \<Longrightarrow> key x \<le> key v"
proof -
  obtain x ys where xs: "xs = x # ys" using assms by (cases xs) auto
  show ?thesis using that best_so_far [of key x ys] by (auto simp: xs Let_def)
qed

lemma assign_rest_ok:
  assumes "\<forall>i \<in> set is. values ! i \<noteq> []"
  shows "\<exists>out. assign_rest values uncovered is assigned = Inr out \<and>
    (\<forall>k v. map_of assigned k = Some v \<longrightarrow> map_of out k = Some v) \<and> (\<forall>i \<in> set is. map_of out i \<noteq> None) \<and>
    (\<forall>k v. map_of out k = Some v \<longrightarrow> map_of assigned k = Some v \<or> v \<in> set (values ! k))"
  using assms
proof (induction "is" arbitrary: assigned)
  case (Cons i "is")
  show ?case
  proof (cases "map_of assigned i = None")
    case False
    then show ?thesis using Cons.IH [of assigned] Cons.prems by fastforce
  next
    case True
    have "values ! i \<noteq> []" using Cons.prems by simp
    then obtain v where v: "best_value (values ! i) i assigned uncovered = Inr v" "v \<in> set (values ! i)"
      unfolding best_value_def by (rule py_max_greatest)
    let ?a = "assigned @ [(i, v)]"
    from Cons.IH [of ?a] Cons.prems obtain out where out: "assign_rest values uncovered is ?a = Inr out"
      "\<forall>k w. map_of ?a k = Some w \<longrightarrow> map_of out k = Some w" "\<forall>i \<in> set is. map_of out i \<noteq> None"
      "\<forall>k w. map_of out k = Some w \<longrightarrow> map_of ?a k = Some w \<or> w \<in> set (values ! k)" by auto
    have new: "map_of ?a k = (if k = i then Some v else map_of assigned k)" for k
      using True by (simp add: map_add_def split: option.split)
    have "map_of out i = Some v" using out(2) new by simp
    moreover have "map_of out k = Some w" if "map_of assigned k = Some w" for k w
      using out(2) new [of k] that True by (cases "k = i") simp_all
    moreover have "\<forall>k w. map_of out k = Some w \<longrightarrow> map_of assigned k = Some w \<or> w \<in> set (values ! k)"
      using out(4) new v(2) by (metis option.inject)
    ultimately show ?thesis using True v(1) out(1,3) by (intro exI [of _ out]) simp
  qed
qed simp

lemma all_pairs_iff:
  "(i, a, j, b) \<in> set (all_pairs values) \<longleftrightarrow> i < j \<and> j < length values \<and> a \<in> set (values ! i) \<and> b \<in> set (values ! j)"
proof
  assume r: "i < j \<and> j < length values \<and> a \<in> set (values ! i) \<and> b \<in> set (values ! j)"
  then have "(i, a, j, b) \<in> (\<lambda>b. (i, a, j, b)) ` set (values ! j)" by blast
  with r show "(i, a, j, b) \<in> set (all_pairs values)"
    unfolding all_pairs_def set_remdups set_concat set_map by force
qed (auto simp: all_pairs_def)

definition well_chosen :: "'v list list \<Rightarrow> 'v list \<Rightarrow> bool" where
  "well_chosen values combo \<longleftrightarrow> length combo = length values \<and> (\<forall>k < length values. combo ! k \<in> set (values ! k))"

lemma greedy_combination_ok:
  assumes "\<forall>vs \<in> set values. vs \<noteq> []" and "seed \<in> set (all_pairs values)"
  obtains combo where "greedy_combination values uncovered seed = Inr combo" and "well_chosen values combo" and "in_combo combo seed"
proof -
  obtain i a j b where seed: "seed = (i, a, j, b)" by (cases seed)
  have ij: "i < j" "j < length values" "a \<in> set (values ! i)" "b \<in> set (values ! j)"
    using assms(2) by (simp_all add: seed all_pairs_iff)
  obtain out where out: "assign_rest values uncovered [0..<length values] [(i, a), (j, b)] = Inr out"
    "\<forall>k v. map_of [(i, a), (j, b)] k = Some v \<longrightarrow> map_of out k = Some v" "\<forall>k \<in> set [0..<length values]. map_of out k \<noteq> None"
    "\<forall>k v. map_of out k = Some v \<longrightarrow> map_of [(i, a), (j, b)] k = Some v \<or> v \<in> set (values ! k)"
    using assign_rest_ok [of "[0..<length values]" "values" uncovered "[(i, a), (j, b)]"] assms(1) by auto
  let ?combo = "map (\<lambda>k. the (map_of out k)) [0..<length values]"
  have "map_of out i = Some a" "map_of out j = Some b" using out(2) ij(1) by simp_all
  then have "in_combo ?combo seed" using ij by (simp add: in_combo_def seed)
  moreover have "?combo ! k \<in> set (values ! k)" if "k < length values" for k
  proof -
    have "k \<in> set [0..<length values]" using \<open>k < length values\<close> by simp
    then obtain v where v: "map_of out k = Some v" using out(3) by blast
    then show ?thesis using out(4) ij \<open>k < length values\<close> by (auto split: if_splits)
  qed
  then have "well_chosen values ?combo" by (simp add: well_chosen_def)
  ultimately show ?thesis using that out(1) by (simp add: greedy_combination_def seed)
qed

subsection \<open>The loop\<close>

text \<open>Each combination covers a pair that the earlier ones do not.\<close>

definition irredundant :: "'v list list \<Rightarrow> bool" where
  "irredundant combos \<longleftrightarrow> (\<forall>m < length combos. \<exists>k. in_combo (combos ! m) k \<and> (\<forall>l < m. \<not> in_combo (combos ! l) k))"

lemma irredundant_snoc:
  assumes "irredundant combos" and "in_combo combo k" and "\<forall>c \<in> set combos. \<not> in_combo c k"
  shows "irredundant (combos @ [combo])"
  unfolding irredundant_def
proof (intro allI impI)
  fix m assume m: "m < length (combos @ [combo])"
  show "\<exists>k. in_combo ((combos @ [combo]) ! m) k \<and> (\<forall>l < m. \<not> in_combo ((combos @ [combo]) ! l) k)"
  proof (cases "m < length combos")
    case True
    then obtain k' where "in_combo (combos ! m) k'" "\<forall>l < m. \<not> in_combo (combos ! l) k'"
      using assms(1) unfolding irredundant_def by blast
    then show ?thesis using True by (intro exI [of _ k']) (simp add: nth_append)
  next
    case False
    then have "m = length combos" using m by simp
    then show ?thesis using assms(2,3) by (intro exI [of _ k]) (simp add: nth_append)
  qed
qed

lemma covering_loop_ok:
  assumes "\<forall>vs \<in> set values. vs \<noteq> []" and pick: "\<And>ks. ks \<noteq> [] \<Longrightarrow> pick ks \<in> set ks"
    and "set uncovered \<subseteq> set (all_pairs values)" and "length uncovered \<le> fuel"
    and "\<forall>c \<in> set combos. well_chosen values c" and "irredundant combos"
    and "\<forall>k \<in> set uncovered. \<forall>c \<in> set combos. \<not> in_combo c k"
  shows "\<exists>new. covering_loop pick values fuel uncovered combos = Some (Inr (combos @ new)) \<and>
    length new \<le> length uncovered \<and> (\<forall>c \<in> set new. well_chosen values c) \<and> irredundant (combos @ new) \<and>
    (\<forall>k \<in> set uncovered. \<exists>c \<in> set new. in_combo c k)"
  using assms(3-)
proof (induction fuel arbitrary: uncovered combos)
  case (Suc fuel)
  show ?case
  proof (cases uncovered)
    case (Cons k ks)
    have seed: "pick uncovered \<in> set uncovered" by (rule pick) (simp add: Cons)
    have "pick uncovered \<in> set (all_pairs values)" using seed Suc.prems(1) by (rule rev_subsetD)
    with assms(1) obtain combo where greedy: "greedy_combination values uncovered (pick uncovered) = Inr combo"
      and combo: "well_chosen values combo" "in_combo combo (pick uncovered)" by (rule greedy_combination_ok)
    let ?rest = "filter (\<lambda>p. \<not> in_combo combo p) uncovered"
    have shorter: "length ?rest < length uncovered"
      by (rule length_filter_less [of "pick uncovered"]) (use seed combo(2) in simp_all)
    have "\<exists>new. covering_loop pick values fuel ?rest (combos @ [combo]) = Some (Inr ((combos @ [combo]) @ new)) \<and>
      length new \<le> length ?rest \<and> (\<forall>c \<in> set new. well_chosen values c) \<and> irredundant ((combos @ [combo]) @ new) \<and>
      (\<forall>k \<in> set ?rest. \<exists>c \<in> set new. in_combo c k)"
    proof (rule Suc.IH)
      show "irredundant (combos @ [combo])"
        by (rule irredundant_snoc [OF Suc.prems(4) combo(2)]) (rule bspec [OF Suc.prems(5) seed])
      show "set ?rest \<subseteq> set (all_pairs values)" using Suc.prems(1) by (auto simp only: set_filter)
      show "length ?rest \<le> fuel" using Suc.prems(2) shorter by linarith
      show "\<forall>c \<in> set (combos @ [combo]). well_chosen values c" using Suc.prems(3) combo(1) by simp
      show "\<forall>k \<in> set ?rest. \<forall>c \<in> set (combos @ [combo]). \<not> in_combo c k"
        using Suc.prems(5) by simp
    qed
    then obtain new where new: "covering_loop pick values fuel ?rest (combos @ [combo]) = Some (Inr ((combos @ [combo]) @ new))"
      "length new \<le> length ?rest" "\<forall>c \<in> set new. well_chosen values c" "irredundant ((combos @ [combo]) @ new)"
      "\<forall>k \<in> set ?rest. \<exists>c \<in> set new. in_combo c k" by blast
    have "covering_loop pick values (Suc fuel) uncovered combos = Some (Inr (combos @ combo # new))"
      using greedy new(1) by (simp add: Cons)
    moreover have "\<exists>c \<in> set (combo # new). in_combo c k" if "k \<in> set uncovered" for k
      using bspec [OF new(5), of k] that by (cases "in_combo combo k") simp_all
    moreover have "length (combo # new) \<le> length uncovered" using new(2) shorter by simp
    ultimately show ?thesis using new(3,4) combo(1) by (intro exI [of _ "combo # new"]) simp
  next
    case Nil
    then show ?thesis using Suc.prems(4) by (intro exI [of _ "[]"]) simp
  qed
next
  case 0
  then have "uncovered = []" by simp
  then show ?case using "0.prems"(4) by (intro exI [of _ "[]"]) simp
qed

lemma covering_combos_ok:
  assumes "\<forall>vs \<in> set values. vs \<noteq> []" and "\<And>ks. ks \<noteq> [] \<Longrightarrow> pick ks \<in> set ks"
  obtains combos where "covering_combos pick values = Some (Inr combos)" and "length combos \<le> length (all_pairs values)"
    and "\<forall>c \<in> set combos. well_chosen values c" and "irredundant combos" and "\<forall>k \<in> set (all_pairs values). \<exists>c \<in> set combos. in_combo c k"
proof -
  have "irredundant ([] :: 'a list list)" by (simp add: irredundant_def)
  from covering_loop_ok [OF assms subset_refl order_refl _ this] obtain new
    where "covering_combos pick values = Some (Inr ([] @ new))" "length new \<le> length (all_pairs values)"
      "\<forall>c \<in> set new. well_chosen values c" "irredundant ([] @ new)" "\<forall>k \<in> set (all_pairs values). \<exists>c \<in> set new. in_combo c k"
    unfolding covering_combos_def by auto
  then show ?thesis using that by simp
qed

subsection \<open>Pairwise cases\<close>

definition chosen :: "'v parity_case \<Rightarrow> nat \<Rightarrow> 'v" where
  "chosen c i = snd (case_params c ! i)"

lemma chosen_from_values:
  "length names = length combo \<Longrightarrow> i < length combo \<Longrightarrow> chosen (case_from_values shown names combo) i = combo ! i"
  by (simp add: chosen_def case_from_values_def)

lemma irredundant_places:
  assumes "irredundant combos" and "m < length combos" and "\<forall>c \<in> set combos. length c = n"
  shows "\<exists>i j. i < j \<and> j < n \<and> (\<forall>l < m. combos ! l ! i \<noteq> combos ! m ! i \<or> combos ! l ! j \<noteq> combos ! m ! j)"
proof -
  obtain i a j b where k: "in_combo (combos ! m) (i, a, j, b)" "\<forall>l < m. \<not> in_combo (combos ! l) (i, a, j, b)"
    using assms(1,2) unfolding irredundant_def by fastforce
  have len: "length (combos ! l) = n" if "l \<le> m" for l using that assms(2,3) by simp
  have "i < j" "j < n" "combos ! m ! i = a" "combos ! m ! j = b" using k(1) len [of m] by (simp_all add: in_combo_def)
  moreover have "\<not> (combos ! l ! i = a \<and> combos ! l ! j = b)" if "l < m" for l
    using k(2) that calculation len [of l] by (simp add: in_combo_def)
  ultimately show ?thesis by blast
qed

text \<open>C0: Over at least two parameters that each have a value, and whatever order the sets give, \<open>pairwise\<close>
  ends and its cases take their values from the lists, cover every pair of values of two
  parameters, and each covers a pair that no earlier one covers, so there are at most as many as pairs.\<close>

theorem pairwise_covers_every_pair:
  assumes "2 \<le> length value_lists" and "\<forall>(name, vs) \<in> set value_lists. vs \<noteq> []" and "\<And>ks. ks \<noteq> [] \<Longrightarrow> pick ks \<in> set ks"
  shows "\<exists>cases. pairwise_cases pick shown value_lists = Some (Inr cases) \<and>
    length cases \<le> length (all_pairs (map snd value_lists)) \<and>
    (\<forall>c \<in> set cases. map fst (case_params c) = map fst value_lists \<and>
       (\<forall>i < length value_lists. chosen c i \<in> set (snd (value_lists ! i)))) \<and>
    (\<forall>i j a b. i < j \<and> j < length value_lists \<and> a \<in> set (snd (value_lists ! i)) \<and> b \<in> set (snd (value_lists ! j)) \<longrightarrow>
       (\<exists>c \<in> set cases. chosen c i = a \<and> chosen c j = b)) \<and>
    (\<forall>m < length cases. \<exists>i j. i < j \<and> j < length value_lists \<and>
       (\<forall>l < m. chosen (cases ! l) i \<noteq> chosen (cases ! m) i \<or> chosen (cases ! l) j \<noteq> chosen (cases ! m) j))"
proof -
  let ?vs = "map snd value_lists" and ?names = "map fst value_lists"
  have "\<forall>vs \<in> set ?vs. vs \<noteq> []" using assms(2) by auto
  then obtain combos where run: "covering_combos pick ?vs = Some (Inr combos)"
    and few: "length combos \<le> length (all_pairs ?vs)" and chosen: "\<forall>c \<in> set combos. well_chosen ?vs c"
    and fresh: "irredundant combos" and covered: "\<forall>k \<in> set (all_pairs ?vs). \<exists>c \<in> set combos. in_combo c k"
    using covering_combos_ok assms(3) by blast
  let ?case = "case_from_values shown ?names"
  have len: "length c = length value_lists" if "c \<in> set combos" for c
    using bspec [OF chosen that] by (simp add: well_chosen_def)
  have pick_value: "chosen (?case c) i = c ! i" if "c \<in> set combos" "i < length value_lists" for c i
    using that len [OF that(1)] by (intro chosen_from_values) simp_all
  have "pairwise_cases pick shown value_lists = Some (Inr (map ?case combos))"
    using assms(1) run by (simp add: pairwise_cases_def)
  moreover have "\<forall>c \<in> set (map ?case combos). map fst (case_params c) = ?names \<and>
       (\<forall>i < length value_lists. chosen c i \<in> set (snd (value_lists ! i)))"
    using chosen len pick_value by (auto simp: well_chosen_def case_from_values_def)
  moreover have "\<exists>c \<in> set (map ?case combos). chosen c i = a \<and> chosen c j = b"
    if "i < j \<and> j < length value_lists \<and> a \<in> set (snd (value_lists ! i)) \<and> b \<in> set (snd (value_lists ! j))" for i j a b
  proof -
    have "(i, a, j, b) \<in> set (all_pairs ?vs)" using that by (simp add: all_pairs_iff)
    then obtain c where c: "c \<in> set combos" "in_combo c (i, a, j, b)" using covered by blast
    then have "chosen (?case c) i = a" "chosen (?case c) j = b" using that pick_value [OF c(1)] by (simp_all add: in_combo_def)
    then show ?thesis using c(1) by auto
  qed
  moreover have "\<exists>i j. i < j \<and> j < length value_lists \<and>
       (\<forall>l < m. chosen (map ?case combos ! l) i \<noteq> chosen (map ?case combos ! m) i \<or> chosen (map ?case combos ! l) j \<noteq> chosen (map ?case combos ! m) j)"
    if m: "m < length (map ?case combos)" for m
  proof -
    have all_len: "\<forall>c \<in> set combos. length c = length value_lists" using len by blast
    obtain i j where ij: "i < j" "j < length value_lists"
        "\<forall>l < m. combos ! l ! i \<noteq> combos ! m ! i \<or> combos ! l ! j \<noteq> combos ! m ! j"
      using irredundant_places [OF fresh _ all_len, of m] m by auto
    have mem: "combos ! l \<in> set combos" if "l \<le> m" for l using that m by simp
    have "chosen (map ?case combos ! l) i \<noteq> chosen (map ?case combos ! m) i \<or> chosen (map ?case combos ! l) j \<noteq> chosen (map ?case combos ! m) j"
      if "l < m" for l
      using that m ij pick_value [OF mem [of l]] pick_value [OF mem [of m]] by simp
    then show ?thesis using ij by blast
  qed
  ultimately show ?thesis using few by (intro exI [of _ "map ?case combos"]) simp
qed

definition sample_lists :: "(string \<times> bool list) list" where
  "sample_lists = [(''x'', [True, False]), (''y'', [True]), (''z'', [False, True])]"

lemma pairwise_covers_every_pair_witness:
  "\<exists>cases. pairwise_cases hd (\<lambda>b. if b then ''T'' else ''F'') sample_lists = Some (Inr cases) \<and>
     (\<exists>c \<in> set cases. chosen c 0 = True \<and> chosen c 2 = False)"
proof -
  have "2 \<le> length sample_lists" "\<forall>(name, vs) \<in> set sample_lists. vs \<noteq> []" by (simp_all add: sample_lists_def)
  moreover have "hd ks \<in> set ks" if "ks \<noteq> []" for ks :: "bool pair_key list" using that by simp
  ultimately obtain cases where run: "pairwise_cases hd (\<lambda>b. if b then ''T'' else ''F'') sample_lists = Some (Inr cases)"
    and all: "\<forall>i j a b. i < j \<and> j < length sample_lists \<and> a \<in> set (snd (sample_lists ! i)) \<and> b \<in> set (snd (sample_lists ! j)) \<longrightarrow>
       (\<exists>c \<in> set cases. chosen c i = a \<and> chosen c j = b)"
    using pairwise_covers_every_pair [of sample_lists hd "\<lambda>b. if b then ''T'' else ''F''"] by blast
  show ?thesis using run all [rule_format, of 0 2 True False] by (simp add: sample_lists_def)
qed


lemma assign_rest_empty:
  assumes "k \<in> set is" and "values ! k = []" and "map_of assigned k = None"
  shows "\<exists>m. assign_rest values uncovered is assigned = Inl (ValueError m)"
  using assms
proof (induction "is" arbitrary: assigned)
  case (Cons i "is")
  show ?case
  proof (cases "map_of assigned i = None")
    case None: True
    show ?thesis
    proof (cases "best_value (values ! i) i assigned uncovered")
      case (Inl e)
      then have "\<exists>m. e = ValueError m" by (cases "values ! i") (auto simp: best_value_def)
      then show ?thesis using None Inl by auto
    next
      case (Inr v)
      then have "i \<noteq> k" using Cons.prems(2) by (auto simp: best_value_def)
      then have "\<exists>m. assign_rest values uncovered is (assigned @ [(i, v)]) = Inl (ValueError m)"
        using Cons.prems by (intro Cons.IH) (simp_all add: map_add_def)
      then show ?thesis using None Inr by auto
    qed
  next
    case False
    then show ?thesis using Cons by (auto split: if_splits)
  qed
qed simp

text \<open>A parameter without values, beside two that have some, is not skipped: \<open>pairwise\<close> raises a
  \<open>ValueError\<close>, although \<open>exhaustive\<close> over the same lists answers that there is no case.\<close>

theorem empty_value_list_is_refused:
  assumes "i < j" and "j < length value_lists" and "snd (value_lists ! i) \<noteq> []" and "snd (value_lists ! j) \<noteq> []"
    and "k < length value_lists" and "snd (value_lists ! k) = []" and "\<And>ks. ks \<noteq> [] \<Longrightarrow> pick ks \<in> set ks"
  shows "(\<exists>m. pairwise_cases pick shown value_lists = Some (Inl (ValueError m))) \<and> exhaustive shown value_lists = []"
proof -
  let ?vs = "map snd value_lists"
  have "(i, hd (?vs ! i), j, hd (?vs ! j)) \<in> set (all_pairs ?vs)" using assms(1-4) by (simp add: all_pairs_iff)
  then obtain p ps where pairs: "all_pairs ?vs = p # ps" by (cases "all_pairs ?vs") auto
  obtain a x b y where seed: "pick (p # ps) = (a, x, b, y)" by (cases "pick (p # ps)")
  have "(a, x, b, y) \<in> set (all_pairs ?vs)" using assms(7) [of "p # ps"] seed pairs by simp
  then have "a \<noteq> k" "b \<noteq> k" using assms(6) by (auto simp: all_pairs_iff)
  then have "\<exists>m. assign_rest ?vs (p # ps) [0..<length ?vs] [(a, x), (b, y)] = Inl (ValueError m)"
    using assms(5,6) by (intro assign_rest_empty [of k]) simp_all
  then have "\<exists>m. greedy_combination ?vs (p # ps) (pick (p # ps)) = Inl (ValueError m)"
    unfolding greedy_combination_def seed by fastforce
  moreover have "py_product xss = []" if "[] \<in> set xss" for xss :: "'a list list"
    using that by (induction xss) auto
  moreover have "[] \<in> set ?vs" using assms(5,6) by (metis length_map nth_map nth_mem)
  ultimately show ?thesis using assms(1,2)
    by (auto simp: pairwise_cases_def covering_combos_def pairs exhaustive_def)
qed

lemma empty_value_list_is_refused_witness:
  "(\<exists>m. pairwise_cases hd (\<lambda>b. ''T'') [(''x'', [True, False]), (''y'', [True]), (''z'', [])] = Some (Inl (ValueError m))) \<and>
   exhaustive (\<lambda>b. ''T'') [(''x'', [True, False]), (''y'', [True]), (''z'', [])] = []"
proof -
  have "hd ks \<in> set ks" if "ks \<noteq> []" for ks :: "bool pair_key list" using that by simp
  then show ?thesis
    by (intro empty_value_list_is_refused [of 0 1 _ 2]) simp_all
qed

subsection \<open>Comparison\<close>

text \<open>What a checkpoint has to satisfy in both traces.\<close>

definition agrees :: "trace \<Rightarrow> trace \<Rightarrow> (string \<Rightarrow> tolerance option) \<Rightarrow> tolerance \<Rightarrow> string \<Rightarrow> bool" where
  "agrees legacy python tolerances fallback name =
     (let tol = (case tolerances name of Some t \<Rightarrow> t | None \<Rightarrow> fallback) in
      case (by_name legacy name, by_name python name) of
        (Some l, Some p) \<Rightarrow> cp_shape l = cp_shape p \<and>
          list_all2 (\<lambda>x y. \<bar>x - y\<bar> \<le> atol tol + rtol tol * \<bar>y\<bar>) (cp_values l) (cp_values p)
      | _ \<Rightarrow> False)"

lemma map_ok_all:
  assumes "\<forall>x \<in> set xs. \<exists>y. f x = Inr y \<and> P x y"
  shows "\<exists>ys. map_ok f xs = Inr ys \<and> list_all2 P xs ys"
  using assms by (induction xs) fastforce+

lemma names_of_traces:
  "set (ordered_names (trace_checkpoints l) (trace_checkpoints p)) = {n. by_name l n \<noteq> None \<or> by_name p n \<noteq> None}"
  by (force simp: ordered_names_def by_name_def map_of_eq_None_iff)

text \<open>On arrays that are not empty a comparison returns, lists every checkpoint of either trace once, and is
  in order exactly when each is in both traces, last recorded with the same shape and within its
  tolerance of the Python value; otherwise \<open>assert_parity\<close> raises.\<close>

theorem parity_holds_exactly_within_tolerance:
  assumes "\<forall>c \<in> set (trace_checkpoints legacy). cp_values c \<noteq> []"
  shows "\<exists>r. compare_traces legacy python tolerances fallback = Inr r \<and>
    map d_name (cr_diffs r) = ordered_names (trace_checkpoints legacy) (trace_checkpoints python) \<and>
    (result_ok r \<longleftrightarrow> (\<forall>c \<in> set (trace_checkpoints legacy @ trace_checkpoints python). agrees legacy python tolerances fallback (cp_name c))) \<and>
    assert_parity legacy python tolerances fallback = (if result_ok r then Inr r else Inl (OtherError ''AssertionError''))"
proof -
  let ?names = "ordered_names (trace_checkpoints legacy) (trace_checkpoints python)"
  define f where "f = (\<lambda>name. diff_checkpoint name (by_name legacy name) (by_name python name)
     (case tolerances name of Some t \<Rightarrow> t | None \<Rightarrow> fallback))"
  have each: "\<exists>d. f name = Inr d \<and> d_name d = name \<and> (diff_ok d \<longleftrightarrow> agrees legacy python tolerances fallback name)" for name
  proof -
    have full: "cp_values l \<noteq> []" if "by_name legacy name = Some l" for l
      using assms that by (auto simp: by_name_def dest!: map_of_SomeD)
    show ?thesis
      by (cases "by_name legacy name"; cases "by_name python name")
        (simp_all add: f_def diff_checkpoint_def agrees_def diff_ok_def allclose_def Let_def full)
  qed
  then obtain ds where ds: "map_ok f ?names = Inr ds"
    and rel: "list_all2 (\<lambda>name d. d_name d = name \<and> (diff_ok d \<longleftrightarrow> agrees legacy python tolerances fallback name)) ?names ds"
    using map_ok_all [of ?names f "\<lambda>name d. d_name d = name \<and> (diff_ok d \<longleftrightarrow> agrees legacy python tolerances fallback name)"] by blast
  let ?r = "\<lparr> cr_case_id = trace_case legacy, cr_diffs = ds \<rparr>"
  have run: "compare_traces legacy python tolerances fallback = Inr ?r"
    using ds by (simp add: compare_traces_def f_def)
  have names: "map d_name ds = ?names" using rel by (induction rule: list_all2_induct) simp_all
  have "result_ok ?r \<longleftrightarrow> (\<forall>name \<in> set ?names. agrees legacy python tolerances fallback name)"
    using rel by (induction rule: list_all2_induct) (auto simp: result_ok_def)
  also have "set ?names = cp_name ` set (trace_checkpoints legacy @ trace_checkpoints python)"
    by (auto simp: ordered_names_def)
  finally have ok: "result_ok ?r \<longleftrightarrow>
      (\<forall>c \<in> set (trace_checkpoints legacy @ trace_checkpoints python). agrees legacy python tolerances fallback (cp_name c))" by blast
  have "first_divergence ?r = None \<longleftrightarrow> result_ok ?r"
    by (auto simp: first_divergence_def result_ok_def find_None_iff)
  then show ?thesis using run names ok by (intro exI [of _ ?r]) (auto simp: assert_parity_def)
qed

definition sample_trace :: "real \<Rightarrow> trace" where
  "sample_trace x = \<lparr> trace_case = ''a=1'', trace_checkpoints = [\<lparr> cp_name = ''L1'', cp_shape = [], cp_values = [x] \<rparr>] \<rparr>"

lemma parity_holds_exactly_within_tolerance_witness:
  "\<exists>r. compare_traces (sample_trace 1) (sample_trace 2) (\<lambda>_. None) DEFAULT_TOLERANCE = Inr r \<and> \<not> result_ok r \<and>
     assert_parity (sample_trace 1) (sample_trace 2) (\<lambda>_. None) DEFAULT_TOLERANCE = Inl (OtherError ''AssertionError'')"
proof -
  have "\<not> agrees (sample_trace 1) (sample_trace 2) (\<lambda>_. None) DEFAULT_TOLERANCE ''L1''"
    by (simp add: agrees_def by_name_def sample_trace_def DEFAULT_TOLERANCE_def Let_def)
  then show ?thesis
    using parity_holds_exactly_within_tolerance [of "sample_trace 1" "sample_trace 2" "\<lambda>_. None" DEFAULT_TOLERANCE]
    by (auto simp: sample_trace_def)
qed

end
