(* ===== verification/CiChanges.thy ===== *)
theory CiChanges
  imports PyText
begin

text \<open>
  Which jobs of the continuous integration a change needs (scripts/ci/changes.py). What git answers
  is an argument. Of the patterns of \<open>fnmatch\<close> only \<open>*\<close> occurs; it also matches a slash.
\<close>

subsection \<open>Patterns\<close>

fun glob :: "string \<Rightarrow> string \<Rightarrow> bool" where
  "glob [] s = (s = [])"
| "glob (p # ps) [] = (p = CHR ''*'' \<and> glob ps [])"
| "glob (p # ps) (c # s) =
     (if p = CHR ''*'' then glob ps (c # s) \<or> glob (p # ps) s else p = c \<and> glob ps s)"

definition matches :: "string \<Rightarrow> string list \<Rightarrow> bool" where
  "matches path patterns = (\<exists>p \<in> set patterns. glob p path)"

definition DOCS :: "string list" where "DOCS = [''*.md'', ''docs/*'']"

definition IMAGE_INPUTS :: "string list" where
  "IMAGE_INPUTS =
     [''.github/workflows/release.yml'', ''.github/release-notes.md'', ''deploy/*'', ''.devcontainer/Dockerfile'', ''docker-compose*.yml'',
      ''.dockerignore'', ''mise.toml'', ''pyproject.toml'', ''uv.lock'', ''packages/*/pyproject.toml'', ''model/*'', ''package.json'',
      ''bun.lock'', ''apps/web/package.json'', ''apps/web/vite.config.ts'', ''libs/api-client/package.json'', ''scripts/e2e/*'']"

subsection \<open>The change\<close>

text \<open>Whether a commit is there, whether it can be fetched, and the lines of its diff with HEAD.\<close>

record git_answers =
  git_has :: "string \<Rightarrow> bool"
  git_fetch :: "string \<Rightarrow> bool"
  git_diff :: "string \<Rightarrow> string option"

definition changed_files :: "git_answers \<Rightarrow> string \<Rightarrow> string \<Rightarrow> string list option" where
  "changed_files git event before =
     (let base = (if event = ''pull_request'' then Some ''HEAD^1''
                  else if event = ''push'' \<and> (\<exists>c \<in> set before. c \<noteq> CHR ''0'') then Some before else None)
      in case base of
           None \<Rightarrow> None
         | Some b \<Rightarrow> if \<not> git_has git b \<and> \<not> git_fetch git b then None else map_option splitlines (git_diff git b))"

definition touches_images :: "string list option \<Rightarrow> bool" where
  "touches_images files = (case files of None \<Rightarrow> True | Some fs \<Rightarrow> \<exists>f \<in> set fs. matches f IMAGE_INPUTS)"

text \<open>The switches of the two workflows: code, docs; release, images, warm.\<close>

definition ci :: "string \<Rightarrow> string list option \<Rightarrow> bool \<times> bool" where
  "ci event files =
     (let docs_only = (event = ''pull_request'' \<and>
        (case files of None \<Rightarrow> False | Some fs \<Rightarrow> fs \<noteq> [] \<and> (\<forall>f \<in> set fs. matches f DOCS)))
      in (\<not> docs_only, docs_only))"

definition release_switches :: "string \<Rightarrow> string \<Rightarrow> string list option \<Rightarrow> bool \<Rightarrow> bool \<times> bool \<times> bool" where
  "release_switches event ref files fork =
     (if event = ''push'' \<and> ref = ''refs/heads/master'' then (False, False, touches_images files)
      else (True, \<not> fork \<and> (event \<noteq> ''pull_request'' \<or> touches_images files), False))"

subsection \<open>Laws\<close>

text \<open>What a pattern means: its pieces between the stars, in order, with anything in between.\<close>

fun pieces_match :: "string list \<Rightarrow> string \<Rightarrow> bool" where
  "pieces_match [] s \<longleftrightarrow> False"
| "pieces_match [p] s \<longleftrightarrow> s = p"
| "pieces_match (p # q # ps) s \<longleftrightarrow> (\<exists>gap rest. s = p @ gap @ rest \<and> pieces_match (q # ps) rest)"

fun pieces :: "string \<Rightarrow> string list" where
  "pieces [] = [[]]"
| "pieces (c # cs) = (if c = CHR ''*'' then [] # pieces cs else (c # hd (pieces cs)) # tl (pieces cs))"

lemma pieces_not_empty [simp]: "pieces p \<noteq> []"
  by (cases p) simp_all

lemma pieces_match_Nil_first: "pieces_match ([] # ps) s \<longleftrightarrow> (if ps = [] then s = [] else \<exists>gap rest. s = gap @ rest \<and> pieces_match ps rest)"
  by (cases ps) simp_all

lemma pieces_match_Cons_first: "pieces_match ((c # p) # ps) s \<longleftrightarrow> (\<exists>t. s = c # t \<and> pieces_match (p # ps) t)"
  by (cases ps) auto

lemma glob_star: "glob (CHR ''*'' # ps) s \<longleftrightarrow> (\<exists>gap rest. s = gap @ rest \<and> glob ps rest)"
proof (induction s)
  case (Cons c s)
  have "(\<exists>gap rest. c # s = gap @ rest \<and> glob ps rest) \<longleftrightarrow> glob ps (c # s) \<or> (\<exists>gap rest. s = gap @ rest \<and> glob ps rest)"
    by (metis append_Cons append_Nil list.exhaust list.inject)
  then show ?case using Cons by simp
qed simp

text \<open>A pattern matches a path exactly when the path is made of the pattern's pieces, in order, with any
  text in the place of each star.\<close>

theorem glob_matches_its_pieces:
  "glob p s \<longleftrightarrow> pieces_match (pieces p) s"
proof (induction p arbitrary: s)
  case (Cons c p)
  show ?case
  proof (cases "c = CHR ''*''")
    case True
    then show ?thesis by (simp add: glob_star Cons pieces_match_Nil_first)
  next
    case False
    obtain q qs where q: "pieces p = q # qs" by (cases "pieces p") auto
    have "glob (c # p) s \<longleftrightarrow> (\<exists>t. s = c # t \<and> glob p t)" using False by (cases s) auto
    then show ?thesis using False by (simp add: Cons q pieces_match_Cons_first)
  qed
qed simp

text \<open>A change builds images only outside master and not for a fork; documentation alone skips the code
  jobs; a change that is unknown or touches what the images are made of is never skipped, but on a
  push to master it only warms the caches.\<close>

theorem switches_follow_the_change:
  "(case ci event files of (code, docs) \<Rightarrow> code \<noteq> docs \<and> (files = None \<longrightarrow> code) \<and>
      (docs \<longrightarrow> event = ''pull_request'' \<and> (\<exists>fs. files = Some fs \<and> fs \<noteq> [] \<and> (\<forall>f \<in> set fs. glob ''*.md'' f \<or> glob ''docs/*'' f)))) \<and>
   (case release_switches event ref files fork of (rel, images, warm) \<Rightarrow>
      (images \<longrightarrow> rel \<and> \<not> fork) \<and> rel \<noteq> (event = ''push'' \<and> ref = ''refs/heads/master'') \<and>
      (files = None \<or> (\<exists>fs f. files = Some fs \<and> f \<in> set fs \<and> matches f IMAGE_INPUTS) \<longrightarrow> images \<or> warm \<or> fork))"
  by (auto simp: ci_def release_switches_def Let_def matches_def DOCS_def touches_images_def split: option.splits)

end
