(* ===== verification/Spec2Isabelle.thy ===== *)
theory Spec2Isabelle
  imports WebRole JobLaws TaskLaws WorkspaceRaces RoutesLaws StartupLaws Passes TravelTimeLaws GridFileLaws MareogramPlotLaws
    MaxolaLaws TttStepLaws RunOutputs FaultPlaneLaws OkadaLaws CalculatorLaws PipelineRegistry ModelStoreLaws Cli ParityHarnessLaws CiChanges
begin

text \<open>
  A model of the TSDHN compute service: a job table fenced by attempt numbers, the queue tasks
  that work on it, the claim on a job's workspace, the pipeline of numerical steps a job runs
  there, and the numerical programs of those steps.

  \<^bold>\<open>The program.\<close> A request becomes a row of \<open>compute.jobs\<close> and a message of the queue (rqueue).
  A worker delivers the message to \<open>run_simulation_task\<close>, which claims the job's workspace,
  marks the row as owned by the attempt, runs \<open>SimulationEngine.run\<close> in a thread and records
  what became of it; periodic passes expire outputs, remove abandoned workspaces, reconcile
  rows with the queue and purge old queue rows. The engine links the model's input files into
  the workspace and runs eight steps, each of which reads files earlier steps wrote, writes its
  own atomically and leaves a marker; a resumed job skips the steps whose marker fits. An
  attempt may be killed at any point, and a superseded attempt may still run.

  \<^bold>\<open>The theories\<close>, in the order of the program (src/packages/api/api/core, src/packages/tsdhn,
  src/packages/tsdhn-ttt):

  \<^item> \<open>Prelude\<close>: results \<open>exn + 'a\<close>, lists as tables (\<open>find_by\<close>, \<open>update_where\<close>) and their rules.
  \<^item> \<open>Uuids\<close>: \<open>as_uuid\<close>, \<open>str\<close> of a UUID, \<open>JOB_ID_RE\<close>, \<open>notify_channel\<close>; ids are 128-bit words.
  \<^item> \<open>JobRow\<close>: domain.py, the row of \<open>compute.jobs\<close> with its SQL constraints (\<open>row_wf\<close>).
  \<^item> \<open>Errors\<close>: the exceptions, which are transient (tasks.py, errors.py).
  \<^item> \<open>JobStore\<close>, \<open>JobTrace\<close>, \<open>JobLaws\<close>: repository.py, one definition per statement; histories of
    committed operations; the laws of every history, through the locale \<open>fenced_rows\<close>.
  \<^item> \<open>Storage\<close>: storage.py over an S3 client that is a parameter with laws.
  \<^item> \<open>Interleaving\<close>, \<open>Workspace\<close>, \<open>WorkspaceSafety\<close>, \<open>WorkspaceRaces\<close>: the workspace claim of
    tasks.py, one atomic move per system call, any number of attempts and removals interleaved
    (locale \<open>owned_resources\<close>).
  \<^item> \<open>TaskRun\<close>, \<open>TaskLaws\<close>, \<open>Maintenance\<close>: one run of the simulation task from delivery to end in an
    environment that decides every await; expiry, sweep, purge and the registration. \<open>Passes\<close>: the
    periodic loops around the passes, the reconciliation pass and the heartbeat.
  \<^item> \<open>Roles\<close>, \<open>QueueGrants\<close>, \<open>QueueGrantLaws\<close>, \<open>WebRole\<close>: the database roles (queue_grants.py, migrate.py,
    web_grants.py): a catalog, the DDL statements the scripts send, a server that may refuse any.
  \<^item> \<open>Routes\<close>, \<open>RoutesLaws\<close>: routes.py, security.py, schemas.py: the token check, the answers of the routes,
    and the event stream of a job as a state machine whose moves are its awaits, the commits of
    others and the delivery of their notifications.
  \<^item> \<open>Settings\<close>, \<open>SettingsLaws\<close>: settings.py, with the URLs of the runtime roles. \<open>Startup\<close>, \<open>StartupLaws\<close>:
    worker.py, queue.py, main.py and the pool of db.py: what a process opens, starts and closes, in order.
  \<^item> \<open>PyText\<close>, \<open>Files\<close>: Python's number texts (\<open>float\<close>, \<open>int\<close>, \<open>split\<close>, \<open>np.loadtxt\<close>, fixed-point
    formatting) and a workspace as a map from paths to contents, with \<open>atomic_write\<close>.
  \<^item> \<open>Pipeline\<close>, \<open>PipelineLaws\<close>, \<open>PipelineRegistry\<close>: file_utils.py, processing.py, registry.py and
    \<open>SimulationEngine.run\<close>; resuming, killed at any point; the laws for the real registry. \<open>RunOutputs\<close>: the JSON and CSV files at its end.
  \<^item> \<open>FaultPlane\<close>, \<open>FaultPlaneLaws\<close>: the source formulas of calculator.py, fault_plane.py, meca.py and the
    files of deform.py, up to what the tsunami step reads. \<open>Okada\<close>, \<open>OkadaLaws\<close>: deform.py, Okada's
    formulas in float32 with infinities and NaN. \<open>Calculator\<close>, \<open>CalculatorLaws\<close>: the answers of
    calculator.py and utils/geo.py: warning, place, arrival times and their texts.
  \<^item> \<open>ModelStore\<close>, \<open>ModelStoreLaws\<close>: assets.py and runtime.py on a table of paths: finding and installing
    the model's input files. \<open>Cli\<close>: the tool checks of runtime.py and the commands of cli/main.py.
  \<^item> \<open>Tsunami\<close>, \<open>TsunamiLaws\<close>, \<open>TsunamiRest\<close>: tsunami.py, every float32 operation rounded, with its
    checkpoints, killed at any point. \<open>Mareogram\<close>, \<open>MareogramPlot\<close>,
    \<open>MareogramPlotLaws\<close>: render/ttt_max.py, its tables and its SVG.
    \<open>Maxola\<close>, \<open>MaxolaLaws\<close>: render/maxola.py: the grid of the height map, its palettes and its file.
  \<^item> \<open>Rounding\<close>, \<open>Stencil\<close>, \<open>IndexedHeap\<close>, \<open>Solver\<close>, \<open>SolverTables\<close>, \<open>SolverLaws\<close>, \<open>TravelTimes\<close>,
    \<open>TravelTimeLaws\<close>: tsdhn_ttt/solver.py and _stencil.py: rounding to a binary format (locale
    \<open>rounding\<close>), the stencil tables, the indexed heap (locale \<open>queue_order\<close>), the propagation
    kernel with checked array accesses, and the travel times around it. \<open>GridFile\<close>, \<open>GridFileLaws\<close>:
    tsdhn_ttt/grid.py, the binary grids byte by byte. \<open>TttStep\<close>, \<open>TttStepLaws\<close>: the command line of
    tsdhn_ttt and the report's steps around it (render/ttt_inverso.py, render/point_ttt.py).
  \<^item> \<open>ParityHarness\<close>, \<open>ParityHarnessLaws\<close>: src/packages/tsdhn-parity: the pairwise test cases and the
    comparison of traces. \<open>CiChanges\<close>: scripts/ci/changes.py.

  \<^bold>\<open>What the laws show.\<close> Job rows: every history keeps the rows well formed, superseded attempts
  have no effect, a completed job is final, the status follows the life cycle
  (a refinement), reconciliation never undoes a newer attempt, submission is atomic. Tasks: a
  run is a history of its own attempt and of others, one that returns leaves the job completed.
  Claims: a running kernel holds the lock, nothing leaks, nobody is stuck, at most one kernel
  runs unless the workspace is removed; two ways in which removal breaks that. Passes end and
  touch only what they should. Roles: a provisioned role holds exactly what its process needs and no
  other role is touched; the purge sees the same rows as the purger's policy; migrations apply
  once; two ways in which the boundaries are not what the comments say. Pipeline: whatever attempts were killed or resumed, an attempt
  that returns leaves what an undisturbed run would have, and an undisturbed one returns.
  Tsunami: the same for its checkpoints; dry cells stay at rest; each step's files read back in
  the next. Deformation: a cell's displacement does not depend on the window, and the masks keep the singularities
  out. Calculator: warning and place agree but in one case, every port gets an arrival, whose
  text is a time of day. Routes: only the configured token passes; an event stream shows the history of the
  row and does not wait on a finished job; an outage is answered as an unknown job. Model store: an installed
  dataset is found, a failed installation keeps the old one, two ways in which it does harm.
  Parity: the cases cover every pair, and parity holds exactly within the tolerance. Solver: it ends, settles exactly the water connected to the source and does so in
  order of arrival; its weights are the trapezoid rule.

  The reconciliation loop leaves no stuck job however many passes fail, and the heartbeat shows the last answer
  of the database. Report: the client starts at the epicenter, the plot's points lie in their panels, the table
  of arrivals reads back. Grid files: what is written reads back, what is read is the cells of the file. Settings and start: the URL
  of a role connects as that role; a worker closes what it opened but for one failure. Height map: each
  cell shows the solver's maximum at its own place.

  \<^bold>\<open>Bounds and fuel.\<close> Loops with a fuel argument carry the proof that the fuel suffices:
  \<open>settle_loop\<close> the number of cells (every pop settles one), \<open>expire_loop\<close> the number of rows,
  \<open>covering_loop\<close> the number of pairs (every case covers one).
  The kernel's laws are for grids with at most \<open>2 ^ 24\<close> water nodes and fewer than \<open>2 ^ 31\<close> padded
  cells, the widths of its arrays. The tsunami step has KE = 33602 iterations and 1681 gauge rows.
  Floating-point exponents are unbounded, so overflow to infinity, underflow and NaN are outside
  the model, except where a definition returns \<open>None\<close> for them and in \<open>Okada\<close>, which computes with them; outside the kernels real
  arithmetic is exact and rounded where it is stored, printed or read.

  \<^bold>\<open>Parameters.\<close> The queue with its \<open>provision_role\<close> and \<open>revoke_role\<close>, the S3 client, SHA-256, numpy's elementary functions, the
  interpolation of the bathymetry, the name of the month, the order in which a set gives its elements,
  the download and unpacking of an archive, what git answers, the outcomes of the database driver's and the
  queue's calls, and the steps that call GMT are arguments of the definitions; what is asked of them is a named hypothesis.

  \<^bold>\<open>Not modelled.\<close> The drawing commands to GMT, which are one outcome of it each; option parsing and tables
  of the command line and the parsing of HTTP requests, which are the libraries' work; the adapters of the parity
  harness, which call the Fortran and MATLAB originals; the scripts that start a local database and capture fixtures.
\<close>

end
